(* ===== verification/Prelude.thy ===== *)
theory Prelude
  imports Main "HOL-Library.Word"
begin

text \<open>
  Shared vocabulary of the development.

  \<^item> The scalar types of the program: identifiers (the integer value of a UUID), instants
    (microseconds since the Unix epoch, UTC; a \<open>timedelta\<close> is a difference of two of
    them), byte strings, and text. A Python \<open>str\<close> is a HOL string: one character per
    code point, so the model speaks about text with code points below 256.
  \<^item> Python exceptions: the exception classes the program raises or lets through, with the
    subclass tests its \<open>except\<close> clauses perform.
  \<^item> Tables: the rows of a relational table in insertion order, and the four statements the
    repositories issue against one (select, update, insert, insert-on-conflict-do-nothing),
    with the facts about unique keys that the repository proofs share.
\<close>

section \<open>Scalars\<close>

type_synonym uuid = int
type_synonym instant = int
type_synonym duration = int
type_synonym bytes = "8 word list"

abbreviation seconds :: "int \<Rightarrow> duration" where
  "seconds n \<equiv> n * 1000000"

abbreviation minutes :: "int \<Rightarrow> duration" where
  "minutes n \<equiv> n * 60000000"

section \<open>Exceptions\<close>

text \<open>
  \<open>AccessFailure\<close> is an instance of the class \<open>AccessError\<close> or of one of its
  subclasses; the message shown to the operator is its second argument.
\<close>

datatype access_kind =
    AccessError
  | PrivateChatRequired
  | AccessPending
  | AccessDenied
  | PlatformOwnerRequired
  | WorkspaceRequired
  | RateLimited
  | InvalidChallenge
  | WalletLimitReached
  | InvalidCollectionInput
  | CollectionNotFound

datatype exn =
    AccessFailure access_kind string
  | ValueError string
  | UnicodeEncodeError
  | TypeError string
  | OverflowError string
  | RuntimeError string
  | LookupError string
  | KeyError string
  | AssertionError
  | IntegrityError
  | DataError
  | InsufficientPrivilege
  | AccessPersistenceError string
  | AccessRequestNotFound string
  | AccessRequestNotPending string
  | UserNotFound string
  | InvalidCollection string
  | InvalidMintLog string
  | ConsecutiveRangeTooLarge string
  | InvalidProxyEvidence string
  | ProviderError string bool bool
  | SignerAuthenticationError string
  | HttpFailure nat string
  | ForeignError string

text \<open>What \<open>except AccessError\<close> catches.\<close>

fun is_access_error :: "exn \<Rightarrow> bool" where
  "is_access_error (AccessFailure k m) = True"
| "is_access_error _ = False"

type_synonym 'a outcome = "exn + 'a"

text \<open>Sequencing: the first exception ends the computation.\<close>

fun attempt :: "'a outcome \<Rightarrow> ('a \<Rightarrow> 'b outcome) \<Rightarrow> 'b outcome" where
  "attempt (Inl e) f = Inl e"
| "attempt (Inr x) f = f x"

text \<open>
  A transaction either answers a value with the state to commit, or ends with an exception
  and rolls back to the state it began with.
\<close>

fun transact :: "'s \<Rightarrow> ('a \<times> 's) outcome \<Rightarrow> 'a outcome \<times> 's" where
  "transact s (Inl e) = (Inl e, s)"
| "transact s (Inr (x, s')) = (Inr x, s')"

lemma attempt_eq_Inr_iff: "attempt m f = Inr y \<longleftrightarrow> (\<exists>x. m = Inr x \<and> f x = Inr y)"
  by (cases m) simp_all

lemma attempt_InrE:
  assumes "attempt m f = Inr y"
  obtains x where "m = Inr x" and "f x = Inr y"
  using assms by (auto simp: attempt_eq_Inr_iff)

lemma transact_invariant:
  assumes "P s" and "\<And>x s'. m = Inr (x, s') \<Longrightarrow> P s'"
  shows "P (snd (transact s m))"
  using assms by (cases m) auto

lemma transact_Inr_iff: "transact s m = (Inr x, s') \<longleftrightarrow> m = Inr (x, s')"
  by (cases m) auto

lemma transact_attempt_guard:
  "transact s (attempt g f) = (Inr x, s') \<longleftrightarrow> (\<exists>y. g = Inr y \<and> f y = Inr (x, s'))"
  by (simp add: transact_Inr_iff attempt_eq_Inr_iff)

section \<open>JSON values\<close>

text \<open>The values of the \<open>JSONB\<close> columns and of the messages between services.\<close>

datatype json =
    JNull
  | JBool bool
  | JInt int
  | JStr string
  | JList "json list"
  | JObject "(string \<times> json) list"

section \<open>Collections of lemmas\<close>

named_theorems guard_simps \<open>authorization guards evaluated\<close>
named_theorems store_simps \<open>effect of repository operations on single tables\<close>

section \<open>Tables\<close>

text \<open>A select of one row, an update of the rows a condition picks, and the two inserts.\<close>

definition select_one :: "('r \<Rightarrow> bool) \<Rightarrow> 'r list \<Rightarrow> 'r option" where
  "select_one p rows = List.find p rows"

definition update_rows :: "('r \<Rightarrow> bool) \<Rightarrow> ('r \<Rightarrow> 'r) \<Rightarrow> 'r list \<Rightarrow> 'r list" where
  "update_rows p f rows = map (\<lambda>r. if p r then f r else r) rows"

text \<open>
  A plain insert fails with an integrity error when the new row clashes with a stored one
  on a unique constraint; the on-conflict form answers \<open>None\<close> when the clash is on the
  constraint the statement names and still fails on any other constraint.
\<close>

definition insert_row :: "('r \<Rightarrow> 'r \<Rightarrow> bool) \<Rightarrow> 'r \<Rightarrow> 'r list \<Rightarrow> 'r list outcome" where
  "insert_row clash r rows =
     (if list_ex (clash r) rows then Inl IntegrityError else Inr (rows @ [r]))"

definition insert_or_nothing ::
  "('r \<Rightarrow> 'r \<Rightarrow> bool) \<Rightarrow> ('r \<Rightarrow> 'r \<Rightarrow> bool) \<Rightarrow> 'r \<Rightarrow> 'r list \<Rightarrow> ('r option \<times> 'r list) outcome"
where
  "insert_or_nothing target clash r rows =
     (if list_ex (target r) rows then Inr (None, rows)
      else if list_ex (clash r) rows then Inl IntegrityError
      else Inr (Some r, rows @ [r]))"

text \<open>
  An insert as PostgreSQL runs it on a table with a row-level policy: the values must fit
  their columns, the policy's check must accept the row, and no unique constraint may clash.
\<close>

definition insert_checked ::
  "('r \<Rightarrow> bool) \<Rightarrow> ('r \<Rightarrow> bool) \<Rightarrow> ('r \<Rightarrow> 'r \<Rightarrow> bool) \<Rightarrow> 'r \<Rightarrow> 'r list \<Rightarrow> 'r list outcome"
where
  "insert_checked fits policy clash r rows =
     (if \<not> fits r then Inl DataError
      else if \<not> policy r then Inl InsufficientPrivilege
      else insert_row clash r rows)"

text \<open>Whether an optional text fits a \<open>VARCHAR(n)\<close> column.\<close>

fun fits_column :: "nat \<Rightarrow> string option \<Rightarrow> bool" where
  "fits_column n None = True"
| "fits_column n (Some s) = (length s \<le> n)"

subsection \<open>Selection\<close>

lemma select_one_Nil [simp]: "select_one p [] = None"
  by (simp add: select_one_def)

lemma select_one_Cons [simp]:
  "select_one p (r # rows) = (if p r then Some r else select_one p rows)"
  by (simp add: select_one_def)

lemma select_one_SomeD: "select_one p rows = Some r \<Longrightarrow> p r \<and> r \<in> set rows"
  by (induction rows) (auto split: if_splits)

lemma select_one_None_iff: "select_one p rows = None \<longleftrightarrow> (\<forall>r \<in> set rows. \<not> p r)"
  by (induction rows) auto

lemma select_one_append:
  "select_one p (xs @ ys) = (case select_one p xs of None \<Rightarrow> select_one p ys | Some r \<Rightarrow> Some r)"
  by (induction xs) auto

lemma select_one_snoc_other [simp]: "\<not> p r \<Longrightarrow> select_one p (rows @ [r]) = select_one p rows"
  by (simp add: select_one_append split: option.splits)

lemma select_one_snoc_new:
  "select_one p rows = None \<Longrightarrow> p r \<Longrightarrow> select_one p (rows @ [r]) = Some r"
  by (simp add: select_one_append)

lemma select_one_cong:
  "(\<And>r. r \<in> set rows \<Longrightarrow> p r \<longleftrightarrow> q r) \<Longrightarrow> select_one p rows = select_one q rows"
  by (induction rows) auto

text \<open>A key that no two rows share picks the row out.\<close>

lemma select_one_unique:
  assumes "distinct (map key rows)" and "r \<in> set rows"
    and "\<And>r'. r' \<in> set rows \<Longrightarrow> p r' \<Longrightarrow> key r' = key r" and "p r"
  shows "select_one p rows = Some r"
proof -
  from assms(2,4) have "select_one p rows \<noteq> None"
    by (auto simp: select_one_None_iff)
  then obtain r' where r': "select_one p rows = Some r'" by blast
  then have "p r'" and "r' \<in> set rows" by (auto dest: select_one_SomeD)
  with assms(3) have "key r' = key r" by blast
  moreover from assms(1) have "inj_on key (set rows)" by (simp add: distinct_map)
  ultimately have "r' = r" using \<open>r' \<in> set rows\<close> assms(2) by (blast dest: inj_onD)
  with r' show ?thesis by simp
qed

lemma select_one_key:
  assumes "distinct (map key rows)" and "r \<in> set rows"
  shows "select_one (\<lambda>r'. key r' = key r) rows = Some r"
  using assms by (rule select_one_unique) auto

subsection \<open>Update\<close>

lemma update_rows_Nil [simp]: "update_rows p f [] = []"
  by (simp add: update_rows_def)

lemma update_rows_Cons [simp]:
  "update_rows p f (r # rows) = (if p r then f r else r) # update_rows p f rows"
  by (simp add: update_rows_def)

lemma length_update_rows [simp]: "length (update_rows p f rows) = length rows"
  by (simp add: update_rows_def)

lemma update_rows_append [simp]:
  "update_rows p f (xs @ ys) = update_rows p f xs @ update_rows p f ys"
  by (simp add: update_rows_def)

lemma set_update_rows: "set (update_rows p f rows) = (\<lambda>r. if p r then f r else r) ` set rows"
  by (simp add: update_rows_def)

lemma map_key_update_rows:
  assumes "\<And>r. r \<in> set rows \<Longrightarrow> p r \<Longrightarrow> key (f r) = key r"
  shows "map key (update_rows p f rows) = map key rows"
  using assms by (induction rows) auto

lemma update_rows_idle: "\<forall>r \<in> set rows. \<not> p r \<Longrightarrow> update_rows p f rows = rows"
  by (induction rows) auto

lemma select_one_update_rows:
  assumes "\<And>r. r \<in> set rows \<Longrightarrow> p r \<Longrightarrow> q (f r) \<longleftrightarrow> q r"
  shows "select_one q (update_rows p f rows) =
    map_option (\<lambda>r. if p r then f r else r) (select_one q rows)"
  using assms by (induction rows) auto

lemma select_one_update_other:
  assumes "\<And>r. r \<in> set rows \<Longrightarrow> p r \<Longrightarrow> \<not> q r \<and> \<not> q (f r)"
  shows "select_one q (update_rows p f rows) = select_one q rows"
  using assms by (induction rows) auto

subsection \<open>Insertion\<close>

lemma insert_row_InrD:
  "insert_row clash r rows = Inr rows' \<Longrightarrow>
     rows' = rows @ [r] \<and> (\<forall>r' \<in> set rows. \<not> clash r r')"
  by (auto simp: insert_row_def list_ex_iff split: if_splits)

lemma insert_checked_InrD:
  "insert_checked fits policy clash r rows = Inr rows' \<Longrightarrow>
     rows' = rows @ [r] \<and> fits r \<and> policy r \<and> (\<forall>r' \<in> set rows. \<not> clash r r')"
  by (auto simp: insert_checked_def dest: insert_row_InrD split: if_splits)

lemma insert_checked_ok:
  "fits r \<Longrightarrow> policy r \<Longrightarrow> (\<And>r'. r' \<in> set rows \<Longrightarrow> \<not> clash r r') \<Longrightarrow>
     insert_checked fits policy clash r rows = Inr (rows @ [r])"
  by (auto simp: insert_checked_def insert_row_def list_ex_iff)

lemma insert_or_nothing_NoneD:
  "insert_or_nothing target clash r rows = Inr (None, rows') \<Longrightarrow>
     rows' = rows \<and> (\<exists>r' \<in> set rows. target r r')"
  by (auto simp: insert_or_nothing_def list_ex_iff split: if_splits)

lemma insert_or_nothing_SomeD:
  "insert_or_nothing target clash r rows = Inr (Some x, rows') \<Longrightarrow>
     x = r \<and> rows' = rows @ [r] \<and> (\<forall>r' \<in> set rows. \<not> target r r' \<and> \<not> clash r r')"
  by (auto simp: insert_or_nothing_def list_ex_iff split: if_splits)

lemma distinct_map_snoc:
  "distinct (map key (rows @ [r])) \<longleftrightarrow>
     distinct (map key rows) \<and> (\<forall>r' \<in> set rows. key r' \<noteq> key r)"
  by (simp add: image_iff) metis

subsection \<open>Unique constraints\<close>

text \<open>
  No two rows of the table clash. Inserts keep this because the database checks it, updates
  keep it when the new rows clash only where the old ones did.
\<close>

definition unique_table :: "('r \<Rightarrow> 'r \<Rightarrow> bool) \<Rightarrow> 'r list \<Rightarrow> bool" where
  "unique_table clash rows \<longleftrightarrow> sorted_wrt (\<lambda>r r'. \<not> clash r' r) rows"

lemma unique_table_Nil [simp]: "unique_table clash []"
  by (simp add: unique_table_def)

lemma unique_table_snoc:
  "unique_table clash (rows @ [r]) \<longleftrightarrow>
     unique_table clash rows \<and> (\<forall>r' \<in> set rows. \<not> clash r r')"
  by (auto simp: unique_table_def sorted_wrt_append)

lemma unique_table_insert:
  "unique_table clash rows \<Longrightarrow> insert_checked fits policy clash r rows = Inr rows' \<Longrightarrow>
     unique_table clash rows'"
  by (auto simp: unique_table_snoc dest!: insert_checked_InrD)

lemma unique_table_insert_row:
  "unique_table clash rows \<Longrightarrow> insert_row clash r rows = Inr rows' \<Longrightarrow> unique_table clash rows'"
  by (auto simp: unique_table_snoc dest!: insert_row_InrD)

lemma unique_table_map:
  assumes "unique_table clash rows"
    and "\<And>r r'. r \<in> set rows \<Longrightarrow> r' \<in> set rows \<Longrightarrow> clash (f r) (f r') \<Longrightarrow> clash r r'"
  shows "unique_table clash (map f rows)"
  using assms unfolding unique_table_def sorted_wrt_map
  by (rule_tac sorted_wrt_mono_rel) auto

lemma unique_table_update:
  assumes "unique_table clash rows"
    and "\<And>r r'. r \<in> set rows \<Longrightarrow> r' \<in> set rows \<Longrightarrow>
      clash (if p r then f r else r) (if p r' then f r' else r') \<Longrightarrow> clash r r'"
  shows "unique_table clash (update_rows p f rows)"
  unfolding update_rows_def using assms by (rule unique_table_map)

lemma unique_tableD:
  assumes "unique_table clash rows" and "r \<in> set rows" and "r' \<in> set rows"
    and "clash r r'" and "\<And>a b. clash a b \<longleftrightarrow> clash b a"
  shows "r = r'"
  using assms(1-4)
proof (induction rows)
  case (Cons x rows)
  then show ?case using assms(5) by (auto simp: unique_table_def)
qed simp

lemma select_one_unique_table:
  assumes "unique_table clash rows" and "\<And>a b. clash a b \<longleftrightarrow> clash b a"
    and "r \<in> set rows" and "p r" and "\<And>r'. r' \<in> set rows \<Longrightarrow> p r' \<Longrightarrow> clash r' r"
  shows "select_one p rows = Some r"
proof -
  from assms(3,4) have "select_one p rows \<noteq> None"
    by (auto simp: select_one_None_iff)
  then obtain r' where r': "select_one p rows = Some r'" by blast
  then have "p r'" and in': "r' \<in> set rows" by (auto dest: select_one_SomeD)
  with assms(5) have "clash r' r" by blast
  with unique_tableD [OF assms(1) in' assms(3)] assms(2) have "r' = r" by blast
  with r' show ?thesis by simp
qed

section \<open>Lists\<close>

lemma sorted_wrt_snoc:
  "sorted_wrt R (xs @ [x]) \<longleftrightarrow> sorted_wrt R xs \<and> (\<forall>y \<in> set xs. R y x)"
  by (auto simp: sorted_wrt_append)

lemma concat_snoc [simp]: "concat (xss @ [xs]) = concat xss @ xs"
  by simp

end
