(* ===== verification/Enums.thy ===== *)
theory Enums
  imports Prelude
begin

text \<open>
  The enumerations of \<^verbatim>\<open>app/domain/enums.py\<close> and the release boundary of
  \<^verbatim>\<open>app/domain/release.py\<close>. A Python \<open>StrEnum\<close> is a datatype with one constructor per
  member, named after class and member, its \<open>value\<close> function and its members in declaration order.

  The locale \<open>str_enum\<close> is the contract the database columns rest on
  (\<^verbatim>\<open>enum_type\<close> in \<^verbatim>\<open>app/infrastructure/db/models/access.py\<close>): the member list is complete, no two
  members share a value, and every value fits the column. Every enumeration that is stored in a
  column is an instance of it.
\<close>

section \<open>The enumerations\<close>

datatype identity_mode =
    IdentityMode_INITIATOR
  | IdentityMode_RECIPIENT
  | IdentityMode_EITHER

primrec identity_mode_value :: "identity_mode \<Rightarrow> string" where
    "identity_mode_value IdentityMode_INITIATOR = ''initiator''"
  | "identity_mode_value IdentityMode_RECIPIENT = ''recipient''"
  | "identity_mode_value IdentityMode_EITHER = ''either''"

definition identity_mode_members :: "identity_mode list" where
  "identity_mode_members =
     [IdentityMode_INITIATOR,
      IdentityMode_RECIPIENT,
      IdentityMode_EITHER]"

datatype token_standard =
    TokenStandard_ERC721
  | TokenStandard_ERC1155
  | TokenStandard_ERC2309
  | TokenStandard_CUSTOM
  | TokenStandard_UNKNOWN

primrec token_standard_value :: "token_standard \<Rightarrow> string" where
    "token_standard_value TokenStandard_ERC721 = ''erc721''"
  | "token_standard_value TokenStandard_ERC1155 = ''erc1155''"
  | "token_standard_value TokenStandard_ERC2309 = ''erc2309''"
  | "token_standard_value TokenStandard_CUSTOM = ''custom''"
  | "token_standard_value TokenStandard_UNKNOWN = ''unknown''"

definition token_standard_members :: "token_standard list" where
  "token_standard_members =
     [TokenStandard_ERC721,
      TokenStandard_ERC1155,
      TokenStandard_ERC2309,
      TokenStandard_CUSTOM,
      TokenStandard_UNKNOWN]"

datatype mint_route =
    MintRoute_DIRECT
  | MintRoute_SEADROP
  | MintRoute_LAUNCHPAD
  | MintRoute_MARKETPLACE
  | MintRoute_RELAYER
  | MintRoute_UNKNOWN

primrec mint_route_value :: "mint_route \<Rightarrow> string" where
    "mint_route_value MintRoute_DIRECT = ''direct''"
  | "mint_route_value MintRoute_SEADROP = ''seadrop''"
  | "mint_route_value MintRoute_LAUNCHPAD = ''launchpad''"
  | "mint_route_value MintRoute_MARKETPLACE = ''marketplace''"
  | "mint_route_value MintRoute_RELAYER = ''relayer''"
  | "mint_route_value MintRoute_UNKNOWN = ''unknown''"

definition mint_route_members :: "mint_route list" where
  "mint_route_members =
     [MintRoute_DIRECT,
      MintRoute_SEADROP,
      MintRoute_LAUNCHPAD,
      MintRoute_MARKETPLACE,
      MintRoute_RELAYER,
      MintRoute_UNKNOWN]"

datatype mint_classification =
    MintClassification_PUBLIC_PAID_MINT
  | MintClassification_PUBLIC_FREE_MINT
  | MintClassification_ALLOWLIST_MINT
  | MintClassification_TOKEN_GATED_MINT
  | MintClassification_SERVER_SIGNED_MINT
  | MintClassification_ADMIN_MINT
  | MintClassification_AIRDROP
  | MintClassification_BRIDGE_MINT
  | MintClassification_MIGRATION_MINT
  | MintClassification_LAZY_MARKETPLACE_MINT
  | MintClassification_UNKNOWN_MINT

primrec mint_classification_value :: "mint_classification \<Rightarrow> string" where
    "mint_classification_value MintClassification_PUBLIC_PAID_MINT = ''public_paid_mint''"
  | "mint_classification_value MintClassification_PUBLIC_FREE_MINT = ''public_free_mint''"
  | "mint_classification_value MintClassification_ALLOWLIST_MINT = ''allowlist_mint''"
  | "mint_classification_value MintClassification_TOKEN_GATED_MINT = ''token_gated_mint''"
  | "mint_classification_value MintClassification_SERVER_SIGNED_MINT = ''server_signed_mint''"
  | "mint_classification_value MintClassification_ADMIN_MINT = ''admin_mint''"
  | "mint_classification_value MintClassification_AIRDROP = ''airdrop''"
  | "mint_classification_value MintClassification_BRIDGE_MINT = ''bridge_mint''"
  | "mint_classification_value MintClassification_MIGRATION_MINT = ''migration_mint''"
  | "mint_classification_value MintClassification_LAZY_MARKETPLACE_MINT = ''lazy_marketplace_mint''"
  | "mint_classification_value MintClassification_UNKNOWN_MINT = ''unknown_mint''"

definition mint_classification_members :: "mint_classification list" where
  "mint_classification_members =
     [MintClassification_PUBLIC_PAID_MINT,
      MintClassification_PUBLIC_FREE_MINT,
      MintClassification_ALLOWLIST_MINT,
      MintClassification_TOKEN_GATED_MINT,
      MintClassification_SERVER_SIGNED_MINT,
      MintClassification_ADMIN_MINT,
      MintClassification_AIRDROP,
      MintClassification_BRIDGE_MINT,
      MintClassification_MIGRATION_MINT,
      MintClassification_LAZY_MARKETPLACE_MINT,
      MintClassification_UNKNOWN_MINT]"

datatype finality_status =
    FinalityStatus_PROVISIONAL
  | FinalityStatus_SAFE
  | FinalityStatus_FINALIZED
  | FinalityStatus_REORGED

primrec finality_status_value :: "finality_status \<Rightarrow> string" where
    "finality_status_value FinalityStatus_PROVISIONAL = ''provisional''"
  | "finality_status_value FinalityStatus_SAFE = ''safe''"
  | "finality_status_value FinalityStatus_FINALIZED = ''finalized''"
  | "finality_status_value FinalityStatus_REORGED = ''reorged''"

definition finality_status_members :: "finality_status list" where
  "finality_status_members =
     [FinalityStatus_PROVISIONAL,
      FinalityStatus_SAFE,
      FinalityStatus_FINALIZED,
      FinalityStatus_REORGED]"

datatype opportunity_decision =
    OpportunityDecision_ALERT_ONLY
  | OpportunityDecision_PAPER_READY
  | OpportunityDecision_MANUAL_READY
  | OpportunityDecision_AUTO_READY
  | OpportunityDecision_NOT_COPYABLE
  | OpportunityDecision_EXPIRED
  | OpportunityDecision_BLOCKED

primrec opportunity_decision_value :: "opportunity_decision \<Rightarrow> string" where
    "opportunity_decision_value OpportunityDecision_ALERT_ONLY = ''alert_only''"
  | "opportunity_decision_value OpportunityDecision_PAPER_READY = ''paper_ready''"
  | "opportunity_decision_value OpportunityDecision_MANUAL_READY = ''manual_ready''"
  | "opportunity_decision_value OpportunityDecision_AUTO_READY = ''auto_ready''"
  | "opportunity_decision_value OpportunityDecision_NOT_COPYABLE = ''not_copyable''"
  | "opportunity_decision_value OpportunityDecision_EXPIRED = ''expired''"
  | "opportunity_decision_value OpportunityDecision_BLOCKED = ''blocked''"

definition opportunity_decision_members :: "opportunity_decision list" where
  "opportunity_decision_members =
     [OpportunityDecision_ALERT_ONLY,
      OpportunityDecision_PAPER_READY,
      OpportunityDecision_MANUAL_READY,
      OpportunityDecision_AUTO_READY,
      OpportunityDecision_NOT_COPYABLE,
      OpportunityDecision_EXPIRED,
      OpportunityDecision_BLOCKED]"

datatype execution_mode =
    ExecutionMode_ALERT
  | ExecutionMode_PAPER
  | ExecutionMode_MANUAL
  | ExecutionMode_AUTO

primrec execution_mode_value :: "execution_mode \<Rightarrow> string" where
    "execution_mode_value ExecutionMode_ALERT = ''alert''"
  | "execution_mode_value ExecutionMode_PAPER = ''paper''"
  | "execution_mode_value ExecutionMode_MANUAL = ''manual''"
  | "execution_mode_value ExecutionMode_AUTO = ''auto''"

definition execution_mode_members :: "execution_mode list" where
  "execution_mode_members =
     [ExecutionMode_ALERT,
      ExecutionMode_PAPER,
      ExecutionMode_MANUAL,
      ExecutionMode_AUTO]"

datatype attempt_status =
    AttemptStatus_CREATED
  | AttemptStatus_QUOTED
  | AttemptStatus_SIMULATED
  | AttemptStatus_APPROVED
  | AttemptStatus_SIGNED
  | AttemptStatus_BROADCAST
  | AttemptStatus_PENDING
  | AttemptStatus_CONFIRMED
  | AttemptStatus_FAILED
  | AttemptStatus_REPLACED
  | AttemptStatus_DROPPED
  | AttemptStatus_REORGED
  | AttemptStatus_CANCELLED

primrec attempt_status_value :: "attempt_status \<Rightarrow> string" where
    "attempt_status_value AttemptStatus_CREATED = ''created''"
  | "attempt_status_value AttemptStatus_QUOTED = ''quoted''"
  | "attempt_status_value AttemptStatus_SIMULATED = ''simulated''"
  | "attempt_status_value AttemptStatus_APPROVED = ''approved''"
  | "attempt_status_value AttemptStatus_SIGNED = ''signed''"
  | "attempt_status_value AttemptStatus_BROADCAST = ''broadcast''"
  | "attempt_status_value AttemptStatus_PENDING = ''pending''"
  | "attempt_status_value AttemptStatus_CONFIRMED = ''confirmed''"
  | "attempt_status_value AttemptStatus_FAILED = ''failed''"
  | "attempt_status_value AttemptStatus_REPLACED = ''replaced''"
  | "attempt_status_value AttemptStatus_DROPPED = ''dropped''"
  | "attempt_status_value AttemptStatus_REORGED = ''reorged''"
  | "attempt_status_value AttemptStatus_CANCELLED = ''cancelled''"

definition attempt_status_members :: "attempt_status list" where
  "attempt_status_members =
     [AttemptStatus_CREATED,
      AttemptStatus_QUOTED,
      AttemptStatus_SIMULATED,
      AttemptStatus_APPROVED,
      AttemptStatus_SIGNED,
      AttemptStatus_BROADCAST,
      AttemptStatus_PENDING,
      AttemptStatus_CONFIRMED,
      AttemptStatus_FAILED,
      AttemptStatus_REPLACED,
      AttemptStatus_DROPPED,
      AttemptStatus_REORGED,
      AttemptStatus_CANCELLED]"

datatype severity =
    Severity_INFO
  | Severity_LOW
  | Severity_MEDIUM
  | Severity_HIGH
  | Severity_CRITICAL

primrec severity_value :: "severity \<Rightarrow> string" where
    "severity_value Severity_INFO = ''info''"
  | "severity_value Severity_LOW = ''low''"
  | "severity_value Severity_MEDIUM = ''medium''"
  | "severity_value Severity_HIGH = ''high''"
  | "severity_value Severity_CRITICAL = ''critical''"

definition severity_members :: "severity list" where
  "severity_members =
     [Severity_INFO,
      Severity_LOW,
      Severity_MEDIUM,
      Severity_HIGH,
      Severity_CRITICAL]"

datatype user_status =
    UserStatus_ACTIVE
  | UserStatus_REVOKED

primrec user_status_value :: "user_status \<Rightarrow> string" where
    "user_status_value UserStatus_ACTIVE = ''active''"
  | "user_status_value UserStatus_REVOKED = ''revoked''"

definition user_status_members :: "user_status list" where
  "user_status_members =
     [UserStatus_ACTIVE,
      UserStatus_REVOKED]"

datatype access_request_status =
    AccessRequestStatus_PENDING
  | AccessRequestStatus_APPROVED
  | AccessRequestStatus_REJECTED
  | AccessRequestStatus_CANCELLED

primrec access_request_status_value :: "access_request_status \<Rightarrow> string" where
    "access_request_status_value AccessRequestStatus_PENDING = ''pending''"
  | "access_request_status_value AccessRequestStatus_APPROVED = ''approved''"
  | "access_request_status_value AccessRequestStatus_REJECTED = ''rejected''"
  | "access_request_status_value AccessRequestStatus_CANCELLED = ''cancelled''"

definition access_request_status_members :: "access_request_status list" where
  "access_request_status_members =
     [AccessRequestStatus_PENDING,
      AccessRequestStatus_APPROVED,
      AccessRequestStatus_REJECTED,
      AccessRequestStatus_CANCELLED]"

datatype platform_role =
    PlatformRole_PLATFORM_OWNER
  | PlatformRole_WORKSPACE_OWNER
  | PlatformRole_SERVICE_WORKER
  | PlatformRole_SIGNER

primrec platform_role_value :: "platform_role \<Rightarrow> string" where
    "platform_role_value PlatformRole_PLATFORM_OWNER = ''platform_owner''"
  | "platform_role_value PlatformRole_WORKSPACE_OWNER = ''workspace_owner''"
  | "platform_role_value PlatformRole_SERVICE_WORKER = ''service_worker''"
  | "platform_role_value PlatformRole_SIGNER = ''signer''"

definition platform_role_members :: "platform_role list" where
  "platform_role_members =
     [PlatformRole_PLATFORM_OWNER,
      PlatformRole_WORKSPACE_OWNER,
      PlatformRole_SERVICE_WORKER,
      PlatformRole_SIGNER]"

datatype workspace_status =
    WorkspaceStatus_ACTIVE
  | WorkspaceStatus_SUSPENDED
  | WorkspaceStatus_CLOSED

primrec workspace_status_value :: "workspace_status \<Rightarrow> string" where
    "workspace_status_value WorkspaceStatus_ACTIVE = ''active''"
  | "workspace_status_value WorkspaceStatus_SUSPENDED = ''suspended''"
  | "workspace_status_value WorkspaceStatus_CLOSED = ''closed''"

definition workspace_status_members :: "workspace_status list" where
  "workspace_status_members =
     [WorkspaceStatus_ACTIVE,
      WorkspaceStatus_SUSPENDED,
      WorkspaceStatus_CLOSED]"

datatype membership_status =
    MembershipStatus_ACTIVE
  | MembershipStatus_REVOKED

primrec membership_status_value :: "membership_status \<Rightarrow> string" where
    "membership_status_value MembershipStatus_ACTIVE = ''active''"
  | "membership_status_value MembershipStatus_REVOKED = ''revoked''"

definition membership_status_members :: "membership_status list" where
  "membership_status_members =
     [MembershipStatus_ACTIVE,
      MembershipStatus_REVOKED]"

datatype workspace_role =
    WorkspaceRole_OWNER

primrec workspace_role_value :: "workspace_role \<Rightarrow> string" where
    "workspace_role_value WorkspaceRole_OWNER = ''workspace_owner''"

definition workspace_role_members :: "workspace_role list" where
  "workspace_role_members =
     [WorkspaceRole_OWNER]"

datatype challenge_action =
    ChallengeAction_APPROVE_ACCESS
  | ChallengeAction_REJECT_ACCESS
  | ChallengeAction_REVOKE_ACCESS
  | ChallengeAction_CREATE_WALLET

primrec challenge_action_value :: "challenge_action \<Rightarrow> string" where
    "challenge_action_value ChallengeAction_APPROVE_ACCESS = ''approve_access''"
  | "challenge_action_value ChallengeAction_REJECT_ACCESS = ''reject_access''"
  | "challenge_action_value ChallengeAction_REVOKE_ACCESS = ''revoke_access''"
  | "challenge_action_value ChallengeAction_CREATE_WALLET = ''create_wallet''"

definition challenge_action_members :: "challenge_action list" where
  "challenge_action_members =
     [ChallengeAction_APPROVE_ACCESS,
      ChallengeAction_REJECT_ACCESS,
      ChallengeAction_REVOKE_ACCESS,
      ChallengeAction_CREATE_WALLET]"

datatype wallet_status =
    WalletStatus_ACTIVE
  | WalletStatus_SUSPENDED

primrec wallet_status_value :: "wallet_status \<Rightarrow> string" where
    "wallet_status_value WalletStatus_ACTIVE = ''active''"
  | "wallet_status_value WalletStatus_SUSPENDED = ''suspended''"

definition wallet_status_members :: "wallet_status list" where
  "wallet_status_members =
     [WalletStatus_ACTIVE,
      WalletStatus_SUSPENDED]"

datatype telegram_update_status =
    TelegramUpdateStatus_RECEIVED
  | TelegramUpdateStatus_PROCESSED
  | TelegramUpdateStatus_FAILED

primrec telegram_update_status_value :: "telegram_update_status \<Rightarrow> string" where
    "telegram_update_status_value TelegramUpdateStatus_RECEIVED = ''received''"
  | "telegram_update_status_value TelegramUpdateStatus_PROCESSED = ''processed''"
  | "telegram_update_status_value TelegramUpdateStatus_FAILED = ''failed''"

definition telegram_update_status_members :: "telegram_update_status list" where
  "telegram_update_status_members =
     [TelegramUpdateStatus_RECEIVED,
      TelegramUpdateStatus_PROCESSED,
      TelegramUpdateStatus_FAILED]"

datatype actor_type =
    ActorType_TELEGRAM_USER
  | ActorType_SERVICE
  | ActorType_SIGNER
  | ActorType_SYSTEM

primrec actor_type_value :: "actor_type \<Rightarrow> string" where
    "actor_type_value ActorType_TELEGRAM_USER = ''telegram_user''"
  | "actor_type_value ActorType_SERVICE = ''service''"
  | "actor_type_value ActorType_SIGNER = ''signer''"
  | "actor_type_value ActorType_SYSTEM = ''system''"

definition actor_type_members :: "actor_type list" where
  "actor_type_members =
     [ActorType_TELEGRAM_USER,
      ActorType_SERVICE,
      ActorType_SIGNER,
      ActorType_SYSTEM]"

datatype simulation_evidence_level =
    SimulationEvidenceLevel_VERIFIED
  | SimulationEvidenceLevel_PARTIAL
  | SimulationEvidenceLevel_INCONCLUSIVE
  | SimulationEvidenceLevel_FAILED

primrec simulation_evidence_level_value :: "simulation_evidence_level \<Rightarrow> string" where
    "simulation_evidence_level_value SimulationEvidenceLevel_VERIFIED = ''verified''"
  | "simulation_evidence_level_value SimulationEvidenceLevel_PARTIAL = ''partial''"
  | "simulation_evidence_level_value SimulationEvidenceLevel_INCONCLUSIVE = ''inconclusive''"
  | "simulation_evidence_level_value SimulationEvidenceLevel_FAILED = ''failed''"

definition simulation_evidence_level_members :: "simulation_evidence_level list" where
  "simulation_evidence_level_members =
     [SimulationEvidenceLevel_VERIFIED,
      SimulationEvidenceLevel_PARTIAL,
      SimulationEvidenceLevel_INCONCLUSIVE,
      SimulationEvidenceLevel_FAILED]"

datatype collection_scan_status =
    CollectionScanStatus_PENDING
  | CollectionScanStatus_SCANNING
  | CollectionScanStatus_COMPLETE
  | CollectionScanStatus_FAILED
  | CollectionScanStatus_QUALITY_WARNING

primrec collection_scan_status_value :: "collection_scan_status \<Rightarrow> string" where
    "collection_scan_status_value CollectionScanStatus_PENDING = ''pending''"
  | "collection_scan_status_value CollectionScanStatus_SCANNING = ''scanning''"
  | "collection_scan_status_value CollectionScanStatus_COMPLETE = ''complete''"
  | "collection_scan_status_value CollectionScanStatus_FAILED = ''failed''"
  | "collection_scan_status_value CollectionScanStatus_QUALITY_WARNING = ''quality_warning''"

definition collection_scan_status_members :: "collection_scan_status list" where
  "collection_scan_status_members =
     [CollectionScanStatus_PENDING,
      CollectionScanStatus_SCANNING,
      CollectionScanStatus_COMPLETE,
      CollectionScanStatus_FAILED,
      CollectionScanStatus_QUALITY_WARNING]"

datatype scan_job_status =
    ScanJobStatus_QUEUED
  | ScanJobStatus_RUNNING
  | ScanJobStatus_COMPLETED
  | ScanJobStatus_FAILED
  | ScanJobStatus_CANCELLED

primrec scan_job_status_value :: "scan_job_status \<Rightarrow> string" where
    "scan_job_status_value ScanJobStatus_QUEUED = ''queued''"
  | "scan_job_status_value ScanJobStatus_RUNNING = ''running''"
  | "scan_job_status_value ScanJobStatus_COMPLETED = ''completed''"
  | "scan_job_status_value ScanJobStatus_FAILED = ''failed''"
  | "scan_job_status_value ScanJobStatus_CANCELLED = ''cancelled''"

definition scan_job_status_members :: "scan_job_status list" where
  "scan_job_status_members =
     [ScanJobStatus_QUEUED,
      ScanJobStatus_RUNNING,
      ScanJobStatus_COMPLETED,
      ScanJobStatus_FAILED,
      ScanJobStatus_CANCELLED]"

datatype evidence_kind =
    EvidenceKind_BLOCK
  | EvidenceKind_LOG
  | EvidenceKind_TRANSACTION
  | EvidenceKind_RECEIPT
  | EvidenceKind_TRACE

primrec evidence_kind_value :: "evidence_kind \<Rightarrow> string" where
    "evidence_kind_value EvidenceKind_BLOCK = ''block''"
  | "evidence_kind_value EvidenceKind_LOG = ''log''"
  | "evidence_kind_value EvidenceKind_TRANSACTION = ''transaction''"
  | "evidence_kind_value EvidenceKind_RECEIPT = ''receipt''"
  | "evidence_kind_value EvidenceKind_TRACE = ''trace''"

definition evidence_kind_members :: "evidence_kind list" where
  "evidence_kind_members =
     [EvidenceKind_BLOCK,
      EvidenceKind_LOG,
      EvidenceKind_TRANSACTION,
      EvidenceKind_RECEIPT,
      EvidenceKind_TRACE]"

datatype evidence_retention_status =
    EvidenceRetentionStatus_ACTIVE
  | EvidenceRetentionStatus_ARCHIVED
  | EvidenceRetentionStatus_EXPIRED

primrec evidence_retention_status_value :: "evidence_retention_status \<Rightarrow> string" where
    "evidence_retention_status_value EvidenceRetentionStatus_ACTIVE = ''active''"
  | "evidence_retention_status_value EvidenceRetentionStatus_ARCHIVED = ''archived''"
  | "evidence_retention_status_value EvidenceRetentionStatus_EXPIRED = ''expired''"

definition evidence_retention_status_members :: "evidence_retention_status list" where
  "evidence_retention_status_members =
     [EvidenceRetentionStatus_ACTIVE,
      EvidenceRetentionStatus_ARCHIVED,
      EvidenceRetentionStatus_EXPIRED]"

datatype deployment_confidence =
    DeploymentConfidence_EXACT
  | DeploymentConfidence_BOUNDED
  | DeploymentConfidence_UNKNOWN

primrec deployment_confidence_value :: "deployment_confidence \<Rightarrow> string" where
    "deployment_confidence_value DeploymentConfidence_EXACT = ''exact''"
  | "deployment_confidence_value DeploymentConfidence_BOUNDED = ''bounded''"
  | "deployment_confidence_value DeploymentConfidence_UNKNOWN = ''unknown''"

definition deployment_confidence_members :: "deployment_confidence list" where
  "deployment_confidence_members =
     [DeploymentConfidence_EXACT,
      DeploymentConfidence_BOUNDED,
      DeploymentConfidence_UNKNOWN]"

section \<open>Reading a stored value back\<close>

text \<open>The lookup of a member by value, as \<open>UserStatus(text)\<close> and the column type do it.\<close>

definition member_of_value :: "('e \<Rightarrow> string) \<Rightarrow> 'e list \<Rightarrow> string \<Rightarrow> 'e option" where
  "member_of_value val members text = List.find (\<lambda>m. val m = text) members"

text \<open>The column accepts exactly the members' values, of at most the column's length.\<close>

definition enum_column_accepts :: "('e \<Rightarrow> string) \<Rightarrow> 'e list \<Rightarrow> nat \<Rightarrow> string \<Rightarrow> bool" where
  "enum_column_accepts val members len text \<longleftrightarrow>
     length text \<le> len \<and> text \<in> set (map val members)"

locale str_enum =
  fixes val :: "'e \<Rightarrow> string" and members :: "'e list" and len :: nat
  assumes complete: "x \<in> set members"
    and distinct_values: "distinct (map val members)"
    and fits: "length (val x) \<le> len"
begin

lemma value_inject: "val x = val y \<Longrightarrow> x = y"
  using distinct_values complete by (auto simp: distinct_map inj_on_def)

lemma member_of_value_round_trip: "member_of_value val members (val x) = Some x"
proof -
  have "member_of_value val members (val x) \<noteq> None"
    using complete by (auto simp: member_of_value_def find_None_iff)
  then obtain y where "member_of_value val members (val x) = Some y" by blast
  moreover from this have "val y = val x"
    by (auto simp: member_of_value_def find_Some_iff)
  ultimately show ?thesis by (auto dest: value_inject)
qed

lemma member_of_value_SomeD: "member_of_value val members text = Some x \<Longrightarrow> text = val x"
  by (auto simp: member_of_value_def find_Some_iff)

lemma column_accepts_iff:
  "enum_column_accepts val members len text \<longleftrightarrow> (\<exists>x. text = val x)"
  using complete fits by (auto simp: enum_column_accepts_def)

lemma stored_iff_readable:
  "enum_column_accepts val members len text \<longleftrightarrow> member_of_value val members text \<noteq> None"
  using member_of_value_round_trip by (auto simp: column_accepts_iff dest: member_of_value_SomeD)

end

section \<open>The stored enumerations\<close>

interpretation token_standard_column: str_enum token_standard_value token_standard_members 32
proof unfold_locales
  show "x \<in> set token_standard_members" for x by (cases x) (simp_all add: token_standard_members_def)
  show "distinct (map token_standard_value token_standard_members)" by (simp add: token_standard_members_def)
  show "length (token_standard_value x) \<le> 32" for x by (cases x) simp_all
qed

interpretation mint_route_column: str_enum mint_route_value mint_route_members 32
proof unfold_locales
  show "x \<in> set mint_route_members" for x by (cases x) (simp_all add: mint_route_members_def)
  show "distinct (map mint_route_value mint_route_members)" by (simp add: mint_route_members_def)
  show "length (mint_route_value x) \<le> 32" for x by (cases x) simp_all
qed

interpretation mint_classification_column: str_enum mint_classification_value mint_classification_members 32
proof unfold_locales
  show "x \<in> set mint_classification_members" for x by (cases x) (simp_all add: mint_classification_members_def)
  show "distinct (map mint_classification_value mint_classification_members)" by (simp add: mint_classification_members_def)
  show "length (mint_classification_value x) \<le> 32" for x by (cases x) simp_all
qed

interpretation finality_status_column: str_enum finality_status_value finality_status_members 32
proof unfold_locales
  show "x \<in> set finality_status_members" for x by (cases x) (simp_all add: finality_status_members_def)
  show "distinct (map finality_status_value finality_status_members)" by (simp add: finality_status_members_def)
  show "length (finality_status_value x) \<le> 32" for x by (cases x) simp_all
qed

interpretation execution_mode_column: str_enum execution_mode_value execution_mode_members 32
proof unfold_locales
  show "x \<in> set execution_mode_members" for x by (cases x) (simp_all add: execution_mode_members_def)
  show "distinct (map execution_mode_value execution_mode_members)" by (simp add: execution_mode_members_def)
  show "length (execution_mode_value x) \<le> 32" for x by (cases x) simp_all
qed

interpretation severity_column: str_enum severity_value severity_members 32
proof unfold_locales
  show "x \<in> set severity_members" for x by (cases x) (simp_all add: severity_members_def)
  show "distinct (map severity_value severity_members)" by (simp add: severity_members_def)
  show "length (severity_value x) \<le> 32" for x by (cases x) simp_all
qed

interpretation user_status_column: str_enum user_status_value user_status_members 32
proof unfold_locales
  show "x \<in> set user_status_members" for x by (cases x) (simp_all add: user_status_members_def)
  show "distinct (map user_status_value user_status_members)" by (simp add: user_status_members_def)
  show "length (user_status_value x) \<le> 32" for x by (cases x) simp_all
qed

interpretation access_request_status_column: str_enum access_request_status_value access_request_status_members 32
proof unfold_locales
  show "x \<in> set access_request_status_members" for x by (cases x) (simp_all add: access_request_status_members_def)
  show "distinct (map access_request_status_value access_request_status_members)" by (simp add: access_request_status_members_def)
  show "length (access_request_status_value x) \<le> 32" for x by (cases x) simp_all
qed

interpretation workspace_status_column: str_enum workspace_status_value workspace_status_members 32
proof unfold_locales
  show "x \<in> set workspace_status_members" for x by (cases x) (simp_all add: workspace_status_members_def)
  show "distinct (map workspace_status_value workspace_status_members)" by (simp add: workspace_status_members_def)
  show "length (workspace_status_value x) \<le> 32" for x by (cases x) simp_all
qed

interpretation membership_status_column: str_enum membership_status_value membership_status_members 32
proof unfold_locales
  show "x \<in> set membership_status_members" for x by (cases x) (simp_all add: membership_status_members_def)
  show "distinct (map membership_status_value membership_status_members)" by (simp add: membership_status_members_def)
  show "length (membership_status_value x) \<le> 32" for x by (cases x) simp_all
qed

interpretation workspace_role_column: str_enum workspace_role_value workspace_role_members 32
proof unfold_locales
  show "x \<in> set workspace_role_members" for x by (cases x) (simp_all add: workspace_role_members_def)
  show "distinct (map workspace_role_value workspace_role_members)" by (simp add: workspace_role_members_def)
  show "length (workspace_role_value x) \<le> 32" for x by (cases x) simp_all
qed

interpretation challenge_action_column: str_enum challenge_action_value challenge_action_members 32
proof unfold_locales
  show "x \<in> set challenge_action_members" for x by (cases x) (simp_all add: challenge_action_members_def)
  show "distinct (map challenge_action_value challenge_action_members)" by (simp add: challenge_action_members_def)
  show "length (challenge_action_value x) \<le> 32" for x by (cases x) simp_all
qed

interpretation wallet_status_column: str_enum wallet_status_value wallet_status_members 32
proof unfold_locales
  show "x \<in> set wallet_status_members" for x by (cases x) (simp_all add: wallet_status_members_def)
  show "distinct (map wallet_status_value wallet_status_members)" by (simp add: wallet_status_members_def)
  show "length (wallet_status_value x) \<le> 32" for x by (cases x) simp_all
qed

interpretation telegram_update_status_column: str_enum telegram_update_status_value telegram_update_status_members 32
proof unfold_locales
  show "x \<in> set telegram_update_status_members" for x by (cases x) (simp_all add: telegram_update_status_members_def)
  show "distinct (map telegram_update_status_value telegram_update_status_members)" by (simp add: telegram_update_status_members_def)
  show "length (telegram_update_status_value x) \<le> 32" for x by (cases x) simp_all
qed

interpretation actor_type_column: str_enum actor_type_value actor_type_members 32
proof unfold_locales
  show "x \<in> set actor_type_members" for x by (cases x) (simp_all add: actor_type_members_def)
  show "distinct (map actor_type_value actor_type_members)" by (simp add: actor_type_members_def)
  show "length (actor_type_value x) \<le> 32" for x by (cases x) simp_all
qed

interpretation collection_scan_status_column: str_enum collection_scan_status_value collection_scan_status_members 32
proof unfold_locales
  show "x \<in> set collection_scan_status_members" for x by (cases x) (simp_all add: collection_scan_status_members_def)
  show "distinct (map collection_scan_status_value collection_scan_status_members)" by (simp add: collection_scan_status_members_def)
  show "length (collection_scan_status_value x) \<le> 32" for x by (cases x) simp_all
qed

interpretation scan_job_status_column: str_enum scan_job_status_value scan_job_status_members 32
proof unfold_locales
  show "x \<in> set scan_job_status_members" for x by (cases x) (simp_all add: scan_job_status_members_def)
  show "distinct (map scan_job_status_value scan_job_status_members)" by (simp add: scan_job_status_members_def)
  show "length (scan_job_status_value x) \<le> 32" for x by (cases x) simp_all
qed

interpretation evidence_kind_column: str_enum evidence_kind_value evidence_kind_members 32
proof unfold_locales
  show "x \<in> set evidence_kind_members" for x by (cases x) (simp_all add: evidence_kind_members_def)
  show "distinct (map evidence_kind_value evidence_kind_members)" by (simp add: evidence_kind_members_def)
  show "length (evidence_kind_value x) \<le> 32" for x by (cases x) simp_all
qed

interpretation evidence_retention_status_column: str_enum evidence_retention_status_value evidence_retention_status_members 32
proof unfold_locales
  show "x \<in> set evidence_retention_status_members" for x by (cases x) (simp_all add: evidence_retention_status_members_def)
  show "distinct (map evidence_retention_status_value evidence_retention_status_members)" by (simp add: evidence_retention_status_members_def)
  show "length (evidence_retention_status_value x) \<le> 32" for x by (cases x) simp_all
qed

interpretation deployment_confidence_column: str_enum deployment_confidence_value deployment_confidence_members 32
proof unfold_locales
  show "x \<in> set deployment_confidence_members" for x by (cases x) (simp_all add: deployment_confidence_members_def)
  show "distinct (map deployment_confidence_value deployment_confidence_members)" by (simp add: deployment_confidence_members_def)
  show "length (deployment_confidence_value x) \<le> 32" for x by (cases x) simp_all
qed

section \<open>Release 1 execution boundary\<close>

text \<open>
  The execution modes in the order they are declared: each mode does more than the one before.
  The order is what makes the release's ceiling a ceiling.
\<close>

primrec execution_rank :: "execution_mode \<Rightarrow> nat" where
    "execution_rank ExecutionMode_ALERT = 0"
  | "execution_rank ExecutionMode_PAPER = 1"
  | "execution_rank ExecutionMode_MANUAL = 2"
  | "execution_rank ExecutionMode_AUTO = 3"

instantiation execution_mode :: linorder
begin

definition less_eq_execution_mode :: "execution_mode \<Rightarrow> execution_mode \<Rightarrow> bool" where
  "less_eq_execution_mode m n \<longleftrightarrow> execution_rank m \<le> execution_rank n"

definition less_execution_mode :: "execution_mode \<Rightarrow> execution_mode \<Rightarrow> bool" where
  "less_execution_mode m n \<longleftrightarrow> execution_rank m < execution_rank n"

instance
proof
  fix m n k :: execution_mode
  show "m < n \<longleftrightarrow> m \<le> n \<and> \<not> n \<le> m"
    by (auto simp: less_eq_execution_mode_def less_execution_mode_def)
  show "m \<le> m" by (simp add: less_eq_execution_mode_def)
  show "m \<le> n \<Longrightarrow> n \<le> k \<Longrightarrow> m \<le> k" by (simp add: less_eq_execution_mode_def)
  show "m \<le> n \<Longrightarrow> n \<le> m \<Longrightarrow> m = n"
    by (cases m; cases n) (simp_all add: less_eq_execution_mode_def)
  show "m \<le> n \<or> n \<le> m" by (auto simp: less_eq_execution_mode_def)
qed

end

definition release_execution_ceiling :: execution_mode where
  "release_execution_ceiling = ExecutionMode_PAPER"

definition allowed_execution_modes :: "execution_mode set" where
  "allowed_execution_modes = {ExecutionMode_ALERT, ExecutionMode_PAPER}"

definition mode_is_available :: "execution_mode \<Rightarrow> bool" where
  "mode_is_available mode \<longleftrightarrow> mode \<in> allowed_execution_modes"

definition signing_is_available :: bool where
  "signing_is_available = False"

definition broadcasting_is_available :: bool where
  "broadcasting_is_available = False"

lemma mode_is_available_iff: "mode_is_available mode \<longleftrightarrow> mode \<le> release_execution_ceiling"
  by (cases mode) (simp_all add: mode_is_available_def allowed_execution_modes_def
      release_execution_ceiling_def less_eq_execution_mode_def)

end
