(* ===== verification/PyText.thy ===== *)
theory PyText
  imports Prelude
begin

text \<open>
  The operations on text and bytes of the Python standard library that the program uses:
  \<open>str.lower\<close>, \<open>str.removeprefix\<close>, \<open>str.rstrip\<close>, \<open>str.isdigit\<close>, \<open>str(int)\<close>, \<open>str(uuid)\<close>,
  \<open>bytes.hex\<close>, \<open>bytes.fromhex\<close>, \<open>int.from_bytes(..., "big")\<close>, the ASCII and UTF-8 encodings, and
  joins. A character stands for one code point below 256.
\<close>

section \<open>Characters and case\<close>

abbreviation ord_char :: "char \<Rightarrow> nat" where
  "ord_char c \<equiv> of_char c"

definition lower_char :: "char \<Rightarrow> char" where
  "lower_char c =
     (let n = ord_char c in
      if 65 \<le> n \<and> n \<le> 90 \<or> 192 \<le> n \<and> n \<le> 222 \<and> n \<noteq> 215 then char_of (n + 32) else c)"

definition lower :: "string \<Rightarrow> string" where
  "lower s = map lower_char s"

definition is_ascii :: "string \<Rightarrow> bool" where
  "is_ascii s = list_all (\<lambda>c. ord_char c < 128) s"

text \<open>The number of bytes of the UTF-8 encoding.\<close>

definition utf8_length :: "string \<Rightarrow> nat" where
  "utf8_length s = sum_list (map (\<lambda>c. if ord_char c < 128 then 1 else 2) s)"

text \<open>The UTF-8 encoding itself.\<close>

definition utf8_char :: "char \<Rightarrow> bytes" where
  "utf8_char c =
     (let n = ord_char c in
      if n < 128 then [of_nat n] else [of_nat (192 + n div 64), of_nat (128 + n mod 64)])"

definition utf8 :: "string \<Rightarrow> bytes" where
  "utf8 s = concat (map utf8_char s)"

definition encode_ascii :: "string \<Rightarrow> bytes outcome" where
  "encode_ascii s =
     (if is_ascii s then Inr (map (\<lambda>c. of_nat (ord_char c)) s) else Inl UnicodeEncodeError)"

definition starts_with :: "string \<Rightarrow> string \<Rightarrow> bool" where
  "starts_with s p \<longleftrightarrow> take (length p) s = p"

definition remove_prefix :: "string \<Rightarrow> string \<Rightarrow> string" where
  "remove_prefix p s = (if starts_with s p then drop (length p) s else s)"

lemma remove_prefix_append [simp]: "remove_prefix p (p @ s) = s"
  by (simp add: remove_prefix_def starts_with_def)

lemma length_lower [simp]: "length (lower s) = length s"
  by (simp add: lower_def)

lemma lower_append: "lower (s @ t) = lower s @ lower t"
  by (simp add: lower_def)

lemma ord_char_of [simp]: "n < 256 \<Longrightarrow> ord_char (char_of (n::nat)) = n"
  by (simp add: of_char_of)

lemma lower_char_idem [simp]: "lower_char (lower_char c) = lower_char c"
proof -
  have "of_char c < (256::nat)" by (rule nat_of_char_less_256)
  then show ?thesis by (auto simp: lower_char_def Let_def)
qed

lemma lower_idem [simp]: "lower (lower s) = lower s"
  by (simp add: lower_def)

lemma utf8_length_eq: "utf8_length s = length (utf8 s)"
proof (induction s)
  case Nil
  then show ?case by (simp add: utf8_def utf8_length_def)
next
  case (Cons c s)
  have "length (utf8_char c) = (if ord_char c < 128 then 1 else 2)"
    by (simp add: utf8_char_def Let_def)
  with Cons show ?case by (simp add: utf8_def utf8_length_def)
qed

text \<open>The encoding loses nothing.\<close>

fun utf8_decode :: "bytes \<Rightarrow> string" where
  "utf8_decode [] = []"
| "utf8_decode (b # bs) =
     (if unat b < 128 then char_of (unat b) # utf8_decode bs
      else case bs of
          [] \<Rightarrow> []
        | c # cs \<Rightarrow> char_of ((unat b - 192) * 64 + (unat c - 128)) # utf8_decode cs)"

lemma utf8_decode_utf8 [simp]: "utf8_decode (utf8 s) = s"
proof (induction s)
  case (Cons c s)
  have small: "of_char c < (256::nat)" by (rule nat_of_char_less_256)
  have parts: "192 + of_char c div 64 < (256::nat)" "128 + of_char c mod 64 < (256::nat)"
    using small less_mult_imp_div_less [of "of_char c" 4 64] by simp_all
  have whole: "char_of (of_char c div 64 * 64 + of_char c mod (64::nat)) = c"
    by (simp only: div_mult_mod_eq char_of_char)
  have lead: "unat (of_nat (192 + of_char c div 64) :: 8 word) = 192 + of_char c div 64"
    and tail: "unat (of_nat (128 + of_char c mod 64) :: 8 word) = 128 + of_char c mod 64"
    and one: "unat (of_nat (of_char c) :: 8 word) = of_char c"
    using parts small by (auto intro!: of_nat_inverse [OF refl] simp del: of_nat_add)
  from Cons lead tail one whole show ?case
    by (simp add: utf8_def utf8_char_def Let_def del: of_nat_add)
qed (simp add: utf8_def)

lemma utf8_inject [simp]: "utf8 s = utf8 t \<longleftrightarrow> s = t"
  by (metis utf8_decode_utf8)

section \<open>Digits\<close>

definition hex_digits :: string where
  "hex_digits = ''0123456789abcdef''"

definition hex_digit :: "nat \<Rightarrow> char" where
  "hex_digit n = hex_digits ! n"

text \<open>The value of a hexadecimal digit in either case.\<close>

definition hex_value :: "char \<Rightarrow> nat option" where
  "hex_value c =
     (let n = ord_char c in
      if 48 \<le> n \<and> n \<le> 57 then Some (n - 48)
      else if 97 \<le> n \<and> n \<le> 102 then Some (n - 87)
      else if 65 \<le> n \<and> n \<le> 70 then Some (n - 55)
      else None)"

text \<open>A fact about the numbers below a bound, by evaluation.\<close>

lemma below_list_all: "n < k \<Longrightarrow> list_all P [0..<k] \<Longrightarrow> P n"
  by (simp add: list_all_iff)

lemma hex_value_digit [simp]: "n < 16 \<Longrightarrow> hex_value (hex_digit n) = Some n"
  by (erule below_list_all [where P = "\<lambda>n. hex_value (hex_digit n) = Some n"]) code_simp

lemma hex_digit_inject: "m < 16 \<Longrightarrow> n < 16 \<Longrightarrow> hex_digit m = hex_digit n \<longleftrightarrow> m = n"
  by (metis hex_value_digit option.inject)

lemma hex_digit_range: "n < 16 \<Longrightarrow> hex_digit n \<in> set hex_digits"
  unfolding hex_digit_def by (rule nth_mem) (simp add: hex_digits_def)

lemma lower_hex_digit [simp]: "n < 16 \<Longrightarrow> lower_char (hex_digit n) = hex_digit n"
  by (erule below_list_all [where P = "\<lambda>n. lower_char (hex_digit n) = hex_digit n"]) code_simp

lemma hex_value_less: "hex_value c = Some n \<Longrightarrow> n < 16"
  by (auto simp: hex_value_def Let_def split: if_splits)

subsection \<open>Fixed-width and free-width numerals\<close>

text \<open>\<open>digits_of base w n\<close> is \<open>n\<close> in \<open>w\<close> digits, most significant first.\<close>

fun digits_of :: "nat \<Rightarrow> nat \<Rightarrow> nat \<Rightarrow> nat list" where
  "digits_of base 0 n = []"
| "digits_of base (Suc w) n = digits_of base w (n div base) @ [n mod base]"

definition number_of_digits :: "nat \<Rightarrow> nat list \<Rightarrow> nat" where
  "number_of_digits base ds = foldl (\<lambda>a d. a * base + d) 0 ds"

lemma length_digits_of [simp]: "length (digits_of base w n) = w"
  by (induction w arbitrary: n) auto

lemma digits_of_less: "0 < base \<Longrightarrow> d \<in> set (digits_of base w n) \<Longrightarrow> d < base"
  by (induction w arbitrary: n) auto

lemma number_of_digits_snoc [simp]:
  "number_of_digits base (ds @ [d]) = number_of_digits base ds * base + d"
  by (simp add: number_of_digits_def)

lemma number_of_digits_of:
  assumes "0 < base" and "n < base ^ w"
  shows "number_of_digits base (digits_of base w n) = n"
  using assms(2)
proof (induction w arbitrary: n)
  case 0
  then show ?case by (simp add: number_of_digits_def)
next
  case (Suc w)
  from Suc.prems assms(1) have "n div base < base ^ w"
    by (simp add: less_mult_imp_div_less mult.commute)
  with Suc.IH show ?case by simp
qed

lemma digits_of_inject:
  "0 < base \<Longrightarrow> m < base ^ w \<Longrightarrow> n < base ^ w \<Longrightarrow>
     digits_of base w m = digits_of base w n \<longleftrightarrow> m = n"
  by (metis number_of_digits_of)

text \<open>\<open>str(n)\<close> of a non-negative integer.\<close>

fun decimal :: "nat \<Rightarrow> string" where
  "decimal n = (if n < 10 then [hex_digit n] else decimal (n div 10) @ [hex_digit (n mod 10)])"

declare decimal.simps [simp del]

definition str_int :: "int \<Rightarrow> string" where
  "str_int i = (if i < 0 then ''-'' @ decimal (nat (- i)) else decimal (nat i))"

text \<open>\<open>int(text)\<close> of a run of ASCII digits.\<close>

definition digit_value :: "char \<Rightarrow> nat" where
  "digit_value c = ord_char c - 48"

definition parse_decimal :: "string \<Rightarrow> nat" where
  "parse_decimal s = number_of_digits 10 (map digit_value s)"

lemma digit_value_hex_digit [simp]: "n < 10 \<Longrightarrow> digit_value (hex_digit n) = n"
  by (erule below_list_all [where P = "\<lambda>n. digit_value (hex_digit n) = n"]) code_simp

lemma parse_decimal_snoc [simp]:
  "parse_decimal (s @ [c]) = parse_decimal s * 10 + digit_value c"
  by (simp add: parse_decimal_def)

lemma parse_decimal_decimal [simp]: "parse_decimal (decimal n) = n"
proof (induction n rule: decimal.induct)
  case (1 n)
  show ?case
  proof (cases "n < 10")
    case True
    then show ?thesis
      by (subst decimal.simps) (simp add: parse_decimal_def number_of_digits_def)
  next
    case False
    then show ?thesis by (subst decimal.simps) (simp add: 1)
  qed
qed

lemma decimal_inject [simp]: "decimal m = decimal n \<longleftrightarrow> m = n"
  by (metis parse_decimal_decimal)

lemma decimal_nonempty [simp]: "decimal n \<noteq> []"
  by (subst decimal.simps) simp

abbreviation is_digit_char :: "char \<Rightarrow> bool" where
  "is_digit_char c \<equiv> 48 \<le> ord_char c \<and> ord_char c \<le> 57"

lemma is_digit_char_hex_digit: "n < 10 \<Longrightarrow> is_digit_char (hex_digit n)"
  by (erule below_list_all [where P = "\<lambda>n. is_digit_char (hex_digit n)"]) code_simp

lemma decimal_digits: "c \<in> set (decimal n) \<Longrightarrow> is_digit_char c"
proof (induction n rule: decimal.induct)
  case (1 n)
  have "n mod 10 < 10" by simp
  note d = is_digit_char_hex_digit [OF this]
  show ?case
  proof (cases "n < 10")
    case True
    with "1.prems" have "c = hex_digit n" by (subst (asm) decimal.simps) simp
    with True show ?thesis using is_digit_char_hex_digit by blast
  next
    case False
    with "1.prems" have "c \<in> set (decimal (n div 10)) \<or> c = hex_digit (n mod 10)"
      by (subst (asm) decimal.simps) auto
    with False "1.IH" d show ?thesis by blast
  qed
qed

lemma str_int_inject [simp]: "str_int i = str_int j \<longleftrightarrow> i = j"
proof -
  have minus: "CHR ''-'' \<notin> set (decimal n)" for n
    using decimal_digits [of "CHR ''-''" n] by auto
  then have "''-'' @ s \<noteq> decimal n" for s n
    by (metis append_Cons list.set_intros(1))
  then show ?thesis
    by (auto simp: str_int_def dest: sym)
qed

section \<open>Bytes and hexadecimal\<close>

text \<open>\<open>bytes.hex()\<close>: two lower-case digits per byte.\<close>

definition byte_hex :: "8 word \<Rightarrow> string" where
  "byte_hex b = [hex_digit (unat b div 16), hex_digit (unat b mod 16)]"

definition bytes_hex :: "bytes \<Rightarrow> string" where
  "bytes_hex bs = concat (map byte_hex bs)"

text \<open>
  \<open>bytes.fromhex\<close>: pairs of digits in either case, ASCII white space skipped between pairs;
  anything else raises \<open>ValueError\<close>, here \<open>None\<close>.
\<close>

definition is_space :: "char \<Rightarrow> bool" where
  "is_space c \<longleftrightarrow> ord_char c \<in> {9, 10, 11, 12, 13, 32}"

fun fromhex :: "string \<Rightarrow> bytes option" where
  "fromhex [] = Some []"
| "fromhex (c # cs) =
     (if is_space c then fromhex cs
      else case cs of
        [] \<Rightarrow> None
      | d # ds \<Rightarrow>
          (case (hex_value c, hex_value d) of
            (Some m, Some n) \<Rightarrow> map_option (Cons (of_nat (m * 16 + n))) (fromhex ds)
          | _ \<Rightarrow> None))"

text \<open>\<open>int.from_bytes(raw, "big")\<close> and \<open>n.to_bytes(w, "big")\<close>.\<close>

definition int_from_bytes :: "bytes \<Rightarrow> int" where
  "int_from_bytes bs = int (number_of_digits 256 (map unat bs))"

definition int_to_bytes :: "nat \<Rightarrow> int \<Rightarrow> bytes" where
  "int_to_bytes w n = map of_nat (digits_of 256 w (nat n))"

lemma unat_byte_less: "unat (b :: 8 word) < 256"
  using unsigned_less [of b, where 'a = nat] by simp

lemma byte_nibbles: "unat (b :: 8 word) div 16 < 16" "unat b mod 16 < (16::nat)"
  using unat_byte_less [of b] by simp_all

lemma is_space_hex_digit [simp]: "n < 16 \<Longrightarrow> \<not> is_space (hex_digit n)"
  by (erule below_list_all [where P = "\<lambda>n. \<not> is_space (hex_digit n)"]) code_simp

lemma fromhex_byte_hex [simp]: "fromhex (byte_hex b @ s) = map_option (Cons b) (fromhex s)"
proof -
  have "(word_of_nat (unat b div 16 * 16 + unat b mod 16) :: 8 word) = b"
    by (simp only: div_mult_mod_eq) simp
  then show ?thesis using byte_nibbles [of b] by (simp add: byte_hex_def)
qed

lemma fromhex_bytes_hex_append: "fromhex (bytes_hex bs @ s) = map_option ((@) bs) (fromhex s)"
proof (induction bs)
  case Nil
  then show ?case by (simp add: bytes_hex_def option.map_ident)
next
  case (Cons b bs)
  then show ?case by (simp add: bytes_hex_def option.map_comp comp_def)
qed

lemma fromhex_bytes_hex [simp]: "fromhex (bytes_hex bs) = Some bs"
  using fromhex_bytes_hex_append [of bs "[]"] by simp

lemma bytes_hex_inject [simp]: "bytes_hex bs = bytes_hex cs \<longleftrightarrow> bs = cs"
  by (metis fromhex_bytes_hex option.inject)

lemma length_bytes_hex [simp]: "length (bytes_hex bs) = 2 * length bs"
  by (induction bs) (simp_all add: bytes_hex_def byte_hex_def)

lemma lower_bytes_hex [simp]: "lower (bytes_hex bs) = bytes_hex bs"
  by (induction bs) (simp_all add: bytes_hex_def byte_hex_def lower_def byte_nibbles)

lemma set_bytes_hex: "c \<in> set (bytes_hex bs) \<Longrightarrow> c \<in> set hex_digits"
  by (induction bs) (auto simp: bytes_hex_def byte_hex_def byte_nibbles hex_digit_range)

lemma number_of_digits_bound:
  "\<forall>d \<in> set ds. d < base \<Longrightarrow> number_of_digits base ds < base ^ length ds"
proof (induction ds rule: rev_induct)
  case Nil
  then show ?case by (simp add: number_of_digits_def)
next
  case (snoc d ds)
  then have "number_of_digits base ds + 1 \<le> base ^ length ds" and "d < base" by auto
  then have "(number_of_digits base ds + 1) * base \<le> base ^ length ds * base"
    by (intro mult_right_mono) simp_all
  with \<open>d < base\<close> show ?case by (simp add: algebra_simps)
qed

lemma int_from_bytes_bounds:
  "0 \<le> int_from_bytes bs" "int_from_bytes bs < 256 ^ length bs"
proof -
  have "number_of_digits 256 (map unat bs) < 256 ^ length (map unat bs)"
    by (rule number_of_digits_bound) (auto simp: unat_byte_less)
  then have "int (number_of_digits 256 (map unat bs)) < int (256 ^ length bs)" by simp
  then show "int_from_bytes bs < 256 ^ length bs" by (simp add: int_from_bytes_def)
qed (simp add: int_from_bytes_def)

lemma int_from_to_bytes:
  assumes "0 \<le> n" and "n < 256 ^ w"
  shows "int_from_bytes (int_to_bytes w n) = n"
proof -
  have "map unat (map (of_nat :: nat \<Rightarrow> 8 word) (digits_of 256 w (nat n))) = digits_of 256 w (nat n)"
    by (rule map_idI [THEN trans [OF list.map_comp]])
      (use digits_of_less [of 256] in \<open>auto simp: unat_of_nat\<close>)
  moreover from assms have "nat n < 256 ^ w"
    by (metis nat_less_iff of_nat_numeral of_nat_power)
  ultimately show ?thesis
    using assms(1) by (simp add: int_from_bytes_def int_to_bytes_def number_of_digits_of)
qed

lemma length_int_to_bytes [simp]: "length (int_to_bytes w n) = w"
  by (simp add: int_to_bytes_def)

section \<open>Joining and splitting\<close>

text \<open>\<open>sep.join(parts)\<close> for a one-character separator, and the reading back at that separator.\<close>

fun join_with :: "char \<Rightarrow> string list \<Rightarrow> string" where
  "join_with sep [] = []"
| "join_with sep [p] = p"
| "join_with sep (p # ps) = p @ sep # join_with sep ps"

text \<open>\<open>text.partition(sep)\<close>: what precedes the first separator, and what follows it.\<close>

definition partition_at :: "char \<Rightarrow> string \<Rightarrow> string \<times> string" where
  "partition_at sep s =
     (takeWhile (\<lambda>c. c \<noteq> sep) s, drop 1 (dropWhile (\<lambda>c. c \<noteq> sep) s))"

text \<open>\<open>text.split()\<close>: the maximal runs of characters that are not white space.\<close>

definition is_white :: "char \<Rightarrow> bool" where
  "is_white c \<longleftrightarrow> ord_char c \<in> {9, 10, 11, 12, 13, 28, 29, 30, 31, 32, 133, 160}"

fun split_words_aux :: "string \<Rightarrow> string \<Rightarrow> string list" where
  "split_words_aux acc [] = (if acc = [] then [] else [rev acc])"
| "split_words_aux acc (c # cs) =
     (if is_white c then (if acc = [] then split_words_aux [] cs else rev acc # split_words_aux [] cs)
      else split_words_aux (c # acc) cs)"

definition split_words :: "string \<Rightarrow> string list" where
  "split_words s = split_words_aux [] s"

definition is_word :: "string \<Rightarrow> bool" where
  "is_word w \<longleftrightarrow> w \<noteq> [] \<and> (\<forall>c \<in> set w. \<not> is_white c)"

lemma split_words_aux_are_words:
  "\<forall>c \<in> set acc. \<not> is_white c \<Longrightarrow> list_all is_word (split_words_aux acc s)"
  by (induction acc s rule: split_words_aux.induct) (auto simp: is_word_def)

lemma split_words_are_words: "list_all is_word (split_words s)"
  by (simp add: split_words_def split_words_aux_are_words)

lemma split_words_aux_word:
  "\<forall>c \<in> set w. \<not> is_white c \<Longrightarrow> split_words_aux acc (w @ s) = split_words_aux (rev w @ acc) s"
  by (induction w arbitrary: acc) auto

text \<open>Joining words with single spaces and splitting again gives the words.\<close>

lemma is_white_space [simp]: "is_white (CHR '' '')"
  by (simp add: is_white_def)

lemma split_words_join: "list_all is_word ws \<Longrightarrow> split_words (join_with (CHR '' '') ws) = ws"
proof (induction ws)
  case (Cons w ws)
  then have "split_words_aux [] (w @ rest) = split_words_aux (rev w) rest" for rest
    by (simp add: is_word_def split_words_aux_word)
  from this [of "[]"] this [of "CHR '' '' # join_with (CHR '' '') ws"] Cons show ?case
    by (cases ws) (auto simp: split_words_def is_word_def)
qed (simp add: split_words_def)

lemma join_with_Cons_Cons [simp]:
  "ps \<noteq> [] \<Longrightarrow> join_with sep (p # ps) = p @ sep # join_with sep ps"
  by (cases ps) auto

text \<open>A first part without the separator is determined by the joined text.\<close>

lemma first_part_inject:
  assumes "sep \<notin> set p" and "sep \<notin> set q" and "p @ sep # s = q @ sep # t"
  shows "p = q \<and> s = t"
proof -
  from assms(1) have p: "takeWhile (\<lambda>c. c \<noteq> sep) (p @ sep # s) = p"
    by (simp add: takeWhile_append)
  from assms(2) have q: "takeWhile (\<lambda>c. c \<noteq> sep) (q @ sep # t) = q"
    by (simp add: takeWhile_append)
  have "p = q" using p q assms(3) by simp
  with assms(3) show ?thesis by simp
qed

lemma last_part_inject:
  assumes "sep \<notin> set p" and "sep \<notin> set q" and "s @ sep # p = t @ sep # q"
  shows "s = t \<and> p = q"
proof -
  from assms(3) have "rev (s @ sep # p) = rev (t @ sep # q)" by simp
  then have "rev p @ sep # rev s = rev q @ sep # rev t" by simp
  from first_part_inject [OF _ _ this] assms(1,2) show ?thesis by simp
qed

section \<open>Comparing secrets\<close>

text \<open>\<open>secrets.compare_digest\<close> on texts, which it only takes in ASCII.\<close>

definition compare_digest :: "string \<Rightarrow> string \<Rightarrow> bool outcome" where
  "compare_digest a b =
     (if is_ascii a \<and> is_ascii b then Inr (a = b)
      else Inl (TypeError ''comparing strings with non-ASCII characters is not supported''))"

section \<open>Instants as text\<close>

text \<open>
  \<open>datetime.isoformat()\<close> of an aware UTC instant: the proleptic Gregorian date of the day,
  the time of day, and the microseconds when they are not zero.
\<close>

definition padded :: "nat \<Rightarrow> int \<Rightarrow> string" where
  "padded width n =
     (let digits = str_int n in replicate (width - length digits) (CHR ''0'') @ digits)"

definition civil_date :: "int \<Rightarrow> int \<times> int \<times> int" where
  "civil_date days =
     (let z = days + 719468;
          era = z div 146097;
          doe = z mod 146097;
          yoe = (doe - doe div 1460 + doe div 36524 - doe div 146096) div 365;
          doy = doe - (365 * yoe + yoe div 4 - yoe div 100);
          mp = (5 * doy + 2) div 153;
          day = doy - (153 * mp + 2) div 5 + 1;
          month = (if mp < 10 then mp + 3 else mp - 9);
          year = yoe + era * 400 + (if month \<le> 2 then 1 else 0)
      in (year, month, day))"

definition isoformat :: "instant \<Rightarrow> string" where
  "isoformat t =
     (let (year, month, day) = civil_date (t div 86400000000);
          us = t mod 86400000000;
          sec = us div 1000000
      in padded 4 year @ ''-'' @ padded 2 month @ ''-'' @ padded 2 day @ ''T'' @
         padded 2 (sec div 3600) @ '':'' @ padded 2 (sec div 60 mod 60) @ '':'' @
         padded 2 (sec mod 60) @
         (if us mod 1000000 = 0 then [] else ''.'' @ padded 6 (us mod 1000000)) @ ''+00:00'')"

end
