(* ===== verification/Ids.thy ===== *)
theory Ids
  imports PyText
begin

text \<open>
  UUIDv7 identifiers (\<^verbatim>\<open>app/domain/ids.py\<close>) and the canonical text of a UUID. The clock reading
  (\<open>time.time_ns()\<close>) and the 74 random bits (\<open>secrets.randbits(74)\<close>) are arguments.
  The lemmas show the RFC 9562 field layout, that identifiers sort by the millisecond they were
  made in, that distinct inputs give distinct identifiers, and when generation overflows.
\<close>

unbundle bit_operations_syntax

section \<open>Generation\<close>

definition uuid7 :: "int \<Rightarrow> int \<Rightarrow> uuid outcome" where
  "uuid7 time_ns random_bits =
     (let timestamp_ms = time_ns div 1000000 in
      if push_bit 48 1 \<le> timestamp_ms
      then Inl (OverflowError ''Unix timestamp does not fit in UUIDv7's 48-bit field'')
      else
        let random_a = drop_bit 62 random_bits;
            random_b = random_bits AND (push_bit 62 1 - 1);
            val = push_bit 80 timestamp_ms OR push_bit 76 7 OR push_bit 64 random_a OR
              push_bit 62 2 OR random_b
        in if 0 \<le> val \<and> val < push_bit 128 1 then Inr val
           else Inl (ValueError ''int is out of range (need a 128-bit value)''))"

section \<open>Layout\<close>

text \<open>A left operand shifted past a short right operand is a sum.\<close>

lemma push_bit_or_low:
  fixes a b :: int
  assumes "0 \<le> b" and "b < 2 ^ n"
  shows "push_bit n a OR b = a * 2 ^ n + b"
proof -
  have b: "take_bit n b = b" using assms by (simp add: take_bit_int_eq_self)
  have "push_bit n a + b = push_bit n a OR b"
  proof (rule disjunctive_add)
    fix k
    show "\<not> bit (push_bit n a) k \<or> \<not> bit b k"
      by (subst b [symmetric]) (auto simp: bit_simps)
  qed
  then show ?thesis by (simp add: push_bit_eq_mult)
qed

definition uuid7_value :: "int \<Rightarrow> int \<Rightarrow> int" where
  "uuid7_value ms bits =
     ms * 2 ^ 80 + 7 * 2 ^ 76 + (bits div 2 ^ 62) * 2 ^ 64 + 2 * 2 ^ 62 + bits mod 2 ^ 62"

lemma uuid7_value_eq:
  assumes "0 \<le> bits" and "bits < 2 ^ 74"
  shows "push_bit 80 ms OR push_bit 76 7 OR push_bit 64 (drop_bit 62 bits) OR
      push_bit 62 2 OR (bits AND (push_bit 62 1 - 1)) = uuid7_value ms bits"
proof -
  have low: "bits AND (push_bit 62 1 - 1) = bits mod 2 ^ 62"
  proof -
    have "push_bit 62 1 - 1 = (mask 62 :: int)" by (simp add: mask_eq_exp_minus_1 push_bit_eq_mult)
    then show ?thesis by (simp only: take_bit_eq_mask [symmetric] take_bit_eq_mod)
  qed
  have a: "drop_bit 62 bits = bits div 2 ^ 62" by (simp add: drop_bit_eq_div)
  have a_bounds: "0 \<le> bits div 2 ^ 62" "bits div 2 ^ 62 < 2 ^ 12" using assms by simp_all
  have 1: "push_bit 62 2 OR bits mod 2 ^ 62 = 2 * 2 ^ 62 + bits mod 2 ^ 62"
    by (rule push_bit_or_low) simp_all
  have 2: "push_bit 64 (bits div 2 ^ 62) OR (2 * 2 ^ 62 + bits mod 2 ^ 62) =
      bits div 2 ^ 62 * 2 ^ 64 + (2 * 2 ^ 62 + bits mod 2 ^ 62)"
    by (rule push_bit_or_low) simp_all
  have 3: "push_bit 76 7 OR (bits div 2 ^ 62 * 2 ^ 64 + (2 * 2 ^ 62 + bits mod 2 ^ 62)) =
      7 * 2 ^ 76 + (bits div 2 ^ 62 * 2 ^ 64 + (2 * 2 ^ 62 + bits mod 2 ^ 62))"
    by (rule push_bit_or_low) (use a_bounds in simp_all)
  have 4: "push_bit 80 ms OR
      (7 * 2 ^ 76 + (bits div 2 ^ 62 * 2 ^ 64 + (2 * 2 ^ 62 + bits mod 2 ^ 62))) =
      ms * 2 ^ 80 + (7 * 2 ^ 76 + (bits div 2 ^ 62 * 2 ^ 64 + (2 * 2 ^ 62 + bits mod 2 ^ 62)))"
    by (rule push_bit_or_low) (use a_bounds in simp_all)
  show ?thesis by (simp only: low a or.assoc 1 2 3 4 uuid7_value_def add.assoc)
qed

lemma uuid7_value_bounds:
  assumes "0 \<le> ms" and "ms < 2 ^ 48" and "0 \<le> bits" and "bits < 2 ^ 74"
  shows "0 \<le> uuid7_value ms bits" and "uuid7_value ms bits < 2 ^ 128"
  using assms by (simp_all add: uuid7_value_def)

lemma uuid7_eq:
  assumes "0 \<le> time_ns" and "0 \<le> bits" and "bits < 2 ^ 74"
  shows "uuid7 time_ns bits =
    (if 2 ^ 48 \<le> time_ns div 1000000
     then Inl (OverflowError ''Unix timestamp does not fit in UUIDv7's 48-bit field'')
     else Inr (uuid7_value (time_ns div 1000000) bits))"
proof -
  have p: "push_bit 48 1 = (2 ^ 48 :: int)" "push_bit 128 1 = (2 ^ 128 :: int)"
    by (simp_all add: push_bit_eq_mult)
  show ?thesis
    using assms uuid7_value_bounds [of "time_ns div 1000000" bits]
    by (simp only: uuid7_def Let_def uuid7_value_eq p) auto
qed

lemma uuid7_InrD:
  assumes "uuid7 time_ns bits = Inr v" and "0 \<le> time_ns" and "0 \<le> bits" and "bits < 2 ^ 74"
  shows "v = uuid7_value (time_ns div 1000000) bits \<and> time_ns div 1000000 < 2 ^ 48"
  using assms by (auto simp: uuid7_eq split: if_splits)

lemma div_high_field:
  fixes q r :: int
  shows "0 \<le> r \<Longrightarrow> r < 2 ^ n \<Longrightarrow> (q * 2 ^ n + r) div 2 ^ n = q"
  by simp

lemma uuid7_value_fields:
  assumes "0 \<le> bits" and "bits < 2 ^ 74"
  shows "uuid7_value ms bits div 2 ^ 80 = ms"
    and "uuid7_value ms bits div 2 ^ 76 mod 16 = 7"
    and "uuid7_value ms bits div 2 ^ 64 mod 2 ^ 12 = bits div 2 ^ 62"
    and "uuid7_value ms bits div 2 ^ 62 mod 4 = 2"
    and "uuid7_value ms bits mod 2 ^ 62 = bits mod 2 ^ 62"
proof -
  define a where "a = bits div 2 ^ 62"
  define b where "b = bits mod 2 ^ 62"
  have ab: "0 \<le> a" "a < 2 ^ 12" "0 \<le> b" "b < 2 ^ 62" using assms by (simp_all add: a_def b_def)
  have v: "uuid7_value ms bits = ms * 2 ^ 80 + 7 * 2 ^ 76 + a * 2 ^ 64 + 2 * 2 ^ 62 + b"
    by (simp add: uuid7_value_def a_def b_def)
  have v76: "uuid7_value ms bits = (ms * 16 + 7) * 2 ^ 76 + (a * 2 ^ 64 + 2 * 2 ^ 62 + b)"
    and v64: "uuid7_value ms bits = ((ms * 16 + 7) * 2 ^ 12 + a) * 2 ^ 64 + (2 * 2 ^ 62 + b)"
    and v62: "uuid7_value ms bits = (((ms * 16 + 7) * 2 ^ 12 + a) * 4 + 2) * 2 ^ 62 + b"
    by (simp_all add: v)
  have q76: "uuid7_value ms bits div 2 ^ 76 = ms * 16 + 7"
    unfolding v76 by (rule div_high_field) (use ab in simp_all)
  have q64: "uuid7_value ms bits div 2 ^ 64 = (ms * 16 + 7) * 2 ^ 12 + a"
    unfolding v64 by (rule div_high_field) (use ab in simp_all)
  have q62: "uuid7_value ms bits div 2 ^ 62 = ((ms * 16 + 7) * 2 ^ 12 + a) * 4 + 2"
    unfolding v62 by (rule div_high_field) (use ab in simp_all)
  show "uuid7_value ms bits div 2 ^ 80 = ms" using ab by (simp add: v)
  show "uuid7_value ms bits div 2 ^ 76 mod 16 = 7" unfolding q76 by presburger
  show "uuid7_value ms bits div 2 ^ 64 mod 2 ^ 12 = bits div 2 ^ 62"
    unfolding q64 a_def [symmetric] mod_mult_self3 using ab by (simp only: mod_pos_pos_trivial)
  show "uuid7_value ms bits div 2 ^ 62 mod 4 = 2" unfolding q62 mod_mult_self3 by simp
  show "uuid7_value ms bits mod 2 ^ 62 = bits mod 2 ^ 62"
    unfolding v62 b_def [symmetric] mod_mult_self3 using ab by (simp only: mod_pos_pos_trivial)
qed

section \<open>Order and uniqueness\<close>

lemma uuid7_value_less:
  assumes "ms < ms'" and "0 \<le> bits" "bits < 2 ^ 74" and "0 \<le> bits'" "bits' < 2 ^ 74"
  shows "uuid7_value ms bits < uuid7_value ms' bits'"
proof (rule ccontr)
  assume "\<not> uuid7_value ms bits < uuid7_value ms' bits'"
  then have "uuid7_value ms' bits' div 2 ^ 80 \<le> uuid7_value ms bits div 2 ^ 80"
    by (intro zdiv_mono1) simp_all
  with assms show False by (simp only: uuid7_value_fields)
qed

lemma uuid7_value_inject:
  assumes "uuid7_value ms bits = uuid7_value ms' bits'"
    and "0 \<le> bits" "bits < 2 ^ 74" and "0 \<le> bits'" "bits' < 2 ^ 74"
  shows "ms = ms' \<and> bits = bits'"
proof -
  note f = uuid7_value_fields [of bits ms, OF assms(2,3)]
  note f' = uuid7_value_fields [of bits' ms', OF assms(4,5)]
  have "ms = ms'" using f(1) f'(1) assms(1) by simp
  moreover have "bits div 2 ^ 62 = bits' div 2 ^ 62" using f(3) f'(3) assms(1) by simp
  moreover have "bits mod 2 ^ 62 = bits' mod 2 ^ 62" using f(5) f'(5) assms(1) by simp
  ultimately show ?thesis by (metis div_mult_mod_eq)
qed

section \<open>Canonical text\<close>

text \<open>\<open>str(uuid)\<close>: 32 lower-case hexadecimal digits in groups of 8, 4, 4, 4 and 12.\<close>

definition uuid_str :: "uuid \<Rightarrow> string" where
  "uuid_str u =
     (let h = map hex_digit (digits_of 16 32 (nat u)) in
      take 8 h @ ''-'' @ take 4 (drop 8 h) @ ''-'' @ take 4 (drop 12 h) @ ''-'' @
      take 4 (drop 16 h) @ ''-'' @ drop 20 h)"

lemma length_uuid_str [simp]: "length (uuid_str u) = 36"
  by (simp add: uuid_str_def Let_def)

lemma set_uuid_str: "c \<in> set (uuid_str u) \<Longrightarrow> c \<in> set hex_digits \<or> c = CHR ''-''"
proof -
  assume "c \<in> set (uuid_str u)"
  then have "c \<in> hex_digit ` set (digits_of 16 32 (nat u)) \<or> c = CHR ''-''"
    unfolding uuid_str_def Let_def set_append
    by (auto dest!: in_set_takeD in_set_dropD simp del: digits_of.simps)
  then show ?thesis
    using digits_of_less [of 16] by (auto intro: hex_digit_range)
qed

lemma uuid_str_inject:
  assumes "0 \<le> u" "u < 2 ^ 128" and "0 \<le> v" "v < 2 ^ 128"
  shows "uuid_str u = uuid_str v \<longleftrightarrow> u = v"
proof
  assume eq: "uuid_str u = uuid_str v"
  define g where "g = map hex_digit (digits_of 16 32 (nat u))"
  define h where "h = map hex_digit (digits_of 16 32 (nat v))"
  have len: "length g = 32" "length h = 32" by (simp_all add: g_def h_def)
  have "take 8 g = take 8 h \<and> take 4 (drop 8 g) = take 4 (drop 8 h) \<and>
      take 4 (drop 12 g) = take 4 (drop 12 h) \<and> take 4 (drop 16 g) = take 4 (drop 16 h) \<and>
      drop 20 g = drop 20 h"
    using eq len by (simp add: uuid_str_def Let_def flip: g_def h_def)
  moreover have parts: "xs = take 8 xs @ take 4 (drop 8 xs) @ take 4 (drop 12 xs) @
      take 4 (drop 16 xs) @ drop 20 xs" for xs :: string
    using take_add [of 8 4 xs] take_add [of 12 4 xs] take_add [of 16 4 xs]
      append_take_drop_id [of 20 xs] by simp
  ultimately have "g = h" by (metis parts)
  moreover have "inj_on hex_digit (set (digits_of 16 32 (nat u)) \<union> set (digits_of 16 32 (nat v)))"
    using digits_of_less [of 16] by (auto intro!: inj_onI simp: hex_digit_inject)
  ultimately have "digits_of 16 32 (nat u) = digits_of 16 32 (nat v)"
    unfolding g_def h_def by (metis map_inj_on)
  moreover have "nat u < 16 ^ 32" "nat v < 16 ^ 32" using assms by simp_all
  ultimately show "u = v" using assms by (simp add: digits_of_inject)
qed simp

end
