(* ===== verification/AccessContext.thy ===== *)
theory AccessContext
  imports Enums Ids
begin

text \<open>
  Identities, request contexts and authorization guards
  (\<^verbatim>\<open>app/application/access/context.py\<close>). A guard answers nothing or raises the access error
  its method raises. The lemmas evaluate every guard on each of its branches.
\<close>

section \<open>Identity\<close>

record telegram_identity =
  identity_telegram_user_id :: int
  identity_chat_id :: int
  identity_chat_type :: string
  identity_username :: "string option"
  identity_display_name :: "string option"

definition is_private_chat :: "telegram_identity \<Rightarrow> bool" where
  "is_private_chat identity \<longleftrightarrow>
     identity_chat_type identity = ''private'' \<and>
     identity_chat_id identity = identity_telegram_user_id identity"

definition identity_require_private_chat :: "telegram_identity \<Rightarrow> unit outcome" where
  "identity_require_private_chat identity =
     (if \<not> is_private_chat identity
      then Inl (AccessFailure PrivateChatRequired
        ''This action is available only in a private bot chat.'')
      else Inr ())"

section \<open>Request context\<close>

record request_context =
  ctx_telegram_user_id :: int
  ctx_chat_id :: int
  ctx_chat_type :: string
  ctx_correlation_id :: uuid
  ctx_user_id :: "uuid option"
  ctx_workspace_id :: "uuid option"
  ctx_workspace_role :: "workspace_role option"
  ctx_platform_role :: "platform_role option"

text \<open>The fresh correlation id is an argument.\<close>

definition platform_owner_context :: "uuid \<Rightarrow> telegram_identity \<Rightarrow> request_context" where
  "platform_owner_context correlation_id identity =
     \<lparr> ctx_telegram_user_id = identity_telegram_user_id identity,
       ctx_chat_id = identity_chat_id identity,
       ctx_chat_type = identity_chat_type identity,
       ctx_correlation_id = correlation_id,
       ctx_user_id = None,
       ctx_workspace_id = None,
       ctx_workspace_role = None,
       ctx_platform_role = Some PlatformRole_PLATFORM_OWNER \<rparr>"

definition is_platform_owner :: "request_context \<Rightarrow> bool" where
  "is_platform_owner ctx \<longleftrightarrow> ctx_platform_role ctx = Some PlatformRole_PLATFORM_OWNER"

definition require_private_chat :: "request_context \<Rightarrow> unit outcome" where
  "require_private_chat ctx =
     identity_require_private_chat
       \<lparr> identity_telegram_user_id = ctx_telegram_user_id ctx,
         identity_chat_id = ctx_chat_id ctx,
         identity_chat_type = ctx_chat_type ctx,
         identity_username = None,
         identity_display_name = None \<rparr>"

definition require_platform_owner :: "request_context \<Rightarrow> unit outcome" where
  "require_platform_owner ctx =
     attempt (require_private_chat ctx) (\<lambda>_.
       if \<not> is_platform_owner ctx
       then Inl (AccessFailure PlatformOwnerRequired ''Platform-owner authorization is required.'')
       else Inr ())"

definition require_workspace :: "request_context \<Rightarrow> uuid outcome" where
  "require_workspace ctx =
     attempt (require_private_chat ctx) (\<lambda>_.
       case ctx_workspace_id ctx of
         None \<Rightarrow> Inl (AccessFailure WorkspaceRequired ''An active workspace is required.'')
       | Some workspace_id \<Rightarrow> Inr workspace_id)"

section \<open>The guards on each branch\<close>

definition private_context :: "request_context \<Rightarrow> bool" where
  "private_context ctx \<longleftrightarrow>
     ctx_chat_type ctx = ''private'' \<and> ctx_chat_id ctx = ctx_telegram_user_id ctx"

lemma identity_require_private_chat_ok [guard_simps]:
  "is_private_chat identity \<Longrightarrow> identity_require_private_chat identity = Inr ()"
  by (simp add: identity_require_private_chat_def)

lemma identity_require_private_chat_InrD:
  "identity_require_private_chat identity = Inr u \<Longrightarrow> is_private_chat identity"
  by (simp add: identity_require_private_chat_def split: if_splits)

lemma require_private_chat_ok [guard_simps]:
  "private_context ctx \<Longrightarrow> require_private_chat ctx = Inr ()"
  by (simp add: require_private_chat_def private_context_def identity_require_private_chat_def
      is_private_chat_def)

lemma require_private_chat_iff: "require_private_chat ctx = Inr u \<longleftrightarrow> private_context ctx"
  by (simp add: require_private_chat_def private_context_def identity_require_private_chat_def
      is_private_chat_def)

lemma require_platform_owner_iff:
  "require_platform_owner ctx = Inr u \<longleftrightarrow> private_context ctx \<and> is_platform_owner ctx"
  by (auto simp: require_platform_owner_def attempt_eq_Inr_iff require_private_chat_iff)

lemma require_platform_owner_ok [guard_simps]:
  "private_context ctx \<Longrightarrow> is_platform_owner ctx \<Longrightarrow> require_platform_owner ctx = Inr ()"
  by (simp add: require_platform_owner_def guard_simps)

lemma require_workspace_iff:
  "require_workspace ctx = Inr w \<longleftrightarrow> private_context ctx \<and> ctx_workspace_id ctx = Some w"
  by (auto simp: require_workspace_def attempt_eq_Inr_iff require_private_chat_iff
      split: option.splits)

lemma require_workspace_ok [guard_simps]:
  "private_context ctx \<Longrightarrow> ctx_workspace_id ctx = Some w \<Longrightarrow> require_workspace ctx = Inr w"
  by (simp add: require_workspace_iff)

text \<open>Everything a guard raises is an access error, which the handlers catch.\<close>

lemma require_platform_owner_InlD:
  "require_platform_owner ctx = Inl e \<Longrightarrow> is_access_error e"
  by (auto simp: require_platform_owner_def require_private_chat_def
      identity_require_private_chat_def split: if_splits)

lemma require_workspace_InlD: "require_workspace ctx = Inl e \<Longrightarrow> is_access_error e"
  by (auto simp: require_workspace_def require_private_chat_def
      identity_require_private_chat_def split: if_splits option.splits)

end
