(* ===== verification/AccessStore.thy ===== *)
theory AccessStore
  imports AccessContext
begin

text \<open>
  The access-control tables (\<^verbatim>\<open>app/infrastructure/db/models/access.py\<close>), the row-level policies
  of migration 0001, and the repository that works on them
  (\<^verbatim>\<open>app/infrastructure/db/repositories/access.py\<close>). Every repository method is one
  transaction: a function on the database that answers a value and the state to commit, or an
  exception, in which case nothing is committed. The rows a method locks with
  \<open>FOR UPDATE\<close> stay locked to its end, so methods act one after the other. Fresh row ids and
  the clock are arguments; the columns \<open>created_at\<close>, \<open>updated_at\<close> and
  \<open>occurred_at\<close>, which the database fills and no code reads, are left out.
\<close>

section \<open>Rows\<close>

record platform_user =
  user_id :: uuid
  user_telegram_user_id :: int
  user_username :: "string option"
  user_display_name :: "string option"
  user_status :: user_status
  user_approved_at :: instant
  user_approved_by_user_id :: "uuid option"
  user_revoked_at :: "instant option"
  user_revoked_by_user_id :: "uuid option"

record access_request =
  request_id :: uuid
  request_telegram_user_id :: int
  request_username :: "string option"
  request_display_name :: "string option"
  request_status :: access_request_status
  request_requested_at :: instant
  request_decided_at :: "instant option"
  request_decided_by_user_id :: "uuid option"
  request_decision_reason :: "string option"
  request_cooldown_until :: "instant option"

record workspace =
  workspace_id :: uuid
  workspace_name :: string
  workspace_personal_owner_user_id :: uuid
  workspace_status :: workspace_status

record workspace_membership =
  membership_id :: uuid
  membership_workspace_id :: uuid
  membership_user_id :: uuid
  membership_role :: workspace_role
  membership_status :: membership_status
  membership_revoked_at :: "instant option"

record notification_destination =
  destination_id :: uuid
  destination_workspace_id :: uuid
  destination_telegram_chat_id :: int
  destination_chat_type :: string
  destination_enabled :: bool

record workspace_strategy =
  strategy_id :: uuid
  strategy_workspace_id :: uuid
  strategy_version :: int
  strategy_mode :: execution_mode
  strategy_configuration :: json
  strategy_active :: bool

record audit_log =
  audit_id :: uuid
  audit_workspace_id :: "uuid option"
  audit_actor_type :: actor_type
  audit_actor_id :: string
  audit_action :: string
  audit_resource_type :: string
  audit_resource_id :: string
  audit_before :: "json option"
  audit_after :: "json option"
  audit_correlation_id :: uuid
  audit_severity :: severity

text \<open>
  The database. \<open>reads_back\<close> says whether the object mapper, after an insert, reads the
  columns the server filled back with \<open>RETURNING\<close>, in which case PostgreSQL also applies the
  table's select policy to the new row. It is a setting of the library, not of this code.
\<close>

record access_db =
  platform_users :: "platform_user list"
  access_requests :: "access_request list"
  workspaces :: "workspace list"
  workspace_memberships :: "workspace_membership list"
  notification_destinations :: "notification_destination list"
  workspace_strategies :: "workspace_strategy list"
  audit_logs :: "audit_log list"
  reads_back :: bool

section \<open>Constraints\<close>

definition platform_user_clash :: "platform_user \<Rightarrow> platform_user \<Rightarrow> bool" where
  "platform_user_clash r r' \<longleftrightarrow>
     user_id r = user_id r' \<or> user_telegram_user_id r = user_telegram_user_id r'"

definition is_pending :: "access_request \<Rightarrow> bool" where
  "is_pending r \<longleftrightarrow> request_status r = AccessRequestStatus_PENDING"

text \<open>The partial unique index: one pending request per Telegram user.\<close>

definition one_pending_target :: "access_request \<Rightarrow> access_request \<Rightarrow> bool" where
  "one_pending_target r r' \<longleftrightarrow>
     is_pending r \<and> is_pending r' \<and> request_telegram_user_id r = request_telegram_user_id r'"

definition access_request_clash :: "access_request \<Rightarrow> access_request \<Rightarrow> bool" where
  "access_request_clash r r' \<longleftrightarrow> request_id r = request_id r' \<or> one_pending_target r r'"

definition workspace_clash :: "workspace \<Rightarrow> workspace \<Rightarrow> bool" where
  "workspace_clash r r' \<longleftrightarrow>
     workspace_id r = workspace_id r' \<or>
     workspace_personal_owner_user_id r = workspace_personal_owner_user_id r'"

definition workspace_membership_clash ::
  "workspace_membership \<Rightarrow> workspace_membership \<Rightarrow> bool" where
  "workspace_membership_clash r r' \<longleftrightarrow>
     membership_id r = membership_id r' \<or>
     membership_workspace_id r = membership_workspace_id r' \<and>
     membership_user_id r = membership_user_id r'"

definition notification_destination_clash ::
  "notification_destination \<Rightarrow> notification_destination \<Rightarrow> bool" where
  "notification_destination_clash r r' \<longleftrightarrow>
     destination_id r = destination_id r' \<or>
     destination_workspace_id r = destination_workspace_id r' \<and>
     destination_telegram_chat_id r = destination_telegram_chat_id r'"

definition workspace_strategy_clash :: "workspace_strategy \<Rightarrow> workspace_strategy \<Rightarrow> bool" where
  "workspace_strategy_clash r r' \<longleftrightarrow>
     strategy_id r = strategy_id r' \<or>
     strategy_workspace_id r = strategy_workspace_id r' \<and>
     strategy_version r = strategy_version r'"

definition audit_log_clash :: "audit_log \<Rightarrow> audit_log \<Rightarrow> bool" where
  "audit_log_clash r r' \<longleftrightarrow> audit_id r = audit_id r'"

text \<open>The widths of the text columns.\<close>

definition platform_user_fits :: "platform_user \<Rightarrow> bool" where
  "platform_user_fits r \<longleftrightarrow>
     fits_column 64 (user_username r) \<and> fits_column 255 (user_display_name r)"

definition access_request_fits :: "access_request \<Rightarrow> bool" where
  "access_request_fits r \<longleftrightarrow>
     fits_column 64 (request_username r) \<and> fits_column 255 (request_display_name r)"

definition workspace_fits :: "workspace \<Rightarrow> bool" where
  "workspace_fits r \<longleftrightarrow> length (workspace_name r) \<le> 120"

definition notification_destination_fits :: "notification_destination \<Rightarrow> bool" where
  "notification_destination_fits r \<longleftrightarrow> length (destination_chat_type r) \<le> 16"

definition audit_log_fits :: "audit_log \<Rightarrow> bool" where
  "audit_log_fits r \<longleftrightarrow>
     length (audit_actor_id r) \<le> 128 \<and> length (audit_action r) \<le> 128 \<and>
     length (audit_resource_type r) \<le> 64 \<and> length (audit_resource_id r) \<le> 128"

section \<open>Row-level policies\<close>

text \<open>The transaction-local settings \<open>app.user_id\<close> and \<open>app.workspace_id\<close>.\<close>

record tenant_session =
  session_user_id :: "uuid option"
  session_workspace_id :: "uuid option"

definition empty_session :: tenant_session where
  "empty_session = \<lparr> session_user_id = None, session_workspace_id = None \<rparr>"

definition set_user_context :: "uuid \<Rightarrow> tenant_session \<Rightarrow> tenant_session" where
  "set_user_context uid s = s\<lparr> session_user_id := Some uid \<rparr>"

definition set_workspace_context :: "uuid \<Rightarrow> tenant_session \<Rightarrow> tenant_session" where
  "set_workspace_context wid s = s\<lparr> session_workspace_id := Some wid \<rparr>"

text \<open>The policy that \<open>enable_workspace_rls\<close> creates, for reading and for writing.\<close>

definition workspace_isolation :: "tenant_session \<Rightarrow> uuid \<Rightarrow> uuid option \<Rightarrow> bool" where
  "workspace_isolation s workspace_column user_column \<longleftrightarrow>
     session_workspace_id s = Some workspace_column \<or>
     (user_column \<noteq> None \<and> session_user_id s = user_column)"

definition workspace_policy :: "tenant_session \<Rightarrow> workspace \<Rightarrow> bool" where
  "workspace_policy s r =
     workspace_isolation s (workspace_id r) (Some (workspace_personal_owner_user_id r))"

definition membership_policy :: "tenant_session \<Rightarrow> workspace_membership \<Rightarrow> bool" where
  "membership_policy s r =
     workspace_isolation s (membership_workspace_id r) (Some (membership_user_id r))"

definition destination_policy :: "tenant_session \<Rightarrow> notification_destination \<Rightarrow> bool" where
  "destination_policy s r = workspace_isolation s (destination_workspace_id r) None"

definition strategy_policy :: "tenant_session \<Rightarrow> workspace_strategy \<Rightarrow> bool" where
  "strategy_policy s r = workspace_isolation s (strategy_workspace_id r) None"

definition audit_select_policy :: "tenant_session \<Rightarrow> audit_log \<Rightarrow> bool" where
  "audit_select_policy s r \<longleftrightarrow>
     audit_workspace_id r \<noteq> None \<and> audit_workspace_id r = session_workspace_id s"

definition audit_insert_policy :: "tenant_session \<Rightarrow> audit_log \<Rightarrow> bool" where
  "audit_insert_policy s r \<longleftrightarrow>
     audit_workspace_id r = None \<or> audit_workspace_id r = session_workspace_id s"

section \<open>Reading\<close>

record principal =
  principal_user_id :: uuid
  principal_telegram_user_id :: int
  principal_user_status :: user_status
  principal_workspace_id :: "uuid option"
  principal_workspace_role :: "workspace_role option"

record access_request_record =
  record_id :: uuid
  record_telegram_user_id :: int
  record_status :: access_request_status
  record_requested_at :: instant
  record_cooldown_until :: "instant option"

record pending_request_result =
  pending_record :: access_request_record
  pending_created :: bool

record access_decision_result =
  decision_request_id :: uuid
  decision_telegram_user_id :: int
  decision_status :: access_request_status
  decision_user_id :: "uuid option"
  decision_workspace_id :: "uuid option"

definition request_record :: "access_request \<Rightarrow> access_request_record" where
  "request_record r =
     \<lparr> record_id = request_id r,
       record_telegram_user_id = request_telegram_user_id r,
       record_status = request_status r,
       record_requested_at = request_requested_at r,
       record_cooldown_until = request_cooldown_until r \<rparr>"

text \<open>
  The join of \<open>find_principal\<close>: the active memberships of the user in active workspaces, as
  far as the policies show them, of which the query keeps one.
\<close>

definition active_membership :: "tenant_session \<Rightarrow> uuid \<Rightarrow> workspace_membership \<times> workspace \<Rightarrow> bool" where
  "active_membership s uid = (\<lambda>(m, w).
     membership_policy s m \<and> workspace_policy s w \<and>
     workspace_id w = membership_workspace_id m \<and>
     membership_user_id m = uid \<and>
     membership_status m = MembershipStatus_ACTIVE \<and>
     workspace_status w = WorkspaceStatus_ACTIVE)"

definition find_principal :: "int \<Rightarrow> access_db \<Rightarrow> principal option" where
  "find_principal telegram_user_id db =
     (case select_one (\<lambda>u. user_telegram_user_id u = telegram_user_id) (platform_users db) of
        None \<Rightarrow> None
      | Some user \<Rightarrow>
          (let s = set_user_context (user_id user) empty_session;
               membership = select_one (active_membership s (user_id user))
                 (List.product (workspace_memberships db) (workspaces db))
           in Some
             \<lparr> principal_user_id = user_id user,
               principal_telegram_user_id = user_telegram_user_id user,
               principal_user_status = user_status user,
               principal_workspace_id = map_option (\<lambda>(m, w). membership_workspace_id m) membership,
               principal_workspace_role = map_option (\<lambda>(m, w). membership_role m) membership \<rparr>))"

text \<open>
  The newest request; of two with the same instant, which the query leaves open, the older row.
\<close>

fun newest :: "access_request list \<Rightarrow> access_request option" where
  "newest [] = None"
| "newest (r # rows) =
     (case newest rows of
        None \<Rightarrow> Some r
      | Some r' \<Rightarrow>
          if request_requested_at r < request_requested_at r' then Some r' else Some r)"

definition find_latest_request :: "int \<Rightarrow> access_db \<Rightarrow> access_request_record option" where
  "find_latest_request telegram_user_id db =
     map_option request_record
       (newest (filter (\<lambda>r. request_telegram_user_id r = telegram_user_id) (access_requests db)))"

definition list_pending_requests :: "nat \<Rightarrow> access_db \<Rightarrow> access_request_record list" where
  "list_pending_requests limit db =
     map request_record
       (take limit (sort_key request_requested_at (filter is_pending (access_requests db))))"

section \<open>Requesting access\<close>

definition new_request :: "telegram_identity \<Rightarrow> instant \<Rightarrow> uuid \<Rightarrow> access_request" where
  "new_request identity requested_at new_id =
     \<lparr> request_id = new_id,
       request_telegram_user_id = identity_telegram_user_id identity,
       request_username = identity_username identity,
       request_display_name = identity_display_name identity,
       request_status = AccessRequestStatus_PENDING,
       request_requested_at = requested_at,
       request_decided_at = None,
       request_decided_by_user_id = None,
       request_decision_reason = None,
       request_cooldown_until = None \<rparr>"

definition get_or_create_pending_request ::
  "telegram_identity \<Rightarrow> instant \<Rightarrow> uuid \<Rightarrow> access_db \<Rightarrow>
     (pending_request_result \<times> access_db) outcome"
where
  "get_or_create_pending_request identity requested_at new_id db =
     (let row = new_request identity requested_at new_id in
      if \<not> access_request_fits row then Inl DataError
      else attempt (insert_or_nothing one_pending_target access_request_clash row
          (access_requests db)) (\<lambda>(created, rows).
        case created of
          Some r \<Rightarrow> Inr (\<lparr> pending_record = request_record r, pending_created = True \<rparr>,
            db\<lparr> access_requests := rows \<rparr>)
        | None \<Rightarrow>
            (case select_one (\<lambda>r. request_telegram_user_id r = identity_telegram_user_id identity \<and>
                is_pending r) rows of
               None \<Rightarrow> Inl (AccessPersistenceError
                 ''pending access request conflict was not recoverable'')
             | Some r \<Rightarrow> Inr (\<lparr> pending_record = request_record r, pending_created = False \<rparr>, db))))"

section \<open>Deciding\<close>

definition reactivated :: "platform_user \<Rightarrow> platform_user" where
  "reactivated u =
     (if user_status u \<noteq> UserStatus_ACTIVE
      then u\<lparr> user_status := UserStatus_ACTIVE, user_revoked_at := None,
              user_revoked_by_user_id := None \<rparr>
      else u)"

definition platform_actor ::
  "int \<Rightarrow> instant \<Rightarrow> uuid \<Rightarrow> access_db \<Rightarrow> (platform_user \<times> access_db) outcome"
where
  "platform_actor telegram_user_id now new_id db =
     (case select_one (\<lambda>u. user_telegram_user_id u = telegram_user_id) (platform_users db) of
        Some actor \<Rightarrow>
          Inr (reactivated actor,
            db\<lparr> platform_users :=
              update_rows (\<lambda>u. user_id u = user_id actor) reactivated (platform_users db) \<rparr>)
      | None \<Rightarrow>
          (let actor =
             \<lparr> user_id = new_id,
               user_telegram_user_id = telegram_user_id,
               user_username = None,
               user_display_name = None,
               user_status = UserStatus_ACTIVE,
               user_approved_at = now,
               user_approved_by_user_id = None,
               user_revoked_at = None,
               user_revoked_by_user_id = None \<rparr>
           in attempt (insert_checked platform_user_fits (\<lambda>_. True) platform_user_clash actor
                (platform_users db)) (\<lambda>rows.
                Inr (actor, db\<lparr> platform_users := rows \<rparr>))))"

definition approved_again :: "access_request \<Rightarrow> uuid \<Rightarrow> instant \<Rightarrow> platform_user \<Rightarrow> platform_user" where
  "approved_again req actor_id decided_at u =
     u\<lparr> user_username := request_username req,
        user_display_name := request_display_name req,
        user_status := UserStatus_ACTIVE,
        user_approved_at := decided_at,
        user_approved_by_user_id := Some actor_id,
        user_revoked_at := None,
        user_revoked_by_user_id := None \<rparr>"

definition approved_user ::
  "access_request \<Rightarrow> uuid \<Rightarrow> instant \<Rightarrow> uuid \<Rightarrow> access_db \<Rightarrow> (platform_user \<times> access_db) outcome"
where
  "approved_user req actor_id decided_at new_id db =
     (case select_one (\<lambda>u. user_telegram_user_id u = request_telegram_user_id req)
         (platform_users db) of
        None \<Rightarrow>
          (let user =
             \<lparr> user_id = new_id,
               user_telegram_user_id = request_telegram_user_id req,
               user_username = request_username req,
               user_display_name = request_display_name req,
               user_status = UserStatus_ACTIVE,
               user_approved_at = decided_at,
               user_approved_by_user_id = Some actor_id,
               user_revoked_at = None,
               user_revoked_by_user_id = None \<rparr>
           in attempt (insert_checked platform_user_fits (\<lambda>_. True) platform_user_clash user
                (platform_users db)) (\<lambda>rows.
                Inr (user, db\<lparr> platform_users := rows \<rparr>)))
      | Some u \<Rightarrow>
          Inr (approved_again req actor_id decided_at u,
            db\<lparr> platform_users :=
              update_rows (\<lambda>u'. user_id u' = user_id u) (approved_again req actor_id decided_at)
                (platform_users db) \<rparr>))"

text \<open>Python's \<open>or\<close> on optional text: the empty text counts as absent.\<close>

fun text_or :: "string option \<Rightarrow> string \<Rightarrow> string" where
  "text_or None other = other"
| "text_or (Some s) other = (if s = [] then other else s)"

definition workspace_label :: "platform_user \<Rightarrow> string" where
  "workspace_label user =
     text_or (user_display_name user)
       (text_or (user_username user) (str_int (user_telegram_user_id user)))"

definition personal_workspace ::
  "tenant_session \<Rightarrow> platform_user \<Rightarrow> uuid \<Rightarrow> access_db \<Rightarrow> (workspace \<times> access_db) outcome"
where
  "personal_workspace s user new_id db =
     (case select_one (\<lambda>w. workspace_policy s w \<and>
         workspace_personal_owner_user_id w = user_id user) (workspaces db) of
        None \<Rightarrow>
          (let workspace =
             \<lparr> workspace_id = new_id,
               workspace_name = workspace_label user @ '''s workspace'',
               workspace_personal_owner_user_id = user_id user,
               workspace_status = WorkspaceStatus_ACTIVE \<rparr>
           in attempt (insert_checked workspace_fits (workspace_policy s) workspace_clash workspace
                (workspaces db)) (\<lambda>rows.
                Inr (workspace, db\<lparr> workspaces := rows \<rparr>)))
      | Some w \<Rightarrow>
          Inr (w\<lparr> workspace_status := WorkspaceStatus_ACTIVE \<rparr>,
            db\<lparr> workspaces :=
              update_rows (\<lambda>w'. workspace_policy s w' \<and> workspace_id w' = workspace_id w)
                (\<lambda>w'. w'\<lparr> workspace_status := WorkspaceStatus_ACTIVE \<rparr>) (workspaces db) \<rparr>))"

definition open_membership ::
  "tenant_session \<Rightarrow> workspace \<Rightarrow> platform_user \<Rightarrow> uuid \<Rightarrow> access_db \<Rightarrow> access_db outcome"
where
  "open_membership s workspace user new_id db =
     (case select_one (\<lambda>m. membership_policy s m \<and>
         membership_workspace_id m = workspace_id workspace \<and>
         membership_user_id m = user_id user) (workspace_memberships db) of
        None \<Rightarrow>
          attempt (insert_checked (\<lambda>_. True) (membership_policy s) workspace_membership_clash
            \<lparr> membership_id = new_id,
              membership_workspace_id = workspace_id workspace,
              membership_user_id = user_id user,
              membership_role = WorkspaceRole_OWNER,
              membership_status = MembershipStatus_ACTIVE,
              membership_revoked_at = None \<rparr>
            (workspace_memberships db)) (\<lambda>rows.
            Inr (db\<lparr> workspace_memberships := rows \<rparr>))
      | Some m \<Rightarrow>
          Inr (db\<lparr> workspace_memberships :=
            update_rows (\<lambda>m'. membership_policy s m' \<and> membership_id m' = membership_id m)
              (\<lambda>m'. m'\<lparr> membership_status := MembershipStatus_ACTIVE,
                         membership_revoked_at := None \<rparr>)
              (workspace_memberships db) \<rparr>))"

definition open_destination ::
  "tenant_session \<Rightarrow> workspace \<Rightarrow> int \<Rightarrow> uuid \<Rightarrow> access_db \<Rightarrow> access_db outcome"
where
  "open_destination s workspace chat_id new_id db =
     (case select_one (\<lambda>d. destination_policy s d \<and>
         destination_workspace_id d = workspace_id workspace \<and>
         destination_telegram_chat_id d = chat_id) (notification_destinations db) of
        None \<Rightarrow>
          attempt (insert_checked notification_destination_fits (destination_policy s)
            notification_destination_clash
            \<lparr> destination_id = new_id,
              destination_workspace_id = workspace_id workspace,
              destination_telegram_chat_id = chat_id,
              destination_chat_type = ''private'',
              destination_enabled = True \<rparr>
            (notification_destinations db)) (\<lambda>rows.
            Inr (db\<lparr> notification_destinations := rows \<rparr>))
      | Some d \<Rightarrow>
          Inr (db\<lparr> notification_destinations :=
            update_rows (\<lambda>d'. destination_policy s d' \<and> destination_id d' = destination_id d)
              (\<lambda>d'. d'\<lparr> destination_enabled := True \<rparr>) (notification_destinations db) \<rparr>))"

definition default_strategy :: "workspace \<Rightarrow> uuid \<Rightarrow> workspace_strategy" where
  "default_strategy workspace new_id =
     \<lparr> strategy_id = new_id,
       strategy_workspace_id = workspace_id workspace,
       strategy_version = 1,
       strategy_mode = ExecutionMode_ALERT,
       strategy_configuration =
         JObject [(''minimum_support'', JInt 2), (''identity_mode'', JStr ''initiator'')],
       strategy_active = True \<rparr>"

definition open_strategy ::
  "tenant_session \<Rightarrow> workspace \<Rightarrow> uuid \<Rightarrow> access_db \<Rightarrow> access_db outcome"
where
  "open_strategy s workspace new_id db =
     (case select_one (\<lambda>r. strategy_policy s r \<and>
         strategy_workspace_id r = workspace_id workspace \<and>
         strategy_version r = 1) (workspace_strategies db) of
        None \<Rightarrow>
          attempt (insert_checked (\<lambda>_. True) (strategy_policy s) workspace_strategy_clash
            (default_strategy workspace new_id) (workspace_strategies db)) (\<lambda>rows.
            Inr (db\<lparr> workspace_strategies := rows \<rparr>))
      | Some r \<Rightarrow> Inr db)"

definition insert_audit :: "tenant_session \<Rightarrow> audit_log \<Rightarrow> access_db \<Rightarrow> access_db outcome" where
  "insert_audit s row db =
     attempt (insert_checked audit_log_fits
       (\<lambda>r. audit_insert_policy s r \<and> (reads_back db \<longrightarrow> audit_select_policy s r))
       audit_log_clash row (audit_logs db)) (\<lambda>rows.
       Inr (db\<lparr> audit_logs := rows \<rparr>))"

text \<open>The fresh ids of one transaction, in the order the rows are made.\<close>

record fresh_ids =
  fresh_actor_id :: uuid
  fresh_user_id :: uuid
  fresh_workspace_id :: uuid
  fresh_membership_id :: uuid
  fresh_destination_id :: uuid
  fresh_strategy_id :: uuid
  fresh_audit_id :: uuid

definition pending_request_row :: "uuid \<Rightarrow> access_db \<Rightarrow> access_request outcome" where
  "pending_request_row rid db =
     (case select_one (\<lambda>r. request_id r = rid) (access_requests db) of
        None \<Rightarrow> Inl (AccessRequestNotFound ''access request was not found'')
      | Some r \<Rightarrow>
          if request_status r \<noteq> AccessRequestStatus_PENDING
          then Inl (AccessRequestNotPending ''access request has already been decided'')
          else Inr r)"

definition approved_request :: "uuid \<Rightarrow> instant \<Rightarrow> access_request \<Rightarrow> access_request" where
  "approved_request actor_id decided_at r =
     r\<lparr> request_status := AccessRequestStatus_APPROVED,
        request_decided_at := Some decided_at,
        request_decided_by_user_id := Some actor_id \<rparr>"

definition approval_audit ::
  "uuid \<Rightarrow> uuid \<Rightarrow> int \<Rightarrow> uuid \<Rightarrow> workspace \<Rightarrow> platform_user \<Rightarrow> audit_log"
where
  "approval_audit new_id rid actor_telegram_user_id correlation_id workspace user =
     \<lparr> audit_id = new_id,
       audit_workspace_id = Some (workspace_id workspace),
       audit_actor_type = ActorType_TELEGRAM_USER,
       audit_actor_id = str_int actor_telegram_user_id,
       audit_action = ''access_request_approved'',
       audit_resource_type = ''access_request'',
       audit_resource_id = uuid_str rid,
       audit_before = Some (JObject
         [(''status'', JStr (access_request_status_value AccessRequestStatus_PENDING))]),
       audit_after = Some (JObject
         [(''status'', JStr (access_request_status_value AccessRequestStatus_APPROVED)),
          (''user_id'', JStr (uuid_str (user_id user))),
          (''workspace_id'', JStr (uuid_str (workspace_id workspace)))]),
       audit_correlation_id = correlation_id,
       audit_severity = Severity_INFO \<rparr>"

definition approve_request ::
  "uuid \<Rightarrow> int \<Rightarrow> uuid \<Rightarrow> instant \<Rightarrow> fresh_ids \<Rightarrow> access_db \<Rightarrow>
     (access_decision_result \<times> access_db) outcome"
where
  "approve_request rid actor_telegram_user_id correlation_id decided_at fresh db0 =
     attempt (platform_actor actor_telegram_user_id decided_at (fresh_actor_id fresh) db0)
       (\<lambda>(actor, db1).
     attempt (pending_request_row rid db1) (\<lambda>req.
     attempt (approved_user req (user_id actor) decided_at (fresh_user_id fresh) db1)
       (\<lambda>(user, db2).
     let s1 = set_user_context (user_id user) empty_session in
     attempt (personal_workspace s1 user (fresh_workspace_id fresh) db2) (\<lambda>(workspace, db3).
     let s2 = set_workspace_context (workspace_id workspace) s1 in
     attempt (open_membership s2 workspace user (fresh_membership_id fresh) db3) (\<lambda>db4.
     attempt (open_destination s2 workspace (request_telegram_user_id req)
       (fresh_destination_id fresh) db4) (\<lambda>db5.
     attempt (open_strategy s2 workspace (fresh_strategy_id fresh) db5) (\<lambda>db6.
     let db7 = db6\<lparr> access_requests :=
           update_rows (\<lambda>r. request_id r = rid) (approved_request (user_id actor) decided_at)
             (access_requests db6) \<rparr> in
     attempt (insert_audit s2
       (approval_audit (fresh_audit_id fresh) rid actor_telegram_user_id correlation_id
         workspace user) db7) (\<lambda>db8.
     Inr (\<lparr> decision_request_id = rid,
            decision_telegram_user_id = user_telegram_user_id user,
            decision_status = AccessRequestStatus_APPROVED,
            decision_user_id = Some (user_id user),
            decision_workspace_id = Some (workspace_id workspace) \<rparr>, db8)))))))))"

definition rejected_request ::
  "uuid \<Rightarrow> string option \<Rightarrow> instant \<Rightarrow> instant option \<Rightarrow> access_request \<Rightarrow> access_request"
where
  "rejected_request actor_id reason decided_at cooldown_until r =
     r\<lparr> request_status := AccessRequestStatus_REJECTED,
        request_decided_at := Some decided_at,
        request_decided_by_user_id := Some actor_id,
        request_decision_reason := reason,
        request_cooldown_until := cooldown_until \<rparr>"

fun optional_text :: "string option \<Rightarrow> json" where
  "optional_text None = JNull"
| "optional_text (Some s) = JStr s"

definition rejection_audit ::
  "uuid \<Rightarrow> uuid \<Rightarrow> int \<Rightarrow> uuid \<Rightarrow> string option \<Rightarrow> instant option \<Rightarrow> audit_log"
where
  "rejection_audit new_id rid actor_telegram_user_id correlation_id reason cooldown_until =
     \<lparr> audit_id = new_id,
       audit_workspace_id = None,
       audit_actor_type = ActorType_TELEGRAM_USER,
       audit_actor_id = str_int actor_telegram_user_id,
       audit_action = ''access_request_rejected'',
       audit_resource_type = ''access_request'',
       audit_resource_id = uuid_str rid,
       audit_before = Some (JObject
         [(''status'', JStr (access_request_status_value AccessRequestStatus_PENDING))]),
       audit_after = Some (JObject
         [(''status'', JStr (access_request_status_value AccessRequestStatus_REJECTED)),
          (''reason'', optional_text reason),
          (''cooldown_until'', optional_text (map_option isoformat cooldown_until))]),
       audit_correlation_id = correlation_id,
       audit_severity = Severity_INFO \<rparr>"

definition reject_request ::
  "uuid \<Rightarrow> int \<Rightarrow> uuid \<Rightarrow> string option \<Rightarrow> instant \<Rightarrow> instant option \<Rightarrow> fresh_ids \<Rightarrow> access_db \<Rightarrow>
     (access_decision_result \<times> access_db) outcome"
where
  "reject_request rid actor_telegram_user_id correlation_id reason decided_at cooldown_until
     fresh db0 =
     attempt (platform_actor actor_telegram_user_id decided_at (fresh_actor_id fresh) db0)
       (\<lambda>(actor, db1).
     attempt (pending_request_row rid db1) (\<lambda>req.
     let db2 = db1\<lparr> access_requests :=
           update_rows (\<lambda>r. request_id r = rid)
             (rejected_request (user_id actor) reason decided_at cooldown_until)
             (access_requests db1) \<rparr> in
     attempt (insert_audit empty_session
       (rejection_audit (fresh_audit_id fresh) rid actor_telegram_user_id correlation_id reason
         cooldown_until) db2) (\<lambda>db3.
     Inr (\<lparr> decision_request_id = rid,
            decision_telegram_user_id = request_telegram_user_id req,
            decision_status = AccessRequestStatus_REJECTED,
            decision_user_id = None,
            decision_workspace_id = None \<rparr>, db3))))"

section \<open>Revoking\<close>

text \<open>
  What revocation does to the personal workspace it finds: suspend it, revoke the owner's
  memberships in it, and switch its notification destinations off.
\<close>

definition close_workspace ::
  "tenant_session \<Rightarrow> workspace \<Rightarrow> platform_user \<Rightarrow> instant \<Rightarrow> access_db \<Rightarrow> access_db"
where
  "close_workspace s workspace user revoked_at db =
     db\<lparr> workspaces :=
          update_rows (\<lambda>w. workspace_policy s w \<and> workspace_id w = workspace_id workspace)
            (\<lambda>w. w\<lparr> workspace_status := WorkspaceStatus_SUSPENDED \<rparr>) (workspaces db),
        workspace_memberships :=
          update_rows (\<lambda>m. membership_policy s m \<and>
              membership_workspace_id m = workspace_id workspace \<and>
              membership_user_id m = user_id user)
            (\<lambda>m. m\<lparr> membership_status := MembershipStatus_REVOKED,
                     membership_revoked_at := Some revoked_at \<rparr>) (workspace_memberships db),
        notification_destinations :=
          update_rows (\<lambda>d. destination_policy s d \<and>
              destination_workspace_id d = workspace_id workspace)
            (\<lambda>d. d\<lparr> destination_enabled := False \<rparr>) (notification_destinations db) \<rparr>"

definition revoked :: "uuid \<Rightarrow> instant \<Rightarrow> platform_user \<Rightarrow> platform_user" where
  "revoked actor_id revoked_at u =
     u\<lparr> user_status := UserStatus_REVOKED,
        user_revoked_at := Some revoked_at,
        user_revoked_by_user_id := Some actor_id \<rparr>"

definition revocation_audit ::
  "uuid \<Rightarrow> platform_user \<Rightarrow> workspace option \<Rightarrow> int \<Rightarrow> uuid \<Rightarrow> string option \<Rightarrow> audit_log"
where
  "revocation_audit new_id user workspace actor_telegram_user_id correlation_id reason =
     \<lparr> audit_id = new_id,
       audit_workspace_id = map_option workspace_id workspace,
       audit_actor_type = ActorType_TELEGRAM_USER,
       audit_actor_id = str_int actor_telegram_user_id,
       audit_action = ''platform_user_revoked'',
       audit_resource_type = ''platform_user'',
       audit_resource_id = uuid_str (user_id user),
       audit_before = Some (JObject [(''status'', JStr (user_status_value (user_status user)))]),
       audit_after = Some (JObject
         [(''status'', JStr (user_status_value UserStatus_REVOKED)),
          (''reason'', optional_text reason)]),
       audit_correlation_id = correlation_id,
       audit_severity = Severity_HIGH \<rparr>"

definition revoke_user ::
  "int \<Rightarrow> int \<Rightarrow> uuid \<Rightarrow> string option \<Rightarrow> instant \<Rightarrow> fresh_ids \<Rightarrow> access_db \<Rightarrow>
     (unit \<times> access_db) outcome"
where
  "revoke_user target_telegram_user_id actor_telegram_user_id correlation_id reason revoked_at
     fresh db0 =
     attempt (platform_actor actor_telegram_user_id revoked_at (fresh_actor_id fresh) db0)
       (\<lambda>(actor, db1).
     case select_one (\<lambda>u. user_telegram_user_id u = target_telegram_user_id)
         (platform_users db1) of
       None \<Rightarrow> Inl (UserNotFound ''approved user was not found'')
     | Some user \<Rightarrow>
         (let s1 = set_user_context (user_id user) empty_session;
              workspace = select_one (\<lambda>w. workspace_policy s1 w \<and>
                workspace_personal_owner_user_id w = user_id user) (workspaces db1);
              s2 = (case workspace of
                  None \<Rightarrow> s1 | Some w \<Rightarrow> set_workspace_context (workspace_id w) s1);
              db2 = (case workspace of
                  None \<Rightarrow> db1 | Some w \<Rightarrow> close_workspace s2 w user revoked_at db1);
              db3 = db2\<lparr> platform_users :=
                  update_rows (\<lambda>u. user_id u = user_id user) (revoked (user_id actor) revoked_at)
                    (platform_users db2) \<rparr>
          in attempt (insert_audit s2
               (revocation_audit (fresh_audit_id fresh) user workspace actor_telegram_user_id
                 correlation_id reason) db3) (\<lambda>db4. Inr ((), db4))))"

section \<open>Auditing refused attempts\<close>

definition unauthorized_attempt ::
  "telegram_identity \<Rightarrow> string \<Rightarrow> string \<Rightarrow> uuid \<Rightarrow> uuid \<Rightarrow> access_db \<Rightarrow>
     (unit \<times> access_db) outcome"
where
  "unauthorized_attempt identity action code correlation_id new_id db =
     attempt (insert_audit empty_session
       \<lparr> audit_id = new_id,
         audit_workspace_id = None,
         audit_actor_type = ActorType_TELEGRAM_USER,
         audit_actor_id = str_int (identity_telegram_user_id identity),
         audit_action = ''unauthorized_telegram_attempt'',
         audit_resource_type = ''telegram_action'',
         audit_resource_id = action,
         audit_before = None,
         audit_after = Some (JObject
           [(''code'', JStr code),
            (''chat_type'', JStr (identity_chat_type identity)),
            (''chat_id'', JInt (identity_chat_id identity))]),
         audit_correlation_id = correlation_id,
         audit_severity = Severity_HIGH \<rparr> db) (\<lambda>db'. Inr ((), db'))"

end
