(* ===== verification/AccessInvariant.thy ===== *)
theory AccessInvariant
  imports AccessStore
begin

text \<open>
  The consistency of the access-control tables: every unique constraint holds, every reference
  resolves, and a membership belongs to the owner of its workspace. Each step of the repository
  keeps it, so the schema's constraints never fire on account of data the program wrote.
\<close>

section \<open>The invariant\<close>

definition access_unique :: "access_db \<Rightarrow> bool" where
  "access_unique db \<longleftrightarrow>
     unique_table platform_user_clash (platform_users db) \<and>
     unique_table access_request_clash (access_requests db) \<and>
     unique_table workspace_clash (workspaces db) \<and>
     unique_table workspace_membership_clash (workspace_memberships db) \<and>
     unique_table notification_destination_clash (notification_destinations db) \<and>
     unique_table workspace_strategy_clash (workspace_strategies db) \<and>
     unique_table audit_log_clash (audit_logs db)"

definition access_references :: "access_db \<Rightarrow> bool" where
  "access_references db \<longleftrightarrow>
     (\<forall>w \<in> set (workspaces db).
        workspace_personal_owner_user_id w \<in> user_id ` set (platform_users db)) \<and>
     (\<forall>m \<in> set (workspace_memberships db). \<exists>w \<in> set (workspaces db).
        workspace_id w = membership_workspace_id m \<and>
        workspace_personal_owner_user_id w = membership_user_id m \<and>
        membership_role m = WorkspaceRole_OWNER) \<and>
     (\<forall>d \<in> set (notification_destinations db).
        destination_workspace_id d \<in> workspace_id ` set (workspaces db)) \<and>
     (\<forall>r \<in> set (workspace_strategies db).
        strategy_workspace_id r \<in> workspace_id ` set (workspaces db)) \<and>
     (\<forall>a \<in> set (audit_logs db). \<forall>w. audit_workspace_id a = Some w \<longrightarrow>
        w \<in> workspace_id ` set (workspaces db))"

definition access_ok :: "access_db \<Rightarrow> bool" where
  "access_ok db \<longleftrightarrow> access_unique db \<and> access_references db"

lemmas clash_defs =
  platform_user_clash_def access_request_clash_def one_pending_target_def workspace_clash_def
  workspace_membership_clash_def notification_destination_clash_def
  workspace_strategy_clash_def audit_log_clash_def

lemma user_unique:
  assumes "unique_table platform_user_clash users" and "u \<in> set users" and "u' \<in> set users"
    and "user_telegram_user_id u = user_telegram_user_id u' \<or> user_id u = user_id u'"
  shows "u = u'"
  using assms(1-3) by (rule unique_tableD) (use assms(4) in \<open>auto simp: platform_user_clash_def\<close>)

lemma workspace_unique:
  assumes "unique_table workspace_clash ws" and "w \<in> set ws" and "w' \<in> set ws"
    and "workspace_id w = workspace_id w' \<or>
      workspace_personal_owner_user_id w = workspace_personal_owner_user_id w'"
  shows "w = w'"
  using assms(1-3) by (rule unique_tableD) (use assms(4) in \<open>auto simp: workspace_clash_def\<close>)

lemma membership_unique:
  assumes "unique_table workspace_membership_clash ms" and "m \<in> set ms" and "m' \<in> set ms"
    and "membership_workspace_id m = membership_workspace_id m' \<and>
      membership_user_id m = membership_user_id m' \<or> membership_id m = membership_id m'"
  shows "m = m'"
  using assms(1-3)
  by (rule unique_tableD) (use assms(4) in \<open>auto simp: workspace_membership_clash_def\<close>)

lemma request_unique:
  assumes "unique_table access_request_clash rs" and "r \<in> set rs" and "r' \<in> set rs"
    and "request_id r = request_id r'"
  shows "r = r'"
  using assms(1-3) by (rule unique_tableD) (use assms(4) in \<open>auto simp: clash_defs\<close>)

lemma pending_unique:
  assumes "unique_table access_request_clash rs" and "r \<in> set rs" and "r' \<in> set rs"
    and "one_pending_target r r'"
  shows "r = r'"
  using assms(1-3) by (rule unique_tableD) (use assms(4) in \<open>auto simp: clash_defs\<close>)

section \<open>Writing one user\<close>

definition user_of :: "int \<Rightarrow> access_db \<Rightarrow> platform_user option" where
  "user_of t db = select_one (\<lambda>u. user_telegram_user_id u = t) (platform_users db)"

text \<open>
  \<open>db'\<close> is \<open>db\<close> but for the users, where the row of Telegram user \<open>t\<close> is now \<open>a\<close>, under the id
  it had if it was there.
\<close>

definition user_written :: "int \<Rightarrow> platform_user \<Rightarrow> access_db \<Rightarrow> access_db \<Rightarrow> bool" where
  "user_written t a db db' \<longleftrightarrow>
     db' = db\<lparr> platform_users := platform_users db' \<rparr> \<and>
     unique_table platform_user_clash (platform_users db') \<and>
     user_of t db' = Some a \<and>
     (\<forall>t'. t' \<noteq> t \<longrightarrow> user_of t' db' = user_of t' db) \<and>
     user_id ` set (platform_users db') = insert (user_id a) (user_id ` set (platform_users db)) \<and>
     (\<forall>u. user_of t db = Some u \<longrightarrow> user_id a = user_id u) \<and>
     (user_of t db = None \<longrightarrow> user_id a \<notin> user_id ` set (platform_users db))"

lemma user_ofD: "user_of t db = Some u \<Longrightarrow> u \<in> set (platform_users db) \<and> user_telegram_user_id u = t"
  by (auto simp: user_of_def dest: select_one_SomeD)

lemma user_of_None: "user_of t db = None \<longleftrightarrow> (\<forall>u \<in> set (platform_users db). user_telegram_user_id u \<noteq> t)"
  by (simp add: user_of_def select_one_None_iff)

lemma user_written_update:
  assumes unique: "unique_table platform_user_clash (platform_users db)"
    and u: "user_of t db = Some u"
    and key: "\<And>x. user_id (f x) = user_id x \<and> user_telegram_user_id (f x) = user_telegram_user_id x"
  shows "user_written t (f u) db
    (db\<lparr> platform_users := update_rows (\<lambda>x. user_id x = user_id u) f (platform_users db) \<rparr>)"
proof -
  let ?users = "platform_users db"
  let ?users' = "update_rows (\<lambda>x. user_id x = user_id u) f ?users"
  have in': "u \<in> set ?users" "user_telegram_user_id u = t" using user_ofD [OF u] by auto
  have unique': "unique_table platform_user_clash ?users'"
    using unique by (rule unique_table_update)
      (auto simp: platform_user_clash_def key split: if_splits)
  have map_t: "select_one (\<lambda>x. user_telegram_user_id x = t') ?users' =
      map_option (\<lambda>x. if user_id x = user_id u then f x else x)
        (select_one (\<lambda>x. user_telegram_user_id x = t') ?users)" for t'
    by (rule select_one_update_rows) (simp add: key)
  have "map user_id ?users' = map user_id ?users"
    by (rule map_key_update_rows) (simp add: key)
  then have ids: "user_id ` set ?users' = user_id ` set ?users"
    by (metis set_map)
  have other: "user_id x \<noteq> user_id u" if "user_of t' db = Some x" and "t' \<noteq> t" for t' x
    using user_unique [OF unique, of x u] user_ofD [OF that(1)] in' that(2) by auto
  show ?thesis
    unfolding user_written_def
  proof (intro conjI allI impI)
    show "user_of t (db\<lparr>platform_users := ?users'\<rparr>) = Some (f u)"
      using u by (simp add: user_of_def map_t)
    show "user_of t' (db\<lparr>platform_users := ?users'\<rparr>) = user_of t' db" if "t' \<noteq> t" for t'
      using other [OF _ that]
      by (cases "user_of t' db") (simp_all add: user_of_def map_t)
    show "user_id ` set (platform_users (db\<lparr>platform_users := ?users'\<rparr>)) =
        insert (user_id (f u)) (user_id ` set ?users)"
      using in' by (auto simp: ids key)
  qed (use unique' u in \<open>auto simp: key\<close>)
qed

lemma user_written_insert:
  assumes unique: "unique_table platform_user_clash (platform_users db)"
    and "user_of t db = None" and t: "user_telegram_user_id a = t"
    and ins: "insert_checked fits policy platform_user_clash a (platform_users db) = Inr rows"
  shows "user_written t a db (db\<lparr> platform_users := rows \<rparr>)"
proof -
  have rows: "rows = platform_users db @ [a]"
    and new: "\<forall>u \<in> set (platform_users db). \<not> platform_user_clash a u"
    using insert_checked_InrD [OF ins] by auto
  have "unique_table platform_user_clash rows" using unique ins by (rule unique_table_insert)
  moreover have "user_id a \<notin> user_id ` set (platform_users db)"
    using new by (auto simp: platform_user_clash_def)
  ultimately show ?thesis
    using assms(2) t by (auto simp: user_written_def user_of_def rows select_one_append split: option.splits)
qed

lemma user_written_ok:
  assumes "user_written t a db db'" and "access_ok db"
  shows "access_ok db'"
proof -
  obtain users where db': "db' = db\<lparr> platform_users := users \<rparr>"
    using assms(1) unfolding user_written_def by metis
  have "unique_table platform_user_clash users"
    and "user_id ` set (platform_users db) \<subseteq> user_id ` set users"
    using assms(1) by (auto simp: user_written_def db')
  then show ?thesis using assms(2)
    by (auto simp: db' access_ok_def access_unique_def access_references_def)
qed

lemma reactivated_key [simp]:
  "user_id (reactivated u) = user_id u"
  "user_telegram_user_id (reactivated u) = user_telegram_user_id u"
  "user_status (reactivated u) = UserStatus_ACTIVE"
  by (simp_all add: reactivated_def)

lemma approved_again_key [simp]:
  "user_id (approved_again req aid at u) = user_id u"
  "user_telegram_user_id (approved_again req aid at u) = user_telegram_user_id u"
  "user_status (approved_again req aid at u) = UserStatus_ACTIVE"
  by (simp_all add: approved_again_def)

lemma revoked_key [simp]:
  "user_id (revoked aid at u) = user_id u"
  "user_telegram_user_id (revoked aid at u) = user_telegram_user_id u"
  "user_status (revoked aid at u) = UserStatus_REVOKED"
  by (simp_all add: revoked_def)

lemma platform_actor_written:
  assumes "platform_actor t now nid db = Inr (a, db')"
    and "unique_table platform_user_clash (platform_users db)"
  shows "user_written t a db db' \<and> user_status a = UserStatus_ACTIVE"
proof (cases "user_of t db")
  case None
  with assms show ?thesis
    by (auto simp: platform_actor_def user_of_def [symmetric] attempt_eq_Inr_iff Let_def
        intro: user_written_insert)
next
  case (Some u)
  with assms show ?thesis
    using user_written_update [OF assms(2) Some, of reactivated]
    by (auto simp: platform_actor_def user_of_def [symmetric])
qed

lemma approved_user_written:
  assumes "approved_user req aid at nid db = Inr (a, db')"
    and "unique_table platform_user_clash (platform_users db)"
  shows "user_written (request_telegram_user_id req) a db db' \<and>
    user_status a = UserStatus_ACTIVE"
proof (cases "user_of (request_telegram_user_id req) db")
  case None
  with assms show ?thesis
    by (auto simp: approved_user_def user_of_def [symmetric] attempt_eq_Inr_iff Let_def
        intro: user_written_insert)
next
  case (Some u)
  with assms show ?thesis
    using user_written_update [OF assms(2) Some, of "approved_again req aid at"]
    by (auto simp: approved_user_def user_of_def [symmetric])
qed

section \<open>The personal workspace\<close>

text \<open>
  \<open>db'\<close> is \<open>db\<close> but for the workspaces, where the owner's is now \<open>w\<close>, active.
\<close>

definition workspace_written :: "uuid \<Rightarrow> workspace \<Rightarrow> access_db \<Rightarrow> access_db \<Rightarrow> bool" where
  "workspace_written uid w db db' \<longleftrightarrow>
     db' = db\<lparr> workspaces := workspaces db' \<rparr> \<and>
     unique_table workspace_clash (workspaces db') \<and>
     w \<in> set (workspaces db') \<and> workspace_personal_owner_user_id w = uid \<and>
     (\<forall>w'. workspace_personal_owner_user_id w' \<noteq> uid \<longrightarrow>
        (w' \<in> set (workspaces db') \<longleftrightarrow> w' \<in> set (workspaces db))) \<and>
     (\<forall>w' \<in> set (workspaces db'). workspace_personal_owner_user_id w' = uid \<longrightarrow> w' = w) \<and>
     (\<forall>w' \<in> set (workspaces db). workspace_personal_owner_user_id w' = uid \<longrightarrow>
        workspace_id w' = workspace_id w)"

lemma workspace_policy_owner:
  "session_user_id s = Some (workspace_personal_owner_user_id w) \<Longrightarrow> workspace_policy s w"
  by (simp add: workspace_policy_def workspace_isolation_def)

lemma workspace_written_status:
  assumes unique: "unique_table workspace_clash (workspaces db)"
    and w: "w \<in> set (workspaces db)" "workspace_personal_owner_user_id w = uid"
    and s: "session_user_id s = Some uid"
  shows "workspace_written uid (w\<lparr> workspace_status := st \<rparr>) db
    (db\<lparr> workspaces := update_rows (\<lambda>w'. workspace_policy s w' \<and> workspace_id w' = workspace_id w)
      (\<lambda>w'. w'\<lparr> workspace_status := st \<rparr>) (workspaces db) \<rparr>)"
proof -
  have only: "workspace_policy s w' \<and> workspace_id w' = workspace_id w \<longleftrightarrow> w' = w"
    if "w' \<in> set (workspaces db)" for w'
    using workspace_unique [OF unique that w(1)] w s workspace_policy_owner by auto
  have set': "set (update_rows (\<lambda>w'. workspace_policy s w' \<and> workspace_id w' = workspace_id w)
      (\<lambda>w'. w'\<lparr> workspace_status := st \<rparr>) (workspaces db)) =
      insert (w\<lparr> workspace_status := st \<rparr>) (set (workspaces db) - {w})"
    using w(1) by (auto simp: set_update_rows only image_iff)
  have own: "w' = w" if "w' \<in> set (workspaces db)" "workspace_personal_owner_user_id w' = uid" for w'
    using workspace_unique [OF unique that(1) w(1)] that(2) w(2) by auto
  have "unique_table workspace_clash
      (update_rows (\<lambda>w'. workspace_policy s w' \<and> workspace_id w' = workspace_id w)
        (\<lambda>w'. w'\<lparr> workspace_status := st \<rparr>) (workspaces db))"
    using unique by (rule unique_table_update) (auto simp: workspace_clash_def split: if_splits)
  then show ?thesis
    using w by (auto simp: workspace_written_def set' dest: own)
qed

lemma personal_workspace_written:
  assumes "personal_workspace s user nid db = Inr (w, db')"
    and "unique_table workspace_clash (workspaces db)"
    and s: "session_user_id s = Some (user_id user)"
  shows "workspace_written (user_id user) w db db' \<and> workspace_status w = WorkspaceStatus_ACTIVE"
proof (cases "select_one (\<lambda>w. workspace_policy s w \<and>
    workspace_personal_owner_user_id w = user_id user) (workspaces db)")
  case None
  then have none: "workspace_personal_owner_user_id w' \<noteq> user_id user"
    if "w' \<in> set (workspaces db)" for w'
    using that s workspace_policy_owner by (auto simp: select_one_None_iff)
  from None assms(1) have
    ins: "insert_checked workspace_fits (workspace_policy s) workspace_clash w (workspaces db) =
      Inr (workspaces db')"
    and w: "workspace_personal_owner_user_id w = user_id user"
      "workspace_status w = WorkspaceStatus_ACTIVE"
    and db': "db' = db\<lparr> workspaces := workspaces db' \<rparr>"
    by (auto simp: personal_workspace_def attempt_eq_Inr_iff Let_def)
  have "workspaces db' = workspaces db @ [w]" using insert_checked_InrD [OF ins] by simp
  moreover have "unique_table workspace_clash (workspaces db')"
    using assms(2) ins by (rule unique_table_insert)
  ultimately show ?thesis using w db' none by (auto simp: workspace_written_def)
next
  case (Some w0)
  then have "w0 \<in> set (workspaces db)" "workspace_personal_owner_user_id w0 = user_id user"
    by (auto dest: select_one_SomeD)
  from workspace_written_status [OF assms(2) this s, of WorkspaceStatus_ACTIVE] Some assms(1)
  show ?thesis by (auto simp: personal_workspace_def)
qed

lemma workspace_written_ids:
  "workspace_written uid w db db' \<Longrightarrow>
     workspace_id ` set (workspaces db) \<subseteq> workspace_id ` set (workspaces db')"
  unfolding workspace_written_def by (auto simp: image_iff) metis

lemma workspace_written_ok:
  assumes ww: "workspace_written uid w db db'" and ok: "access_ok db"
    and uid: "uid \<in> user_id ` set (platform_users db)"
  shows "access_ok db'"
proof -
  obtain ws where db': "db' = db\<lparr> workspaces := ws \<rparr>"
    using ww unfolding workspace_written_def by metis
  have unique: "unique_table workspace_clash (workspaces db')"
    using ww by (simp add: workspace_written_def)
  have ids: "workspace_id ` set (workspaces db) \<subseteq> workspace_id ` set (workspaces db')"
    using ww by (rule workspace_written_ids)
  have owners: "workspace_personal_owner_user_id w' \<in> user_id ` set (platform_users db)"
    if "w' \<in> set (workspaces db')" for w'
    using that ww uid ok
    by (cases "workspace_personal_owner_user_id w' = uid")
      (auto simp: workspace_written_def access_ok_def access_references_def)
  have keep: "\<exists>w' \<in> set (workspaces db'). workspace_id w' = workspace_id w0 \<and>
      workspace_personal_owner_user_id w' = workspace_personal_owner_user_id w0"
    if "w0 \<in> set (workspaces db)" for w0
    using that ww unfolding workspace_written_def by metis
  have members: "\<exists>w' \<in> set (workspaces db'). workspace_id w' = membership_workspace_id m \<and>
      workspace_personal_owner_user_id w' = membership_user_id m \<and>
      membership_role m = WorkspaceRole_OWNER"
    if "m \<in> set (workspace_memberships db)" for m
  proof -
    from ok that obtain w0 where "w0 \<in> set (workspaces db)"
      "workspace_id w0 = membership_workspace_id m"
      "workspace_personal_owner_user_id w0 = membership_user_id m"
      "membership_role m = WorkspaceRole_OWNER"
      unfolding access_ok_def access_references_def by blast
    with keep [OF this(1)] show ?thesis by auto
  qed
  have "access_unique db'"
    using ok unique by (simp add: db' access_ok_def access_unique_def)
  moreover have "access_references db'"
    using ok owners members ids
    by (auto simp: db' access_ok_def access_references_def)
  ultimately show ?thesis by (simp add: access_ok_def)
qed

section \<open>Membership, destination, strategy\<close>

definition membership_written :: "uuid \<Rightarrow> uuid \<Rightarrow> access_db \<Rightarrow> access_db \<Rightarrow> bool" where
  "membership_written uid wid db db' \<longleftrightarrow>
     db' = db\<lparr> workspace_memberships := workspace_memberships db' \<rparr> \<and>
     (\<exists>m \<in> set (workspace_memberships db').
        membership_user_id m = uid \<and> membership_workspace_id m = wid \<and>
        membership_status m = MembershipStatus_ACTIVE) \<and>
     (\<forall>m. membership_user_id m \<noteq> uid \<longrightarrow>
        (m \<in> set (workspace_memberships db') \<longleftrightarrow> m \<in> set (workspace_memberships db)))"

lemma membership_policy_workspace:
  "session_workspace_id s = Some (membership_workspace_id m) \<Longrightarrow> membership_policy s m"
  by (simp add: membership_policy_def workspace_isolation_def)

lemma memberships_replaced_ok:
  assumes "access_ok db" and "unique_table workspace_membership_clash ms"
    and "\<And>m. m \<in> set ms \<Longrightarrow> \<exists>w \<in> set (workspaces db).
      workspace_id w = membership_workspace_id m \<and>
      workspace_personal_owner_user_id w = membership_user_id m \<and>
      membership_role m = WorkspaceRole_OWNER"
  shows "access_ok (db\<lparr> workspace_memberships := ms \<rparr>)"
  using assms by (auto simp: access_ok_def access_unique_def access_references_def)

lemma membership_home:
  assumes "access_ok db" and "m \<in> set (workspace_memberships db)"
  obtains w where "w \<in> set (workspaces db)" and "workspace_id w = membership_workspace_id m"
    and "workspace_personal_owner_user_id w = membership_user_id m"
    and "membership_role m = WorkspaceRole_OWNER"
  using assms unfolding access_ok_def access_references_def by blast

lemma memberships_updated_ok:
  assumes ok: "access_ok db"
    and key: "\<And>m. membership_id (f m) = membership_id m \<and>
      membership_workspace_id (f m) = membership_workspace_id m \<and>
      membership_user_id (f m) = membership_user_id m \<and> membership_role (f m) = membership_role m"
  shows "access_ok (db\<lparr> workspace_memberships := update_rows p f (workspace_memberships db) \<rparr>)"
proof (rule memberships_replaced_ok [OF ok])
  show "unique_table workspace_membership_clash (update_rows p f (workspace_memberships db))"
    by (rule unique_table_update)
      (use ok in \<open>auto simp: access_ok_def access_unique_def workspace_membership_clash_def key
        split: if_splits\<close>)
  fix m assume "m \<in> set (update_rows p f (workspace_memberships db))"
  then obtain m0 where "m0 \<in> set (workspace_memberships db)" and "m = (if p m0 then f m0 else m0)"
    by (auto simp: set_update_rows)
  with membership_home [OF ok this(1)] show "\<exists>w \<in> set (workspaces db).
      workspace_id w = membership_workspace_id m \<and>
      workspace_personal_owner_user_id w = membership_user_id m \<and>
      membership_role m = WorkspaceRole_OWNER"
    by (metis key)
qed

lemma open_membership_written:
  assumes step: "open_membership s w user nid db = Inr db'" and ok: "access_ok db"
    and w: "w \<in> set (workspaces db)" "workspace_personal_owner_user_id w = user_id user"
    and s: "session_workspace_id s = Some (workspace_id w)"
  shows "membership_written (user_id user) (workspace_id w) db db' \<and> access_ok db'"
proof (cases "select_one (\<lambda>m. membership_policy s m \<and>
    membership_workspace_id m = workspace_id w \<and>
    membership_user_id m = user_id user) (workspace_memberships db)")
  case None
  let ?m = "\<lparr> membership_id = nid, membership_workspace_id = workspace_id w,
    membership_user_id = user_id user, membership_role = WorkspaceRole_OWNER,
    membership_status = MembershipStatus_ACTIVE, membership_revoked_at = None \<rparr>"
  from None step obtain ms where
    ins: "insert_checked (\<lambda>_. True) (membership_policy s) workspace_membership_clash ?m
      (workspace_memberships db) = Inr ms"
    and db': "db' = db\<lparr> workspace_memberships := ms \<rparr>"
    by (auto simp: open_membership_def attempt_eq_Inr_iff)
  have ms: "ms = workspace_memberships db @ [?m]" using insert_checked_InrD [OF ins] by simp
  have "unique_table workspace_membership_clash ms"
    using ok ins unfolding access_ok_def access_unique_def by (blast intro: unique_table_insert)
  then have "access_ok db'"
    unfolding db' using w
    by (intro memberships_replaced_ok [OF ok]) (auto simp: ms elim: membership_home [OF ok])
  then show ?thesis by (auto simp: membership_written_def db' ms)
next
  case (Some m)
  define opened where "opened = (\<lambda>m'. m'\<lparr> membership_status := MembershipStatus_ACTIVE,
    membership_revoked_at := None \<rparr> :: workspace_membership)"
  let ?p = "\<lambda>m'. membership_policy s m' \<and> membership_id m' = membership_id m"
  have m: "m \<in> set (workspace_memberships db)" "membership_workspace_id m = workspace_id w"
    "membership_user_id m = user_id user" "?p m"
    using select_one_SomeD [OF Some] by auto
  have db': "db' = db\<lparr> workspace_memberships := update_rows ?p opened (workspace_memberships db) \<rparr>"
    using Some step by (simp add: open_membership_def opened_def)
  have "access_ok db'"
    unfolding db' by (rule memberships_updated_ok [OF ok]) (simp add: opened_def)
  moreover have only: "?p m' \<longleftrightarrow> m' = m" if "m' \<in> set (workspace_memberships db)" for m'
    using membership_unique [of "workspace_memberships db" m' m] that m ok
    by (auto simp: access_ok_def access_unique_def)
  have "set (workspace_memberships db') = insert (opened m) (set (workspace_memberships db) - {m})"
    using m(1) by (auto simp: db' set_update_rows only image_iff)
  ultimately show ?thesis
    using m by (auto simp: membership_written_def db' opened_def)
qed

lemma workspace_owner_user:
  "access_ok db \<Longrightarrow> w \<in> set (workspaces db) \<Longrightarrow>
     workspace_personal_owner_user_id w \<in> user_id ` set (platform_users db)"
  by (simp add: access_ok_def access_references_def)

lemma destinations_updated_ok:
  assumes ok: "access_ok db"
    and key: "\<And>d. destination_id (f d) = destination_id d \<and>
      destination_workspace_id (f d) = destination_workspace_id d \<and>
      destination_telegram_chat_id (f d) = destination_telegram_chat_id d"
  shows "access_ok (db\<lparr> notification_destinations :=
    update_rows p f (notification_destinations db) \<rparr>)"
proof -
  have "unique_table notification_destination_clash (update_rows p f (notification_destinations db))"
    by (rule unique_table_update)
      (use ok in \<open>auto simp: access_ok_def access_unique_def notification_destination_clash_def key
        split: if_splits\<close>)
  then show ?thesis
    using ok by (auto simp: access_ok_def access_unique_def access_references_def set_update_rows key)
qed

lemma open_destination_ok:
  assumes step: "open_destination s w chat nid db = Inr db'" and ok: "access_ok db"
    and w: "w \<in> set (workspaces db)"
  shows "access_ok db' \<and> (\<exists>ds. db' = db\<lparr> notification_destinations := ds \<rparr>)"
proof (cases "select_one (\<lambda>d. destination_policy s d \<and>
    destination_workspace_id d = workspace_id w \<and>
    destination_telegram_chat_id d = chat) (notification_destinations db)")
  case None
  with step obtain d ds where
    ins: "insert_checked notification_destination_fits (destination_policy s)
      notification_destination_clash d (notification_destinations db) = Inr ds"
    and "destination_workspace_id d = workspace_id w"
    and db': "db' = db\<lparr> notification_destinations := ds \<rparr>"
    by (auto simp: open_destination_def attempt_eq_Inr_iff)
  then show ?thesis
    using ok w unique_table_insert [OF _ ins] insert_checked_InrD [OF ins]
    by (auto simp: access_ok_def access_unique_def access_references_def)
next
  case (Some d)
  then have "db' = db\<lparr> notification_destinations :=
      update_rows (\<lambda>d'. destination_policy s d' \<and> destination_id d' = destination_id d)
        (\<lambda>d'. d'\<lparr> destination_enabled := True \<rparr>) (notification_destinations db) \<rparr>"
    using step by (simp add: open_destination_def)
  then show ?thesis
    using destinations_updated_ok [OF ok] by auto
qed

lemma open_strategy_ok:
  assumes step: "open_strategy s w nid db = Inr db'" and ok: "access_ok db"
    and w: "w \<in> set (workspaces db)"
  shows "access_ok db' \<and> (\<exists>rs. db' = db\<lparr> workspace_strategies := rs \<rparr>)"
proof (cases "select_one (\<lambda>r. strategy_policy s r \<and>
    strategy_workspace_id r = workspace_id w \<and> strategy_version r = 1) (workspace_strategies db)")
  case None
  with step obtain rs where
    ins: "insert_checked (\<lambda>_. True) (strategy_policy s) workspace_strategy_clash
      (default_strategy w nid) (workspace_strategies db) = Inr rs"
    and db': "db' = db\<lparr> workspace_strategies := rs \<rparr>"
    by (auto simp: open_strategy_def attempt_eq_Inr_iff)
  then show ?thesis
    using ok w unique_table_insert [OF _ ins] insert_checked_InrD [OF ins]
    by (auto simp: access_ok_def access_unique_def access_references_def default_strategy_def)
next
  case (Some r)
  then have "db' = db" using step by (simp add: open_strategy_def)
  then show ?thesis using ok by (auto intro: exI [of _ "workspace_strategies db"])
qed

lemma insert_audit_ok:
  assumes step: "insert_audit s row db = Inr db'" and ok: "access_ok db"
    and w: "\<And>w. audit_workspace_id row = Some w \<Longrightarrow> w \<in> workspace_id ` set (workspaces db)"
  shows "access_ok db' \<and> db' = db\<lparr> audit_logs := audit_logs db @ [row] \<rparr>"
proof -
  from step obtain rows where
    ins: "insert_checked audit_log_fits
       (\<lambda>r. audit_insert_policy s r \<and> (reads_back db \<longrightarrow> audit_select_policy s r))
       audit_log_clash row (audit_logs db) = Inr rows"
    and db': "db' = db\<lparr> audit_logs := rows \<rparr>"
    by (auto simp: insert_audit_def attempt_eq_Inr_iff)
  then show ?thesis
    using ok w unique_table_insert [OF _ ins] insert_checked_InrD [OF ins]
    by (auto simp: access_ok_def access_unique_def access_references_def)
qed

lemma requests_decided_ok:
  assumes ok: "access_ok db"
    and "\<And>r. request_id (f r) = request_id r" and "\<And>r. \<not> is_pending (f r)"
  shows "access_ok (db\<lparr> access_requests := update_rows p f (access_requests db) \<rparr>)"
proof -
  have "unique_table access_request_clash (update_rows p f (access_requests db))"
    by (rule unique_table_update)
      (use assms in \<open>auto simp: access_ok_def access_unique_def access_request_clash_def
        one_pending_target_def split: if_splits\<close>)
  then show ?thesis
    using ok by (auto simp: access_ok_def access_unique_def access_references_def)
qed

end
