(* ===== verification/AccessStanding.thy ===== *)
theory AccessStanding
  imports AccessInvariant
begin

text \<open>
  What the access-control tables promise: for each Telegram user a standing, which is all that
  authorization reads of them. Approval sets the standing of the requester, revocation that of
  its target, and neither touches anyone else but the platform owner who acts. The lemmas here
  relate the repository's transactions to this specification.
\<close>

section \<open>Standing\<close>

datatype standing =
    Unknown
  | Barred
  | Approved "(uuid \<times> workspace_role) option"

fun principal_standing :: "principal option \<Rightarrow> standing" where
  "principal_standing None = Unknown"
| "principal_standing (Some p) =
     (if principal_user_status p = UserStatus_ACTIVE
      then Approved (case (principal_workspace_id p, principal_workspace_role p) of
        (Some w, Some r) \<Rightarrow> Some (w, r) | _ \<Rightarrow> None)
      else Barred)"

definition standing :: "int \<Rightarrow> access_db \<Rightarrow> standing" where
  "standing t db = principal_standing (find_principal t db)"

section \<open>The home of a user\<close>

definition home :: "uuid \<Rightarrow> access_db \<Rightarrow> (uuid \<times> workspace_role) option" where
  "home uid db =
     map_option (\<lambda>(m, w). (membership_workspace_id m, membership_role m))
       (select_one (active_membership (set_user_context uid empty_session) uid)
         (List.product (workspace_memberships db) (workspaces db)))"

lemma find_principal_eq:
  "find_principal t db =
     map_option (\<lambda>u. \<lparr> principal_user_id = user_id u, principal_telegram_user_id = t,
        principal_user_status = user_status u,
        principal_workspace_id = map_option fst (home (user_id u) db),
        principal_workspace_role = map_option snd (home (user_id u) db) \<rparr>) (user_of t db)"
  by (auto simp: find_principal_def user_of_def home_def Let_def option.map_comp comp_def
      case_prod_unfold split: option.splits dest: select_one_SomeD)

lemma standing_eq:
  "standing t db =
     (case user_of t db of
        None \<Rightarrow> Unknown
      | Some u \<Rightarrow> if user_status u = UserStatus_ACTIVE then Approved (home (user_id u) db) else Barred)"
  by (cases "user_of t db"; cases "home (user_id (the (user_of t db))) db")
    (auto simp: standing_def find_principal_eq)

lemma active_membership_iff:
  "active_membership (set_user_context uid empty_session) uid (m, w) \<longleftrightarrow>
     workspace_personal_owner_user_id w = uid \<and> workspace_id w = membership_workspace_id m \<and>
     membership_user_id m = uid \<and> membership_status m = MembershipStatus_ACTIVE \<and>
     workspace_status w = WorkspaceStatus_ACTIVE"
  by (auto simp: active_membership_def membership_policy_def workspace_policy_def
      workspace_isolation_def set_user_context_def empty_session_def)

text \<open>
  Under the invariant at most one pair of rows qualifies, so the query's unordered
  \<open>LIMIT 1\<close> is determined.
\<close>

lemma active_membership_unique:
  assumes ok: "access_ok db"
    and "m \<in> set (workspace_memberships db)" "w \<in> set (workspaces db)"
    and "m' \<in> set (workspace_memberships db)" "w' \<in> set (workspaces db)"
    and "active_membership (set_user_context uid empty_session) uid (m, w)"
    and "active_membership (set_user_context uid empty_session) uid (m', w')"
  shows "m = m' \<and> w = w'"
proof -
  have "w = w'"
    using ok assms(3,5-7) workspace_unique [of "workspaces db" w w']
    by (auto simp: access_ok_def access_unique_def active_membership_iff)
  moreover have "m = m'"
    using ok assms(2,4,6,7) \<open>w = w'\<close> membership_unique [of "workspace_memberships db" m m']
    by (auto simp: access_ok_def access_unique_def active_membership_iff)
  ultimately show ?thesis by simp
qed

lemma home_Some_iff:
  assumes ok: "access_ok db"
  shows "home uid db = Some (wid, role) \<longleftrightarrow>
    (\<exists>m \<in> set (workspace_memberships db). \<exists>w \<in> set (workspaces db).
       membership_user_id m = uid \<and> membership_workspace_id m = wid \<and> membership_role m = role \<and>
       membership_status m = MembershipStatus_ACTIVE \<and> workspace_id w = wid \<and>
       workspace_personal_owner_user_id w = uid \<and> workspace_status w = WorkspaceStatus_ACTIVE)"
    (is "?l \<longleftrightarrow> ?r")
proof
  assume ?l
  then obtain m w where "select_one (active_membership (set_user_context uid empty_session) uid)
      (List.product (workspace_memberships db) (workspaces db)) = Some (m, w)"
    and "wid = membership_workspace_id m" "role = membership_role m"
    by (auto simp: home_def)
  moreover from select_one_SomeD [OF this(1)]
  have "m \<in> set (workspace_memberships db)" "w \<in> set (workspaces db)"
    "active_membership (set_user_context uid empty_session) uid (m, w)" by auto
  ultimately show ?r by (auto simp: active_membership_iff)
next
  assume ?r
  then obtain m w where m: "m \<in> set (workspace_memberships db)" and w: "w \<in> set (workspaces db)"
    and act: "active_membership (set_user_context uid empty_session) uid (m, w)"
    and res: "membership_workspace_id m = wid" "membership_role m = role"
    by (auto simp: active_membership_iff)
  let ?rows = "List.product (workspace_memberships db) (workspaces db)"
  let ?p = "active_membership (set_user_context uid empty_session) uid"
  have "select_one ?p ?rows \<noteq> None"
    using m w act by (auto simp: select_one_None_iff)
  then obtain m' w' where sel: "select_one ?p ?rows = Some (m', w')" by auto
  then have "m' \<in> set (workspace_memberships db)" "w' \<in> set (workspaces db)" "?p (m', w')"
    by (auto dest: select_one_SomeD)
  then have "m = m'"
    using active_membership_unique [OF ok m w] act by blast
  then show ?l using sel res by (simp add: home_def)
qed

lemma home_cong:
  assumes "access_ok db" and "access_ok db'"
    and "\<And>m. membership_user_id m = uid \<Longrightarrow>
      m \<in> set (workspace_memberships db') \<longleftrightarrow> m \<in> set (workspace_memberships db)"
    and "\<And>w. workspace_personal_owner_user_id w = uid \<Longrightarrow>
      w \<in> set (workspaces db') \<longleftrightarrow> w \<in> set (workspaces db)"
  shows "home uid db' = home uid db"
proof (rule option.expand)
  have eq: "home uid db' = Some x \<longleftrightarrow> home uid db = Some x" for x
    unfolding surj_pair [of x] using assms(3,4)
    by (cases x) (auto simp: home_Some_iff [OF assms(1)] home_Some_iff [OF assms(2)])
  show "home uid db' = None \<longleftrightarrow> home uid db = None"
    by (metis eq option.exhaust)
  show "home uid db' \<noteq> None \<Longrightarrow> home uid db \<noteq> None \<Longrightarrow> the (home uid db') = the (home uid db)"
    using eq by (metis option.exhaust_sel)
qed

text \<open>A table that neither the users nor the homes read does not matter.\<close>

lemma home_same_tables:
  "workspace_memberships db' = workspace_memberships db \<Longrightarrow> workspaces db' = workspaces db \<Longrightarrow>
     home uid db' = home uid db"
  by (simp add: home_def)

lemma user_of_same_table: "platform_users db' = platform_users db \<Longrightarrow> user_of t db' = user_of t db"
  by (simp add: user_of_def)

lemma user_written_tables:
  assumes "user_written t a db db'"
  obtains users where "db' = db\<lparr> platform_users := users \<rparr>"
  using assms unfolding user_written_def by metis

lemma home_user_written: "user_written t a db db' \<Longrightarrow> home uid db' = home uid db"
  by (erule user_written_tables) (simp add: home_def)

lemma home_new_user:
  assumes "access_ok db" and "uid \<notin> user_id ` set (platform_users db)"
  shows "home uid db = None"
proof (cases "home uid db")
  case (Some x)
  then obtain w where "w \<in> set (workspaces db)" "workspace_personal_owner_user_id w = uid"
    using home_Some_iff [OF assms(1), of uid "fst x" "snd x"] by auto
  with assms show ?thesis by (auto simp: access_ok_def access_references_def)
qed

section \<open>Settled databases\<close>

text \<open>Revoked users keep no active membership in an active workspace.\<close>

definition access_settled :: "access_db \<Rightarrow> bool" where
  "access_settled db \<longleftrightarrow>
     access_ok db \<and>
     (\<forall>t u. user_of t db = Some u \<longrightarrow> user_status u \<noteq> UserStatus_ACTIVE \<longrightarrow> home (user_id u) db = None)"

lemma access_settledD: "access_settled db \<Longrightarrow> access_ok db"
  by (simp add: access_settled_def)

lemma user_of_inject:
  assumes "access_ok db" and "user_of t db = Some u" and "user_of t' db = Some u'"
    and "user_id u = user_id u'"
  shows "t = t' \<and> u = u'"
  using assms user_ofD [OF assms(2)] user_ofD [OF assms(3)]
    user_unique [of "platform_users db" u u']
  by (auto simp: access_ok_def access_unique_def)

lemma access_settled_same:
  assumes "access_settled db" and "access_ok db'"
    and "platform_users db' = platform_users db"
    and "\<And>uid. home uid db' = home uid db"
  shows "access_settled db'"
  using assms by (simp add: access_settled_def user_of_def)

lemma standing_same:
  assumes "platform_users db' = platform_users db" and "\<And>uid. home uid db' = home uid db"
  shows "standing t db' = standing t db"
  using assms by (simp add: standing_eq user_of_def split: option.splits)

subsection \<open>The acting platform owner\<close>

text \<open>Whoever acts as platform owner is an active user from then on.\<close>

fun acting :: "standing \<Rightarrow> standing" where
  "acting (Approved h) = Approved h"
| "acting _ = Approved None"

lemma standing_user_written:
  assumes "user_written t a db db'"
  shows "standing t' db' =
    (if t' = t
     then if user_status a = UserStatus_ACTIVE then Approved (home (user_id a) db) else Barred
     else standing t' db)"
proof (cases "t' = t")
  case True
  then have "user_of t' db' = Some a" using assms by (simp add: user_written_def)
  with True show ?thesis by (simp add: standing_eq home_user_written [OF assms])
next
  case False
  then have "user_of t' db' = user_of t' db" using assms by (simp add: user_written_def)
  with False show ?thesis
    by (simp add: standing_eq home_user_written [OF assms] split: option.splits)
qed

lemma user_written_home:
  assumes "user_written t a db db'" and "access_settled db"
  shows "home (user_id a) db =
    (case user_of t db of None \<Rightarrow> None | Some u \<Rightarrow> home (user_id u) db)"
proof (cases "user_of t db")
  case None
  with assms show ?thesis
    by (auto simp: user_written_def intro: home_new_user access_settledD)
next
  case (Some u)
  with assms show ?thesis by (simp add: user_written_def)
qed

lemma user_written_settled:
  assumes ww: "user_written t a db db'" and act: "user_status a = UserStatus_ACTIVE"
    and st: "access_settled db"
  shows "access_settled db'"
proof -
  have "access_ok db'" using ww access_settledD [OF st] by (rule user_written_ok)
  moreover have "home (user_id u) db' = None"
    if "user_of s db' = Some u" and "user_status u \<noteq> UserStatus_ACTIVE" for s u
  proof -
    have "s \<noteq> t" using that act ww by (auto simp: user_written_def)
    then have "user_of s db = Some u" using that ww by (auto simp: user_written_def)
    with that st show ?thesis by (simp add: access_settled_def home_user_written [OF ww])
  qed
  ultimately show ?thesis by (simp add: access_settled_def)
qed

lemma platform_actor_standing:
  assumes step: "platform_actor t now nid db = Inr (a, db')" and st: "access_settled db"
  shows "user_written t a db db'" and "user_status a = UserStatus_ACTIVE"
    and "access_settled db'"
    and "standing t' db' = (if t' = t then acting (standing t db) else standing t' db)"
proof -
  have ok: "access_ok db" using st by (rule access_settledD)
  then show ww: "user_written t a db db'" and act: "user_status a = UserStatus_ACTIVE"
    using platform_actor_written [OF step] by (auto simp: access_ok_def access_unique_def)
  have home_a: "home (user_id a) db =
      (case user_of t db of None \<Rightarrow> None | Some u \<Rightarrow> home (user_id u) db)"
    using ww st by (rule user_written_home)
  show "access_settled db'" using ww act st by (rule user_written_settled)
  have "Approved (home (user_id a) db) = acting (standing t db)"
    unfolding home_a using st
    by (cases "user_of t db") (auto simp: standing_eq access_settled_def)
  then show "standing t' db' = (if t' = t then acting (standing t db) else standing t' db)"
    by (simp add: standing_user_written [OF ww] act)
qed

section \<open>Approval\<close>

text \<open>The states and rows a successful approval goes through.\<close>

lemma approve_request_stages:
  assumes "approve_request rid actor_tid cid at fresh db0 = Inr (res, db8)"
  obtains actor db1 req user db2 w db3 db4 db5 db6 where
    "platform_actor actor_tid at (fresh_actor_id fresh) db0 = Inr (actor, db1)"
    "pending_request_row rid db1 = Inr req"
    "approved_user req (user_id actor) at (fresh_user_id fresh) db1 = Inr (user, db2)"
    "personal_workspace (set_user_context (user_id user) empty_session) user
       (fresh_workspace_id fresh) db2 = Inr (w, db3)"
    "open_membership (set_workspace_context (workspace_id w)
       (set_user_context (user_id user) empty_session)) w user (fresh_membership_id fresh) db3 =
       Inr db4"
    "open_destination (set_workspace_context (workspace_id w)
       (set_user_context (user_id user) empty_session)) w (request_telegram_user_id req)
       (fresh_destination_id fresh) db4 = Inr db5"
    "open_strategy (set_workspace_context (workspace_id w)
       (set_user_context (user_id user) empty_session)) w (fresh_strategy_id fresh) db5 = Inr db6"
    "insert_audit (set_workspace_context (workspace_id w)
       (set_user_context (user_id user) empty_session))
       (approval_audit (fresh_audit_id fresh) rid actor_tid cid w user)
       (db6\<lparr> access_requests := update_rows (\<lambda>r. request_id r = rid)
          (approved_request (user_id actor) at) (access_requests db6) \<rparr>) = Inr db8"
    "res = \<lparr> decision_request_id = rid, decision_telegram_user_id = user_telegram_user_id user,
       decision_status = AccessRequestStatus_APPROVED, decision_user_id = Some (user_id user),
       decision_workspace_id = Some (workspace_id w) \<rparr>"
  using assms
  by (auto simp: approve_request_def Let_def elim!: attempt_InrE)

lemma session_contexts [simp]:
  "session_user_id (set_user_context uid s) = Some uid"
  "session_workspace_id (set_workspace_context wid s) = Some wid"
  "session_user_id (set_workspace_context wid s) = session_user_id s"
  "session_workspace_id (set_user_context uid s) = session_workspace_id s"
  "session_user_id empty_session = None" "session_workspace_id empty_session = None"
  by (simp_all add: set_user_context_def set_workspace_context_def empty_session_def)

lemma pending_request_rowD:
  "pending_request_row rid db = Inr req \<Longrightarrow>
     req \<in> set (access_requests db) \<and> request_id req = rid \<and> is_pending req"
  by (auto simp: pending_request_row_def is_pending_def split: option.splits if_splits
      dest: select_one_SomeD)

text \<open>Opening a workspace for a user: the workspace step and the membership step together.\<close>

lemma opened_home:
  assumes st: "access_settled db2" and user: "user_id user \<in> user_id ` set (platform_users db2)"
    and ws: "personal_workspace s1 user nid1 db2 = Inr (w, db3)"
    and ms: "open_membership s2 w user nid2 db3 = Inr db4"
    and s1: "session_user_id s1 = Some (user_id user)"
    and s2: "session_workspace_id s2 = Some (workspace_id w)"
  shows "access_ok db4" and "platform_users db4 = platform_users db2"
    and "workspaces db4 = workspaces db3"
    and "w \<in> set (workspaces db4)"
    and "home (user_id user) db4 = Some (workspace_id w, WorkspaceRole_OWNER)"
    and "\<And>uid. uid \<noteq> user_id user \<Longrightarrow> home uid db4 = home uid db2"
proof -
  have ok2: "access_ok db2" using st by (rule access_settledD)
  have ww: "workspace_written (user_id user) w db2 db3"
    and active: "workspace_status w = WorkspaceStatus_ACTIVE"
    using personal_workspace_written [OF ws _ s1] ok2
    by (auto simp: access_ok_def access_unique_def)
  have ok3: "access_ok db3" using ww ok2 user by (rule workspace_written_ok)
  have w: "w \<in> set (workspaces db3)" "workspace_personal_owner_user_id w = user_id user"
    using ww by (auto simp: workspace_written_def)
  have mw: "membership_written (user_id user) (workspace_id w) db3 db4" and ok4: "access_ok db4"
    using open_membership_written [OF ms ok3 w s2] by auto
  obtain ws3 where db3: "db3 = db2\<lparr> workspaces := ws3 \<rparr>"
    using ww unfolding workspace_written_def by metis
  obtain ms4 where db4: "db4 = db3\<lparr> workspace_memberships := ms4 \<rparr>"
    using mw unfolding membership_written_def by metis
  show "access_ok db4" by (rule ok4)
  show "platform_users db4 = platform_users db2" by (simp add: db4 db3)
  show same: "workspaces db4 = workspaces db3" by (simp add: db4)
  show w4: "w \<in> set (workspaces db4)" using w by (simp add: same)
  from mw obtain m where m: "m \<in> set (workspace_memberships db4)"
    "membership_user_id m = user_id user" "membership_workspace_id m = workspace_id w"
    "membership_status m = MembershipStatus_ACTIVE"
    by (auto simp: membership_written_def)
  then have "membership_role m = WorkspaceRole_OWNER" using membership_home [OF ok4] by blast
  with m w w4 active show "home (user_id user) db4 = Some (workspace_id w, WorkspaceRole_OWNER)"
    unfolding home_Some_iff [OF ok4] by blast
  show "home uid db4 = home uid db2" if "uid \<noteq> user_id user" for uid
  proof (rule home_cong [OF ok2 ok4])
    show "m \<in> set (workspace_memberships db4) \<longleftrightarrow> m \<in> set (workspace_memberships db2)"
      if "membership_user_id m = uid" for m
      using mw that \<open>uid \<noteq> user_id user\<close> by (auto simp: membership_written_def db3)
    show "w' \<in> set (workspaces db4) \<longleftrightarrow> w' \<in> set (workspaces db2)"
      if "workspace_personal_owner_user_id w' = uid" for w'
      using ww that \<open>uid \<noteq> user_id user\<close> by (auto simp: workspace_written_def same)
  qed
qed

lemma provisioned:
  assumes st: "access_settled db2" and user: "user_id user \<in> user_id ` set (platform_users db2)"
    and ws: "personal_workspace s1 user nid1 db2 = Inr (w, db3)"
    and ms: "open_membership s2 w user nid2 db3 = Inr db4"
    and ds: "open_destination s2 w chat nid3 db4 = Inr db5"
    and rs: "open_strategy s2 w nid4 db5 = Inr db6"
    and audit: "insert_audit s2 row (db6\<lparr> access_requests := update_rows p f (access_requests db6) \<rparr>) =
      Inr db8"
    and s1: "session_user_id s1 = Some (user_id user)"
    and s2: "session_workspace_id s2 = Some (workspace_id w)"
    and row: "audit_workspace_id row = Some (workspace_id w)"
    and f: "\<And>r. request_id (f r) = request_id r" "\<And>r. \<not> is_pending (f r)"
  shows "access_ok db8" and "platform_users db8 = platform_users db2"
    and "home (user_id user) db8 = Some (workspace_id w, WorkspaceRole_OWNER)"
    and "\<And>uid. uid \<noteq> user_id user \<Longrightarrow> home uid db8 = home uid db2"
proof -
  note o = opened_home [OF st user ws ms s1 s2]
  from open_destination_ok [OF ds o(1,4)] obtain dests where
    db5: "db5 = db4\<lparr> notification_destinations := dests \<rparr>" and ok5: "access_ok db5" by auto
  have "w \<in> set (workspaces db5)" using o(4) by (simp add: db5)
  from open_strategy_ok [OF rs ok5 this] obtain strats where
    db6: "db6 = db5\<lparr> workspace_strategies := strats \<rparr>" and ok6: "access_ok db6" by auto
  let ?db7 = "db6\<lparr> access_requests := update_rows p f (access_requests db6) \<rparr>"
  have ok7: "access_ok ?db7" by (rule requests_decided_ok [OF ok6 f])
  have db8: "access_ok db8 \<and> db8 = ?db7\<lparr> audit_logs := audit_logs ?db7 @ [row] \<rparr>"
    by (rule insert_audit_ok [OF audit ok7]) (use o(4) in \<open>auto simp: row db6 db5\<close>)
  then show "access_ok db8" by blast
  show "platform_users db8 = platform_users db2"
    using db8 o(2) by (simp add: db6 db5)
  have "home uid db8 = home uid db4" for uid
    using db8 by (simp add: db6 db5 home_def)
  then show "home (user_id user) db8 = Some (workspace_id w, WorkspaceRole_OWNER)"
    and "\<And>uid. uid \<noteq> user_id user \<Longrightarrow> home uid db8 = home uid db2"
    using o(5,6) by simp_all
qed

text \<open>Moving one user's home moves that user's standing and nobody else's.\<close>

lemma standing_rehomed:
  assumes st: "access_settled db" and ok': "access_ok db'"
    and users: "platform_users db' = platform_users db"
    and user: "user_of t db = Some user" "user_status user = UserStatus_ACTIVE"
    and other: "\<And>uid. uid \<noteq> user_id user \<Longrightarrow> home uid db' = home uid db"
  shows "access_settled db'"
    and "standing s db' = (if s = t then Approved (home (user_id user) db') else standing s db)"
proof -
  have user_of': "user_of s db' = user_of s db" for s
    using users by (rule user_of_same_table)
  have neq: "user_id u \<noteq> user_id user" if "user_of s db = Some u" "s \<noteq> t" for s u
    using user_of_inject [OF access_settledD [OF st] that(1) user(1)] that(2) by auto
  show "access_settled db'"
    unfolding access_settled_def
  proof (intro conjI ok' allI impI)
    fix s u assume u: "user_of s db' = Some u" "user_status u \<noteq> UserStatus_ACTIVE"
    then have "s \<noteq> t" using user by (auto simp: user_of')
    with u neq st show "home (user_id u) db' = None"
      by (simp add: user_of' other access_settled_def)
  qed
  show "standing s db' = (if s = t then Approved (home (user_id user) db') else standing s db)"
    using user neq by (auto simp: standing_eq user_of' other split: option.splits)
qed

definition approve_spec :: "int \<Rightarrow> int \<Rightarrow> uuid \<Rightarrow> (int \<Rightarrow> standing) \<Rightarrow> int \<Rightarrow> standing" where
  "approve_spec actor requester wid \<sigma> =
     (\<sigma>(actor := acting (\<sigma> actor)))(requester := Approved (Some (wid, WorkspaceRole_OWNER)))"

lemma approve_request_refines:
  assumes run: "approve_request rid actor_tid cid at fresh db0 = Inr (res, db8)"
    and st: "access_settled db0"
  shows "access_settled db8"
    and "\<exists>wid. decision_workspace_id res = Some wid \<and>
      (\<lambda>t. standing t db8) =
        approve_spec actor_tid (decision_telegram_user_id res) wid (\<lambda>t. standing t db0)"
    and "\<exists>req \<in> set (access_requests db0). request_id req = rid \<and> is_pending req \<and>
      request_telegram_user_id req = decision_telegram_user_id res"
proof (atomize (full), rule approve_request_stages [OF run], goal_cases)
  case (1 actor db1 req user db2 w db3 db4 db5 db6)
  let ?t = "request_telegram_user_id req"
  note a = platform_actor_standing [OF 1(1) st]
  have uw: "user_written ?t user db1 db2" and active: "user_status user = UserStatus_ACTIVE"
    using approved_user_written [OF 1(3)] access_settledD [OF a(3)]
    by (auto simp: access_ok_def access_unique_def)
  have st2: "access_settled db2" using uw active a(3) by (rule user_written_settled)
  have user_t: "user_of ?t db2 = Some user" using uw by (simp add: user_written_def)
  have t: "user_telegram_user_id user = ?t" using user_ofD [OF user_t] by simp
  have "user_id user \<in> user_id ` set (platform_users db2)" using user_ofD [OF user_t] by simp
  note p = provisioned [OF st2 this 1(4,5,6,7,8)]
  note p = p [simplified approved_request_def is_pending_def approval_audit_def, simplified]
  note s = standing_rehomed [OF st2 p(1,2) user_t active p(4)]
  have "standing s db8 = approve_spec actor_tid ?t (workspace_id w) (\<lambda>t. standing t db0) s" for s
    by (simp add: s(2) p(3) standing_user_written [OF uw] a(4) approve_spec_def)
  moreover have "access_requests db1 = access_requests db0"
    by (rule user_written_tables [OF a(1)]) simp
  ultimately show ?case
    using s(1) pending_request_rowD [OF 1(2)] by (auto simp: 1(9) t)
qed

section \<open>Rejection\<close>

definition reject_spec :: "int \<Rightarrow> (int \<Rightarrow> standing) \<Rightarrow> int \<Rightarrow> standing" where
  "reject_spec actor \<sigma> = \<sigma>(actor := acting (\<sigma> actor))"

text \<open>A change of requests and audit entries alone.\<close>

lemma standing_other_tables:
  assumes "access_settled db" and "access_ok db'"
    and "platform_users db' = platform_users db" and "workspaces db' = workspaces db"
    and "workspace_memberships db' = workspace_memberships db"
  shows "access_settled db'" and "standing t db' = standing t db"
  using assms by (auto intro: access_settled_same standing_same simp: home_def)

lemma reject_request_refines:
  assumes run: "reject_request rid actor_tid cid reason at until fresh db0 = Inr (res, db3)"
    and st: "access_settled db0"
  shows "access_settled db3"
    and "(\<lambda>t. standing t db3) = reject_spec actor_tid (\<lambda>t. standing t db0)"
    and "\<exists>req \<in> set (access_requests db0). request_id req = rid \<and> is_pending req \<and>
      request_telegram_user_id req = decision_telegram_user_id res"
proof -
  from run obtain actor db1 req where
    actor: "platform_actor actor_tid at (fresh_actor_id fresh) db0 = Inr (actor, db1)" and
    req: "pending_request_row rid db1 = Inr req" and
    audit: "insert_audit empty_session
       (rejection_audit (fresh_audit_id fresh) rid actor_tid cid reason until)
       (db1\<lparr> access_requests := update_rows (\<lambda>r. request_id r = rid)
          (rejected_request (user_id actor) reason at until) (access_requests db1) \<rparr>) = Inr db3"
      (is "insert_audit _ ?row ?db2 = _")
    and res: "decision_telegram_user_id res = request_telegram_user_id req"
    by (auto simp: reject_request_def Let_def elim!: attempt_InrE)
  note a = platform_actor_standing [OF actor st]
  have "access_ok ?db2"
    by (rule requests_decided_ok [OF access_settledD [OF a(3)]])
      (simp_all add: rejected_request_def is_pending_def)
  note i = insert_audit_ok [OF audit this]
  have db3: "access_ok db3 \<and> db3 = ?db2\<lparr> audit_logs := audit_logs ?db2 @ [?row] \<rparr>"
    by (rule i) (simp add: rejection_audit_def)
  have tables: "platform_users db3 = platform_users db1" "workspaces db3 = workspaces db1"
    "workspace_memberships db3 = workspace_memberships db1"
    using db3 by simp_all
  note s = standing_other_tables [OF a(3) conjunct1 [OF db3] tables]
  show "access_settled db3" by (rule s(1))
  show "(\<lambda>t. standing t db3) = reject_spec actor_tid (\<lambda>t. standing t db0)"
    by (auto simp: s(2) a(4) reject_spec_def)
  have "access_requests db1 = access_requests db0"
    by (rule user_written_tables [OF a(1)]) simp
  with pending_request_rowD [OF req] res show "\<exists>req \<in> set (access_requests db0).
      request_id req = rid \<and> is_pending req \<and>
      request_telegram_user_id req = decision_telegram_user_id res" by auto
qed

section \<open>Revocation\<close>

definition revoke_spec :: "int \<Rightarrow> int \<Rightarrow> (int \<Rightarrow> standing) \<Rightarrow> int \<Rightarrow> standing" where
  "revoke_spec actor target \<sigma> = (\<sigma>(actor := acting (\<sigma> actor)))(target := Barred)"

lemma home_no_workspace:
  assumes "access_ok db" and "\<And>w. w \<in> set (workspaces db) \<Longrightarrow> workspace_personal_owner_user_id w \<noteq> uid"
  shows "home uid db = None"
proof (cases "home uid db")
  case (Some x)
  then show ?thesis
    using home_Some_iff [OF assms(1), of uid "fst x" "snd x"] assms(2) by auto
qed

lemma close_workspace_home:
  assumes ok: "access_ok db" and w: "w \<in> set (workspaces db)"
    "workspace_personal_owner_user_id w = user_id user"
    and s: "session_user_id s = Some (user_id user)"
  shows "access_ok (close_workspace s w user at db)"
    and "platform_users (close_workspace s w user at db) = platform_users db"
    and "workspace_id ` set (workspaces db) \<subseteq>
      workspace_id ` set (workspaces (close_workspace s w user at db))"
    and "home (user_id user) (close_workspace s w user at db) = None"
    and "\<And>uid. uid \<noteq> user_id user \<Longrightarrow> home uid (close_workspace s w user at db) = home uid db"
proof -
  let ?db' = "close_workspace s w user at db"
  define ws where "ws = update_rows (\<lambda>w'. workspace_policy s w' \<and> workspace_id w' = workspace_id w)
    (\<lambda>w'. w'\<lparr> workspace_status := WorkspaceStatus_SUSPENDED \<rparr>) (workspaces db)"
  let ?db1 = "db\<lparr> workspaces := ws \<rparr>"
  have ww: "workspace_written (user_id user) (w\<lparr> workspace_status := WorkspaceStatus_SUSPENDED \<rparr>)
      db ?db1"
    unfolding ws_def
    using workspace_written_status [OF _ w s, of WorkspaceStatus_SUSPENDED] ok
    by (simp add: access_ok_def access_unique_def)
  have "user_id user \<in> user_id ` set (platform_users db)"
    using workspace_owner_user [OF ok w(1)] w(2) by simp
  with ww ok have ok1: "access_ok ?db1" by (rule workspace_written_ok)
  define ms where "ms = update_rows (\<lambda>m. membership_policy s m \<and>
      membership_workspace_id m = workspace_id w \<and> membership_user_id m = user_id user)
    (\<lambda>m. m\<lparr> membership_status := MembershipStatus_REVOKED, membership_revoked_at := Some at \<rparr>)
    (workspace_memberships ?db1)"
  have ok2: "access_ok (?db1\<lparr> workspace_memberships := ms \<rparr>)"
    unfolding ms_def by (rule memberships_updated_ok [OF ok1]) simp
  define ds where "ds = update_rows (\<lambda>d. destination_policy s d \<and>
      destination_workspace_id d = workspace_id w)
    (\<lambda>d. d\<lparr> destination_enabled := False \<rparr>)
    (notification_destinations (?db1\<lparr> workspace_memberships := ms \<rparr>))"
  have db': "?db' = ?db1\<lparr> workspace_memberships := ms, notification_destinations := ds \<rparr>"
    by (simp add: close_workspace_def ws_def ms_def ds_def)
  show ok': "access_ok ?db'"
    unfolding db' ds_def by (rule destinations_updated_ok [OF ok2]) simp
  show "platform_users ?db' = platform_users db" by (simp add: db')
  show "workspace_id ` set (workspaces db) \<subseteq> workspace_id ` set (workspaces ?db')"
    using workspace_written_ids [OF ww] by (simp add: db')
  have suspended: "workspace_status w' = WorkspaceStatus_SUSPENDED"
    if "w' \<in> set ws" "workspace_personal_owner_user_id w' = user_id user" for w'
    using ww that by (auto simp: workspace_written_def)
  show "home (user_id user) ?db' = None"
  proof (cases "home (user_id user) ?db'")
    case (Some x)
    then show ?thesis
      using home_Some_iff [OF ok', of "user_id user" "fst x" "snd x"] suspended
      by (auto simp: db')
  qed
  show "home uid ?db' = home uid db" if "uid \<noteq> user_id user" for uid
  proof (rule home_cong [OF ok ok'])
    show "w' \<in> set (workspaces ?db') \<longleftrightarrow> w' \<in> set (workspaces db)"
      if "workspace_personal_owner_user_id w' = uid" for w'
      using ww that \<open>uid \<noteq> user_id user\<close> by (auto simp: workspace_written_def db')
    show "m \<in> set (workspace_memberships ?db') \<longleftrightarrow> m \<in> set (workspace_memberships db)"
      if "membership_user_id m = uid" for m
      using that \<open>uid \<noteq> user_id user\<close> by (auto simp: db' ms_def set_update_rows image_iff)
  qed
qed

lemma standing_closed:
  assumes st: "access_settled db" and user: "user_of t db = Some user"
    and ok1: "access_ok db1" and users: "platform_users db1 = platform_users db"
    and closed: "home (user_id user) db1 = None"
    and other: "\<And>uid. uid \<noteq> user_id user \<Longrightarrow> home uid db1 = home uid db"
  shows "access_settled (db1\<lparr> platform_users :=
      update_rows (\<lambda>u. user_id u = user_id user) (revoked aid at) (platform_users db1) \<rparr>)"
    and "standing s (db1\<lparr> platform_users :=
      update_rows (\<lambda>u. user_id u = user_id user) (revoked aid at) (platform_users db1) \<rparr>) =
      (if s = t then Barred else standing s db)"
proof -
  let ?db2 = "db1\<lparr> platform_users :=
      update_rows (\<lambda>u. user_id u = user_id user) (revoked aid at) (platform_users db1) \<rparr>"
  have user_of1: "user_of s db1 = user_of s db" for s using users by (rule user_of_same_table)
  have uw: "user_written t (revoked aid at user) db1 ?db2"
    using ok1 user by (intro user_written_update) (auto simp: access_ok_def access_unique_def user_of1)
  have neq: "user_id u \<noteq> user_id user" if "user_of s db = Some u" "s \<noteq> t" for s u
    using user_of_inject [OF access_settledD [OF st] that(1) user] that(2) by auto
  have "access_ok ?db2" using uw ok1 by (rule user_written_ok)
  moreover have "home (user_id u) ?db2 = None"
    if u: "user_of s ?db2 = Some u" "user_status u \<noteq> UserStatus_ACTIVE" for s u
  proof (cases "s = t")
    case True
    with u uw closed show ?thesis by (auto simp: user_written_def home_user_written [OF uw])
  next
    case False
    then have "user_of s db = Some u" using u uw by (simp add: user_written_def user_of1)
    then show ?thesis
      using neq False u st by (simp add: home_user_written [OF uw] other access_settled_def)
  qed
  ultimately show "access_settled ?db2" by (simp add: access_settled_def)
  have "standing s db1 = standing s db" if "s \<noteq> t" for s
    using neq that by (auto simp: standing_eq user_of1 other split: option.splits)
  then show "standing s ?db2 = (if s = t then Barred else standing s db)"
    by (simp add: standing_user_written [OF uw])
qed

lemma found_closed:
  assumes ok: "access_ok db1"
    and s1: "session_user_id s1 = Some (user_id user)"
    and s2: "session_user_id s2 = Some (user_id user)"
    and found: "found = select_one (\<lambda>w. workspace_policy s1 w \<and>
      workspace_personal_owner_user_id w = user_id user) (workspaces db1)"
    and db2: "db2 = (case found of None \<Rightarrow> db1 | Some w \<Rightarrow> close_workspace s2 w user at db1)"
  shows "access_ok db2 \<and> platform_users db2 = platform_users db1 \<and>
    workspace_id ` set (workspaces db1) \<subseteq> workspace_id ` set (workspaces db2) \<and>
    home (user_id user) db2 = None \<and>
    (\<forall>uid. uid \<noteq> user_id user \<longrightarrow> home uid db2 = home uid db1)"
proof (cases found)
  case None
  then have "home (user_id user) db1 = None"
    using s1 workspace_policy_owner
    by (intro home_no_workspace [OF ok]) (auto simp: found select_one_None_iff)
  with None ok show ?thesis by (simp add: db2)
next
  case (Some w)
  then have "w \<in> set (workspaces db1)" "workspace_personal_owner_user_id w = user_id user"
    by (auto simp: found dest: select_one_SomeD)
  from close_workspace_home [OF ok this s2] Some show ?thesis by (simp add: db2)
qed

lemma revoke_user_refines:
  assumes run: "revoke_user target actor_tid cid reason at fresh db0 = Inr (u, db4)"
    and st: "access_settled db0"
  shows "access_settled db4"
    and "(\<lambda>t. standing t db4) = revoke_spec actor_tid target (\<lambda>t. standing t db0)"
proof -
  from run obtain actor db1 user where
    actor: "platform_actor actor_tid at (fresh_actor_id fresh) db0 = Inr (actor, db1)"
    and user: "user_of target db1 = Some user"
    by (auto simp: revoke_user_def user_of_def elim!: attempt_InrE split: option.splits)
  define s1 where "s1 = set_user_context (user_id user) empty_session"
  define found where "found = select_one (\<lambda>w. workspace_policy s1 w \<and>
      workspace_personal_owner_user_id w = user_id user) (workspaces db1)"
  define s2 where "s2 = (case found of
      None \<Rightarrow> s1 | Some w \<Rightarrow> set_workspace_context (workspace_id w) s1)"
  define db2 where "db2 = (case found of
      None \<Rightarrow> db1 | Some w \<Rightarrow> close_workspace s2 w user at db1)"
  let ?db3 = "db2\<lparr> platform_users := update_rows (\<lambda>u. user_id u = user_id user)
      (revoked (user_id actor) at) (platform_users db2) \<rparr>"
  let ?row = "revocation_audit (fresh_audit_id fresh) user found actor_tid cid reason"
  have audit: "insert_audit s2 ?row ?db3 = Inr db4"
    using run actor user unfolding db2_def s2_def found_def s1_def
    by (auto simp: revoke_user_def user_of_def Let_def elim!: attempt_InrE)
  note a = platform_actor_standing [OF actor st]
  note ok1 = access_settledD [OF a(3)]
  have s1: "session_user_id s1 = Some (user_id user)"
    by (simp add: s1_def)
  have s2: "session_user_id s2 = Some (user_id user)"
    by (simp add: s1 s2_def split: option.splits)
  note db2 = found_closed [OF ok1 s1 s2 found_def db2_def]
  have found_id: "w \<in> workspace_id ` set (workspaces db2)" if "map_option workspace_id found = Some w" for w
    using that db2 by (auto simp: found_def dest!: select_one_SomeD)
  note c = standing_closed [OF a(3) user, of db2]
  have st3: "access_settled ?db3" using c(1) db2 by blast
  have db4: "access_ok db4 \<and> db4 = ?db3\<lparr> audit_logs := audit_logs ?db3 @ [?row] \<rparr>"
    by (rule insert_audit_ok [OF audit access_settledD [OF st3]])
      (use found_id in \<open>simp add: revocation_audit_def\<close>)
  have tables: "platform_users db4 = platform_users ?db3" "workspaces db4 = workspaces ?db3"
    "workspace_memberships db4 = workspace_memberships ?db3"
    using db4 by simp_all
  note s = standing_other_tables [OF st3 conjunct1 [OF db4] tables]
  show "access_settled db4" by (rule s(1))
  have "standing t ?db3 = (if t = target then Barred else standing t db1)" for t
    using c(2) db2 by blast
  then show "(\<lambda>t. standing t db4) = revoke_spec actor_tid target (\<lambda>t. standing t db0)"
    by (auto simp: s(2) a(4) revoke_spec_def)
qed

end
