(* ===== verification/AccessHistory.thy ===== *)
theory AccessHistory
  imports AccessStanding
begin

text \<open>
  Histories of the access-control tables: the states reachable from the empty schema by the
  repository's transactions, the invariant they all satisfy, and when a decision goes through.
\<close>

section \<open>Requests and audit entries\<close>

lemma new_request_simps [simp]:
  "request_id (new_request identity at nid) = nid"
  "request_telegram_user_id (new_request identity at nid) = identity_telegram_user_id identity"
  "request_requested_at (new_request identity at nid) = at"
  "request_status (new_request identity at nid) = AccessRequestStatus_PENDING"
  "request_cooldown_until (new_request identity at nid) = None"
  "is_pending (new_request identity at nid)"
  by (simp_all add: new_request_def is_pending_def)

lemma get_or_create_created:
  assumes "get_or_create_pending_request identity at nid db = Inr (res, db')"
    and "pending_created res"
  shows "db' = db\<lparr> access_requests := access_requests db @ [new_request identity at nid] \<rparr> \<and>
    pending_record res = request_record (new_request identity at nid) \<and>
    access_request_fits (new_request identity at nid) \<and>
    (\<forall>r \<in> set (access_requests db). \<not> access_request_clash (new_request identity at nid) r)"
  using assms
  by (auto simp: get_or_create_pending_request_def Let_def dest!: insert_or_nothing_SomeD
      elim!: attempt_InrE split: if_splits option.splits prod.splits)

lemma get_or_create_found:
  assumes "get_or_create_pending_request identity at nid db = Inr (res, db')"
    and "\<not> pending_created res"
  shows "db' = db \<and> (\<exists>row \<in> set (access_requests db). is_pending row \<and>
    request_telegram_user_id row = identity_telegram_user_id identity \<and>
    pending_record res = request_record row)"
  using assms
  by (auto simp: get_or_create_pending_request_def Let_def
      dest!: insert_or_nothing_NoneD select_one_SomeD
      elim!: attempt_InrE split: if_splits option.splits prod.splits) (blast intro: refl)

lemma get_or_create_refines:
  assumes run: "get_or_create_pending_request identity at nid db = Inr (res, db')"
    and st: "access_settled db"
  shows "access_settled db' \<and> (\<forall>t. standing t db' = standing t db)"
proof (cases "pending_created res")
  case True
  note new = get_or_create_created [OF run True]
  then have "access_ok db'"
    using access_settledD [OF st]
    by (auto simp: access_ok_def access_unique_def access_references_def unique_table_snoc)
  then show ?thesis
    using standing_other_tables [OF st, of db'] new by simp
next
  case False
  with get_or_create_found [OF run] st show ?thesis by auto
qed

lemma unauthorized_attempt_refines:
  assumes run: "unauthorized_attempt identity action code cid nid db = Inr (u, db')"
    and st: "access_settled db"
  shows "access_settled db' \<and> (\<forall>t. standing t db' = standing t db)"
proof -
  from run obtain row where ins: "insert_audit empty_session row db = Inr db'"
    and row: "audit_workspace_id row = None"
    by (auto simp: unauthorized_attempt_def elim!: attempt_InrE)
  have ok: "access_ok db' \<and> db' = db\<lparr> audit_logs := audit_logs db @ [row] \<rparr>"
    by (rule insert_audit_ok [OF ins access_settledD [OF st]]) (simp add: row)
  then have "platform_users db' = platform_users db" "workspaces db' = workspaces db"
    "workspace_memberships db' = workspace_memberships db" by simp_all
  from standing_other_tables [OF st conjunct1 [OF ok] this] show ?thesis by blast
qed

section \<open>Reachable states\<close>

definition empty_access_db :: "bool \<Rightarrow> access_db" where
  "empty_access_db back =
     \<lparr> platform_users = [], access_requests = [], workspaces = [], workspace_memberships = [],
       notification_destinations = [], workspace_strategies = [], audit_logs = [],
       reads_back = back \<rparr>"

inductive access_reachable :: "access_db \<Rightarrow> bool" where
  start: "access_reachable (empty_access_db back)"
| requested: "access_reachable db \<Longrightarrow>
    get_or_create_pending_request identity at nid db = Inr (pending, db') \<Longrightarrow> access_reachable db'"
| approved: "access_reachable db \<Longrightarrow>
    approve_request rid actor cid at fresh db = Inr (decision, db') \<Longrightarrow> access_reachable db'"
| rejected: "access_reachable db \<Longrightarrow>
    reject_request rid actor cid reason at until fresh db = Inr (decision, db') \<Longrightarrow>
    access_reachable db'"
| revoked: "access_reachable db \<Longrightarrow>
    revoke_user target actor cid reason at fresh db = Inr ((), db') \<Longrightarrow> access_reachable db'"
| refused: "access_reachable db \<Longrightarrow>
    unauthorized_attempt identity action code cid nid db = Inr ((), db') \<Longrightarrow> access_reachable db'"

lemma empty_access_db_settled: "access_settled (empty_access_db back)"
  by (simp add: empty_access_db_def access_settled_def access_ok_def access_unique_def
      access_references_def user_of_def)

lemma access_reachable_settled: "access_reachable db \<Longrightarrow> access_settled db"
proof (induction rule: access_reachable.induct)
  case (requested db identity at nid pending db')
  then show ?case using get_or_create_refines by blast
next
  case (approved db rid actor cid at fresh decision db')
  then show ?case using approve_request_refines(1) by blast
next
  case (rejected db rid actor cid reason at until fresh decision db')
  then show ?case using reject_request_refines(1) by blast
next
  case (revoked db target actor cid reason at fresh db')
  then show ?case using revoke_user_refines(1) by blast
next
  case (refused db identity action code cid nid db')
  then show ?case using unauthorized_attempt_refines by blast
qed (rule empty_access_db_settled)

section \<open>When an approval goes through\<close>

text \<open>The generated ids are new to their tables.\<close>

definition fresh_for :: "fresh_ids \<Rightarrow> access_db \<Rightarrow> bool" where
  "fresh_for fresh db \<longleftrightarrow>
     fresh_actor_id fresh \<notin> user_id ` set (platform_users db) \<and>
     fresh_user_id fresh \<notin> user_id ` set (platform_users db) \<and>
     fresh_user_id fresh \<noteq> fresh_actor_id fresh \<and>
     fresh_workspace_id fresh \<notin> workspace_id ` set (workspaces db) \<and>
     fresh_membership_id fresh \<notin> membership_id ` set (workspace_memberships db) \<and>
     fresh_destination_id fresh \<notin> destination_id ` set (notification_destinations db) \<and>
     fresh_strategy_id fresh \<notin> strategy_id ` set (workspace_strategies db) \<and>
     fresh_audit_id fresh \<notin> audit_id ` set (audit_logs db)"

lemma platform_actor_succeeds:
  assumes "nid \<notin> user_id ` set (platform_users db)"
  obtains a users where "platform_actor t now nid db = Inr (a, db\<lparr> platform_users := users \<rparr>)"
    and "user_id ` set users \<subseteq> insert nid (user_id ` set (platform_users db))"
proof (cases "user_of t db")
  case None
  let ?a = "\<lparr> user_id = nid, user_telegram_user_id = t, user_username = None,
     user_display_name = None, user_status = UserStatus_ACTIVE, user_approved_at = now,
     user_approved_by_user_id = None, user_revoked_at = None, user_revoked_by_user_id = None \<rparr>"
  have "insert_checked platform_user_fits (\<lambda>_. True) platform_user_clash ?a (platform_users db) =
      Inr (platform_users db @ [?a])"
    by (rule insert_checked_ok)
      (use None assms in \<open>auto simp: platform_user_fits_def platform_user_clash_def user_of_None\<close>)
  with None show thesis
    by (intro that [of ?a "platform_users db @ [?a]"])
      (auto simp: platform_actor_def user_of_def [symmetric] Let_def)
next
  case (Some u)
  then show thesis
    by (intro that [of "reactivated u"
          "update_rows (\<lambda>x. user_id x = user_id u) reactivated (platform_users db)"])
      (use user_ofD [OF Some] in \<open>auto simp: platform_actor_def user_of_def [symmetric]
        set_update_rows\<close>)
qed

lemma approved_user_succeeds:
  assumes "nid \<notin> user_id ` set (platform_users db)" and "access_request_fits req"
  obtains a users where "approved_user req aid at nid db = Inr (a, db\<lparr> platform_users := users \<rparr>)"
    and "user_display_name a = request_display_name req"
    and "user_username a = request_username req"
proof (cases "user_of (request_telegram_user_id req) db")
  case None
  let ?a = "\<lparr> user_id = nid, user_telegram_user_id = request_telegram_user_id req,
     user_username = request_username req, user_display_name = request_display_name req,
     user_status = UserStatus_ACTIVE, user_approved_at = at, user_approved_by_user_id = Some aid,
     user_revoked_at = None, user_revoked_by_user_id = None \<rparr>"
  have "insert_checked platform_user_fits (\<lambda>_. True) platform_user_clash ?a (platform_users db) =
      Inr (platform_users db @ [?a])"
    by (rule insert_checked_ok)
      (use None assms in \<open>auto simp: platform_user_fits_def access_request_fits_def
        platform_user_clash_def user_of_None\<close>)
  with None show thesis
    by (intro that [of ?a "platform_users db @ [?a]"])
      (auto simp: approved_user_def user_of_def [symmetric] Let_def)
next
  case (Some u)
  then show thesis
    by (intro that [of "approved_again req aid at u" "update_rows (\<lambda>x. user_id x = user_id u)
          (approved_again req aid at) (platform_users db)"])
      (simp_all add: approved_user_def user_of_def [symmetric] approved_again_def)
qed

lemma personal_workspace_succeeds:
  assumes "nid \<notin> workspace_id ` set (workspaces db)" and "length (workspace_label user) \<le> 108"
    and s: "session_user_id s = Some (user_id user)"
  obtains w ws where "personal_workspace s user nid db = Inr (w, db\<lparr> workspaces := ws \<rparr>)"
proof (cases "select_one (\<lambda>w. workspace_policy s w \<and>
    workspace_personal_owner_user_id w = user_id user) (workspaces db)")
  case None
  let ?w = "\<lparr> workspace_id = nid, workspace_name = workspace_label user @ '''s workspace'',
     workspace_personal_owner_user_id = user_id user, workspace_status = WorkspaceStatus_ACTIVE \<rparr>"
  have "insert_checked workspace_fits (workspace_policy s) workspace_clash ?w (workspaces db) =
      Inr (workspaces db @ [?w])"
    by (rule insert_checked_ok)
      (use None assms workspace_policy_owner in \<open>auto simp: workspace_fits_def workspace_clash_def
        select_one_None_iff\<close>)
  with None show thesis
    by (intro that [of ?w "workspaces db @ [?w]"]) (simp add: personal_workspace_def Let_def)
next
  case (Some w)
  then show thesis
    by (intro that [of "w\<lparr> workspace_status := WorkspaceStatus_ACTIVE \<rparr>" "update_rows
          (\<lambda>w'. workspace_policy s w' \<and> workspace_id w' = workspace_id w)
          (\<lambda>w'. w'\<lparr> workspace_status := WorkspaceStatus_ACTIVE \<rparr>) (workspaces db)"])
      (simp add: personal_workspace_def)
qed

lemma open_membership_succeeds:
  assumes "nid \<notin> membership_id ` set (workspace_memberships db)"
    and s: "session_workspace_id s = Some (workspace_id w)"
  obtains ms where "open_membership s w user nid db = Inr (db\<lparr> workspace_memberships := ms \<rparr>)"
proof (cases "select_one (\<lambda>m. membership_policy s m \<and>
    membership_workspace_id m = workspace_id w \<and>
    membership_user_id m = user_id user) (workspace_memberships db)")
  case None
  let ?m = "\<lparr> membership_id = nid, membership_workspace_id = workspace_id w,
        membership_user_id = user_id user, membership_role = WorkspaceRole_OWNER,
        membership_status = MembershipStatus_ACTIVE, membership_revoked_at = None \<rparr>"
  have "insert_checked (\<lambda>_. True) (membership_policy s) workspace_membership_clash ?m
      (workspace_memberships db) = Inr (workspace_memberships db @ [?m])"
    by (rule insert_checked_ok)
      (use None assms in \<open>auto simp: membership_policy_def workspace_isolation_def
        workspace_membership_clash_def select_one_None_iff\<close>)
  with None show thesis by (intro that) (simp add: open_membership_def)
next
  case (Some m)
  then show thesis by (intro that) (simp add: open_membership_def)
qed

lemma open_destination_succeeds:
  assumes "nid \<notin> destination_id ` set (notification_destinations db)"
    and s: "session_workspace_id s = Some (workspace_id w)"
  obtains ds where "open_destination s w chat nid db = Inr (db\<lparr> notification_destinations := ds \<rparr>)"
proof (cases "select_one (\<lambda>d. destination_policy s d \<and>
    destination_workspace_id d = workspace_id w \<and>
    destination_telegram_chat_id d = chat) (notification_destinations db)")
  case None
  let ?d = "\<lparr> destination_id = nid, destination_workspace_id = workspace_id w,
        destination_telegram_chat_id = chat, destination_chat_type = ''private'',
        destination_enabled = True \<rparr>"
  have "insert_checked notification_destination_fits (destination_policy s)
      notification_destination_clash ?d (notification_destinations db) =
      Inr (notification_destinations db @ [?d])"
    by (rule insert_checked_ok)
      (use None assms in \<open>auto simp: destination_policy_def workspace_isolation_def
        notification_destination_fits_def notification_destination_clash_def select_one_None_iff\<close>)
  with None show thesis by (intro that) (simp add: open_destination_def)
next
  case (Some d)
  then show thesis by (intro that) (simp add: open_destination_def)
qed

lemma open_strategy_succeeds:
  assumes "nid \<notin> strategy_id ` set (workspace_strategies db)"
    and s: "session_workspace_id s = Some (workspace_id w)"
  obtains rs where "open_strategy s w nid db = Inr (db\<lparr> workspace_strategies := rs \<rparr>)"
proof (cases "select_one (\<lambda>r. strategy_policy s r \<and>
    strategy_workspace_id r = workspace_id w \<and> strategy_version r = 1) (workspace_strategies db)")
  case None
  have "insert_checked (\<lambda>_. True) (strategy_policy s) workspace_strategy_clash
      (default_strategy w nid) (workspace_strategies db) =
      Inr (workspace_strategies db @ [default_strategy w nid])"
    by (rule insert_checked_ok)
      (use None assms in \<open>auto simp: strategy_policy_def workspace_isolation_def
        default_strategy_def workspace_strategy_clash_def select_one_None_iff\<close>)
  with None show thesis by (intro that) (simp add: open_strategy_def)
next
  case (Some r)
  then show thesis
    by (intro that [of "workspace_strategies db"]) (simp add: open_strategy_def)
qed

lemma insert_audit_succeeds:
  assumes "audit_id row \<notin> audit_id ` set (audit_logs db)" and "audit_log_fits row"
    and "audit_insert_policy s row" and "reads_back db \<Longrightarrow> audit_select_policy s row"
  shows "insert_audit s row db = Inr (db\<lparr> audit_logs := audit_logs db @ [row] \<rparr>)"
proof -
  have "insert_checked audit_log_fits
       (\<lambda>r. audit_insert_policy s r \<and> (reads_back db \<longrightarrow> audit_select_policy s r))
       audit_log_clash row (audit_logs db) = Inr (audit_logs db @ [row])"
    by (rule insert_checked_ok) (use assms in \<open>auto simp: audit_log_clash_def\<close>)
  then show ?thesis by (simp add: insert_audit_def)
qed

lemma pending_request_row_ok:
  assumes "access_ok db" and "req \<in> set (access_requests db)" and "is_pending req"
  shows "pending_request_row (request_id req) db = Inr req"
proof -
  have "select_one (\<lambda>r. request_id r = request_id req) (access_requests db) = Some req"
    by (rule select_one_unique_table [of access_request_clash])
      (use assms in \<open>auto simp: access_ok_def access_unique_def access_request_clash_def
        one_pending_target_def\<close>)
  then show ?thesis using assms(3) by (simp add: pending_request_row_def is_pending_def)
qed

text \<open>The label the workspace of a requester is named after.\<close>

definition request_label :: "access_request \<Rightarrow> string" where
  "request_label req =
     text_or (request_display_name req)
       (text_or (request_username req) (str_int (request_telegram_user_id req)))"

text \<open>Up to the workspace, an approval of a pending request meets no obstacle.\<close>

lemma approval_reaches_workspace:
  assumes st: "access_settled db" and fresh: "fresh_for fresh db"
    and req: "req \<in> set (access_requests db)" "is_pending req" "access_request_fits req"
  obtains a users1 user users2 where
    "platform_actor actor at (fresh_actor_id fresh) db = Inr (a, db\<lparr> platform_users := users1 \<rparr>)"
    "pending_request_row (request_id req) (db\<lparr> platform_users := users1 \<rparr>) = Inr req"
    "approved_user req (user_id a) at (fresh_user_id fresh) (db\<lparr> platform_users := users1 \<rparr>) =
      Inr (user, db\<lparr> platform_users := users2 \<rparr>)"
    "access_ok (db\<lparr> platform_users := users1 \<rparr>)"
    "user_written actor a db (db\<lparr> platform_users := users1 \<rparr>)"
    "user_written (request_telegram_user_id req) user (db\<lparr> platform_users := users1 \<rparr>)
      (db\<lparr> platform_users := users2 \<rparr>)"
    "workspace_label user = request_label req"
proof -
  obtain a users1 where
    1: "platform_actor actor at (fresh_actor_id fresh) db = Inr (a, db\<lparr> platform_users := users1 \<rparr>)"
    and ids1: "user_id ` set users1 \<subseteq> insert (fresh_actor_id fresh) (user_id ` set (platform_users db))"
    by (rule platform_actor_succeeds [of "fresh_actor_id fresh" db])
      (use fresh in \<open>auto simp: fresh_for_def\<close>)
  let ?db1 = "db\<lparr> platform_users := users1 \<rparr>"
  note a = platform_actor_standing [OF 1 st]
  have ok1: "access_ok ?db1" using a(3) by (rule access_settledD)
  then have 2: "pending_request_row (request_id req) ?db1 = Inr req"
    by (rule pending_request_row_ok) (use req in simp_all)
  have "fresh_user_id fresh \<notin> user_id ` set (platform_users ?db1)"
    using ids1 fresh by (auto simp: fresh_for_def)
  then obtain user users2 where
    3: "approved_user req (user_id a) at (fresh_user_id fresh) ?db1 =
      Inr (user, ?db1\<lparr> platform_users := users2 \<rparr>)"
    and names: "user_display_name user = request_display_name req"
      "user_username user = request_username req"
    by (rule approved_user_succeeds [OF _ req(3)])
  have uw: "user_written (request_telegram_user_id req) user ?db1 (?db1\<lparr> platform_users := users2 \<rparr>)"
    using approved_user_written [OF 3] ok1 by (simp add: access_ok_def access_unique_def)
  then have "user_telegram_user_id user = request_telegram_user_id req"
    using user_ofD by (simp add: user_written_def) blast
  then have "workspace_label user = request_label req"
    using names by (simp add: workspace_label_def request_label_def)
  with that [OF 1 2] 3 ok1 a(1) uw show thesis by simp
qed

lemma approve_request_succeeds:
  assumes st: "access_settled db" and fresh: "fresh_for fresh db"
    and req: "req \<in> set (access_requests db)" "is_pending req"
    and fits: "access_request_fits req" "length (request_label req) \<le> 108"
    and actor: "length (str_int actor) \<le> 128"
  shows "\<exists>res db'. approve_request (request_id req) actor cid at fresh db = Inr (res, db')"
proof (rule approval_reaches_workspace [OF st fresh req fits(1), of actor at], goal_cases)
  case (1 a users1 user users2)
  let ?db2 = "db\<lparr> platform_users := users2 \<rparr>"
  let ?s1 = "set_user_context (user_id user) empty_session"
  have label: "length (workspace_label user) \<le> 108" using fits(2) 1(7) by simp
  obtain w ws where 4: "personal_workspace ?s1 user (fresh_workspace_id fresh) ?db2 =
      Inr (w, ?db2\<lparr> workspaces := ws \<rparr>)"
    by (rule personal_workspace_succeeds [OF _ label, of _ ?db2])
      (use fresh in \<open>auto simp: fresh_for_def\<close>)
  let ?s2 = "set_workspace_context (workspace_id w) ?s1"
  have s2: "session_workspace_id ?s2 = Some (workspace_id w)" by simp
  obtain ms where 5: "open_membership ?s2 w user (fresh_membership_id fresh)
      (?db2\<lparr> workspaces := ws \<rparr>) =
      Inr (?db2\<lparr> workspaces := ws, workspace_memberships := ms \<rparr>)"
    by (rule open_membership_succeeds [OF _ s2, of _ "?db2\<lparr> workspaces := ws \<rparr>"])
      (use fresh in \<open>auto simp: fresh_for_def\<close>)
  let ?db4 = "?db2\<lparr> workspaces := ws, workspace_memberships := ms \<rparr>"
  obtain ds where 6: "open_destination ?s2 w (request_telegram_user_id req)
      (fresh_destination_id fresh) ?db4 = Inr (?db4\<lparr> notification_destinations := ds \<rparr>)"
    by (rule open_destination_succeeds [OF _ s2, of _ ?db4])
      (use fresh in \<open>auto simp: fresh_for_def\<close>)
  let ?db5 = "?db4\<lparr> notification_destinations := ds \<rparr>"
  obtain rs where 7: "open_strategy ?s2 w (fresh_strategy_id fresh) ?db5 =
      Inr (?db5\<lparr> workspace_strategies := rs \<rparr>)"
    by (rule open_strategy_succeeds [OF _ s2, of _ ?db5])
      (use fresh in \<open>auto simp: fresh_for_def\<close>)
  let ?row = "approval_audit (fresh_audit_id fresh) (request_id req) actor cid w user"
  have 8: "insert_audit ?s2 ?row db' = Inr (db'\<lparr> audit_logs := audit_logs db' @ [?row] \<rparr>)"
    if "audit_logs db' = audit_logs db" for db'
    by (rule insert_audit_succeeds)
      (use that fresh actor in \<open>auto simp: approval_audit_def fresh_for_def audit_log_fits_def
        audit_insert_policy_def audit_select_policy_def length_uuid_str\<close>)
  show ?thesis
    using 1(1-3) 4 5 6 7 by (simp add: approve_request_def Let_def 8)
qed

text \<open>
  A requester's name of 109 or more characters does not fit the name of a new workspace, and
  the transaction fails.
\<close>

lemma approve_request_long_name:
  assumes st: "access_settled db" and fresh: "fresh_for fresh db"
    and req: "req \<in> set (access_requests db)" "is_pending req" "access_request_fits req"
    and long: "108 < length (request_label req)"
    and new: "user_of (request_telegram_user_id req) db = None"
    and other: "actor \<noteq> request_telegram_user_id req"
  shows "approve_request (request_id req) actor cid at fresh db = Inl DataError"
proof (rule approval_reaches_workspace [OF st fresh req, of actor at], goal_cases)
  case (1 a users1 user users2)
  let ?db1 = "db\<lparr> platform_users := users1 \<rparr>"
  have "user_of (request_telegram_user_id req) ?db1 = None"
    using 1(5) new other by (auto simp: user_written_def)
  then have "user_id user \<notin> user_id ` set (platform_users ?db1)"
    using 1(6) by (auto simp: user_written_def)
  then have "\<forall>w \<in> set (workspaces db). workspace_personal_owner_user_id w \<noteq> user_id user"
    using workspace_owner_user [OF 1(4)] by (simp, metis)
  then have "personal_workspace (set_user_context (user_id user) empty_session) user
      (fresh_workspace_id fresh) (db\<lparr> platform_users := users2 \<rparr>) = Inl DataError"
    using long 1(7)
    by (simp add: personal_workspace_def insert_checked_def workspace_fits_def Let_def
        select_one_None_iff [THEN iffD2])
  then show ?thesis
    using 1(1-3) by (simp add: approve_request_def Let_def)
qed

section \<open>Rejection and the read-back of audit entries\<close>

text \<open>
  The audit entry of a rejection has no workspace, and the select policy shows no such entry:
  a mapper that reads the inserted row back cannot insert it.
\<close>

lemma insert_audit_not_read_back:
  "insert_audit s row db = Inr db' \<Longrightarrow> audit_workspace_id row = None \<Longrightarrow> \<not> reads_back db"
  by (auto simp: insert_audit_def insert_checked_def audit_select_policy_def split: if_splits)

lemma platform_actor_reads_back:
  "platform_actor actor at nid db = Inr (a, db') \<Longrightarrow> reads_back db' = reads_back db"
  by (auto simp: platform_actor_def Let_def attempt_eq_Inr_iff split: option.splits)

lemma reject_request_InrD:
  assumes "reject_request rid actor cid reason at until fresh db = Inr (res, db')"
  shows "\<not> reads_back db"
  using assms
  by (auto simp: reject_request_def Let_def rejection_audit_def elim!: attempt_InrE
      dest!: insert_audit_not_read_back platform_actor_reads_back)

lemma reject_request_read_back:
  "reads_back db \<Longrightarrow> \<exists>e. reject_request rid actor cid reason at until fresh db = Inl e"
  by (cases "reject_request rid actor cid reason at until fresh db")
    (auto dest: reject_request_InrD)

lemma reject_request_succeeds:
  assumes st: "access_settled db" and fresh: "fresh_for fresh db" and no_read: "\<not> reads_back db"
    and req: "req \<in> set (access_requests db)" "is_pending req"
    and actor: "length (str_int actor) \<le> 128"
  shows "\<exists>res db'. reject_request (request_id req) actor cid reason at until fresh db = Inr (res, db')"
proof -
  obtain a users1 where
    1: "platform_actor actor at (fresh_actor_id fresh) db = Inr (a, db\<lparr> platform_users := users1 \<rparr>)"
    by (rule platform_actor_succeeds [of "fresh_actor_id fresh" db])
      (use fresh in \<open>auto simp: fresh_for_def\<close>)
  have 2: "pending_request_row (request_id req) (db\<lparr> platform_users := users1 \<rparr>) = Inr req"
    by (rule pending_request_row_ok [OF access_settledD [OF platform_actor_standing(3) [OF 1 st]]])
      (use req in simp_all)
  let ?row = "rejection_audit (fresh_audit_id fresh) (request_id req) actor cid reason until"
  have 3: "insert_audit empty_session ?row db' = Inr (db'\<lparr> audit_logs := audit_logs db' @ [?row] \<rparr>)"
    if "audit_logs db' = audit_logs db" "reads_back db' = reads_back db" for db'
    by (rule insert_audit_succeeds)
      (use that fresh actor no_read in \<open>auto simp: rejection_audit_def fresh_for_def audit_log_fits_def
        audit_insert_policy_def length_uuid_str\<close>)
  show ?thesis using 1 2 by (simp add: reject_request_def Let_def 3)
qed

end
