(* ===== verification/AccessService.thy ===== *)
theory AccessService
  imports AccessHistory
begin

text \<open>
  The access service (\<^verbatim>\<open>app/application/access/service.py\<close>) and the middleware that resolves a
  Telegram event into a request context (\<^verbatim>\<open>app/bot/middleware/authorization.py\<close>). A service
  method runs its repository calls as separate transactions and answers its result with the
  database they left. The clock, the fresh ids and the configured platform owners are arguments.
\<close>

section \<open>The service\<close>

record access_request_outcome =
  outcome_state :: string
  outcome_request_id :: "uuid option"
  outcome_created :: bool

text \<open>The constructor refuses an empty set of platform owners.\<close>

definition access_service_owner_ids :: "int set \<Rightarrow> int set outcome" where
  "access_service_owner_ids platform_owner_ids =
     (if platform_owner_ids = {}
      then Inl (ValueError ''at least one platform owner ID is required'')
      else Inr platform_owner_ids)"

definition is_active_principal :: "principal option \<Rightarrow> bool" where
  "is_active_principal p =
     (case p of None \<Rightarrow> False | Some p \<Rightarrow> principal_user_status p = UserStatus_ACTIVE)"

definition request_access ::
  "telegram_identity \<Rightarrow> instant \<Rightarrow> uuid \<Rightarrow> access_db \<Rightarrow> access_request_outcome outcome \<times> access_db"
where
  "request_access identity now new_id db =
     (case identity_require_private_chat identity of
        Inl e \<Rightarrow> (Inl e, db)
      | Inr _ \<Rightarrow>
          if is_active_principal (find_principal (identity_telegram_user_id identity) db)
          then (Inr \<lparr> outcome_state = ''active'', outcome_request_id = None,
                      outcome_created = False \<rparr>, db)
          else
            let latest = find_latest_request (identity_telegram_user_id identity) db;
                create = transact db
                  (attempt (get_or_create_pending_request identity now new_id db)
                    (\<lambda>(pending, db'). Inr
                      (\<lparr> outcome_state = ''pending'',
                         outcome_request_id = Some (record_id (pending_record pending)),
                         outcome_created = pending_created pending \<rparr>, db')))
            in case latest of
                 None \<Rightarrow> create
               | Some r \<Rightarrow>
                   if record_status r = AccessRequestStatus_PENDING
                   then (Inr \<lparr> outcome_state = ''pending'',
                               outcome_request_id = Some (record_id r),
                               outcome_created = False \<rparr>, db)
                   else if (case record_cooldown_until r of None \<Rightarrow> False | Some t \<Rightarrow> now < t)
                   then (Inr \<lparr> outcome_state = ''cooldown'',
                               outcome_request_id = Some (record_id r),
                               outcome_created = False \<rparr>, db)
                   else create)"

definition access_status :: "telegram_identity \<Rightarrow> access_db \<Rightarrow> access_request_outcome outcome" where
  "access_status identity db =
     attempt (identity_require_private_chat identity) (\<lambda>_.
       if is_active_principal (find_principal (identity_telegram_user_id identity) db)
       then Inr \<lparr> outcome_state = ''active'', outcome_request_id = None, outcome_created = False \<rparr>
       else
         (case find_latest_request (identity_telegram_user_id identity) db of
            None \<Rightarrow> Inr \<lparr> outcome_state = ''not_requested'', outcome_request_id = None,
                         outcome_created = False \<rparr>
          | Some r \<Rightarrow> Inr \<lparr> outcome_state = access_request_status_value (record_status r),
                           outcome_request_id = Some (record_id r),
                           outcome_created = False \<rparr>))"

text \<open>Two fresh ids: one made here, one made by \<open>RequestContext.platform_owner\<close>.\<close>

definition resolve_context ::
  "int set \<Rightarrow> telegram_identity \<Rightarrow> uuid \<Rightarrow> uuid \<Rightarrow> access_db \<Rightarrow> request_context outcome"
where
  "resolve_context platform_owner_ids identity correlation_id owner_correlation_id db =
     attempt (identity_require_private_chat identity) (\<lambda>_.
       let is_owner = (identity_telegram_user_id identity \<in> platform_owner_ids) in
       (case find_principal (identity_telegram_user_id identity) db of
          None \<Rightarrow>
            if is_owner then Inr (platform_owner_context owner_correlation_id identity)
            else
              (case find_latest_request (identity_telegram_user_id identity) db of
                 Some r \<Rightarrow>
                   if record_status r = AccessRequestStatus_PENDING
                   then Inl (AccessFailure AccessPending ''Access request is awaiting owner approval.'')
                   else Inl (AccessFailure AccessDenied
                     ''This Telegram account is not approved for CopyMint.'')
               | None \<Rightarrow> Inl (AccessFailure AccessDenied
                     ''This Telegram account is not approved for CopyMint.''))
        | Some p \<Rightarrow>
            if principal_user_status p \<noteq> UserStatus_ACTIVE
            then Inl (AccessFailure AccessDenied ''CopyMint access has been revoked.'')
            else if (principal_workspace_id p = None \<or> principal_workspace_role p = None) \<and> \<not> is_owner
            then Inl (AccessFailure AccessDenied ''The approved account has no active workspace.'')
            else Inr
              \<lparr> ctx_telegram_user_id = identity_telegram_user_id identity,
                ctx_chat_id = identity_chat_id identity,
                ctx_chat_type = identity_chat_type identity,
                ctx_correlation_id = correlation_id,
                ctx_user_id = Some (principal_user_id p),
                ctx_workspace_id = principal_workspace_id p,
                ctx_workspace_role = principal_workspace_role p,
                ctx_platform_role =
                  (if is_owner then Some PlatformRole_PLATFORM_OWNER else None) \<rparr>))"

definition approve ::
  "request_context \<Rightarrow> uuid \<Rightarrow> instant \<Rightarrow> fresh_ids \<Rightarrow> access_db \<Rightarrow>
     access_decision_result outcome \<times> access_db"
where
  "approve actor rid now fresh db =
     transact db (attempt (require_platform_owner actor) (\<lambda>_.
       approve_request rid (ctx_telegram_user_id actor) (ctx_correlation_id actor) now fresh db))"

definition pending_requests ::
  "request_context \<Rightarrow> int \<Rightarrow> access_db \<Rightarrow> access_request_record list outcome"
where
  "pending_requests actor limit db =
     attempt (require_platform_owner actor) (\<lambda>_.
       if limit < 1 \<or> 100 < limit
       then Inl (ValueError ''pending request limit must be between 1 and 100'')
       else Inr (list_pending_requests (nat limit) db))"

text \<open>A zero \<open>timedelta\<close> is false, so a cooldown of no length is no cooldown.\<close>

definition cooldown_end :: "instant \<Rightarrow> duration option \<Rightarrow> instant option" where
  "cooldown_end now cooldown =
     (case cooldown of None \<Rightarrow> None | Some d \<Rightarrow> if d = 0 then None else Some (now + d))"

definition reject ::
  "request_context \<Rightarrow> uuid \<Rightarrow> string option \<Rightarrow> duration option \<Rightarrow> instant \<Rightarrow> fresh_ids \<Rightarrow> access_db \<Rightarrow>
     access_decision_result outcome \<times> access_db"
where
  "reject actor rid reason cooldown now fresh db =
     transact db (attempt (require_platform_owner actor) (\<lambda>_.
       reject_request rid (ctx_telegram_user_id actor) (ctx_correlation_id actor) reason now
         (cooldown_end now cooldown) fresh db))"

definition revoke ::
  "int set \<Rightarrow> request_context \<Rightarrow> int \<Rightarrow> string option \<Rightarrow> instant \<Rightarrow> fresh_ids \<Rightarrow> access_db \<Rightarrow>
     unit outcome \<times> access_db"
where
  "revoke platform_owner_ids actor target reason now fresh db =
     transact db (attempt (require_platform_owner actor) (\<lambda>_.
       if target \<in> platform_owner_ids
       then Inl (AccessFailure AccessDenied
         ''A configured platform owner cannot be revoked through the bot.'')
       else revoke_user target (ctx_telegram_user_id actor) (ctx_correlation_id actor) reason now
         fresh db))"

section \<open>The middleware\<close>

record telegram_account =
  account_id :: int
  account_first_name :: string
  account_last_name :: "string option"
  account_username :: "string option"

record telegram_chat =
  chat_id :: int
  chat_type :: string

datatype telegram_event =
    Message "telegram_account option" telegram_chat "string option"
  | CallbackQuery telegram_account "telegram_chat option"
  | OtherEvent string

definition display_name :: "telegram_account \<Rightarrow> string option" where
  "display_name user =
     (let parts = filter (\<lambda>part. part \<noteq> [])
        [account_first_name user, case account_last_name user of None \<Rightarrow> [] | Some s \<Rightarrow> s];
        name = join_with (CHR '' '') parts
      in if name = [] then None else Some name)"

definition account_identity :: "telegram_account \<Rightarrow> telegram_chat \<Rightarrow> telegram_identity" where
  "account_identity user chat =
     \<lparr> identity_telegram_user_id = account_id user,
       identity_chat_id = chat_id chat,
       identity_chat_type = chat_type chat,
       identity_username = account_username user,
       identity_display_name = display_name user \<rparr>"

fun identity_from_event :: "telegram_event \<Rightarrow> telegram_identity option" where
  "identity_from_event (Message None chat text) = None"
| "identity_from_event (Message (Some user) chat text) = Some (account_identity user chat)"
| "identity_from_event (CallbackQuery user None) = None"
| "identity_from_event (CallbackQuery user (Some chat)) = Some (account_identity user chat)"
| "identity_from_event (OtherEvent name) = None"

fun event_name :: "telegram_event \<Rightarrow> string" where
  "event_name (Message _ _ _) = ''Message''"
| "event_name (CallbackQuery _ _) = ''CallbackQuery''"
| "event_name (OtherEvent name) = name"

definition public_commands :: "string list" where
  "public_commands = [''/start'', ''/access_status'', ''/help'']"

fun is_public_message :: "telegram_event \<Rightarrow> bool" where
  "is_public_message (Message _ _ (Some text)) = list_ex (starts_with text) public_commands"
| "is_public_message _ = False"

text \<open>The \<open>code\<close> attribute of each access error.\<close>

fun access_code :: "access_kind \<Rightarrow> string" where
  "access_code AccessError = ''access_error''"
| "access_code PrivateChatRequired = ''private_chat_required''"
| "access_code AccessPending = ''access_pending''"
| "access_code AccessDenied = ''access_denied''"
| "access_code PlatformOwnerRequired = ''platform_owner_required''"
| "access_code WorkspaceRequired = ''workspace_required''"
| "access_code RateLimited = ''rate_limited''"
| "access_code InvalidChallenge = ''invalid_challenge''"
| "access_code WalletLimitReached = ''wallet_limit_reached''"
| "access_code InvalidCollectionInput = ''invalid_collection_input''"
| "access_code CollectionNotFound = ''collection_not_found''"

text \<open>What the middleware puts into the handler's data.\<close>

record handler_data =
  data_identity :: "telegram_identity option"
  data_context :: "request_context option"
  data_access_error :: "(access_kind \<times> string) option"

definition request_context_middleware ::
  "int set \<Rightarrow> bool \<Rightarrow> telegram_event \<Rightarrow> uuid \<Rightarrow> uuid \<Rightarrow> uuid \<Rightarrow> uuid \<Rightarrow> access_db \<Rightarrow>
     handler_data outcome \<times> access_db"
where
  "request_context_middleware platform_owner_ids audited event cid owner_cid audit_cid audit_row db =
     (case identity_from_event event of
        None \<Rightarrow> (Inr \<lparr> data_identity = None, data_context = None, data_access_error = None \<rparr>, db)
      | Some identity \<Rightarrow>
          (case resolve_context platform_owner_ids identity cid owner_cid db of
             Inr ctx \<Rightarrow> (Inr \<lparr> data_identity = Some identity, data_context = Some ctx,
                              data_access_error = None \<rparr>, db)
           | Inl (AccessFailure kind message) \<Rightarrow>
               (let refused = \<lparr> data_identity = Some identity, data_context = None,
                                data_access_error = Some (kind, message) \<rparr>
                in if audited \<and> \<not> is_public_message event
                   then transact db (attempt
                     (unauthorized_attempt identity (event_name event) (access_code kind) audit_cid
                       audit_row db) (\<lambda>(_, db'). Inr (refused, db')))
                   else (Inr refused, db))
           | Inl e \<Rightarrow> (Inl e, db)))"

section \<open>What the guards protect\<close>

lemma resolve_context_InrD:
  assumes "resolve_context owners identity cid owner_cid db = Inr ctx"
  shows "is_private_chat identity" and "private_context ctx"
    and "ctx_telegram_user_id ctx = identity_telegram_user_id identity"
    and "is_platform_owner ctx \<longleftrightarrow> identity_telegram_user_id identity \<in> owners"
    and "identity_telegram_user_id identity \<in> owners \<or>
      (\<exists>h. standing (identity_telegram_user_id identity) db = Approved (Some h))"
    and "ctx_workspace_id ctx = Some w \<Longrightarrow>
      \<exists>r. standing (identity_telegram_user_id identity) db = Approved (Some (w, r)) \<and>
        ctx_workspace_role ctx = Some r"
  using assms
  by (auto simp: resolve_context_def Let_def is_platform_owner_def platform_owner_context_def
      private_context_def is_private_chat_def standing_eq find_principal_eq
      elim!: attempt_InrE dest!: identity_require_private_chat_InrD
      split: option.splits if_splits)

lemma resolve_context_approved:
  assumes "is_private_chat identity"
    and "standing (identity_telegram_user_id identity) db = Approved (Some (w, r))"
  shows "\<exists>ctx. resolve_context owners identity cid owner_cid db = Inr ctx \<and>
    ctx_workspace_id ctx = Some w \<and> ctx_workspace_role ctx = Some r \<and>
    require_workspace ctx = Inr w"
  using assms
  by (auto simp: resolve_context_def Let_def guard_simps require_workspace_iff private_context_def
      is_private_chat_def standing_eq find_principal_eq split: option.splits if_splits)

lemma resolve_context_barred:
  assumes "is_private_chat identity"
    and "standing (identity_telegram_user_id identity) db = Barred"
  shows "resolve_context owners identity cid owner_cid db =
    Inl (AccessFailure AccessDenied ''CopyMint access has been revoked.'')"
  using assms
  by (auto simp: resolve_context_def Let_def guard_simps standing_eq find_principal_eq
      split: option.splits if_splits)

section \<open>A database for the examples\<close>

text \<open>One request of Telegram user 42 is pending; user 1 is the platform owner.\<close>

definition requester :: telegram_identity where
  "requester = \<lparr> identity_telegram_user_id = 42, identity_chat_id = 42,
     identity_chat_type = ''private'', identity_username = Some ''ann'',
     identity_display_name = Some ''Ann'' \<rparr>"

definition owner_context :: request_context where
  "owner_context = platform_owner_context 900
     \<lparr> identity_telegram_user_id = 1, identity_chat_id = 1, identity_chat_type = ''private'',
       identity_username = None, identity_display_name = None \<rparr>"

definition requested_db :: access_db where
  "requested_db = (empty_access_db False)\<lparr> access_requests := [new_request requester 1000 7] \<rparr>"

definition sample_ids :: fresh_ids where
  "sample_ids = \<lparr> fresh_actor_id = 101, fresh_user_id = 102, fresh_workspace_id = 103,
     fresh_membership_id = 104, fresh_destination_id = 105, fresh_strategy_id = 106,
     fresh_audit_id = 107 \<rparr>"

lemma requested_db_run:
  "get_or_create_pending_request requester 1000 7 (empty_access_db False) =
     Inr (\<lparr> pending_record = request_record (new_request requester 1000 7),
            pending_created = True \<rparr>, requested_db)"
  by (simp add: get_or_create_pending_request_def insert_or_nothing_def requested_db_def
      empty_access_db_def new_request_def access_request_fits_def requester_def Let_def)

lemma requested_db_reachable: "access_reachable requested_db"
  by (rule access_reachable.requested [OF access_reachable.start requested_db_run])

lemma requested_db_fresh: "fresh_for sample_ids requested_db"
  by (simp add: fresh_for_def sample_ids_def requested_db_def empty_access_db_def)

lemma requested_db_request:
  "new_request requester 1000 7 \<in> set (access_requests requested_db)"
  "access_request_fits (new_request requester 1000 7)"
  "length (request_label (new_request requester 1000 7)) \<le> 108"
  by (simp_all add: requested_db_def access_request_fits_def new_request_def requester_def
      request_label_def)

lemma owner_context_ok: "require_platform_owner owner_context = Inr ()"
  "ctx_telegram_user_id owner_context = 1"
  by (simp_all add: require_platform_owner_iff private_context_def is_platform_owner_def
      owner_context_def platform_owner_context_def)

lemma str_int_1: "length (str_int 1) \<le> 128"
  by (simp add: str_int_def decimal.simps)

section \<open>Properties\<close>



text \<open>
  C1. Approval implements its specification: in a consistent database a committed approval gives
  the requester, and no one else, the standing of an owner of the workspace it answers; the
  acting platform owner becomes an active user; every other Telegram user keeps their standing.
  The request it names was pending.
\<close>

theorem approve_refines:
  assumes "access_settled db" and "approve actor rid now fresh db = (Inr res, db')"
  shows "access_settled db' \<and>
    (\<exists>w. decision_workspace_id res = Some w \<and>
       (\<lambda>t. standing t db') =
         approve_spec (ctx_telegram_user_id actor) (decision_telegram_user_id res) w
           (\<lambda>t. standing t db)) \<and>
    (\<exists>req \<in> set (access_requests db). request_id req = rid \<and> is_pending req \<and>
       request_telegram_user_id req = decision_telegram_user_id res)"
proof -
  from assms(2) have "approve_request rid (ctx_telegram_user_id actor) (ctx_correlation_id actor)
      now fresh db = Inr (res, db')"
    by (auto simp: approve_def transact_attempt_guard)
  from approve_request_refines [OF this assms(1)] show ?thesis by blast
qed

text \<open>What an approval that goes through leaves: the requester's standing in the workspace answered.\<close>

lemma approve_opens_workspace:
  assumes st: "access_settled db" and fresh: "fresh_for fresh db"
    and owner: "require_platform_owner actor = Inr ()"
    and actor: "length (str_int (ctx_telegram_user_id actor)) \<le> 128"
    and req: "req \<in> set (access_requests db)" "is_pending req" "access_request_fits req"
      "length (request_label req) \<le> 108"
  shows "\<exists>res db' w. approve actor (request_id req) now fresh db = (Inr res, db') \<and>
    decision_workspace_id res = Some w \<and> decision_telegram_user_id res = request_telegram_user_id req \<and>
    standing (request_telegram_user_id req) db' = Approved (Some (w, WorkspaceRole_OWNER))"
proof -
  obtain res db' where run: "approve_request (request_id req) (ctx_telegram_user_id actor)
      (ctx_correlation_id actor) now fresh db = Inr (res, db')"
    using approve_request_succeeds [OF st fresh req actor] by blast
  then have step: "approve actor (request_id req) now fresh db = (Inr res, db')"
    by (simp add: approve_def owner transact_Inr_iff)
  from approve_request_refines(2,3) [OF run st] obtain w req' where
    w: "decision_workspace_id res = Some w"
    and spec: "(\<lambda>t. standing t db') = approve_spec (ctx_telegram_user_id actor)
      (decision_telegram_user_id res) w (\<lambda>t. standing t db)"
    and req': "req' \<in> set (access_requests db)" "request_id req' = request_id req"
      "request_telegram_user_id req' = decision_telegram_user_id res" by blast
  have "req' = req"
    using request_unique [of "access_requests db" req' req] access_settledD [OF st] req' req(1)
    by (simp add: access_ok_def access_unique_def)
  with req' have "standing (request_telegram_user_id req) db' = Approved (Some (w, WorkspaceRole_OWNER))"
    using fun_cong [OF spec, of "request_telegram_user_id req"] by (simp add: approve_spec_def)
  with step w req' \<open>req' = req\<close> show ?thesis by auto
qed

text \<open>
  An approval goes through: for a pending request in a consistent database, with ids that are
  new and a requester's name short enough for the workspace's name, the platform owner's approval
  commits, and afterwards the requester's private chat resolves to a context whose workspace is
  the one the approval answered.
\<close>

theorem approve_gives_access:
  assumes st: "access_settled db" and fresh: "fresh_for fresh db"
    and owner: "require_platform_owner actor = Inr ()"
    and actor: "length (str_int (ctx_telegram_user_id actor)) \<le> 128"
    and req: "req \<in> set (access_requests db)" "is_pending req" "access_request_fits req"
      "length (request_label req) \<le> 108"
    and identity: "is_private_chat identity"
      "identity_telegram_user_id identity = request_telegram_user_id req"
  shows "\<exists>res db' ctx w. approve actor (request_id req) now fresh db = (Inr res, db') \<and>
    decision_workspace_id res = Some w \<and>
    resolve_context owners identity cid owner_cid db' = Inr ctx \<and>
    require_workspace ctx = Inr w \<and> ctx_workspace_role ctx = Some WorkspaceRole_OWNER"
proof -
  from approve_opens_workspace [OF st fresh owner actor req, of now] obtain res db' w where
    step: "approve actor (request_id req) now fresh db = (Inr res, db')"
      "decision_workspace_id res = Some w"
      "standing (request_telegram_user_id req) db' = Approved (Some (w, WorkspaceRole_OWNER))" by blast
  from resolve_context_approved [OF identity(1) step(3) [folded identity(2)]] step(1,2) show ?thesis by blast
qed

theorem approve_gives_access_witness:
  "\<exists>res db' ctx w. approve owner_context 7 2000 sample_ids requested_db = (Inr res, db') \<and>
    decision_workspace_id res = Some w \<and>
    resolve_context {1} requester 901 902 db' = Inr ctx \<and>
    require_workspace ctx = Inr w \<and> ctx_workspace_role ctx = Some WorkspaceRole_OWNER"
  using approve_gives_access [OF access_reachable_settled [OF requested_db_reachable]
      requested_db_fresh owner_context_ok(1) _ requested_db_request(1) _ requested_db_request(2,3),
      of requester 2000 "{1}" 901 902]
  by (simp add: owner_context_ok str_int_1) (simp add: requester_def is_private_chat_def)

theorem approve_refines_witness:
  "\<exists>res db'. approve owner_context 7 2000 sample_ids requested_db = (Inr res, db') \<and>
    access_settled db' \<and>
    (\<exists>w. decision_workspace_id res = Some w \<and>
       (\<lambda>t. standing t db') = approve_spec 1 (decision_telegram_user_id res) w
         (\<lambda>t. standing t requested_db))"
proof -
  obtain res db' where "approve_request 7 1 (ctx_correlation_id owner_context) 2000 sample_ids
      requested_db = Inr (res, db')"
    using approve_request_succeeds [OF access_reachable_settled [OF requested_db_reachable]
        requested_db_fresh requested_db_request(1) _ requested_db_request(2,3) str_int_1]
    by simp blast
  then have "approve owner_context 7 2000 sample_ids requested_db = (Inr res, db')"
    by (simp add: approve_def owner_context_ok)
  from this approve_refines [OF access_reachable_settled [OF requested_db_reachable] this]
  show ?thesis by (auto simp: owner_context_ok)
qed

text \<open>
  C27. Revocation implements its specification: a committed revocation bars its target, who is not
  a configured platform owner, makes the acting owner an active user, and changes nobody else's
  standing. From then on the target's private chat resolves to an access denial.
\<close>

theorem revoke_refines:
  assumes "access_settled db" and "revoke owners actor target reason now fresh db = (Inr u, db')"
  shows "access_settled db' \<and> target \<notin> owners \<and>
    (\<lambda>t. standing t db') =
      revoke_spec (ctx_telegram_user_id actor) target (\<lambda>t. standing t db) \<and>
    (is_private_chat identity \<and> identity_telegram_user_id identity = target \<longrightarrow>
       resolve_context owners identity cid owner_cid db' =
         Inl (AccessFailure AccessDenied ''CopyMint access has been revoked.''))"
proof -
  from assms(2) have run: "revoke_user target (ctx_telegram_user_id actor) (ctx_correlation_id actor)
      reason now fresh db = Inr (u, db')" and "target \<notin> owners"
    by (auto simp: revoke_def transact_attempt_guard split: if_splits)
  moreover have "standing target db' = Barred"
    using fun_cong [OF revoke_user_refines(2) [OF run assms(1)], of target]
    by (simp add: revoke_spec_def)
  ultimately show ?thesis
    using revoke_user_refines [OF run assms(1)] resolve_context_barred [of identity db'] by auto
qed

text \<open>
  Only platform owners decide. A context resolved for a Telegram user who is not a configured
  platform owner can neither approve, nor reject, nor revoke, nor list requests: each call raises
  the platform-owner error and leaves the database as it was.
\<close>

theorem decisions_need_platform_owner:
  assumes "resolve_context owners identity cid owner_cid db0 = Inr ctx"
    and "identity_telegram_user_id identity \<notin> owners"
  shows "(let refused = AccessFailure PlatformOwnerRequired
            ''Platform-owner authorization is required.'' in
    approve ctx rid now fresh db = (Inl refused, db) \<and>
    reject ctx rid reason cooldown now fresh db = (Inl refused, db) \<and>
    revoke owners ctx target reason now fresh db = (Inl refused, db) \<and>
    pending_requests ctx limit db = Inl refused)"
proof -
  have "require_platform_owner ctx =
      Inl (AccessFailure PlatformOwnerRequired ''Platform-owner authorization is required.'')"
    using resolve_context_InrD(2,4) [OF assms(1)] assms(2)
    by (simp add: require_platform_owner_def guard_simps)
  then show ?thesis
    by (simp add: approve_def reject_def revoke_def pending_requests_def Let_def)
qed

text \<open>
  C21. The middleware never lends authority: a context it hands to a handler belongs to the sender
  of the event in their private chat, carries the platform-owner role exactly when the sender is a
  configured owner, and carries a workspace only when the database holds the sender's active
  membership of that active workspace.
\<close>

theorem middleware_context_sound:
  assumes "request_context_middleware owners audited event cid owner_cid audit_cid audit_row db =
      (Inr d, db')" and "data_context d = Some ctx"
  shows "\<exists>identity. identity_from_event event = Some identity \<and> data_access_error d = None \<and>
    db' = db \<and> private_context ctx \<and>
    ctx_telegram_user_id ctx = identity_telegram_user_id identity \<and>
    (is_platform_owner ctx \<longleftrightarrow> identity_telegram_user_id identity \<in> owners) \<and>
    (\<forall>w. ctx_workspace_id ctx = Some w \<longrightarrow>
       (\<exists>r. standing (identity_telegram_user_id identity) db = Approved (Some (w, r)) \<and>
          ctx_workspace_role ctx = Some r))"
proof -
  from assms obtain identity where "identity_from_event event = Some identity"
    and run: "resolve_context owners identity cid owner_cid db = Inr ctx"
    and "data_access_error d = None" "db' = db"
    by (auto simp: request_context_middleware_def Let_def transact_Inr_iff
        split: option.splits sum.splits exn.splits if_splits elim!: attempt_InrE)
  with resolve_context_InrD [OF run] show ?thesis by auto
qed

lemma find_latest_pending:
  assumes "get_or_create_pending_request identity now nid db = Inr (p, db')"
  shows "\<exists>row \<in> set (access_requests db'). is_pending row \<and>
    request_telegram_user_id row = identity_telegram_user_id identity \<and>
    record_id (pending_record p) = request_id row"
proof (cases "pending_created p")
  case True
  with get_or_create_created [OF assms] show ?thesis by (auto simp: request_record_def)
next
  case False
  with get_or_create_found [OF assms] show ?thesis by (auto simp: request_record_def)
qed

lemma get_or_create_again:
  assumes ok: "access_ok db" and row: "row \<in> set (access_requests db)" "is_pending row"
    "request_telegram_user_id row = identity_telegram_user_id identity"
    and fits: "access_request_fits (new_request identity now nid)"
  shows "get_or_create_pending_request identity now nid db =
    Inr (\<lparr> pending_record = request_record row, pending_created = False \<rparr>, db)"
proof -
  have "list_ex (one_pending_target (new_request identity now nid)) (access_requests db)"
    using row by (auto simp: list_ex_iff one_pending_target_def)
  moreover have "select_one (\<lambda>r. request_telegram_user_id r = identity_telegram_user_id identity \<and>
      is_pending r) (access_requests db) = Some row"
    by (rule select_one_unique_table [of access_request_clash])
      (use ok row in \<open>auto simp: access_ok_def access_unique_def access_request_clash_def
        one_pending_target_def\<close>)
  ultimately show ?thesis
    using fits by (simp add: get_or_create_pending_request_def insert_or_nothing_def Let_def)
qed

lemma newest_in: "newest rows = Some r \<Longrightarrow> r \<in> set rows"
  by (induction rows arbitrary: r) (auto split: option.splits if_splits)

lemma newest_snoc:
  "newest (rows @ [r]) = (case newest rows of None \<Rightarrow> Some r
     | Some r' \<Rightarrow> if request_requested_at r' < request_requested_at r then Some r else Some r')"
  by (induction rows) (auto split: option.splits)

lemma same_person_fits:
  "get_or_create_pending_request identity now nid db = Inr x \<Longrightarrow>
     access_request_fits (new_request identity later nid')"
  by (auto simp: get_or_create_pending_request_def Let_def access_request_fits_def new_request_def
      split: if_splits)

lemma find_principal_same_tables:
  "platform_users db' = platform_users db \<Longrightarrow> workspaces db' = workspaces db \<Longrightarrow>
     workspace_memberships db' = workspace_memberships db \<Longrightarrow>
     find_principal t db' = find_principal t db"
  by (simp add: find_principal_eq home_def user_of_def)

text \<open>Whether the newest request lets a new one be made.\<close>

definition may_create :: "instant \<Rightarrow> access_request option \<Rightarrow> bool" where
  "may_create now latest =
     (case latest of None \<Rightarrow> True
      | Some r \<Rightarrow> \<not> is_pending r \<and> (\<forall>t. request_cooldown_until r = Some t \<longrightarrow> t \<le> now))"

lemma request_access_pending_cases:
  assumes "request_access identity now nid db = (Inr out, db1)" and "outcome_state out = ''pending''"
  shows "is_private_chat identity \<and>
    \<not> is_active_principal (find_principal (identity_telegram_user_id identity) db) \<and>
    ((\<exists>r. newest (filter (\<lambda>r. request_telegram_user_id r = identity_telegram_user_id identity)
         (access_requests db)) = Some r \<and> is_pending r \<and> db1 = db \<and>
         out = \<lparr> outcome_state = ''pending'', outcome_request_id = Some (request_id r),
                 outcome_created = False \<rparr>) \<or>
     (may_create now (newest (filter
         (\<lambda>r. request_telegram_user_id r = identity_telegram_user_id identity)
         (access_requests db))) \<and>
      (\<exists>p. get_or_create_pending_request identity now nid db = Inr (p, db1) \<and>
         out = \<lparr> outcome_state = ''pending'',
                 outcome_request_id = Some (record_id (pending_record p)),
                 outcome_created = pending_created p \<rparr>)))"
  using assms
  by (auto simp: request_access_def find_latest_request_def Let_def transact_Inr_iff may_create_def
      is_pending_def request_record_def attempt_eq_Inr_iff
      dest!: identity_require_private_chat_InrD split: option.splits if_splits sum.splits)

lemma request_access_pending:
  assumes ok: "access_ok db" and priv: "is_private_chat identity"
    and inactive: "\<not> is_active_principal (find_principal (identity_telegram_user_id identity) db)"
    and row: "row \<in> set (access_requests db)" "is_pending row"
      "request_telegram_user_id row = identity_telegram_user_id identity"
    and fits: "access_request_fits (new_request identity now nid)"
    and latest: "newest (filter (\<lambda>r. request_telegram_user_id r = identity_telegram_user_id identity)
      (access_requests db)) = Some r" "is_pending r \<or> may_create now (Some r)"
  shows "request_access identity now nid db =
    (Inr \<lparr> outcome_state = ''pending'', outcome_request_id = Some (request_id row),
           outcome_created = False \<rparr>, db)"
proof (cases "is_pending r")
  case True
  have "r \<in> set (access_requests db)" "request_telegram_user_id r = identity_telegram_user_id identity"
    using newest_in [OF latest(1)] by auto
  then have "r = row"
    using pending_unique [of "access_requests db" r row] ok row True
    by (simp add: access_ok_def access_unique_def one_pending_target_def)
  then show ?thesis
    using priv inactive latest True
    by (simp add: request_access_def find_latest_request_def guard_simps request_record_def
        is_pending_def)
next
  case False
  then have "may_create now (Some r)" using latest(2) by simp
  then show ?thesis
    using priv inactive latest(1) get_or_create_again [OF ok row fits] False
    by (auto simp: request_access_def find_latest_request_def guard_simps request_record_def
        is_pending_def may_create_def split: option.splits)
qed

lemma may_create_later: "may_create now latest \<Longrightarrow> now \<le> later \<Longrightarrow> may_create later latest"
  by (auto simp: may_create_def split: option.splits)

text \<open>
  Asking again changes nothing: once a call answered that access is pending, a later call of
  the same user answers the same request id as not newly created and leaves the database unchanged.
\<close>

theorem request_access_idempotent:
  assumes st: "access_settled db"
    and first: "request_access identity now nid db = (Inr out, db1)"
    and pending: "outcome_state out = ''pending''" and "now \<le> later"
  shows "request_access identity later nid' db1 = (Inr (out\<lparr> outcome_created := False \<rparr>), db1)"
proof -
  let ?t = "identity_telegram_user_id identity"
  let ?mine = "\<lambda>db. filter (\<lambda>r. request_telegram_user_id r = ?t) (access_requests db)"
  note c = request_access_pending_cases [OF first pending]
  show ?thesis
  proof (cases "\<exists>r. newest (?mine db) = Some r \<and> is_pending r")
    case True
    with c obtain r where r: "newest (?mine db) = Some r" "is_pending r" and "db1 = db"
      and "out = \<lparr> outcome_state = ''pending'', outcome_request_id = Some (request_id r),
        outcome_created = False \<rparr>"
      by (auto simp: may_create_def)
    with c show ?thesis
      by (simp add: request_access_def find_latest_request_def guard_simps request_record_def
          is_pending_def)
  next
    case False
    with c obtain p where may: "may_create now (newest (?mine db))"
      and run: "get_or_create_pending_request identity now nid db = Inr (p, db1)"
      and out: "out = \<lparr> outcome_state = ''pending'',
        outcome_request_id = Some (record_id (pending_record p)),
        outcome_created = pending_created p \<rparr>" by blast
    have ok1: "access_ok db1"
      using get_or_create_refines [OF run st] by (blast dest: access_settledD)
    obtain row where row: "row \<in> set (access_requests db1)" "is_pending row"
      "request_telegram_user_id row = ?t" "record_id (pending_record p) = request_id row"
      using find_latest_pending [OF run] by blast
    have db1: "db1 = db \<or> db1 = db\<lparr> access_requests := access_requests db @ [new_request identity now nid] \<rparr>"
      using get_or_create_created [OF run] get_or_create_found [OF run] by blast
    then have same: "find_principal ?t db1 = find_principal ?t db"
      by (auto intro: find_principal_same_tables)
    have "newest (?mine db1) \<noteq> None"
      using row by (cases "?mine db1") (auto simp: filter_empty_conv split: option.splits)
    moreover have "is_pending r \<or> may_create later (Some r)" if "newest (?mine db1) = Some r" for r
      using db1 that may_create_later [OF may \<open>now \<le> later\<close>]
      by (auto simp: newest_snoc split: option.splits if_splits)
    ultimately obtain r where "newest (?mine db1) = Some r" "is_pending r \<or> may_create later (Some r)"
      by blast
    from request_access_pending [OF ok1 _ _ row(1-3) same_person_fits [OF run] this] c same row(4)
    show ?thesis by (simp add: out)
  qed
qed

theorem request_access_idempotent_witness:
  "request_access requester 2000 8 requested_db =
    (Inr \<lparr> outcome_state = ''pending'', outcome_request_id = Some 7, outcome_created = False \<rparr>,
     requested_db)"
proof -
  have first: "request_access requester 1000 7 (empty_access_db False) =
      (Inr \<lparr> outcome_state = ''pending'', outcome_request_id = Some 7, outcome_created = True \<rparr>,
       requested_db)"
    by (simp add: request_access_def requested_db_run find_principal_def find_latest_request_def
        identity_require_private_chat_def is_private_chat_def is_active_principal_def
        request_record_def) (simp add: empty_access_db_def requester_def)
  show ?thesis
    using request_access_idempotent [OF empty_access_db_settled first] by simp
qed

lemma revoke_user_succeeds:
  assumes st: "access_settled db" and fresh: "fresh_for fresh db" and no_read: "\<not> reads_back db"
    and user: "user_of target db = Some user" and other: "actor \<noteq> target"
    and len: "length (str_int actor) \<le> 128"
  shows "\<exists>db'. revoke_user target actor cid reason at fresh db = Inr ((), db')"
proof -
  obtain a users1 where
    1: "platform_actor actor at (fresh_actor_id fresh) db = Inr (a, db\<lparr> platform_users := users1 \<rparr>)"
    by (rule platform_actor_succeeds [of "fresh_actor_id fresh" db])
      (use fresh in \<open>auto simp: fresh_for_def\<close>)
  have 2: "select_one (\<lambda>u. user_telegram_user_id u = target) users1 = Some user"
    using platform_actor_standing(1) [OF 1 st] user other
    by (simp add: user_written_def user_of_def)
  have 3: "insert_audit s (revocation_audit (fresh_audit_id fresh) user found actor cid reason) db' =
      Inr (db'\<lparr> audit_logs := audit_logs db' @
        [revocation_audit (fresh_audit_id fresh) user found actor cid reason] \<rparr>)"
    if "audit_logs db' = audit_logs db" "reads_back db' = reads_back db"
      "\<And>w. found = Some w \<Longrightarrow> session_workspace_id s = Some (workspace_id w)" for db' s found
    by (rule insert_audit_succeeds)
      (use that fresh len no_read in \<open>auto simp: revocation_audit_def fresh_for_def
        audit_log_fits_def audit_insert_policy_def length_uuid_str map_option_case
        split: option.splits\<close>)
  show ?thesis
    using 1 2 by (auto simp: revoke_user_def Let_def close_workspace_def 3 split: option.splits)
qed

text \<open>User 42 is an active owner of workspace 103.\<close>

definition member_user :: platform_user where
  "member_user = \<lparr> user_id = 102, user_telegram_user_id = 42, user_username = None,
     user_display_name = None, user_status = UserStatus_ACTIVE, user_approved_at = 2000,
     user_approved_by_user_id = Some 102, user_revoked_at = None,
     user_revoked_by_user_id = None \<rparr>"

definition member_workspace :: workspace where
  "member_workspace = \<lparr> workspace_id = 103, workspace_name = ''Ann'',
     workspace_personal_owner_user_id = 102, workspace_status = WorkspaceStatus_ACTIVE \<rparr>"

definition member_row :: workspace_membership where
  "member_row = \<lparr> membership_id = 104, membership_workspace_id = 103, membership_user_id = 102,
     membership_role = WorkspaceRole_OWNER, membership_status = MembershipStatus_ACTIVE,
     membership_revoked_at = None \<rparr>"

definition member_db :: access_db where
  "member_db = (empty_access_db False)\<lparr> platform_users := [member_user],
     workspaces := [member_workspace], workspace_memberships := [member_row] \<rparr>"

definition later_ids :: fresh_ids where
  "later_ids = \<lparr> fresh_actor_id = 201, fresh_user_id = 202, fresh_workspace_id = 203,
     fresh_membership_id = 204, fresh_destination_id = 205, fresh_strategy_id = 206,
     fresh_audit_id = 207 \<rparr>"

lemmas member_defs = member_db_def empty_access_db_def member_user_def member_workspace_def
  member_row_def

lemma member_db_settled: "access_settled member_db"
  by (simp add: member_defs access_settled_def access_ok_def access_unique_def
      access_references_def user_of_def unique_table_def)

lemma member_db_fresh: "fresh_for later_ids member_db"
  by (simp add: fresh_for_def later_ids_def member_defs)

lemma member_db_user: "user_of 42 member_db = Some member_user"
  by (simp add: user_of_def member_defs)

lemma member_db_reads: "\<not> reads_back member_db"
  by (simp add: member_defs)

lemma member_db_home: "home 102 member_db = Some (103, WorkspaceRole_OWNER)"
  by (simp add: home_def member_defs active_membership_iff)

lemma member_db_standing: "standing 42 member_db = Approved (Some (103, WorkspaceRole_OWNER))"
  by (simp add: standing_eq member_db_user) (simp add: member_db_home member_user_def)

lemma requester_private: "is_private_chat requester" "identity_telegram_user_id requester = 42"
  by (simp_all add: requester_def is_private_chat_def)

theorem revoke_refines_witness:
  "\<exists>db'. revoke {1} owner_context 42 None 3000 later_ids member_db = (Inr (), db') \<and>
    standing 42 db' = Barred \<and>
    resolve_context {1} requester 901 902 db' =
      Inl (AccessFailure AccessDenied ''CopyMint access has been revoked.'')"
proof -
  obtain db' where "revoke_user 42 1 (ctx_correlation_id owner_context) None 3000 later_ids
      member_db = Inr ((), db')"
    using revoke_user_succeeds [OF member_db_settled member_db_fresh _ member_db_user _ str_int_1]
      member_db_reads by fastforce
  then have run: "revoke {1} owner_context 42 None 3000 later_ids member_db = (Inr (), db')"
    by (simp add: revoke_def owner_context_ok)
  note r = revoke_refines [OF member_db_settled run, of requester 901 902]
  have "standing 42 db' = Barred"
    using fun_cong [OF r [THEN conjunct2, THEN conjunct2, THEN conjunct1], of 42]
    by (simp add: revoke_spec_def)
  with run r requester_private show ?thesis by auto
qed

theorem decisions_need_platform_owner_witness:
  "\<exists>ctx. resolve_context {1} requester 901 902 member_db = Inr ctx \<and>
    approve ctx 7 2000 later_ids requested_db =
      (Inl (AccessFailure PlatformOwnerRequired ''Platform-owner authorization is required.''),
       requested_db)"
proof -
  obtain ctx where ctx: "resolve_context {1} requester 901 902 member_db = Inr ctx"
    using resolve_context_approved [OF requester_private(1)] member_db_standing requester_private(2)
    by metis
  from decisions_need_platform_owner [OF ctx, of 7 2000 later_ids requested_db] ctx
  show ?thesis by (simp add: requester_private Let_def)
qed

theorem middleware_context_sound_witness:
  "\<exists>d ctx. request_context_middleware {1} True
      (Message (Some \<lparr> account_id = 1, account_first_name = ''Eve'', account_last_name = None,
        account_username = None \<rparr>) \<lparr> chat_id = 1, chat_type = ''private'' \<rparr> (Some ''/start''))
      901 902 903 904 member_db = (Inr d, member_db) \<and>
    data_context d = Some ctx \<and> is_platform_owner ctx \<and> private_context ctx"
proof -
  let ?event = "Message (Some \<lparr> account_id = 1, account_first_name = ''Eve'',
    account_last_name = None, account_username = None \<rparr>)
    \<lparr> chat_id = 1, chat_type = ''private'' \<rparr> (Some ''/start'')"
  obtain d ctx where "request_context_middleware {1} True ?event 901 902 903 904 member_db =
      (Inr d, member_db)" and "data_context d = Some ctx"
    by (simp add: request_context_middleware_def account_identity_def resolve_context_def
        identity_require_private_chat_def is_private_chat_def find_principal_def member_defs Let_def)
  with middleware_context_sound [OF this] show ?thesis by (auto simp: account_identity_def)
qed

text \<open>
  A long name blocks approval. When the pending requester is new and their display name has
  more than 108 characters (Telegram allows names of 129), the workspace's name does not fit its
  column and the owner's approval raises the database's data error, which is not an access error;
  nothing is committed.
\<close>

theorem approve_long_name_fails:
  assumes "access_settled db" and "fresh_for fresh db"
    and "require_platform_owner actor = Inr ()"
    and "req \<in> set (access_requests db)" and "is_pending req" and "access_request_fits req"
    and "user_of (request_telegram_user_id req) db = None"
    and "ctx_telegram_user_id actor \<noteq> request_telegram_user_id req"
    and "request_display_name req = Some name" and "108 < length name"
  shows "approve actor (request_id req) now fresh db = (Inl DataError, db) \<and>
    \<not> is_access_error DataError"
proof -
  have "108 < length (request_label req)"
    using assms(9,10) by (auto simp: request_label_def)
  from approve_request_long_name [OF assms(1,2,4,5,6) this assms(7,8)]
  show ?thesis by (simp add: approve_def assms(3))
qed

definition long_requester :: telegram_identity where
  "long_requester = requester\<lparr> identity_display_name := Some (replicate 129 (CHR ''a'')) \<rparr>"

definition long_requested_db :: access_db where
  "long_requested_db =
     (empty_access_db False)\<lparr> access_requests := [new_request long_requester 1000 7] \<rparr>"

theorem approve_long_name_fails_witness:
  "approve owner_context 7 2000 sample_ids long_requested_db = (Inl DataError, long_requested_db)"
proof -
  have "access_settled long_requested_db"
    by (simp add: long_requested_db_def empty_access_db_def access_settled_def access_ok_def
        access_unique_def access_references_def user_of_def unique_table_def)
  moreover have "fresh_for sample_ids long_requested_db"
    by (simp add: fresh_for_def sample_ids_def long_requested_db_def empty_access_db_def)
  ultimately show ?thesis
    using approve_long_name_fails [of long_requested_db sample_ids owner_context
        "new_request long_requester 1000 7" "replicate 129 (CHR ''a'')" 2000]
    by (simp add: owner_context_ok long_requested_db_def empty_access_db_def access_request_fits_def
        user_of_def new_request_def long_requester_def requester_def is_pending_def)
qed

text \<open>
  A decided request stays decided: approving or rejecting it again raises the repository's
  not-pending error, which is not an access error, and leaves the database unchanged.
\<close>

theorem second_decision_refused:
  assumes "access_settled db" and "fresh_for fresh db"
    and "require_platform_owner actor = Inr ()"
    and "req \<in> set (access_requests db)" and "\<not> is_pending req"
  shows "(let refused = AccessRequestNotPending ''access request has already been decided'' in
    approve actor (request_id req) now fresh db = (Inl refused, db) \<and>
    reject actor (request_id req) reason cooldown now fresh db = (Inl refused, db) \<and>
    \<not> is_access_error refused)"
proof -
  obtain a users1 where actor: "platform_actor (ctx_telegram_user_id actor) now
      (fresh_actor_id fresh) db = Inr (a, db\<lparr> platform_users := users1 \<rparr>)"
    by (rule platform_actor_succeeds [of "fresh_actor_id fresh" db])
      (use assms(2) in \<open>auto simp: fresh_for_def\<close>)
  have "select_one (\<lambda>r. request_id r = request_id req) (access_requests db) = Some req"
    using access_settledD [OF assms(1)] assms(4)
    by (intro select_one_unique_table [of access_request_clash])
      (auto simp: access_ok_def access_unique_def clash_defs)
  with assms(5) have "pending_request_row (request_id req) (db\<lparr> platform_users := users1 \<rparr>) =
      Inl (AccessRequestNotPending ''access request has already been decided'')"
    by (simp add: pending_request_row_def is_pending_def)
  with actor show ?thesis
    by (simp add: approve_def reject_def assms(3) approve_request_def reject_request_def Let_def)
qed

definition decided_db :: access_db where
  "decided_db = (empty_access_db False)\<lparr> access_requests :=
     [approved_request 101 1500 (new_request requester 1000 7)] \<rparr>"

theorem second_decision_refused_witness:
  "approve owner_context 7 2000 sample_ids decided_db =
    (Inl (AccessRequestNotPending ''access request has already been decided''), decided_db)"
proof -
  have "access_settled decided_db"
    by (simp add: decided_db_def empty_access_db_def access_settled_def access_ok_def
        access_unique_def access_references_def user_of_def unique_table_def)
  moreover have "fresh_for sample_ids decided_db"
    by (simp add: fresh_for_def sample_ids_def decided_db_def empty_access_db_def)
  ultimately show ?thesis
    using second_decision_refused [of decided_db sample_ids owner_context
        "approved_request 101 1500 (new_request requester 1000 7)" 2000]
    by (simp add: owner_context_ok Let_def)
      (simp add: decided_db_def empty_access_db_def approved_request_def is_pending_def)
qed

text \<open>
  Where the object mapper reads inserted rows back, no rejection can be stored: its audit entry
  has no workspace, the audit table's select policy shows no such row, so the insert fails and the
  whole transaction rolls back. Without the read-back a pending request can be rejected.
\<close>

theorem reject_and_read_back:
  assumes "access_settled db" and "fresh_for fresh db"
    and "require_platform_owner actor = Inr ()"
    and "length (str_int (ctx_telegram_user_id actor)) \<le> 128"
    and "req \<in> set (access_requests db)" and "is_pending req"
  shows "if reads_back db
    then \<exists>e. reject actor (request_id req) reason cooldown now fresh db = (Inl e, db)
    else \<exists>res db'. reject actor (request_id req) reason cooldown now fresh db = (Inr res, db') \<and>
      (\<lambda>t. standing t db') = reject_spec (ctx_telegram_user_id actor) (\<lambda>t. standing t db)"
proof (cases "reads_back db")
  case True
  from reject_request_read_back [OF this] obtain e where
    "reject_request (request_id req) (ctx_telegram_user_id actor) (ctx_correlation_id actor) reason
      now (cooldown_end now cooldown) fresh db = Inl e" by blast
  with True show ?thesis by (simp add: reject_def assms(3))
next
  case False
  from reject_request_succeeds [OF assms(1,2) this assms(5,6,4)] obtain res db' where
    run: "reject_request (request_id req) (ctx_telegram_user_id actor) (ctx_correlation_id actor)
      reason now (cooldown_end now cooldown) fresh db = Inr (res, db')" by blast
  with reject_request_refines(2) [OF run assms(1)] False show ?thesis
    by (simp add: reject_def assms(3))
qed

theorem reject_and_read_back_witness:
  "\<exists>res db'. reject owner_context 7 None None 2000 sample_ids requested_db = (Inr res, db')"
  using reject_and_read_back [OF access_reachable_settled [OF requested_db_reachable]
      requested_db_fresh owner_context_ok(1) _ requested_db_request(1), of None None 2000]
  by (simp add: owner_context_ok str_int_1) (auto simp: requested_db_def empty_access_db_def)

end
