(* ===== verification/Challenges.thy ===== *)
theory Challenges
  imports AccessContext PyText
begin

text \<open>
  Callback challenges: single-use confirmations bound to an actor, a chat and an action, and
  limited in time (\<^verbatim>\<open>app/application/access/challenges.py\<close>), on the challenge table
  (\<^verbatim>\<open>app/infrastructure/db/repositories/challenges.py\<close>). The service is written against a
  repository protocol, so its operations take the repository's as arguments; the locale states
  what the service relies on and the table's model is its interpretation. SHA-256, the random
  token, the clock and the fresh row id are arguments.
\<close>

section \<open>Records\<close>

record challenge_record =
  challenge_id :: uuid
  challenge_token_hash :: bytes
  challenge_action :: challenge_action
  challenge_actor :: int
  challenge_chat :: int
  challenge_resource_type :: string
  challenge_resource_id :: uuid
  challenge_payload :: json
  challenge_expires_at :: instant
  challenge_consumed_at :: "instant option"

record issued_challenge =
  issued_token :: string
  issued_record :: challenge_record

section \<open>The table\<close>

definition challenge_clash :: "challenge_record \<Rightarrow> challenge_record \<Rightarrow> bool" where
  "challenge_clash r r' \<longleftrightarrow>
     challenge_id r = challenge_id r' \<or> challenge_token_hash r = challenge_token_hash r'"

definition challenge_fits :: "challenge_record \<Rightarrow> bool" where
  "challenge_fits r \<longleftrightarrow> length (challenge_resource_type r) \<le> 64"

definition create_challenge ::
  "uuid \<Rightarrow> bytes \<Rightarrow> challenge_action \<Rightarrow> int \<Rightarrow> int \<Rightarrow> string \<Rightarrow> uuid \<Rightarrow> json \<Rightarrow> instant \<Rightarrow>
     challenge_record list \<Rightarrow> (challenge_record \<times> challenge_record list) outcome"
where
  "create_challenge new_id token_hash action actor chat resource_type resource_id payload
     expires_at rows =
     (let model =
        \<lparr> challenge_id = new_id,
          challenge_token_hash = token_hash,
          challenge_action = action,
          challenge_actor = actor,
          challenge_chat = chat,
          challenge_resource_type = resource_type,
          challenge_resource_id = resource_id,
          challenge_payload = payload,
          challenge_expires_at = expires_at,
          challenge_consumed_at = None \<rparr>
      in if length token_hash \<noteq> 32 then Inl IntegrityError
         else attempt (insert_checked challenge_fits (\<lambda>_. True) challenge_clash model rows)
           (\<lambda>rows'. Inr (model, rows')))"

definition consumable ::
  "bytes \<Rightarrow> challenge_action \<Rightarrow> int \<Rightarrow> int \<Rightarrow> instant \<Rightarrow> challenge_record \<Rightarrow> bool"
where
  "consumable token_hash action actor chat now r \<longleftrightarrow>
     challenge_token_hash r = token_hash \<and> challenge_action r = action \<and>
     challenge_actor r = actor \<and> challenge_chat r = chat \<and>
     now < challenge_expires_at r \<and> challenge_consumed_at r = None"

definition consumed :: "instant \<Rightarrow> challenge_record \<Rightarrow> challenge_record" where
  "consumed now r = r\<lparr> challenge_consumed_at := Some now \<rparr>"

definition consume_challenge ::
  "bytes \<Rightarrow> challenge_action \<Rightarrow> int \<Rightarrow> int \<Rightarrow> instant \<Rightarrow> challenge_record list \<Rightarrow>
     challenge_record option \<times> challenge_record list"
where
  "consume_challenge token_hash action actor chat now rows =
     (map_option (consumed now) (select_one (consumable token_hash action actor chat now) rows),
      update_rows (consumable token_hash action actor chat now) (consumed now) rows)"

section \<open>The service\<close>

type_synonym 's creator =
  "uuid \<Rightarrow> bytes \<Rightarrow> challenge_action \<Rightarrow> int \<Rightarrow> int \<Rightarrow> string \<Rightarrow> uuid \<Rightarrow> json \<Rightarrow> instant \<Rightarrow> 's \<Rightarrow>
     (challenge_record \<times> 's) outcome"

type_synonym 's consumer =
  "bytes \<Rightarrow> challenge_action \<Rightarrow> int \<Rightarrow> int \<Rightarrow> instant \<Rightarrow> 's \<Rightarrow> challenge_record option \<times> 's"

definition hash_challenge_token :: "(bytes \<Rightarrow> bytes) \<Rightarrow> string \<Rightarrow> bytes outcome" where
  "hash_challenge_token sha256 token =
     attempt (encode_ascii token) (\<lambda>encoded. Inr (sha256 encoded))"

definition challenge_ttl :: "duration \<Rightarrow> duration outcome" where
  "challenge_ttl default_ttl =
     (if default_ttl \<le> 0 \<or> minutes 15 < default_ttl
      then Inl (ValueError ''challenge TTL must be greater than zero and at most 15 minutes'')
      else Inr default_ttl)"

definition challenge_guard :: "request_context \<Rightarrow> challenge_action \<Rightarrow> unit outcome" where
  "challenge_guard actor action =
     (if action = ChallengeAction_CREATE_WALLET
      then attempt (require_workspace actor) (\<lambda>_. Inr ())
      else require_platform_owner actor)"

definition issue ::
  "'s creator \<Rightarrow> (bytes \<Rightarrow> bytes) \<Rightarrow> duration \<Rightarrow> request_context \<Rightarrow> challenge_action \<Rightarrow> string \<Rightarrow> uuid \<Rightarrow>
     json option \<Rightarrow> string \<Rightarrow> instant \<Rightarrow> uuid \<Rightarrow> 's \<Rightarrow> issued_challenge outcome \<times> 's"
where
  "issue create sha256 ttl actor action resource_type resource_id payload raw_token now new_id s =
     transact s
       (attempt (challenge_guard actor action) (\<lambda>_.
        attempt (hash_challenge_token sha256 raw_token) (\<lambda>token_hash.
        attempt (create new_id token_hash action (ctx_telegram_user_id actor) (ctx_chat_id actor)
          resource_type resource_id
          (case payload of None \<Rightarrow> JObject [] | Some p \<Rightarrow> p) (now + ttl) s) (\<lambda>(r, s').
        Inr (\<lparr> issued_token = raw_token, issued_record = r \<rparr>, s')))))"

definition consume ::
  "'s consumer \<Rightarrow> (bytes \<Rightarrow> bytes) \<Rightarrow> request_context \<Rightarrow> string \<Rightarrow> challenge_action \<Rightarrow> instant \<Rightarrow> 's \<Rightarrow>
     challenge_record outcome \<times> 's"
where
  "consume consume_op sha256 actor token expected_action now s =
     (case attempt (challenge_guard actor expected_action) (\<lambda>_. hash_challenge_token sha256 token) of
        Inl e \<Rightarrow> (Inl e, s)
      | Inr token_hash \<Rightarrow>
          (case consume_op token_hash expected_action (ctx_telegram_user_id actor)
              (ctx_chat_id actor) now s of
             (None, s') \<Rightarrow> (Inl (AccessFailure InvalidChallenge
               ''The confirmation is invalid, expired, or already consumed.''), s')
           | (Some r, s') \<Rightarrow> (Inr r, s')))"

text \<open>A history of calls on one store, by any actors in any order.\<close>

datatype challenge_call =
    Issue request_context challenge_action string uuid "json option" string instant uuid
  | Consume request_context string challenge_action instant

fun run_call ::
  "'s creator \<Rightarrow> 's consumer \<Rightarrow> (bytes \<Rightarrow> bytes) \<Rightarrow> duration \<Rightarrow> challenge_call \<Rightarrow> 's \<Rightarrow>
     challenge_record list \<times> 's"
where
  "run_call create consume_op sha256 ttl (Issue actor action rtype rid payload token now nid) s =
     ([], snd (issue create sha256 ttl actor action rtype rid payload token now nid s))"
| "run_call create consume_op sha256 ttl (Consume actor token action now) s =
     (case consume consume_op sha256 actor token action now s of
        (Inl e, s') \<Rightarrow> ([], s')
      | (Inr r, s') \<Rightarrow> ([r], s'))"

text \<open>The records handed out by the successful consumptions of a history.\<close>

fun consumptions ::
  "'s creator \<Rightarrow> 's consumer \<Rightarrow> (bytes \<Rightarrow> bytes) \<Rightarrow> duration \<Rightarrow> challenge_call list \<Rightarrow> 's \<Rightarrow>
     challenge_record list"
where
  "consumptions create consume_op sha256 ttl [] s = []"
| "consumptions create consume_op sha256 ttl (c # cs) s =
     (let (rs, s') = run_call create consume_op sha256 ttl c s
      in rs @ consumptions create consume_op sha256 ttl cs s')"

section \<open>What the service relies on\<close>

text \<open>
  \<open>spent s\<close> are the ids of the challenges the store has handed out. A consumption hands out a
  challenge that fits the call and was not spent, and spends it; a refused consumption and a
  creation spend nothing.
\<close>

locale challenge_store =
  fixes create :: "'s creator"
    and consume_op :: "'s consumer"
    and ok :: "'s \<Rightarrow> bool"
    and spent :: "'s \<Rightarrow> uuid set"
  assumes create_ok: "ok s \<Longrightarrow> create nid h a t c rt rid p e s = Inr (r, s') \<Longrightarrow> ok s'"
    and create_spends_nothing:
      "ok s \<Longrightarrow> create nid h a t c rt rid p e s = Inr (r, s') \<Longrightarrow> spent s' = spent s"
    and consume_ok: "ok s \<Longrightarrow> consume_op h a t c now s = (found, s') \<Longrightarrow> ok s'"
    and consume_spends: "ok s \<Longrightarrow> consume_op h a t c now s = (Some r, s') \<Longrightarrow>
      challenge_id r \<notin> spent s \<and> spent s' = insert (challenge_id r) (spent s) \<and>
      challenge_token_hash r = h \<and> challenge_action r = a \<and> challenge_actor r = t \<and>
      challenge_chat r = c \<and> now < challenge_expires_at r"
    and refused_unchanged: "ok s \<Longrightarrow> consume_op h a t c now s = (None, s') \<Longrightarrow> s' = s"
begin

lemma issue_ok:
  assumes "ok s"
  shows "ok (snd (issue create sha ttl actor action rt rid p tok now nid s)) \<and>
    spent (snd (issue create sha ttl actor action rt rid p tok now nid s)) = spent s"
  unfolding issue_def
  by (rule transact_invariant)
    (use assms in \<open>auto intro: create_ok dest: create_spends_nothing elim!: attempt_InrE\<close>)

lemma consume_cases:
  assumes "ok s" and "consume consume_op sha actor tok action now s = (res, s')"
  shows "ok s' \<and>
    (case res of
       Inl e \<Rightarrow> s' = s
     | Inr r \<Rightarrow> challenge_id r \<notin> spent s \<and> spent s' = insert (challenge_id r) (spent s) \<and>
         challenge_guard actor action = Inr () \<and>
         hash_challenge_token sha tok = Inr (challenge_token_hash r) \<and>
         challenge_action r = action \<and> challenge_actor r = ctx_telegram_user_id actor \<and>
         challenge_chat r = ctx_chat_id actor \<and> now < challenge_expires_at r)"
proof (cases "attempt (challenge_guard actor action) (\<lambda>_. hash_challenge_token sha tok)")
  case (Inl e)
  with assms show ?thesis by (auto simp: consume_def)
next
  case (Inr h)
  then have g: "challenge_guard actor action = Inr ()" "hash_challenge_token sha tok = Inr h"
    by (auto elim!: attempt_InrE)
  obtain found s1 where op: "consume_op h action (ctx_telegram_user_id actor) (ctx_chat_id actor)
      now s = (found, s1)" by (cases "consume_op h action (ctx_telegram_user_id actor)
      (ctx_chat_id actor) now s")
  show ?thesis
  proof (cases found)
    case None
    with op Inr assms show ?thesis
      using refused_unchanged [OF assms(1)] consume_ok [OF assms(1) op] by (auto simp: consume_def)
  next
    case (Some r)
    with op Inr assms g show ?thesis
      using consume_spends [OF assms(1)] consume_ok [OF assms(1) op] by (auto simp: consume_def)
  qed
qed

lemma consumptions_unspent:
  "ok s \<Longrightarrow> distinct (map challenge_id (consumptions create consume_op sha ttl cs s)) \<and>
     challenge_id ` set (consumptions create consume_op sha ttl cs s) \<inter> spent s = {}"
proof (induction cs arbitrary: s)
  case (Cons c cs)
  show ?case
  proof (cases c)
    case (Issue actor action rt rid p tok now nid)
    let ?s' = "snd (issue create sha ttl actor action rt rid p tok now nid s)"
    have "ok ?s'" and "spent ?s' = spent s" using issue_ok [OF Cons.prems] by auto
    with Cons.IH [of ?s'] Issue show ?thesis by simp
  next
    case (Consume actor tok action now)
    obtain res s' where run: "consume consume_op sha actor tok action now s = (res, s')"
      by fastforce
    from consume_cases [OF Cons.prems this] Cons.IH [of s'] Consume run
    show ?thesis by (cases res) auto
  qed
qed simp

end

section \<open>The table is such a store\<close>

definition challenge_table_ok :: "challenge_record list \<Rightarrow> bool" where
  "challenge_table_ok rows \<longleftrightarrow> unique_table challenge_clash rows"

definition spent_challenges :: "challenge_record list \<Rightarrow> uuid set" where
  "spent_challenges rows =
     challenge_id ` set (filter (\<lambda>r. challenge_consumed_at r \<noteq> None) rows)"

lemma challenge_unique:
  assumes "challenge_table_ok rows" and "r \<in> set rows" and "r' \<in> set rows"
    and "challenge_token_hash r = challenge_token_hash r' \<or> challenge_id r = challenge_id r'"
  shows "r = r'"
  using assms(1-3) unfolding challenge_table_ok_def
  by (rule unique_tableD) (use assms(4) in \<open>auto simp: challenge_clash_def\<close>)

lemma create_challenge_InrD:
  "create_challenge nid h a t c rt rid p e rows = Inr (r, rows') \<Longrightarrow>
     rows' = rows @ [r] \<and> (\<forall>r' \<in> set rows. \<not> challenge_clash r r') \<and>
     r = \<lparr> challenge_id = nid, challenge_token_hash = h, challenge_action = a, challenge_actor = t,
           challenge_chat = c, challenge_resource_type = rt, challenge_resource_id = rid,
           challenge_payload = p, challenge_expires_at = e, challenge_consumed_at = None \<rparr>"
  by (auto simp: create_challenge_def Let_def dest!: insert_checked_InrD elim!: attempt_InrE
      split: if_splits)

lemma consumed_key [simp]:
  "challenge_id (consumed now r) = challenge_id r"
  "challenge_token_hash (consumed now r) = challenge_token_hash r"
  "challenge_action (consumed now r) = challenge_action r"
  "challenge_actor (consumed now r) = challenge_actor r"
  "challenge_chat (consumed now r) = challenge_chat r"
  "challenge_expires_at (consumed now r) = challenge_expires_at r"
  "challenge_consumed_at (consumed now r) = Some now"
  by (simp_all add: consumed_def)

lemma consume_challenge_found:
  assumes ok: "challenge_table_ok rows"
    and run: "consume_challenge h a t c now rows = (Some r, rows')"
  obtains r0 where "r0 \<in> set rows" and "consumable h a t c now r0" and "r = consumed now r0"
    and "set rows' = insert r (set rows - {r0})"
proof -
  from run obtain r0 where sel: "select_one (consumable h a t c now) rows = Some r0"
    and r: "r = consumed now r0"
    and rows': "rows' = update_rows (consumable h a t c now) (consumed now) rows"
    by (auto simp: consume_challenge_def)
  have r0: "r0 \<in> set rows" "consumable h a t c now r0" using select_one_SomeD [OF sel] by auto
  have "consumable h a t c now r' \<longleftrightarrow> r' = r0" if "r' \<in> set rows" for r'
    using challenge_unique [OF ok that r0(1)] r0(2) by (auto simp: consumable_def)
  then have "set rows' = insert r (set rows - {r0})"
    using r0(1) by (auto simp: rows' r set_update_rows image_iff)
  with r0 r that show thesis by blast
qed

lemma consume_challenge_refused:
  "consume_challenge h a t c now rows = (None, rows') \<longleftrightarrow>
     rows' = rows \<and> (\<forall>r \<in> set rows. \<not> consumable h a t c now r)"
  by (auto simp: consume_challenge_def select_one_None_iff update_rows_idle)

interpretation challenges: challenge_store create_challenge consume_challenge challenge_table_ok
  spent_challenges
proof unfold_locales
  fix h a t c now and rows rows' :: "challenge_record list" and found
  assume ok: "challenge_table_ok rows" and run: "consume_challenge h a t c now rows = (found, rows')"
  then have "rows' = update_rows (consumable h a t c now) (consumed now) rows"
    by (simp add: consume_challenge_def)
  moreover have "unique_table challenge_clash
      (update_rows (consumable h a t c now) (consumed now) rows)"
    by (rule unique_table_update)
      (use ok in \<open>auto simp: challenge_table_ok_def challenge_clash_def split: if_splits\<close>)
  ultimately show "challenge_table_ok rows'" by (simp add: challenge_table_ok_def)
next
  fix h a t c now r and rows rows' :: "challenge_record list"
  assume ok: "challenge_table_ok rows" and run: "consume_challenge h a t c now rows = (Some r, rows')"
  from consume_challenge_found [OF ok run] obtain r0 where
    r0: "r0 \<in> set rows" "consumable h a t c now r0" "r = consumed now r0"
    and rows': "set rows' = insert r (set rows - {r0})" by blast
  have "challenge_id r \<notin> spent_challenges rows"
  proof
    assume "challenge_id r \<in> spent_challenges rows"
    then obtain x where "x \<in> set rows" "challenge_id x = challenge_id r0"
      "challenge_consumed_at x \<noteq> None"
      by (auto simp: spent_challenges_def r0(3))
    with challenge_unique [OF ok this(1) r0(1)] r0(2) show False by (simp add: consumable_def)
  qed
  moreover have "spent_challenges rows' = insert (challenge_id r) (spent_challenges rows)"
  proof -
    have "{x \<in> set rows'. challenge_consumed_at x \<noteq> None} =
        insert r {x \<in> set rows. challenge_consumed_at x \<noteq> None}"
      using r0 by (auto simp: rows' consumable_def)
    then show ?thesis by (simp add: spent_challenges_def)
  qed
  ultimately show "challenge_id r \<notin> spent_challenges rows \<and>
      spent_challenges rows' = insert (challenge_id r) (spent_challenges rows) \<and>
      challenge_token_hash r = h \<and> challenge_action r = a \<and> challenge_actor r = t \<and>
      challenge_chat r = c \<and> now < challenge_expires_at r"
    using r0 by (auto simp: consumable_def)
qed (auto simp: challenge_table_ok_def spent_challenges_def unique_table_snoc
    consume_challenge_refused dest!: create_challenge_InrD)

section \<open>Properties\<close>

text \<open>
  C3. A challenge is consumed at most once: over any history of calls, by any actors in any order
  and with any interleaving of issues and consumptions, no two successful consumptions hand out
  the same challenge, and none hands out a challenge consumed before the history began.
\<close>

theorem challenges_single_use:
  assumes "challenge_table_ok rows"
  shows "distinct (map challenge_id
      (consumptions create_challenge consume_challenge sha256 ttl calls rows)) \<and>
    challenge_id ` set (consumptions create_challenge consume_challenge sha256 ttl calls rows) \<inter>
      spent_challenges rows = {}"
  using assms by (rule challenges.consumptions_unspent)

text \<open>A platform owner in a private chat, and a stand-in for SHA-256 for the examples.\<close>

definition challenge_owner :: request_context where
  "challenge_owner = platform_owner_context 900
     \<lparr> identity_telegram_user_id = 1, identity_chat_id = 1, identity_chat_type = ''private'',
       identity_username = None, identity_display_name = None \<rparr>"

definition sample_digest :: "bytes \<Rightarrow> bytes" where
  "sample_digest message = take 32 (message @ replicate 32 0)"

lemma challenge_owner_guard: "require_platform_owner challenge_owner = Inr ()"
  by (simp add: require_platform_owner_iff private_context_def is_platform_owner_def
      challenge_owner_def platform_owner_context_def)

lemmas challenge_samples = challenge_guard_def challenge_owner_guard hash_challenge_token_def
  encode_ascii_def is_ascii_def sample_digest_def create_challenge_def insert_checked_def
  insert_row_def challenge_fits_def challenge_clash_def consume_challenge_def consumable_def
  consumed_def issue_def consume_def Let_def

theorem challenges_single_use_witness:
  "map challenge_id (consumptions create_challenge consume_challenge sample_digest (minutes 5)
      [Issue challenge_owner ChallengeAction_APPROVE_ACCESS ''access_request'' 7 None
         ''tok'' 0 1,
       Consume challenge_owner ''tok'' ChallengeAction_APPROVE_ACCESS 10,
       Consume challenge_owner ''tok'' ChallengeAction_APPROVE_ACCESS 20] []) = [1] \<and>
   distinct (map challenge_id (consumptions create_challenge consume_challenge sample_digest
      (minutes 5)
      [Issue challenge_owner ChallengeAction_APPROVE_ACCESS ''access_request'' 7 None
         ''tok'' 0 1,
       Consume challenge_owner ''tok'' ChallengeAction_APPROVE_ACCESS 10,
       Consume challenge_owner ''tok'' ChallengeAction_APPROVE_ACCESS 20] []))"
  using challenges_single_use [of "[]"]
  by (simp add: challenge_table_ok_def challenge_samples)

text \<open>What an issue that succeeds stores, and which row a consumption finds.\<close>

lemma issue_stores:
  assumes "issue create_challenge sha256 ttl actor action rtype rid payload token at nid rows =
      (Inr issued, rows')"
  shows "rows' = rows @ [issued_record issued]" "issued_token issued = token"
    "challenge_guard actor action = Inr ()"
    "hash_challenge_token sha256 token = Inr (challenge_token_hash (issued_record issued))"
    "challenge_action (issued_record issued) = action"
    "challenge_actor (issued_record issued) = ctx_telegram_user_id actor"
    "challenge_chat (issued_record issued) = ctx_chat_id actor"
    "challenge_resource_id (issued_record issued) = rid"
    "challenge_payload (issued_record issued) = (case payload of None \<Rightarrow> JObject [] | Some p \<Rightarrow> p)"
    "challenge_expires_at (issued_record issued) = at + ttl"
    "challenge_consumed_at (issued_record issued) = None"
proof -
  from assms obtain h r where "challenge_guard actor action = Inr ()"
    and "hash_challenge_token sha256 token = Inr h"
    and "create_challenge nid h action (ctx_telegram_user_id actor) (ctx_chat_id actor)
      rtype rid (case payload of None \<Rightarrow> JObject [] | Some p \<Rightarrow> p) (at + ttl) rows = Inr (r, rows')"
    and "issued = \<lparr> issued_token = token, issued_record = r \<rparr>"
    by (auto simp: issue_def transact_Inr_iff elim!: attempt_InrE)
  with create_challenge_InrD [OF this(3)]
  show "rows' = rows @ [issued_record issued]" "issued_token issued = token"
    "challenge_guard actor action = Inr ()"
    "hash_challenge_token sha256 token = Inr (challenge_token_hash (issued_record issued))"
    "challenge_action (issued_record issued) = action"
    "challenge_actor (issued_record issued) = ctx_telegram_user_id actor"
    "challenge_chat (issued_record issued) = ctx_chat_id actor"
    "challenge_resource_id (issued_record issued) = rid"
    "challenge_payload (issued_record issued) = (case payload of None \<Rightarrow> JObject [] | Some p \<Rightarrow> p)"
    "challenge_expires_at (issued_record issued) = at + ttl"
    "challenge_consumed_at (issued_record issued) = None"
    by simp_all
qed

lemma consume_finds:
  assumes ok: "challenge_table_ok rows" and r: "r \<in> set rows"
    and guard: "challenge_guard actor action = Inr ()"
    and h: "hash_challenge_token sha256 token = Inr (challenge_token_hash r)"
    and fits: "consumable (challenge_token_hash r) action (ctx_telegram_user_id actor) (ctx_chat_id actor) now r"
  shows "consume consume_challenge sha256 actor token action now rows =
    (Inr (consumed now r), update_rows (consumable (challenge_token_hash r) action
      (ctx_telegram_user_id actor) (ctx_chat_id actor) now) (consumed now) rows)"
proof -
  have "r' = r" if "r' \<in> set rows" "consumable (challenge_token_hash r) action
      (ctx_telegram_user_id actor) (ctx_chat_id actor) now r'" for r'
    using challenge_unique [OF ok that(1) r] that(2) by (auto simp: consumable_def)
  then have "select_one (consumable (challenge_token_hash r) action (ctx_telegram_user_id actor)
      (ctx_chat_id actor) now) rows = Some r"
    using r fits by (cases "select_one (consumable (challenge_token_hash r) action (ctx_telegram_user_id actor)
      (ctx_chat_id actor) now) rows") (auto simp: select_one_None_iff dest: select_one_SomeD)
  with guard h show ?thesis by (simp add: consume_def consume_challenge_def)
qed

text \<open>
  Issue and consume round trip: a challenge that was issued can be consumed with its token by
  the same actor in the same chat for the same action before it expires, at the latest fifteen
  minutes later, and gives back the issued record, marked as consumed.
\<close>

theorem challenge_round_trip:
  assumes "challenge_table_ok rows" and "challenge_ttl ttl = Inr ttl'"
    and "issue create_challenge sha256 ttl' actor action rtype rid payload token at nid rows =
      (Inr issued, rows1)"
    and "at \<le> now" and "now < at + ttl'"
  shows "issued_token issued = token \<and> challenge_resource_id (issued_record issued) = rid \<and>
    challenge_expires_at (issued_record issued) \<le> at + minutes 15 \<and>
    (\<exists>rows2. consume consume_challenge sha256 actor token action now rows1 =
       (Inr (consumed now (issued_record issued)), rows2))"
proof -
  note stored = issue_stores [OF assms(3)]
  have ok: "challenge_table_ok rows1"
    using challenges.issue_ok [OF assms(1), of sha256 ttl' actor action rtype rid payload token at nid]
      assms(3) by simp
  have member: "issued_record issued \<in> set rows1" using stored(1) by simp
  have fits: "consumable (challenge_token_hash (issued_record issued)) action (ctx_telegram_user_id actor)
      (ctx_chat_id actor) now (issued_record issued)"
    using stored assms(5) by (simp add: consumable_def)
  from consume_finds [OF ok member stored(3,4) fits] stored assms(2) show ?thesis
    by (auto simp: challenge_ttl_def split: if_splits)
qed

theorem challenge_round_trip_witness:
  "\<exists>issued rows1 rows2.
    issue create_challenge sample_digest (minutes 5) challenge_owner
      ChallengeAction_REVOKE_ACCESS ''platform_user'' 7 None ''tok'' 0 1 [] =
      (Inr issued, rows1) \<and>
    consume consume_challenge sample_digest challenge_owner ''tok''
      ChallengeAction_REVOKE_ACCESS 10 rows1 =
      (Inr (consumed 10 (issued_record issued)), rows2)"
proof -
  obtain issued rows1 where run: "issue create_challenge sample_digest (minutes 5) challenge_owner
      ChallengeAction_REVOKE_ACCESS ''platform_user'' 7 None ''tok'' 0 1 [] =
      (Inr issued, rows1)"
    by (simp add: challenge_samples)
  have "challenge_table_ok []" and "challenge_ttl (minutes 5) = Inr (minutes 5)"
    by (simp_all add: challenge_table_ok_def challenge_ttl_def)
  from challenge_round_trip [OF this run, of 10] run show ?thesis by auto
qed

text \<open>
  A consumption is bound to what was issued: it succeeds only for an actor who may run the
  action, with the stored record naming that actor, that chat, that action and the hash of the
  presented token, before it expires; any other presentation of an ASCII token by an authorized
  actor is refused as invalid and leaves the table unchanged.
\<close>

theorem challenge_binding:
  assumes "challenge_table_ok rows"
    and "consume consume_challenge sha256 actor token action now rows = (res, rows')"
    and "challenge_guard actor action = Inr ()" and "hash_challenge_token sha256 token = Inr h"
  shows "(\<exists>r0 \<in> set rows. consumable h action (ctx_telegram_user_id actor) (ctx_chat_id actor) now r0 \<and>
       res = Inr (consumed now r0) \<and> set rows' = insert (consumed now r0) (set rows - {r0})) \<or>
    ((\<forall>r0 \<in> set rows. \<not> consumable h action (ctx_telegram_user_id actor) (ctx_chat_id actor) now r0) \<and>
       rows' = rows \<and> res = Inl (AccessFailure InvalidChallenge
         ''The confirmation is invalid, expired, or already consumed.''))"
proof -
  obtain found rows1 where op: "consume_challenge h action (ctx_telegram_user_id actor)
      (ctx_chat_id actor) now rows = (found, rows1)"
    by fastforce
  show ?thesis
  proof (cases found)
    case None
    with op have "rows1 = rows" and "\<forall>r0 \<in> set rows.
        \<not> consumable h action (ctx_telegram_user_id actor) (ctx_chat_id actor) now r0"
      by (simp_all add: consume_challenge_refused)
    with op None assms(2-4) show ?thesis by (auto simp: consume_def)
  next
    case (Some r)
    from consume_challenge_found [OF assms(1) op [unfolded Some]] obtain r0 where
      "r0 \<in> set rows" "consumable h action (ctx_telegram_user_id actor) (ctx_chat_id actor) now r0"
      "r = consumed now r0" "set rows1 = insert r (set rows - {r0})" by blast
    with op Some assms show ?thesis by (auto simp: consume_def)
  qed
qed

theorem challenge_binding_witness:
  "consume consume_challenge sample_digest challenge_owner ''forged''
      ChallengeAction_APPROVE_ACCESS 10 [] =
    (Inl (AccessFailure InvalidChallenge
      ''The confirmation is invalid, expired, or already consumed.''), [])"
proof -
  let ?run = "consume consume_challenge sample_digest challenge_owner ''forged''
    ChallengeAction_APPROVE_ACCESS 10 []"
  have "challenge_table_ok []" by (simp add: challenge_table_ok_def)
  moreover have "challenge_guard challenge_owner ChallengeAction_APPROVE_ACCESS = Inr ()"
    by (simp add: challenge_guard_def challenge_owner_guard)
  moreover obtain h where "hash_challenge_token sample_digest ''forged'' = Inr h"
    by (simp add: hash_challenge_token_def encode_ascii_def is_ascii_def)
  ultimately show ?thesis
    using challenge_binding [of "[]" sample_digest challenge_owner "''forged''"
        ChallengeAction_APPROVE_ACCESS 10 "fst ?run" "snd ?run" h]
    by (cases ?run) simp
qed

text \<open>
  A presented token with a character outside ASCII is not refused as an invalid confirmation:
  an authorized actor's call raises the encoding error, which no handler of access errors catches,
  before the table is read.
\<close>

theorem non_ascii_token_escapes:
  assumes "challenge_guard actor action = Inr ()" and "\<not> is_ascii token"
  shows "consume consume_challenge sha256 actor token action now rows = (Inl UnicodeEncodeError, rows) \<and>
    \<not> is_access_error UnicodeEncodeError"
  using assms by (simp add: consume_def hash_challenge_token_def encode_ascii_def)

theorem non_ascii_token_escapes_witness:
  "consume consume_challenge sample_digest challenge_owner [CHR 0xE9]
      ChallengeAction_APPROVE_ACCESS 10 [] = (Inl UnicodeEncodeError, [])"
  using non_ascii_token_escapes [of challenge_owner ChallengeAction_APPROVE_ACCESS
      "[CHR 0xE9]" sample_digest 10 "[]"]
  by (simp add: challenge_guard_def challenge_owner_guard is_ascii_def)

end
