(* ===== verification/JsonText.thy ===== *)
theory JsonText
  imports PyText "HOL-Library.List_Lexorder"
begin

text \<open>
  \<open>json.dumps(value, sort_keys=True, separators=(",", ":"))\<close>: the compact text of a JSON value with
  the members of every object in the order of their keys. Texts are escaped to ASCII, as the
  function does by default.
\<close>

definition json_escape :: "char \<Rightarrow> string" where
  "json_escape c =
     (let n = ord_char c in
      if n = 34 \<or> n = 92 then [CHR 0x5C, c]
      else if n = 8 then [CHR 0x5C, CHR ''b'']
      else if n = 9 then [CHR 0x5C, CHR ''t'']
      else if n = 10 then [CHR 0x5C, CHR ''n'']
      else if n = 12 then [CHR 0x5C, CHR ''f'']
      else if n = 13 then [CHR 0x5C, CHR ''r'']
      else if 32 \<le> n \<and> n \<le> 126 then [c]
      else [CHR 0x5C, CHR ''u'', CHR ''0'', CHR ''0'', hex_digit (n div 16), hex_digit (n mod 16)])"

definition json_string :: "string \<Rightarrow> string" where
  "json_string s = [CHR 0x22] @ concat (map json_escape s) @ [CHR 0x22]"

definition key_order :: "string \<Rightarrow> nat list" where
  "key_order k = map ord_char k"

fun json_dumps :: "json \<Rightarrow> string" where
  "json_dumps JNull = ''null''"
| "json_dumps (JBool b) = (if b then ''true'' else ''false'')"
| "json_dumps (JInt i) = str_int i"
| "json_dumps (JStr s) = json_string s"
| "json_dumps (JList xs) = ''['' @ join_with (CHR '','') (map json_dumps xs) @ '']''"
| "json_dumps (JObject members) =
     ''{'' @ join_with (CHR '','')
       (map snd (sort_key (\<lambda>(k, text). key_order k)
         (map (\<lambda>(k, v). (k, json_string k @ '':'' @ json_dumps v)) members))) @ ''}''"


text \<open>
  \<open>str(value)\<close> of a value that JSON gave: a text is itself, anything else is its \<open>repr\<close>.
\<close>

definition repr_char :: "char \<Rightarrow> char \<Rightarrow> string" where
  "repr_char quote c =
     (let n = ord_char c in
      if c = quote \<or> n = 92 then [CHR 0x5C, c]
      else if n = 9 then [CHR 0x5C, CHR ''t'']
      else if n = 10 then [CHR 0x5C, CHR ''n'']
      else if n = 13 then [CHR 0x5C, CHR ''r'']
      else if n < 32 \<or> 127 \<le> n \<and> n \<le> 160 \<or> n = 173
      then [CHR 0x5C, CHR ''x'', hex_digit (n div 16), hex_digit (n mod 16)]
      else [c])"

definition repr_string :: "string \<Rightarrow> string" where
  "repr_string s =
     (let quote = if CHR 0x27 \<in> set s \<and> CHR 0x22 \<notin> set s then CHR 0x22 else CHR 0x27
      in [quote] @ concat (map (repr_char quote) s) @ [quote])"

fun comma_join :: "string list \<Rightarrow> string" where
  "comma_join [] = []"
| "comma_join [s] = s"
| "comma_join (s # t # ts) = s @ '', '' @ comma_join (t # ts)"

fun json_repr :: "json \<Rightarrow> string" where
  "json_repr JNull = ''None''"
| "json_repr (JBool b) = (if b then ''True'' else ''False'')"
| "json_repr (JInt i) = str_int i"
| "json_repr (JStr s) = repr_string s"
| "json_repr (JList xs) = ''['' @ comma_join (map json_repr xs) @ '']''"
| "json_repr (JObject members) =
     ''{'' @ comma_join (map (\<lambda>(k, v). repr_string k @ '': '' @ json_repr v) members) @ ''}''"

fun json_str :: "json \<Rightarrow> string" where
  "json_str (JStr s) = s"
| "json_str v = json_repr v"

text \<open>\<open>value.get(key)\<close> of a dict.\<close>

definition json_get :: "(string \<times> json) list \<Rightarrow> string \<Rightarrow> json" where
  "json_get members key = (case map_of members key of None \<Rightarrow> JNull | Some v \<Rightarrow> v)"

end
