(* ===== verification/EthereumTables.thy ===== *)
theory EthereumTables
  imports AccessStore JsonText
begin

text \<open>
  The global tables of Ethereum observations and scan state (\<^verbatim>\<open>app/infrastructure/db/models/ethereum.py\<close>):
  rows, unique constraints, checks and column widths, and the database that holds them beside the
  access tables. The release has one chain, whose row every foreign key to \<^verbatim>\<open>chains\<close> finds.
\<close>

section \<open>Rows\<close>

record collection =
  collection_id :: uuid
  collection_chain_id :: int
  collection_normalized_address :: string
  collection_checksum_address :: string
  collection_token_standard :: token_standard
  collection_deployment_block_number :: "int option"
  collection_deployment_block_hash :: "bytes option"
  collection_deployment_confidence :: deployment_confidence
  collection_deployment_confidence_value :: int
  collection_scan_status :: collection_scan_status

record workspace_collection =
  subscription_id :: uuid
  subscription_workspace_id :: uuid
  subscription_collection_id :: uuid
  subscription_label :: "string option"
  subscription_added_by_user_id :: uuid
  subscription_notification_settings :: json
  subscription_active :: bool
  subscription_created_at :: instant

record scan_job =
  job_id :: uuid
  job_collection_id :: uuid
  job_scan_version :: int
  job_start_block :: int
  job_end_block :: int
  job_status :: scan_job_status
  job_attempt_count :: int
  job_quality_warnings :: "json list"
  job_error_code :: "string option"

record scan_checkpoint =
  checkpoint_id :: uuid
  checkpoint_collection_id :: uuid
  checkpoint_scan_version :: int
  last_committed_block_number :: int
  last_committed_block_hash :: bytes

record raw_evidence =
  evidence_id :: uuid
  evidence_kind :: evidence_kind
  evidence_content_hash :: bytes
  evidence_provider_alias :: string
  evidence_block_number :: "int option"
  evidence_transaction_hash :: "bytes option"
  evidence_content :: json
  evidence_retention_status :: evidence_retention_status
  evidence_observed_at :: instant

record mint_event =
  event_id :: uuid
  event_collection_id :: uuid
  event_raw_evidence_id :: uuid
  event_block_number :: int
  event_block_hash :: bytes
  event_transaction_hash :: bytes
  event_log_index :: int
  event_sub_index :: int
  event_token_standard :: token_standard
  event_token_id :: int
  event_quantity :: int
  event_recipient :: string
  event_transaction_sender :: "string option"
  event_operator :: "string option"
  event_payer :: "string option"
  event_probable_initiator :: "string option"
  event_identity_confidence :: int
  event_identity_reason_code :: string
  event_route :: mint_route
  event_classification :: mint_classification
  event_classification_reason_code :: string
  event_finality :: finality_status
  event_canonical :: bool

section \<open>The database\<close>

text \<open>\<open>drawn\<close> counts the fresh ids drawn so far.\<close>

record ethereum_db =
  ethereum_access :: access_db
  collections :: "collection list"
  workspace_collections :: "workspace_collection list"
  scan_jobs :: "scan_job list"
  scan_checkpoints :: "scan_checkpoint list"
  raw_evidences :: "raw_evidence list"
  mint_events :: "mint_event list"
  drawn :: nat

text \<open>Fresh ids and the readings of the clock, by the number of draws before.\<close>

record draws =
  draw_id :: "nat \<Rightarrow> uuid"
  draw_now :: "nat \<Rightarrow> instant"

section \<open>Constraints\<close>

definition same_address :: "collection \<Rightarrow> collection \<Rightarrow> bool" where
  "same_address r r' \<longleftrightarrow> collection_chain_id r = collection_chain_id r' \<and>
     collection_normalized_address r = collection_normalized_address r'"

definition collection_clash :: "collection \<Rightarrow> collection \<Rightarrow> bool" where
  "collection_clash r r' \<longleftrightarrow> collection_id r = collection_id r' \<or> same_address r r'"

text \<open>The chain is the release's one, which the foreign key and the check of \<open>chains\<close> ask for.\<close>

definition collection_checks :: "collection \<Rightarrow> bool" where
  "collection_checks r \<longleftrightarrow>
     collection_chain_id r = 1 \<and>
     lower (collection_normalized_address r) = collection_normalized_address r \<and>
     length (collection_normalized_address r) = 42 \<and>
     0 \<le> collection_deployment_confidence_value r \<and> collection_deployment_confidence_value r \<le> 100"

definition bigint :: "int \<Rightarrow> bool" where
  "bigint n \<longleftrightarrow> - (2 ^ 63) \<le> n \<and> n < 2 ^ 63"

definition integer_fits :: "int \<Rightarrow> bool" where
  "integer_fits n \<longleftrightarrow> - (2 ^ 31) \<le> n \<and> n < 2 ^ 31"

text \<open>A \<open>NUMERIC(78, 0)\<close> column.\<close>

definition numeric78 :: "int \<Rightarrow> bool" where
  "numeric78 n \<longleftrightarrow> \<bar>n\<bar> < 10 ^ 78"

definition collection_fits :: "collection \<Rightarrow> bool" where
  "collection_fits r \<longleftrightarrow>
     length (collection_normalized_address r) \<le> 42 \<and> length (collection_checksum_address r) \<le> 42 \<and>
     (case collection_deployment_block_number r of None \<Rightarrow> True | Some n \<Rightarrow> bigint n)"

definition same_subscription :: "workspace_collection \<Rightarrow> workspace_collection \<Rightarrow> bool" where
  "same_subscription r r' \<longleftrightarrow> subscription_workspace_id r = subscription_workspace_id r' \<and>
     subscription_collection_id r = subscription_collection_id r'"

definition subscription_clash :: "workspace_collection \<Rightarrow> workspace_collection \<Rightarrow> bool" where
  "subscription_clash r r' \<longleftrightarrow> subscription_id r = subscription_id r' \<or> same_subscription r r'"

definition subscription_fits :: "workspace_collection \<Rightarrow> bool" where
  "subscription_fits r \<longleftrightarrow> fits_column 120 (subscription_label r)"

definition job_clash :: "scan_job \<Rightarrow> scan_job \<Rightarrow> bool" where
  "job_clash r r' \<longleftrightarrow> job_id r = job_id r' \<or>
     job_collection_id r = job_collection_id r' \<and> job_scan_version r = job_scan_version r'"

definition job_checks :: "scan_job \<Rightarrow> bool" where
  "job_checks r \<longleftrightarrow> 0 \<le> job_start_block r \<and> job_start_block r \<le> job_end_block r \<and> 0 \<le> job_attempt_count r"

definition job_fits :: "scan_job \<Rightarrow> bool" where
  "job_fits r \<longleftrightarrow> integer_fits (job_scan_version r) \<and> bigint (job_start_block r) \<and>
     bigint (job_end_block r) \<and> integer_fits (job_attempt_count r) \<and> fits_column 64 (job_error_code r)"

definition same_checkpoint :: "scan_checkpoint \<Rightarrow> scan_checkpoint \<Rightarrow> bool" where
  "same_checkpoint r r' \<longleftrightarrow> checkpoint_collection_id r = checkpoint_collection_id r' \<and>
     checkpoint_scan_version r = checkpoint_scan_version r'"

definition same_content :: "raw_evidence \<Rightarrow> raw_evidence \<Rightarrow> bool" where
  "same_content r r' \<longleftrightarrow> evidence_content_hash r = evidence_content_hash r'"

definition evidence_clash :: "raw_evidence \<Rightarrow> raw_evidence \<Rightarrow> bool" where
  "evidence_clash r r' \<longleftrightarrow> evidence_id r = evidence_id r' \<or> same_content r r'"

definition evidence_checks :: "raw_evidence \<Rightarrow> bool" where
  "evidence_checks r \<longleftrightarrow> length (evidence_content_hash r) = 32"

definition evidence_fits :: "raw_evidence \<Rightarrow> bool" where
  "evidence_fits r \<longleftrightarrow> length (evidence_provider_alias r) \<le> 64 \<and>
     (case evidence_block_number r of None \<Rightarrow> True | Some n \<Rightarrow> bigint n)"

definition same_position :: "mint_event \<Rightarrow> mint_event \<Rightarrow> bool" where
  "same_position r r' \<longleftrightarrow> event_transaction_hash r = event_transaction_hash r' \<and>
     event_log_index r = event_log_index r' \<and> event_sub_index r = event_sub_index r'"

definition event_clash :: "mint_event \<Rightarrow> mint_event \<Rightarrow> bool" where
  "event_clash r r' \<longleftrightarrow> event_id r = event_id r' \<or> same_position r r'"

definition event_checks :: "mint_event \<Rightarrow> bool" where
  "event_checks r \<longleftrightarrow> 0 \<le> event_log_index r \<and> 0 \<le> event_sub_index r \<and> 0 < event_quantity r \<and>
     0 \<le> event_identity_confidence r \<and> event_identity_confidence r \<le> 100"

definition event_fits :: "mint_event \<Rightarrow> bool" where
  "event_fits r \<longleftrightarrow> bigint (event_block_number r) \<and> integer_fits (event_log_index r) \<and>
     integer_fits (event_sub_index r) \<and> numeric78 (event_token_id r) \<and> numeric78 (event_quantity r) \<and>
     length (event_recipient r) \<le> 42 \<and> fits_column 42 (event_transaction_sender r) \<and>
     fits_column 42 (event_operator r) \<and> fits_column 42 (event_payer r) \<and>
     fits_column 42 (event_probable_initiator r) \<and> length (event_identity_reason_code r) \<le> 64 \<and>
     length (event_classification_reason_code r) \<le> 64"

lemma clash_sym:
  "collection_clash r r' \<longleftrightarrow> collection_clash r' r"
  "subscription_clash s s' \<longleftrightarrow> subscription_clash s' s"
  "job_clash j j' \<longleftrightarrow> job_clash j' j"
  "evidence_clash e e' \<longleftrightarrow> evidence_clash e' e"
  "event_clash m m' \<longleftrightarrow> event_clash m' m"
  by (auto simp: collection_clash_def same_address_def subscription_clash_def same_subscription_def
      job_clash_def evidence_clash_def same_content_def event_clash_def same_position_def)

definition known_collection :: "ethereum_db \<Rightarrow> uuid \<Rightarrow> bool" where
  "known_collection db cid \<longleftrightarrow> list_ex (\<lambda>c. collection_id c = cid) (collections db)"

section \<open>Rows of a collection\<close>

definition collection_row :: "uuid \<Rightarrow> ethereum_db \<Rightarrow> collection option" where
  "collection_row cid db = select_one (\<lambda>c. collection_id c = cid) (collections db)"

text \<open>The job and the checkpoint of a collection in its first scan version.\<close>

definition job_of :: "uuid \<Rightarrow> scan_job \<Rightarrow> bool" where
  "job_of cid j \<longleftrightarrow> job_collection_id j = cid \<and> job_scan_version j = 1"

definition job_row :: "uuid \<Rightarrow> ethereum_db \<Rightarrow> scan_job option" where
  "job_row cid db = select_one (job_of cid) (scan_jobs db)"

definition checkpoint_row :: "uuid \<Rightarrow> ethereum_db \<Rightarrow> scan_checkpoint option" where
  "checkpoint_row cid db = select_one (\<lambda>r. checkpoint_collection_id r = cid \<and> checkpoint_scan_version r = 1)
     (scan_checkpoints db)"

end
