(* ===== verification/EvmPorts.thy ===== *)
theory EvmPorts
  imports Prelude
begin

text \<open>
  The provider-independent Ethereum read contract (\<^verbatim>\<open>app/application/ethereum/ports.py\<close>): blocks,
  logs, transactions, receipts, and the provider as the record of its methods. A provider is a
  remote service: each method may change the provider's state \<open>'p\<close> and answers a value or an
  exception.
\<close>

record block_reference =
  block_number :: int
  block_hash :: string

record evm_log =
  log_address :: string
  log_topics :: "string list"
  log_data :: string
  log_block_number :: int
  log_block_hash :: string
  log_transaction_hash :: string
  log_index :: int
  log_removed :: bool

record evm_transaction =
  tx_hash :: string
  tx_sender :: string
  tx_recipient :: "string option"
  tx_value_wei :: int
  tx_input_data :: string
  tx_block_number :: int

record evm_receipt =
  receipt_transaction_hash :: string
  receipt_block_number :: int
  receipt_block_hash :: string
  receipt_status :: int
  receipt_gas_used :: int
  receipt_effective_gas_price :: "int option"

text \<open>A block is named by its number or by a tag such as \<open>finalized\<close>.\<close>

datatype block_tag = Height int | Tag string

record 'p evm_provider =
  provider_chain_id :: "'p \<Rightarrow> int outcome \<times> 'p"
  provider_block :: "block_tag \<Rightarrow> 'p \<Rightarrow> block_reference outcome \<times> 'p"
  provider_code :: "string \<Rightarrow> block_tag \<Rightarrow> 'p \<Rightarrow> bytes outcome \<times> 'p"
  provider_storage_at :: "string \<Rightarrow> string \<Rightarrow> block_tag \<Rightarrow> 'p \<Rightarrow> bytes outcome \<times> 'p"
  provider_logs :: "string \<Rightarrow> int \<Rightarrow> int \<Rightarrow> string option list \<Rightarrow> 'p \<Rightarrow> evm_log list outcome \<times> 'p"
  provider_transaction :: "string \<Rightarrow> 'p \<Rightarrow> evm_transaction outcome \<times> 'p"
  provider_receipt :: "string \<Rightarrow> 'p \<Rightarrow> evm_receipt outcome \<times> 'p"
  provider_trace_transaction :: "string \<Rightarrow> 'p \<Rightarrow> json outcome \<times> 'p"

text \<open>Sequencing calls to a provider: the first exception ends the computation.\<close>

definition ask :: "('p \<Rightarrow> 'a outcome \<times> 'p) \<Rightarrow> ('a \<Rightarrow> 'p \<Rightarrow> 'b outcome \<times> 'p) \<Rightarrow> 'p \<Rightarrow> 'b outcome \<times> 'p" where
  "ask m f p = (case m p of (Inl e, p') \<Rightarrow> (Inl e, p') | (Inr x, p') \<Rightarrow> f x p')"

lemma ask_Inr_iff:
  "ask m f p = (Inr y, p'') \<longleftrightarrow> (\<exists>x p'. m p = (Inr x, p') \<and> f x p' = (Inr y, p''))"
  by (auto simp: ask_def split: prod.splits sum.splits)

lemma ask_InrE:
  assumes "ask m f p = (Inr y, p'')"
  obtains x p' where "m p = (Inr x, p')" and "f x p' = (Inr y, p'')"
  using assms by (auto simp: ask_Inr_iff)

lemma ask_known: "m p = (Inr x, p') \<Longrightarrow> ask m f p = f x p'"
  by (simp add: ask_def)

text \<open>A computation makes at most \<open>n\<close> of the calls that \<open>asked\<close> counts.\<close>

definition costs :: "('p \<Rightarrow> nat) \<Rightarrow> ('p \<Rightarrow> 'a \<times> 'p) \<Rightarrow> nat \<Rightarrow> bool" where
  "costs asked m n \<longleftrightarrow> (\<forall>p. asked (snd (m p)) \<le> asked p + n)"

lemma costsI: "(\<And>p r p'. m p = (r, p') \<Longrightarrow> asked p' \<le> asked p + n) \<Longrightarrow> costs asked m n"
  unfolding costs_def by (metis prod.collapse)

lemma costsD: "costs asked m n \<Longrightarrow> m p = (r, p') \<Longrightarrow> asked p' \<le> asked p + n"
  unfolding costs_def by (metis snd_conv)

lemma costs_return [intro]: "costs asked (\<lambda>p. (r, p)) n"
  by (simp add: costs_def)

lemma costs_mono: "costs asked m n \<Longrightarrow> n \<le> n' \<Longrightarrow> costs asked m n'"
  unfolding costs_def by (meson add_left_mono le_trans)

lemma costs_ask:
  assumes m: "costs asked m a" and f: "\<And>x q q'. m q = (Inr x, q') \<Longrightarrow> costs asked (f x) b"
  shows "costs asked (ask m f) (a + b)"
proof (rule costsI)
  fix p r p' assume run: "ask m f p = (r, p')"
  obtain answer p1 where call: "m p = (answer, p1)" by fastforce
  have one: "asked p1 \<le> asked p + a" using m call by (rule costsD)
  show "asked p' \<le> asked p + (a + b)"
  proof (cases answer)
    case (Inl e)
    with run call one show ?thesis by (simp add: ask_def)
  next
    case (Inr x)
    with run call have "f x p1 = (r, p')" by (simp add: ask_def)
    from costsD [OF f [OF call [unfolded Inr]] this] one show ?thesis by simp
  qed
qed

end
