(* ===== verification/Decoders.thy ===== *)
theory Decoders
  imports EvmPorts PyText Enums
begin

text \<open>
  The strict decoders of standard NFT mint events (\<^verbatim>\<open>app/application/ethereum/decoders.py\<close>). What
  the libraries compute is an argument: \<open>keccak_hex\<close> is \<open>Web3.keccak(text=...).hex()\<close>,
  \<open>checksum\<close> is \<open>Web3.to_checksum_address\<close>, and \<open>abi\<close> holds the three shapes of
  \<open>eth_abi\<close> data the decoders read.
\<close>

section \<open>Libraries\<close>

record abi_decoder =
  abi_uint :: "bytes \<Rightarrow> int outcome"
  abi_two_uints :: "bytes \<Rightarrow> (int \<times> int) outcome"
  abi_two_arrays :: "bytes \<Rightarrow> (int list \<times> int list) outcome"

type_synonym checksummer = "string \<Rightarrow> string outcome"

text \<open>
  What Web3 documents of the checksum form: it exists for twenty bytes in hexadecimal and differs
  from its argument in the case of letters only.
\<close>

definition checksum_documented :: "checksummer \<Rightarrow> bool" where
  "checksum_documented checksum \<longleftrightarrow>
     (\<forall>a c. checksum a = Inr c \<longrightarrow> lower c = lower a) \<and>
     (\<forall>raw. length raw = 20 \<longrightarrow> (\<exists>c. checksum (''0x'' @ bytes_hex raw) = Inr c))"

definition zero_address :: string where
  "zero_address = ''0x'' @ replicate 40 (CHR ''0'')"

definition erc721_transfer_topic :: "(string \<Rightarrow> string) \<Rightarrow> string" where
  "erc721_transfer_topic keccak_hex = keccak_hex ''Transfer(address,address,uint256)''"

definition erc1155_single_topic :: "(string \<Rightarrow> string) \<Rightarrow> string" where
  "erc1155_single_topic keccak_hex =
     keccak_hex ''TransferSingle(address,address,address,uint256,uint256)''"

definition erc1155_batch_topic :: "(string \<Rightarrow> string) \<Rightarrow> string" where
  "erc1155_batch_topic keccak_hex =
     keccak_hex ''TransferBatch(address,address,address,uint256[],uint256[])''"

definition erc2309_consecutive_topic :: "(string \<Rightarrow> string) \<Rightarrow> string" where
  "erc2309_consecutive_topic keccak_hex =
     keccak_hex ''ConsecutiveTransfer(uint256,uint256,address,address)''"

section \<open>Fields\<close>

record decoded_mint =
  mint_collection_address :: string
  mint_token_standard :: token_standard
  mint_token_id :: int
  mint_quantity :: int
  mint_recipient :: string
  mint_operator :: "string option"
  mint_block_number :: int
  mint_block_hash :: string
  mint_transaction_hash :: string
  mint_log_index :: int
  mint_sub_index :: nat

definition fromhex_or_value_error :: "string \<Rightarrow> bytes outcome" where
  "fromhex_or_value_error text =
     (case fromhex text of
        None \<Rightarrow> Inl (ValueError ''non-hexadecimal number found in fromhex() arg'')
      | Some raw \<Rightarrow> Inr raw)"

definition topic_address :: "checksummer \<Rightarrow> string \<Rightarrow> string outcome" where
  "topic_address checksum topic =
     attempt (fromhex_or_value_error (remove_prefix ''0x'' topic)) (\<lambda>raw.
       if length raw \<noteq> 32 \<or> list_ex (\<lambda>b. b \<noteq> 0) (take 12 raw)
       then Inl (InvalidMintLog ''indexed address topic is malformed'')
       else checksum (''0x'' @ bytes_hex (drop 12 raw)))"

definition topic_uint :: "string \<Rightarrow> int outcome" where
  "topic_uint topic =
     attempt (fromhex_or_value_error (remove_prefix ''0x'' topic)) (\<lambda>raw.
       if length raw \<noteq> 32
       then Inl (InvalidMintLog ''indexed integer topic is malformed'')
       else Inr (int_from_bytes raw))"

definition data_bytes :: "string \<Rightarrow> bytes outcome" where
  "data_bytes text =
     (case fromhex (remove_prefix ''0x'' text) of
        None \<Rightarrow> Inl (InvalidMintLog ''event data is malformed'')
      | Some raw \<Rightarrow> Inr raw)"

definition decoded ::
  "checksummer \<Rightarrow> evm_log \<Rightarrow> token_standard \<Rightarrow> int \<Rightarrow> int \<Rightarrow> string \<Rightarrow> string option \<Rightarrow> nat \<Rightarrow>
     decoded_mint outcome"
where
  "decoded checksum log standard token_id quantity recipient operator sub_index =
     (if quantity \<le> 0 then Inl (InvalidMintLog ''mint quantity must be positive'')
      else attempt (checksum (log_address log)) (\<lambda>collection. Inr
        \<lparr> mint_collection_address = collection,
          mint_token_standard = standard,
          mint_token_id = token_id,
          mint_quantity = quantity,
          mint_recipient = recipient,
          mint_operator = operator,
          mint_block_number = log_block_number log,
          mint_block_hash = log_block_hash log,
          mint_transaction_hash = log_transaction_hash log,
          mint_log_index = log_index log,
          mint_sub_index = sub_index \<rparr>))"

text \<open>A list comprehension whose elements may raise.\<close>

fun collect :: "'a outcome list \<Rightarrow> 'a list outcome" where
  "collect [] = Inr []"
| "collect (x # xs) = attempt x (\<lambda>y. attempt (collect xs) (\<lambda>ys. Inr (y # ys)))"

section \<open>The decoder\<close>

definition from_zero :: "checksummer \<Rightarrow> evm_log \<Rightarrow> nat \<Rightarrow> bool outcome" where
  "from_zero checksum log i =
     (if length (log_topics log) \<noteq> 4 then Inr False
      else attempt (topic_address checksum (log_topics log ! i)) (\<lambda>sender.
        Inr (lower sender = zero_address)))"

definition decode_erc721 :: "checksummer \<Rightarrow> evm_log \<Rightarrow> decoded_mint list outcome" where
  "decode_erc721 checksum log =
     attempt (topic_uint (log_topics log ! 3)) (\<lambda>token_id.
     attempt (topic_address checksum (log_topics log ! 2)) (\<lambda>recipient.
     attempt (decoded checksum log TokenStandard_ERC721 token_id 1 recipient None 0) (\<lambda>m.
     Inr [m])))"

definition decode_erc1155_single ::
  "abi_decoder \<Rightarrow> checksummer \<Rightarrow> evm_log \<Rightarrow> decoded_mint list outcome"
where
  "decode_erc1155_single abi checksum log =
     attempt (data_bytes (log_data log)) (\<lambda>raw.
     attempt (abi_two_uints abi raw) (\<lambda>(token_id, quantity).
     attempt (topic_address checksum (log_topics log ! 3)) (\<lambda>recipient.
     attempt (topic_address checksum (log_topics log ! 1)) (\<lambda>operator.
     attempt (decoded checksum log TokenStandard_ERC1155 token_id quantity recipient
       (Some operator) 0) (\<lambda>m.
     Inr [m])))))"

definition decode_erc1155_batch ::
  "abi_decoder \<Rightarrow> checksummer \<Rightarrow> evm_log \<Rightarrow> decoded_mint list outcome"
where
  "decode_erc1155_batch abi checksum log =
     attempt (data_bytes (log_data log)) (\<lambda>raw.
     attempt (abi_two_arrays abi raw) (\<lambda>(token_ids, quantities).
       if length token_ids \<noteq> length quantities
       then Inl (InvalidMintLog ''ERC-1155 batch ID and quantity lengths differ'')
       else
         attempt (topic_address checksum (log_topics log ! 3)) (\<lambda>recipient.
         attempt (topic_address checksum (log_topics log ! 1)) (\<lambda>operator.
         collect (map (\<lambda>(sub_index, token_id, quantity).
             decoded checksum log TokenStandard_ERC1155 token_id quantity recipient
               (Some operator) sub_index)
           (zip [0..<length token_ids] (zip token_ids quantities)))))))"

definition decode_erc2309 ::
  "abi_decoder \<Rightarrow> checksummer \<Rightarrow> int \<Rightarrow> evm_log \<Rightarrow> decoded_mint list outcome"
where
  "decode_erc2309 abi checksum max_erc2309_range log =
     attempt (data_bytes (log_data log)) (\<lambda>raw.
     attempt (abi_uint abi raw) (\<lambda>to_token_id.
     attempt (topic_uint (log_topics log ! 1)) (\<lambda>from_token_id.
       let count = to_token_id - from_token_id + 1 in
       if count \<le> 0 then Inl (InvalidMintLog ''ERC-2309 token range is invalid'')
       else if max_erc2309_range < count
       then Inl (ConsecutiveRangeTooLarge (''ERC-2309 range contains '' @ str_int count @
         '' tokens; limit is '' @ str_int max_erc2309_range))
       else
         attempt (topic_address checksum (log_topics log ! 3)) (\<lambda>recipient.
         collect (map (\<lambda>sub_index.
             decoded checksum log TokenStandard_ERC2309 (from_token_id + int sub_index) 1 recipient
               None sub_index)
           [0..<nat count])))))"

definition decode_mint_log ::
  "(string \<Rightarrow> string) \<Rightarrow> abi_decoder \<Rightarrow> checksummer \<Rightarrow> int \<Rightarrow> evm_log \<Rightarrow> decoded_mint list outcome"
where
  "decode_mint_log keccak_hex abi checksum max_erc2309_range log =
     (if log_removed log \<or> log_topics log = [] then Inr []
      else
        let signature = lower (log_topics log ! 0) in
        if signature = erc721_transfer_topic keccak_hex
        then attempt (from_zero checksum log 1) (\<lambda>minted.
          if minted then decode_erc721 checksum log else Inr [])
        else if signature = erc1155_single_topic keccak_hex
        then attempt (from_zero checksum log 2) (\<lambda>minted.
          if minted then decode_erc1155_single abi checksum log else Inr [])
        else if signature = erc1155_batch_topic keccak_hex
        then attempt (from_zero checksum log 2) (\<lambda>minted.
          if minted then decode_erc1155_batch abi checksum log else Inr [])
        else if signature = erc2309_consecutive_topic keccak_hex
        then attempt (from_zero checksum log 2) (\<lambda>minted.
          if minted then decode_erc2309 abi checksum max_erc2309_range log else Inr [])
        else Inr [])"

section \<open>Collected elements\<close>

lemma collect_Inr_iff: "collect xs = Inr ys \<longleftrightarrow> map Inr ys = xs"
  by (induction xs arbitrary: ys) (auto simp: attempt_eq_Inr_iff Cons_eq_map_conv)

lemma collect_InrD: "collect xs = Inr ys \<Longrightarrow> length ys = length xs \<and> (\<forall>i < length xs. xs ! i = Inr (ys ! i))"
  by (auto simp: collect_Inr_iff)

lemma collect_map_Inr:
  "(\<And>x. x \<in> set xs \<Longrightarrow> \<exists>y. f x = Inr y) \<Longrightarrow> \<exists>ys. collect (map f xs) = Inr ys"
  by (induction xs) fastforce+

lemma decoded_InrD:
  assumes "decoded checksum log standard tid q rec oper i = Inr m"
  shows "0 < q \<and> (\<exists>c. checksum (log_address log) = Inr c \<and>
    m = \<lparr> mint_collection_address = c, mint_token_standard = standard, mint_token_id = tid,
          mint_quantity = q, mint_recipient = rec, mint_operator = oper,
          mint_block_number = log_block_number log, mint_block_hash = log_block_hash log,
          mint_transaction_hash = log_transaction_hash log, mint_log_index = log_index log,
          mint_sub_index = i \<rparr>)"
  using assms by (auto simp: decoded_def attempt_eq_Inr_iff split: if_splits)

text \<open>What holds of every mint of a log, whichever event it is.\<close>

definition minted_by :: "checksummer \<Rightarrow> evm_log \<Rightarrow> nat \<Rightarrow> decoded_mint \<Rightarrow> bool" where
  "minted_by checksum log i m \<longleftrightarrow>
     0 < mint_quantity m \<and> checksum (log_address log) = Inr (mint_collection_address m) \<and>
     mint_block_number m = log_block_number log \<and> mint_block_hash m = log_block_hash log \<and>
     mint_transaction_hash m = log_transaction_hash log \<and> mint_log_index m = log_index log \<and>
     mint_sub_index m = i"

lemma decoded_minted_by:
  "decoded checksum log standard tid q rec oper i = Inr m \<Longrightarrow> minted_by checksum log i m"
  by (auto simp: minted_by_def dest!: decoded_InrD)

lemma collected_minted_by:
  assumes "collect (map f xs) = Inr ms"
    and "\<And>i m. i < length xs \<Longrightarrow> f (xs ! i) = Inr m \<Longrightarrow> minted_by checksum log i m"
  shows "\<forall>i < length ms. minted_by checksum log i (ms ! i)"
  using collect_InrD [OF assms(1)] assms(2) by auto

section \<open>Round trips of topics\<close>

definition address_topic :: "bytes \<Rightarrow> string" where
  "address_topic raw = ''0x'' @ bytes_hex (replicate 12 0 @ raw)"

definition uint_topic :: "int \<Rightarrow> string" where
  "uint_topic n = ''0x'' @ bytes_hex (int_to_bytes 32 n)"

lemma remove_0x [simp]: "remove_prefix ''0x'' (CHR ''0'' # CHR ''x'' # s) = s"
  using remove_prefix_append [of "''0x''" s] by simp

lemma topic_uint_uint_topic:
  assumes "0 \<le> n" and "n < 256 ^ 32"
  shows "topic_uint (uint_topic n) = Inr n"
  using assms int_from_to_bytes [of n 32]
  by (simp add: topic_uint_def uint_topic_def fromhex_or_value_error_def)

lemma topic_address_address_topic:
  "length raw = 20 \<Longrightarrow>
     topic_address checksum (address_topic raw) = checksum (''0x'' @ bytes_hex raw)"
  by (simp add: topic_address_def address_topic_def fromhex_or_value_error_def list_ex_iff)

lemma bytes_hex_zero: "bytes_hex (replicate n 0) = replicate (2 * n) (CHR ''0'')"
  by (induction n) (simp_all add: bytes_hex_def byte_hex_def hex_digit_def hex_digits_def)

lemma lower_zero_address: "lower (''0x'' @ bytes_hex (replicate 20 0)) = zero_address"
  unfolding lower_append lower_bytes_hex
  by (simp add: bytes_hex_zero zero_address_def lower_def lower_char_def)

lemma from_zero_topic:
  assumes "checksum_documented checksum" and "length (log_topics log) = 4"
    and "log_topics log ! i = address_topic raw" and "length raw = 20"
  shows "from_zero checksum log i = Inr (raw = replicate 20 0)"
proof -
  obtain c where c: "checksum (''0x'' @ bytes_hex raw) = Inr c"
    using assms(1,4) by (auto simp: checksum_documented_def)
  then have "lower c = lower (''0x'' @ bytes_hex raw)"
    using assms(1) by (simp add: checksum_documented_def)
  then have "lower c = zero_address \<longleftrightarrow>
      lower (''0x'' @ bytes_hex raw) = lower (''0x'' @ bytes_hex (replicate 20 0))"
    by (simp only: lower_zero_address)
  also have "\<dots> \<longleftrightarrow> raw = replicate 20 0"
    unfolding lower_append lower_bytes_hex by simp
  finally show ?thesis
    using assms(2-4) c by (simp add: from_zero_def topic_address_address_topic)
qed

section \<open>Properties\<close>

text \<open>A log that mints was decoded by the decoder of its event, from the zero address.\<close>

lemma decode_mint_log_minting:
  assumes "decode_mint_log keccak_hex abi checksum limit log = Inr ms" and "ms \<noteq> []"
  shows "\<not> log_removed log \<and>
    (from_zero checksum log 1 = Inr True \<or> from_zero checksum log 2 = Inr True) \<and>
    (decode_erc721 checksum log = Inr ms \<or> decode_erc1155_single abi checksum log = Inr ms \<or>
     decode_erc1155_batch abi checksum log = Inr ms \<or> decode_erc2309 abi checksum limit log = Inr ms)"
  using assms
  by (auto simp: decode_mint_log_def Let_def split: if_splits elim!: attempt_InrE)

lemma decode_erc721_minted_by:
  "decode_erc721 checksum log = Inr ms \<Longrightarrow> \<forall>i < length ms. minted_by checksum log i (ms ! i)"
  by (auto simp: decode_erc721_def elim!: attempt_InrE dest: decoded_minted_by)

lemma decode_erc1155_single_minted_by:
  "decode_erc1155_single abi checksum log = Inr ms \<Longrightarrow>
     \<forall>i < length ms. minted_by checksum log i (ms ! i)"
  by (auto simp: decode_erc1155_single_def elim!: attempt_InrE dest: decoded_minted_by)

lemma decode_erc1155_batch_minted_by:
  assumes "decode_erc1155_batch abi checksum log = Inr ms"
  shows "\<forall>i < length ms. minted_by checksum log i (ms ! i)"
proof -
  from assms obtain ids qs rec oper where eq: "length ids = length qs"
    and run: "collect (map (\<lambda>(i, tid, q).
      decoded checksum log TokenStandard_ERC1155 tid q rec (Some oper) i)
      (zip [0..<length ids] (zip ids qs))) = Inr ms"
    by (auto simp: decode_erc1155_batch_def split: if_splits elim!: attempt_InrE)
  show ?thesis
    by (rule collected_minted_by [OF run]) (auto simp: eq dest: decoded_minted_by)
qed

lemma decode_erc2309_range:
  assumes "decode_erc2309 abi checksum limit log = Inr ms"
  obtains raw hi lo where "data_bytes (log_data log) = Inr raw" and "abi_uint abi raw = Inr hi"
    and "topic_uint (log_topics log ! 1) = Inr lo" and "lo \<le> hi" and "hi - lo + 1 \<le> limit"
    and "length ms = nat (hi - lo + 1)"
    and "\<forall>i < length ms. minted_by checksum log i (ms ! i) \<and> mint_token_id (ms ! i) = lo + int i \<and>
      mint_quantity (ms ! i) = 1 \<and> mint_token_standard (ms ! i) = TokenStandard_ERC2309"
proof -
  from assms obtain raw hi lo rec where
    *: "data_bytes (log_data log) = Inr raw" "abi_uint abi raw = Inr hi"
      "topic_uint (log_topics log ! 1) = Inr lo" "lo \<le> hi" "hi - lo + 1 \<le> limit"
    and run: "collect (map (\<lambda>i. decoded checksum log TokenStandard_ERC2309 (lo + int i) 1 rec None i)
      [0..<nat (hi - lo + 1)]) = Inr ms"
    by (auto simp: decode_erc2309_def Let_def split: if_splits elim!: attempt_InrE)
  from collect_InrD [OF run] have len: "length ms = nat (hi - lo + 1)"
    and each: "\<forall>i < length ms.
      decoded checksum log TokenStandard_ERC2309 (lo + int i) 1 rec None i = Inr (ms ! i)" by auto
  have "\<forall>i < length ms. minted_by checksum log i (ms ! i) \<and> mint_token_id (ms ! i) = lo + int i \<and>
      mint_quantity (ms ! i) = 1 \<and> mint_token_standard (ms ! i) = TokenStandard_ERC2309"
    using each decoded_InrD decoded_minted_by by fastforce
  with that [OF * len] show thesis by blast
qed


text \<open>
  A consecutive mint event expands to exactly its range: the tokens minted are \<open>from\<close> to
  \<open>to\<close>, each once, in order, with quantity one; an event whose range is longer than the limit, or
  runs backwards, is refused.
\<close>

theorem erc2309_expands_range:
  assumes "lower (log_topics log ! 0) = erc2309_consecutive_topic keccak_hex"
    and "erc2309_consecutive_topic keccak_hex \<notin>
      {erc721_transfer_topic keccak_hex, erc1155_single_topic keccak_hex, erc1155_batch_topic keccak_hex}"
    and "\<not> log_removed log" and "from_zero checksum log 2 = Inr True"
    and "data_bytes (log_data log) = Inr raw" and "abi_uint abi raw = Inr hi"
    and "topic_uint (log_topics log ! 1) = Inr lo"
    and "topic_address checksum (log_topics log ! 3) = Inr recipient"
    and "checksum (log_address log) = Inr collection"
  shows "if hi < lo
    then decode_mint_log keccak_hex abi checksum limit log =
      Inl (InvalidMintLog ''ERC-2309 token range is invalid'')
    else if limit < hi - lo + 1
    then \<exists>text. decode_mint_log keccak_hex abi checksum limit log = Inl (ConsecutiveRangeTooLarge text)
    else \<exists>ms. decode_mint_log keccak_hex abi checksum limit log = Inr ms \<and>
      map mint_token_id ms = [lo..hi] \<and> (\<forall>m \<in> set ms. mint_quantity m = 1)"
proof -
  have topics: "log_topics log \<noteq> []"
    using assms(4) by (auto simp: from_zero_def split: if_splits)
  have run: "decode_mint_log keccak_hex abi checksum limit log = decode_erc2309 abi checksum limit log"
    using assms(1-4) topics by (simp add: decode_mint_log_def Let_def)
  show ?thesis
  proof (cases "hi < lo \<or> limit < hi - lo + 1")
    case True
    with assms(5-7) show ?thesis by (auto simp: run decode_erc2309_def)
  next
    case False
    have "\<exists>ms. collect (map (\<lambda>i. decoded checksum log TokenStandard_ERC2309 (lo + int i) 1
        recipient None i) [0..<nat (hi - lo + 1)]) = Inr ms"
      using assms(9) by (intro collect_map_Inr) (simp add: decoded_def)
    then obtain ms where decode: "decode_erc2309 abi checksum limit log = Inr ms"
      using False assms(5-8) by (auto simp: decode_erc2309_def Let_def)
    from decode_erc2309_range [OF decode] assms(5-7) have len: "length ms = nat (hi - lo + 1)"
      and each: "\<forall>i < length ms. mint_token_id (ms ! i) = lo + int i \<and> mint_quantity (ms ! i) = 1"
      by (metis Inr_inject)+
    have "map mint_token_id ms = [lo..hi]"
      using len each by (intro nth_equalityI) (auto simp: nth_upto)
    moreover have "\<forall>m \<in> set ms. mint_quantity m = 1"
      using each by (auto simp: in_set_conv_nth)
    ultimately show ?thesis using False decode run by auto
  qed
qed

text \<open>
  A well-formed single mint is decoded: a transfer event from the zero address of token \<open>n\<close> to
  an address, with its topics in the encoding of the chain, decodes to exactly that mint.
\<close>

theorem erc721_round_trip:
  assumes "checksum_documented checksum" and "checksum (log_address log) = Inr collection"
    and "\<not> log_removed log" and "0 \<le> n" and "n < 2 ^ 256" and "length raw = 20"
    and "log_topics log = [signature, address_topic (replicate 20 0), address_topic raw, uint_topic n]"
    and "lower signature = erc721_transfer_topic keccak_hex"
  shows "\<exists>recipient m. decode_mint_log keccak_hex abi checksum limit log = Inr [m] \<and>
    mint_token_id m = n \<and> mint_quantity m = 1 \<and> mint_token_standard m = TokenStandard_ERC721 \<and>
    mint_collection_address m = collection \<and> mint_recipient m = recipient \<and>
    lower recipient = ''0x'' @ bytes_hex raw"
proof -
  obtain recipient where rec: "checksum (''0x'' @ bytes_hex raw) = Inr recipient"
    using assms(1,6) by (auto simp: checksum_documented_def)
  then have "lower recipient = lower (''0x'' @ bytes_hex raw)"
    using assms(1) by (simp add: checksum_documented_def)
  then have low: "lower recipient = ''0x'' @ bytes_hex raw"
    unfolding lower_append lower_bytes_hex by (simp add: lower_def lower_char_def)
  have zero: "from_zero checksum log 1 = Inr True"
    using from_zero_topic [OF assms(1), of log 1 "replicate 20 0"] assms(7) by simp
  have "topic_uint (uint_topic n) = Inr n"
    using assms(4,5) by (intro topic_uint_uint_topic) simp_all
  then have "decode_erc721 checksum log = Inr [\<lparr> mint_collection_address = collection,
      mint_token_standard = TokenStandard_ERC721, mint_token_id = n, mint_quantity = 1,
      mint_recipient = recipient, mint_operator = None, mint_block_number = log_block_number log,
      mint_block_hash = log_block_hash log, mint_transaction_hash = log_transaction_hash log,
      mint_log_index = log_index log, mint_sub_index = 0 \<rparr>]"
    using assms(2,6,7) rec
    by (simp add: decode_erc721_def topic_address_address_topic [OF assms(6)] decoded_def)
  with zero assms(3,7,8) low show ?thesis by (simp add: decode_mint_log_def Let_def)
qed

text \<open>
  C39. Topics with the prefix \<open>0x\<close> never match: where the library prints hashes without the prefix,
  as hexbytes does since version 1, every log whose first topic carries it, as the topics of the
  JSON-RPC interface do, decodes to no mint at all.
\<close>

theorem prefixed_topics_decode_nothing:
  assumes "\<forall>text. \<not> starts_with (keccak_hex text) ''0x''"
    and "log_topics log = (''0x'' @ digits) # rest"
  shows "decode_mint_log keccak_hex abi checksum limit log = Inr []"
proof -
  have "starts_with (lower (log_topics log ! 0)) ''0x''"
    using assms(2) by (simp add: starts_with_def lower_def lower_char_def)
  then have "lower (log_topics log ! 0) \<noteq> keccak_hex t" for t
    using assms(1) by metis
  then show ?thesis
    by (simp add: decode_mint_log_def Let_def erc721_transfer_topic_def erc1155_single_topic_def
        erc1155_batch_topic_def erc2309_consecutive_topic_def)
qed

text \<open>
  Stand-ins for the libraries in the examples: a hash that is the text itself in lower case, an
  address form that changes nothing, and data that is one integer.
\<close>

definition plain_abi :: abi_decoder where
  "plain_abi = \<lparr> abi_uint = (\<lambda>raw. Inr (int_from_bytes raw)),
     abi_two_uints = (\<lambda>raw. Inr (int_from_bytes (take 32 raw), int_from_bytes (drop 32 raw))),
     abi_two_arrays = (\<lambda>raw. Inr ([], [])) \<rparr>"

lemma plain_checksum: "checksum_documented Inr"
  by (auto simp: checksum_documented_def)

definition transfer_log :: evm_log where
  "transfer_log = \<lparr> log_address = ''0xc'',
     log_topics = [lower ''Transfer(address,address,uint256)'', address_topic (replicate 20 0),
       address_topic (replicate 20 1), uint_topic 7],
     log_data = ''0x'', log_block_number = 3, log_block_hash = ''0xb'',
     log_transaction_hash = ''0xt'', log_index = 2, log_removed = False \<rparr>"

definition consecutive_log :: evm_log where
  "consecutive_log = transfer_log\<lparr>
     log_topics := [lower ''ConsecutiveTransfer(uint256,uint256,address,address)'', uint_topic 4,
       address_topic (replicate 20 0), address_topic (replicate 20 1)],
     log_data := ''0x06'' \<rparr>"

lemma transfer_log_decodes:
  "\<exists>m. decode_mint_log lower plain_abi Inr 5000 transfer_log = Inr [m] \<and> mint_token_id m = 7"
proof -
  have "from_zero Inr transfer_log 1 = Inr True"
    using from_zero_topic [OF plain_checksum, of transfer_log 1 "replicate 20 0"]
    by (simp add: transfer_log_def)
  moreover have "topic_uint (uint_topic 7) = Inr 7" by (rule topic_uint_uint_topic) simp_all
  ultimately show ?thesis
    by (simp add: decode_mint_log_def Let_def erc721_transfer_topic_def decode_erc721_def decoded_def)
      (simp add: transfer_log_def topic_address_address_topic)
qed


theorem erc721_round_trip_witness:
  "\<exists>m. decode_mint_log lower plain_abi Inr 5000 transfer_log = Inr [m] \<and> mint_token_id m = 7"
proof -
  have facts: "Inr (log_address transfer_log) = (Inr ''0xc'' :: string outcome)"
    "\<not> log_removed transfer_log" "log_topics transfer_log =
      [lower ''Transfer(address,address,uint256)'', address_topic (replicate 20 0),
       address_topic (replicate 20 1), uint_topic 7]"
    "lower (lower ''Transfer(address,address,uint256)'') = erc721_transfer_topic lower"
    by (simp_all add: transfer_log_def erc721_transfer_topic_def)
  from erc721_round_trip [OF plain_checksum facts(1,2) _ _ _ facts(3,4), of plain_abi 5000]
  show ?thesis by auto
qed

theorem prefixed_topics_decode_nothing_witness:
  "decode_mint_log (\<lambda>_. ''ddf252ad'') plain_abi Inr 5000
     (transfer_log\<lparr> log_topics := ''0xddf252ad'' # tl (log_topics transfer_log) \<rparr>) = Inr []"
  using prefixed_topics_decode_nothing [of "\<lambda>_. ''ddf252ad''"
      "transfer_log\<lparr> log_topics := ''0xddf252ad'' # tl (log_topics transfer_log) \<rparr>" "''ddf252ad''"]
  by (simp add: starts_with_def)

theorem erc2309_expands_range_witness:
  "\<exists>ms. decode_mint_log lower plain_abi Inr 5000 consecutive_log = Inr ms \<and>
     map mint_token_id ms = [4..6]"
proof -
  have zero: "from_zero Inr consecutive_log 2 = Inr True"
    using from_zero_topic [OF plain_checksum, of consecutive_log 2 "replicate 20 0"]
    by (simp add: consecutive_log_def)
  have data: "data_bytes (log_data consecutive_log) = Inr [6]"
    by (simp add: consecutive_log_def data_bytes_def is_space_def hex_value_def)
  have lo: "topic_uint (log_topics consecutive_log ! 1) = Inr 4"
    using topic_uint_uint_topic [of 4] by (simp add: consecutive_log_def)
  have rec: "topic_address Inr (log_topics consecutive_log ! 3) =
      Inr (''0x'' @ bytes_hex (replicate 20 1))"
    using topic_address_address_topic [of "replicate 20 1" Inr] by (simp add: consecutive_log_def)
  have sig: "lower (log_topics consecutive_log ! 0) = erc2309_consecutive_topic lower"
    and live: "\<not> log_removed consecutive_log"
    by (simp_all add: consecutive_log_def erc2309_consecutive_topic_def transfer_log_def)
  have "erc2309_consecutive_topic lower \<notin> {erc721_transfer_topic lower, erc1155_single_topic lower,
      erc1155_batch_topic lower}"
    by (simp add: erc2309_consecutive_topic_def erc721_transfer_topic_def erc1155_single_topic_def
        erc1155_batch_topic_def lower_def lower_char_def)
  moreover have "abi_uint plain_abi [6] = Inr 6"
    by (simp add: plain_abi_def int_from_bytes_def number_of_digits_def)
  moreover have "Inr (log_address consecutive_log) = (Inr ''0xc'' :: string outcome)"
    by (simp add: consecutive_log_def transfer_log_def)
  ultimately show ?thesis
    using erc2309_expands_range [OF sig _ live zero data _ lo rec, of plain_abi 6 "''0xc''" 5000]
    by auto
qed

end
