(* ===== verification/Classification.thy ===== *)
theory Classification
  imports Prelude Enums
begin

text \<open>
  Mint classification from sale-state evidence (\<^verbatim>\<open>app/application/ethereum/classification.py\<close>):
  the first kind of evidence that applies decides, and without conclusive evidence a mint stays
  unknown.
\<close>

record sale_state_evidence =
  evidence_route :: mint_route
  evidence_source :: string
  public_sale_active :: "bool option"
  unit_price_wei :: "int option"
  allowlist_required :: bool
  token_gate_required :: bool
  server_signature_required :: bool
  admin_mint :: bool
  airdrop :: bool
  bridge :: bool
  migration :: bool
  lazy_marketplace :: bool

text \<open>The checks of the constructor.\<close>

definition checked_evidence :: "sale_state_evidence \<Rightarrow> sale_state_evidence outcome" where
  "checked_evidence e =
     (if (case unit_price_wei e of None \<Rightarrow> False | Some price \<Rightarrow> price < 0)
      then Inl (ValueError ''mint unit price cannot be negative'')
      else if evidence_source e = [] \<or> 64 < length (evidence_source e)
      then Inl (ValueError ''classification evidence source is required'')
      else Inr e)"

record classification_decision =
  decision_route :: mint_route
  decision_classification :: mint_classification
  decision_reason_code :: string

definition decide :: "mint_route \<Rightarrow> mint_classification \<Rightarrow> string \<Rightarrow> classification_decision" where
  "decide route c reason =
     \<lparr> decision_route = route, decision_classification = c, decision_reason_code = reason \<rparr>"

definition classify_mint :: "sale_state_evidence option \<Rightarrow> classification_decision" where
  "classify_mint evidence =
     (case evidence of
        None \<Rightarrow> decide MintRoute_UNKNOWN MintClassification_UNKNOWN_MINT ''sale_state_evidence_missing''
      | Some e \<Rightarrow>
          let route = evidence_route e in
          if bridge e then decide route MintClassification_BRIDGE_MINT ''bridge_evidence''
          else if migration e
          then decide route MintClassification_MIGRATION_MINT ''migration_evidence''
          else if lazy_marketplace e
          then decide MintRoute_MARKETPLACE MintClassification_LAZY_MARKETPLACE_MINT
            ''lazy_marketplace_evidence''
          else if airdrop e then decide route MintClassification_AIRDROP ''airdrop_evidence''
          else if admin_mint e
          then decide route MintClassification_ADMIN_MINT ''admin_call_evidence''
          else if server_signature_required e
          then decide route MintClassification_SERVER_SIGNED_MINT ''server_signature_required''
          else if token_gate_required e
          then decide route MintClassification_TOKEN_GATED_MINT ''token_gate_required''
          else if allowlist_required e
          then decide route MintClassification_ALLOWLIST_MINT ''allowlist_required''
          else
            (case (public_sale_active e, unit_price_wei e) of
               (Some True, Some price) \<Rightarrow>
                 decide route
                   (if price = 0 then MintClassification_PUBLIC_FREE_MINT
                    else MintClassification_PUBLIC_PAID_MINT)
                   (if price = 0 then ''public_sale_free'' else ''public_sale_paid'')
             | _ \<Rightarrow> decide route MintClassification_UNKNOWN_MINT ''sale_state_inconclusive''))"

section \<open>Properties\<close>

text \<open>No evidence that anything but an open sale let the mint happen.\<close>

definition unrestricted :: "sale_state_evidence \<Rightarrow> bool" where
  "unrestricted e \<longleftrightarrow> \<not> bridge e \<and> \<not> migration e \<and> \<not> lazy_marketplace e \<and> \<not> airdrop e \<and>
     \<not> admin_mint e \<and> \<not> server_signature_required e \<and> \<not> token_gate_required e \<and>
     \<not> allowlist_required e"

text \<open>
  A mint counts as public only on complete evidence: it is classified as a free (paid) public
  mint exactly when there is evidence, nothing in it restricts who could mint, the public sale was
  active and the unit price is known to be zero (not zero).
\<close>

theorem public_mint_iff:
  "(decision_classification (classify_mint evidence) = MintClassification_PUBLIC_FREE_MINT \<longleftrightarrow>
      (\<exists>e. evidence = Some e \<and> unrestricted e \<and> public_sale_active e = Some True \<and>
         unit_price_wei e = Some 0)) \<and>
   (decision_classification (classify_mint evidence) = MintClassification_PUBLIC_PAID_MINT \<longleftrightarrow>
      (\<exists>e price. evidence = Some e \<and> unrestricted e \<and> public_sale_active e = Some True \<and>
         unit_price_wei e = Some price \<and> price \<noteq> 0))"
  by (auto simp: classify_mint_def decide_def unrestricted_def Let_def split: option.splits bool.splits)

end
