(* ===== verification/Enrichment.thy ===== *)
theory Enrichment
  imports Decoders Classification
begin

text \<open>
  Conservative enrichment of a decoded mint with its transaction and receipt
  (\<^verbatim>\<open>app/application/ethereum/enrichment.py\<close>): evidence of another transaction or block is refused,
  and an initiator is named only for a direct call.
\<close>

record enriched_mint =
  enriched_mint :: decoded_mint
  enriched_transaction_sender :: string
  enriched_payer :: "string option"
  enriched_probable_initiator :: "string option"
  enriched_identity_confidence :: int
  enriched_identity_reason_code :: string
  enriched_route :: mint_route
  enriched_classification :: mint_classification
  enriched_classification_reason_code :: string

definition is_direct :: "decoded_mint \<Rightarrow> evm_transaction \<Rightarrow> bool" where
  "is_direct mint tx =
     (case tx_recipient tx of
        None \<Rightarrow> False
      | Some recipient \<Rightarrow> lower recipient = lower (mint_collection_address mint))"

definition evidence_refusal :: "decoded_mint \<Rightarrow> evm_transaction \<Rightarrow> evm_receipt \<Rightarrow> exn option" where
  "evidence_refusal mint tx receipt =
     (if receipt_status receipt \<noteq> 1
      then Some (ValueError ''failed transaction cannot produce a canonical mint'')
      else if lower (tx_hash tx) \<noteq> lower (mint_transaction_hash mint)
      then Some (ValueError ''transaction evidence does not match mint provenance'')
      else if lower (receipt_transaction_hash receipt) \<noteq> lower (mint_transaction_hash mint)
      then Some (ValueError ''receipt evidence does not match mint provenance'')
      else if tx_block_number tx \<noteq> mint_block_number mint \<or>
        receipt_block_number receipt \<noteq> mint_block_number mint
      then Some (ValueError ''transaction block does not match mint provenance'')
      else if lower (receipt_block_hash receipt) \<noteq> lower (mint_block_hash mint)
      then Some (ValueError ''receipt block hash does not match mint provenance'')
      else None)"

definition enrich_mint ::
  "checksummer \<Rightarrow> decoded_mint \<Rightarrow> evm_transaction \<Rightarrow> evm_receipt \<Rightarrow> bool \<Rightarrow> sale_state_evidence option \<Rightarrow>
     enriched_mint outcome"
where
  "enrich_mint checksum mint tx receipt known_relayer sale_state =
     (case evidence_refusal mint tx receipt of
        Some e \<Rightarrow> Inl e
      | None \<Rightarrow>
          attempt (checksum (tx_sender tx)) (\<lambda>sender.
            let payer = (if 0 < tx_value_wei tx then Some sender else None);
                direct = is_direct mint tx;
                (initiator, confidence, reason) =
                  (if known_relayer then (None, 0, ''known_relayer_requires_trace'')
                   else if \<not> direct then (None, 0, ''indirect_call_requires_trace'')
                   else (Some sender, 85, ''direct_transaction_sender''));
                decision = classify_mint sale_state;
                route = (case sale_state of
                    None \<Rightarrow> if direct then MintRoute_DIRECT else MintRoute_UNKNOWN
                  | Some _ \<Rightarrow> decision_route decision)
            in Inr
              \<lparr> enriched_mint = mint,
                enriched_transaction_sender = sender,
                enriched_payer = payer,
                enriched_probable_initiator = initiator,
                enriched_identity_confidence = confidence,
                enriched_identity_reason_code = reason,
                enriched_route = route,
                enriched_classification = decision_classification decision,
                enriched_classification_reason_code = decision_reason_code decision \<rparr>))"

lemma evidence_refusal_None:
  "evidence_refusal mint tx receipt = None \<longleftrightarrow>
     receipt_status receipt = 1 \<and> lower (tx_hash tx) = lower (mint_transaction_hash mint) \<and>
     lower (receipt_transaction_hash receipt) = lower (mint_transaction_hash mint) \<and>
     tx_block_number tx = mint_block_number mint \<and>
     receipt_block_number receipt = mint_block_number mint \<and>
     lower (receipt_block_hash receipt) = lower (mint_block_hash mint)"
  by (auto simp: evidence_refusal_def)

section \<open>Properties\<close>

text \<open>
  Enrichment claims no more than the evidence shows: a mint is enriched only with the successful
  receipt and the transaction of its own hash, block and block hash; an initiator is named, with
  confidence 85, exactly when the transaction called the collection directly and is not a known
  relayer's, and is then the transaction's sender; otherwise none is named and the confidence is
  zero. Without sale-state evidence the classification stays unknown.
\<close>

theorem enrich_mint_conservative:
  assumes "enrich_mint checksum mint tx receipt known_relayer sale_state = Inr e"
  shows "enriched_mint e = mint \<and> receipt_status receipt = 1 \<and>
    lower (tx_hash tx) = lower (mint_transaction_hash mint) \<and>
    lower (receipt_transaction_hash receipt) = lower (mint_transaction_hash mint) \<and>
    tx_block_number tx = mint_block_number mint \<and>
    receipt_block_number receipt = mint_block_number mint \<and>
    lower (receipt_block_hash receipt) = lower (mint_block_hash mint) \<and>
    checksum (tx_sender tx) = Inr (enriched_transaction_sender e) \<and>
    (if is_direct mint tx \<and> \<not> known_relayer
     then enriched_probable_initiator e = Some (enriched_transaction_sender e) \<and>
       enriched_identity_confidence e = 85
     else enriched_probable_initiator e = None \<and> enriched_identity_confidence e = 0) \<and>
    (sale_state = None \<longrightarrow> enriched_classification e = MintClassification_UNKNOWN_MINT)"
proof -
  from assms have ok: "evidence_refusal mint tx receipt = None"
    by (simp add: enrich_mint_def split: option.splits)
  then obtain sender where sender: "checksum (tx_sender tx) = Inr sender"
    using assms by (auto simp: enrich_mint_def elim!: attempt_InrE)
  have unknown: "decision_classification (classify_mint None) = MintClassification_UNKNOWN_MINT"
    by (simp add: classify_mint_def decide_def)
  from assms ok sender show ?thesis
    by (cases "is_direct mint tx"; cases known_relayer)
      (auto simp: enrich_mint_def evidence_refusal_None Let_def unknown)
qed

definition sample_mint :: decoded_mint where
  "sample_mint = \<lparr> mint_collection_address = ''0xc0'', mint_token_standard = TokenStandard_ERC721,
     mint_token_id = 7, mint_quantity = 1, mint_recipient = ''0xa0'', mint_operator = None,
     mint_block_number = 3, mint_block_hash = ''0xb'', mint_transaction_hash = ''0xd1'',
     mint_log_index = 2, mint_sub_index = 0 \<rparr>"

definition sample_transaction :: evm_transaction where
  "sample_transaction = \<lparr> tx_hash = ''0xd1'', tx_sender = ''0xa0'', tx_recipient = Some ''0xc0'',
     tx_value_wei = 5, tx_input_data = ''0x'', tx_block_number = 3 \<rparr>"

definition sample_receipt :: evm_receipt where
  "sample_receipt = \<lparr> receipt_transaction_hash = ''0xd1'', receipt_block_number = 3,
     receipt_block_hash = ''0xb'', receipt_status = 1, receipt_gas_used = 1,
     receipt_effective_gas_price = None \<rparr>"

theorem enrich_mint_conservative_witness:
  "\<exists>e. enrich_mint Inr sample_mint sample_transaction sample_receipt False None = Inr e \<and>
     enriched_probable_initiator e = Some ''0xa0''"
proof -
  have direct: "is_direct sample_mint sample_transaction"
    by (simp add: is_direct_def sample_mint_def sample_transaction_def)
  have "evidence_refusal sample_mint sample_transaction sample_receipt = None"
    by (simp add: evidence_refusal_def sample_mint_def sample_transaction_def sample_receipt_def)
  then obtain e where e: "enrich_mint Inr sample_mint sample_transaction sample_receipt False None =
      Inr e"
    using direct by (simp add: enrich_mint_def Let_def)
  from enrich_mint_conservative [OF e] e direct show ?thesis
    by (auto simp: sample_transaction_def)
qed

end
