(* ===== verification/Scanner.thy ===== *)
theory Scanner
  imports EvmPorts
begin

text \<open>
  The adaptive historical scanner (\<^verbatim>\<open>app/application/ethereum/scanner.py\<close>): it asks the provider
  for the logs of one range of blocks after the other, halves the range when the provider asks for
  it, adapts it to the density of the logs, and commits each batch with the hash of its last
  block. The loop ends for every provider and every consumer: each turn commits at least one block
  or halves the range. The locale says what a consumer does with the batches it commits.
\<close>

section \<open>The scanner\<close>

record scan_batch =
  batch_start_block :: int
  batch_end_block :: int
  batch_end_block_hash :: string
  batch_logs :: "evm_log list"

record scanner_config =
  initial_chunk :: int
  maximum_chunk :: int
  dense_log_threshold :: int

definition adaptive_historical_scanner :: "int \<Rightarrow> int \<Rightarrow> int \<Rightarrow> scanner_config outcome" where
  "adaptive_historical_scanner initial maximum threshold =
     (if \<not> (1 \<le> initial \<and> initial \<le> maximum)
      then Inl (ValueError ''initial chunk must be between one and the maximum chunk'')
      else Inr \<lparr> initial_chunk = initial, maximum_chunk = maximum,
                 dense_log_threshold = threshold \<rparr>)"

text \<open>The next range after a batch with \<open>n\<close> logs.\<close>

definition next_chunk :: "scanner_config \<Rightarrow> int \<Rightarrow> int \<Rightarrow> int" where
  "next_chunk cfg chunk n =
     (if dense_log_threshold cfg \<le> n then max 1 (chunk div 2)
      else if n < max 1 (dense_log_threshold cfg div 4)
      then min (maximum_chunk cfg) (max (chunk + 1) (chunk * 2))
      else chunk)"

text \<open>
  The loop. Its range is positive from the constructor on, which the first lemmas show; a range
  below one, which the program never has, is answered with an error to make the loop total.
\<close>

function scan_loop ::
  "'p evm_provider \<Rightarrow> (scan_batch \<Rightarrow> 'c \<Rightarrow> unit outcome \<times> 'c) \<Rightarrow> scanner_config \<Rightarrow> string \<Rightarrow>
     string option list \<Rightarrow> int \<Rightarrow> int \<Rightarrow> int \<Rightarrow> 'p \<Rightarrow> 'c \<Rightarrow> unit outcome \<times> 'p \<times> 'c"
where
  "scan_loop prov commit cfg address topics end_block cursor chunk p c =
     (if end_block < cursor then (Inr (), p, c)
      else if chunk < 1 then (Inl (RuntimeError ''unreachable''), p, c)
      else
        let batch_end = min (cursor + chunk - 1) end_block in
        case provider_logs prov address cursor batch_end topics p of
          (Inl (ProviderError code transient split_range), p1) \<Rightarrow>
            if \<not> split_range \<or> chunk = 1
            then (Inl (ProviderError code transient split_range), p1, c)
            else scan_loop prov commit cfg address topics end_block cursor (max 1 (chunk div 2)) p1 c
        | (Inl e, p1) \<Rightarrow> (Inl e, p1, c)
        | (Inr logs, p1) \<Rightarrow>
            (case provider_block prov (Height batch_end) p1 of
               (Inl e, p2) \<Rightarrow> (Inl e, p2, c)
             | (Inr boundary, p2) \<Rightarrow>
                 if block_number boundary \<noteq> batch_end
                 then (Inl (ProviderError ''block_boundary_mismatch'' True False), p2, c)
                 else
                   (case commit
                       \<lparr> batch_start_block = cursor, batch_end_block = batch_end,
                         batch_end_block_hash = block_hash boundary, batch_logs = logs \<rparr> c of
                      (Inl e, c1) \<Rightarrow> (Inl e, p2, c1)
                    | (Inr _, c1) \<Rightarrow>
                        scan_loop prov commit cfg address topics end_block (batch_end + 1)
                          (next_chunk cfg chunk (int (length logs))) p2 c1)))"
  by pat_completeness auto

termination
  by (relation "measures [\<lambda>(prov, commit, cfg, address, topics, end_block, cursor, chunk, p, c).
      nat (end_block + 1 - cursor), \<lambda>(prov, commit, cfg, address, topics, end_block, cursor, chunk, p, c).
      nat chunk]")
    (auto simp: max_def min_def)

declare scan_loop.simps [simp del]

definition scan ::
  "'p evm_provider \<Rightarrow> (scan_batch \<Rightarrow> 'c \<Rightarrow> unit outcome \<times> 'c) \<Rightarrow> scanner_config \<Rightarrow> string \<Rightarrow>
     string option list \<Rightarrow> int \<Rightarrow> int \<Rightarrow> 'p \<Rightarrow> 'c \<Rightarrow> unit outcome \<times> 'p \<times> 'c"
where
  "scan prov commit cfg address topics start_block end_block p c =
     (if start_block < 0 \<or> end_block < start_block
      then (Inl (ValueError ''invalid scan range''), p, c)
      else scan_loop prov commit cfg address topics end_block start_block (initial_chunk cfg) p c)"

section \<open>Ranges\<close>

definition config_ok :: "scanner_config \<Rightarrow> bool" where
  "config_ok cfg \<longleftrightarrow> 1 \<le> initial_chunk cfg \<and> initial_chunk cfg \<le> maximum_chunk cfg"

lemma adaptive_historical_scanner_ok:
  "adaptive_historical_scanner i m t = Inr cfg \<Longrightarrow> config_ok cfg"
  by (auto simp: adaptive_historical_scanner_def config_ok_def split: if_splits)

text \<open>A range the loop may have.\<close>

definition chunk_ok :: "scanner_config \<Rightarrow> int \<Rightarrow> bool" where
  "chunk_ok cfg chunk \<longleftrightarrow> 1 \<le> chunk \<and> chunk \<le> maximum_chunk cfg"

lemma chunk_ok_halved: "chunk_ok cfg chunk \<Longrightarrow> chunk_ok cfg (max 1 (chunk div 2))"
  by (auto simp: chunk_ok_def)

lemma chunk_ok_next: "chunk_ok cfg chunk \<Longrightarrow> chunk_ok cfg (next_chunk cfg chunk n)"
  by (auto simp: chunk_ok_def next_chunk_def)

section \<open>Batches\<close>

text \<open>The batches cover \<open>from, from + 1, \<dots>\<close> without gap or overlap, each within the maximum.\<close>

fun contiguous :: "int \<Rightarrow> int \<Rightarrow> scan_batch list \<Rightarrow> bool" where
  "contiguous maximum from [] = True"
| "contiguous maximum from (b # bs) =
     (batch_start_block b = from \<and> from \<le> batch_end_block b \<and>
      batch_end_block b < from + maximum \<and> contiguous maximum (batch_end_block b + 1) bs)"

text \<open>The first block after the batches.\<close>

fun resume_block :: "int \<Rightarrow> scan_batch list \<Rightarrow> int" where
  "resume_block from [] = from"
| "resume_block from (b # bs) = resume_block (batch_end_block b + 1) bs"

lemma contiguous_resume: "contiguous m from bs \<Longrightarrow> from \<le> resume_block from bs"
  by (induction bs arbitrary: "from") fastforce+

lemma contiguous_append:
  "contiguous m from (bs @ bs') \<longleftrightarrow> contiguous m from bs \<and> contiguous m (resume_block from bs) bs'"
  by (induction bs arbitrary: "from") auto

lemma resume_block_append:
  "resume_block from (bs @ bs') = resume_block (resume_block from bs) bs'"
  by (induction bs arbitrary: "from") auto

text \<open>The blocks of a contiguous run of batches are exactly the interval it spans.\<close>

lemma contiguous_blocks:
  "contiguous m from bs \<Longrightarrow>
     concat (map (\<lambda>b. [batch_start_block b..batch_end_block b]) bs) = [from..resume_block from bs - 1]"
proof (induction bs arbitrary: "from")
  case (Cons b bs)
  then have "batch_end_block b + 1 \<le> resume_block (batch_end_block b + 1) bs"
    using contiguous_resume by simp blast
  with Cons show ?case
    using upto_split1 upto_split2 [of "from" "batch_end_block b"
        "resume_block (batch_end_block b + 1) bs - 1"] by auto
qed simp

section \<open>One turn of the loop\<close>

text \<open>How much work is left: blocks first, then halvings. Every turn does some of it.\<close>

definition scan_work :: "scanner_config \<Rightarrow> int \<Rightarrow> int \<Rightarrow> int \<Rightarrow> nat" where
  "scan_work cfg end_block cursor chunk =
     nat ((end_block + 1 - cursor) * (maximum_chunk cfg + 1) + chunk)"

lemma scan_work_halved:
  assumes "chunk_ok cfg chunk" and "chunk \<noteq> 1" and "cursor \<le> end_block"
  shows "scan_work cfg end_block cursor (max 1 (chunk div 2)) < scan_work cfg end_block cursor chunk"
proof -
  have "0 \<le> (end_block + 1 - cursor) * (maximum_chunk cfg + 1)"
    using assms by (intro mult_nonneg_nonneg) (auto simp: chunk_ok_def)
  moreover have "max 1 (chunk div 2) < chunk" and "1 \<le> chunk"
    using assms by (auto simp: chunk_ok_def)
  ultimately show ?thesis by (simp add: scan_work_def)
qed

lemma scan_work_committed:
  assumes "chunk_ok cfg chunk" and "chunk_ok cfg chunk'" and "cursor \<le> e" and "e \<le> end_block"
  shows "scan_work cfg end_block (e + 1) chunk' < scan_work cfg end_block cursor chunk"
proof -
  let ?m = "maximum_chunk cfg + 1"
  have m: "0 < ?m" "chunk' < ?m" "0 < chunk" "0 < chunk'" using assms by (auto simp: chunk_ok_def)
  have "(end_block + 1 - (e + 1)) * ?m + chunk' < (end_block + 1 - (e + 1)) * ?m + ?m + chunk"
    using m by simp
  also have "\<dots> = (end_block + 1 - e) * ?m + chunk" by (simp add: algebra_simps)
  also have "\<dots> \<le> (end_block + 1 - cursor) * ?m + chunk"
    using assms m by (intro add_right_mono mult_right_mono) auto
  finally have less: "(end_block + 1 - (e + 1)) * ?m + chunk' < (end_block + 1 - cursor) * ?m + chunk" .
  have "0 \<le> (end_block + 1 - (e + 1)) * ?m" using assms m by (intro mult_nonneg_nonneg) auto
  with less m show ?thesis by (simp add: scan_work_def)
qed

text \<open>
  The cases of one turn: the end, an exception, a halved range, or a committed batch.
\<close>

definition turn_batch :: "int \<Rightarrow> int \<Rightarrow> int \<Rightarrow> evm_log list \<Rightarrow> string \<Rightarrow> scan_batch" where
  "turn_batch end_block cursor chunk logs hash =
     \<lparr> batch_start_block = cursor, batch_end_block = min (cursor + chunk - 1) end_block,
       batch_end_block_hash = hash, batch_logs = logs \<rparr>"

lemma scan_loop_turn:
  assumes "chunk_ok cfg chunk" and "cursor \<le> end_block"
  obtains (stopped) e p1 where
      "scan_loop prov commit cfg address topics end_block cursor chunk p c = (Inl e, p1, c)"
    | (halved) code transient p1 where "chunk \<noteq> 1"
      "provider_logs prov address cursor (min (cursor + chunk - 1) end_block) topics p =
        (Inl (ProviderError code transient True), p1)"
      "scan_loop prov commit cfg address topics end_block cursor chunk p c =
        scan_loop prov commit cfg address topics end_block cursor (max 1 (chunk div 2)) p1 c"
    | (refused) e b p2 c1 where "commit b c = (Inl e, c1)"
      "scan_loop prov commit cfg address topics end_block cursor chunk p c = (Inl e, p2, c1)"
    | (committed) b logs hash p1 p2 c1 where
      "provider_logs prov address cursor (min (cursor + chunk - 1) end_block) topics p = (Inr logs, p1)"
      "provider_block prov (Height (min (cursor + chunk - 1) end_block)) p1 =
        (Inr \<lparr> block_number = min (cursor + chunk - 1) end_block, block_hash = hash \<rparr>, p2)"
      "b = turn_batch end_block cursor chunk logs hash" "commit b c = (Inr (), c1)"
      "scan_loop prov commit cfg address topics end_block cursor chunk p c =
        scan_loop prov commit cfg address topics end_block (min (cursor + chunk - 1) end_block + 1)
          (next_chunk cfg chunk (int (length logs))) p2 c1"
proof -
  let ?e = "min (cursor + chunk - 1) end_block"
  obtain answer p1 where logs: "provider_logs prov address cursor ?e topics p = (answer, p1)"
    by fastforce
  note loop = scan_loop.simps [of prov commit cfg address topics end_block cursor chunk p c]
  have live: "\<not> end_block < cursor" "\<not> chunk < 1" using assms by (auto simp: chunk_ok_def)
  show thesis
  proof (cases answer)
    case (Inl e)
    show thesis
    proof (cases "\<exists>code transient. e = ProviderError code transient True \<and> chunk \<noteq> 1")
      case True
      with Inl logs live show thesis by (auto simp: loop Let_def intro: halved)
    next
      case False
      have "scan_loop prov commit cfg address topics end_block cursor chunk p c = (Inl e, p1, c)"
        using False Inl logs live by (cases e) (auto simp: loop Let_def)
      then show thesis by (rule stopped)
    qed
  next
    case (Inr ls)
    obtain boundary p2 where block: "provider_block prov (Height ?e) p1 = (boundary, p2)" by fastforce
    show thesis
    proof (cases boundary)
      case (Inl e)
      with Inr logs block live show thesis by (intro stopped [of e p2]) (simp add: loop Let_def)
    next
      case (Inr b)
      obtain res c1 where commit: "commit (turn_batch end_block cursor chunk ls (block_hash b)) c =
          (res, c1)" by fastforce
      note run = \<open>answer = Inr ls\<close> Inr logs block live commit
      show thesis
      proof (cases "block_number b = ?e")
        case False
        with run show thesis
          by (intro stopped [of "ProviderError ''block_boundary_mismatch'' True False" p2])
            (simp add: loop Let_def)
      next
        case True
        then have b: "b = \<lparr> block_number = ?e, block_hash = block_hash b \<rparr>" by simp
        show thesis
        proof (cases res)
          case (Inl e)
          with True run show thesis
            by (intro refused [OF commit [unfolded Inl], of p2]) (simp add: loop Let_def turn_batch_def)
        next
          case (Inr u)
          with True run b show thesis
            by (intro committed [of ls p1 "block_hash b" p2 _ c1])
              (simp_all add: loop Let_def turn_batch_def)
        qed
      qed
    qed
  qed
qed

section \<open>Consumers\<close>

text \<open>A batch is what the provider answered for exactly its range and its last block.\<close>

definition answered :: "'p evm_provider \<Rightarrow> string \<Rightarrow> string option list \<Rightarrow> scan_batch \<Rightarrow> bool" where
  "answered prov address topics b \<longleftrightarrow>
     (\<exists>q q'. provider_logs prov address (batch_start_block b) (batch_end_block b) topics q =
        (Inr (batch_logs b), q')) \<and>
     (\<exists>q q'. provider_block prov (Height (batch_end_block b)) q =
        (Inr \<lparr> block_number = batch_end_block b, block_hash = batch_end_block_hash b \<rparr>, q'))"

text \<open>
  The consumer's states along a run of committed batches; behind the last of them the consumer may
  have refused one more.
\<close>

fun commit_run :: "(scan_batch \<Rightarrow> 'c \<Rightarrow> unit outcome \<times> 'c) \<Rightarrow> scan_batch list \<Rightarrow> 'c \<Rightarrow> 'c \<Rightarrow> bool" where
  "commit_run commit [] c c' \<longleftrightarrow> c' = c \<or> (\<exists>b e. commit b c = (Inl e, c'))"
| "commit_run commit (b # bs) c c' \<longleftrightarrow> (\<exists>c1. commit b c = (Inr (), c1) \<and> commit_run commit bs c1 c')"

lemma scan_loop_trace:
  assumes "chunk_ok cfg chunk" and "cursor \<le> end_block + 1"
    and "scan_loop prov commit cfg address topics end_block cursor chunk p c = (res, p', c')"
  shows "\<exists>bs. commit_run commit bs c c' \<and> contiguous (maximum_chunk cfg) cursor bs \<and>
    (\<forall>b \<in> set bs. answered prov address topics b) \<and>
    resume_block cursor bs \<le> end_block + 1 \<and>
    (res = Inr () \<longrightarrow> resume_block cursor bs = end_block + 1)"
  using assms
proof (induction "scan_work cfg end_block cursor chunk" arbitrary: cursor chunk p c
    rule: less_induct)
  case less
  show ?case
  proof (cases "end_block < cursor")
    case True
    with less.prems have "c' = c" and "cursor = end_block + 1"
      by (auto simp: scan_loop.simps [of prov])
    then show ?thesis by (intro exI [of _ "[]"]) simp
  next
    case False
    then have live: "cursor \<le> end_block" by simp
    let ?e = "min (cursor + chunk - 1) end_block"
    have e: "cursor \<le> ?e" "?e \<le> end_block" "?e < cursor + maximum_chunk cfg"
      using less.prems(1) live by (auto simp: chunk_ok_def)
    from less.prems(1) live show ?thesis
    proof (cases rule: scan_loop_turn [of cfg chunk cursor end_block prov commit address topics p c])
      case (stopped e p1)
      with less.prems show ?thesis by (intro exI [of _ "[]"]) auto
    next
      case (halved code transient p1)
      with less.hyps [OF scan_work_halved [OF less.prems(1) _ live] chunk_ok_halved [OF less.prems(1)]]
      show ?thesis using less.prems by simp
    next
      case (refused e b p2 c1)
      with less.prems show ?thesis by (intro exI [of _ "[]"]) auto
    next
      case (committed b logs hash p1 p2 c1)
      let ?chunk = "next_chunk cfg chunk (int (length logs))"
      have b: "batch_start_block b = cursor" "batch_end_block b = ?e" "batch_logs b = logs"
        "batch_end_block_hash b = hash"
        by (simp_all add: committed(3) turn_batch_def)
      have "scan_loop prov commit cfg address topics end_block (?e + 1) ?chunk p2 c1 = (res, p', c')"
        using committed(5) less.prems(3) b by simp
      from less.hyps [OF scan_work_committed [OF less.prems(1) chunk_ok_next [OF less.prems(1)] e(1,2)]
          chunk_ok_next [OF less.prems(1)] _ this] e
      obtain bs where bs: "commit_run commit bs c1 c'"
        "contiguous (maximum_chunk cfg) (?e + 1) bs" "\<forall>b \<in> set bs. answered prov address topics b"
        "resume_block (?e + 1) bs \<le> end_block + 1"
        "res = Inr () \<longrightarrow> resume_block (?e + 1) bs = end_block + 1" by auto
      have "answered prov address topics b"
        using committed(1,2) b by (auto simp: answered_def)
      then show ?thesis
        using bs b e committed(4) by (intro exI [of _ "b # bs"]) auto
    qed
  qed
qed

lemma scan_trace:
  assumes "config_ok cfg"
    and "scan prov commit cfg address topics start_block end_block p c = (res, p', c')"
  shows "\<exists>bs. commit_run commit bs c c' \<and> contiguous (maximum_chunk cfg) start_block bs \<and>
    (\<forall>b \<in> set bs. answered prov address topics b) \<and>
    (bs \<noteq> [] \<longrightarrow> resume_block start_block bs \<le> end_block + 1) \<and>
    (res = Inr () \<longrightarrow> resume_block start_block bs = end_block + 1)"
proof (cases "start_block < 0 \<or> end_block < start_block")
  case True
  with assms(2) show ?thesis by (intro exI [of _ "[]"]) (auto simp: scan_def)
next
  case False
  with assms show ?thesis
    using scan_loop_trace [of cfg "initial_chunk cfg" start_block end_block prov commit address topics p c]
    by (auto simp: scan_def config_ok_def chunk_ok_def)
qed

text \<open>
  A consumer absorbs every committed batch into what can be seen of its state, in the order of the
  commits, and shows nothing of a batch it fails on.
\<close>

locale batch_fold =
  fixes commit :: "scan_batch \<Rightarrow> 'c \<Rightarrow> unit outcome \<times> 'c"
    and seen :: "'c \<Rightarrow> 'o"
    and absorb :: "scan_batch \<Rightarrow> 'o \<Rightarrow> 'o"
  assumes commit_seen: "commit b c = (Inr u, c') \<Longrightarrow> seen c' = absorb b (seen c)"
    and commit_failed: "commit b c = (Inl e, c') \<Longrightarrow> seen c' = seen c"
begin

lemma commit_run_seen: "commit_run commit bs c c' \<Longrightarrow> seen c' = fold absorb bs (seen c)"
  by (induction bs arbitrary: c) (auto dest: commit_seen commit_failed)

lemma scan_commits:
  assumes "config_ok cfg"
    and "scan prov commit cfg address topics start_block end_block p c = (res, p', c')"
  shows "\<exists>bs. seen c' = fold absorb bs (seen c) \<and>
    contiguous (maximum_chunk cfg) start_block bs \<and>
    (\<forall>b \<in> set bs. answered prov address topics b) \<and>
    (bs \<noteq> [] \<longrightarrow> resume_block start_block bs \<le> end_block + 1) \<and>
    (res = Inr () \<longrightarrow> resume_block start_block bs = end_block + 1)"
  using scan_trace [OF assms] commit_run_seen by blast

end

text \<open>A consumer that keeps what it makes of each batch as a list.\<close>

locale batch_consumer =
  fixes commit :: "scan_batch \<Rightarrow> 'c \<Rightarrow> unit outcome \<times> 'c"
    and seen :: "'c \<Rightarrow> 'o list"
    and made :: "scan_batch \<Rightarrow> 'o list"
  assumes commit_appends: "commit b c = (Inr u, c') \<Longrightarrow> seen c' = seen c @ made b"
    and commit_rejects: "commit b c = (Inl e, c') \<Longrightarrow> seen c' = seen c"
begin

lemma fold_appends: "fold (\<lambda>b xs. xs @ made b) bs xs = xs @ concat (map made bs)"
  by (induction bs arbitrary: xs) simp_all

end

sublocale batch_consumer \<subseteq> appending: batch_fold commit seen "\<lambda>b xs. xs @ made b"
  by unfold_locales (auto dest: commit_appends commit_rejects)

context batch_consumer
begin

lemmas scan_appends = appending.scan_commits [unfolded fold_appends]

end

text \<open>Whatever a scan does to its consumer, it does by commits.\<close>

definition commits :: "(scan_batch \<Rightarrow> 'c \<Rightarrow> unit outcome \<times> 'c) \<Rightarrow> 'c \<Rightarrow> 'c \<Rightarrow> bool" where
  "commits commit c c' \<longleftrightarrow> (\<exists>b answer. commit b c = (answer, c'))"

lemma commitsI: "commit b c = (answer, c') \<Longrightarrow> commits commit c c'"
  by (auto simp: commits_def)

lemma commit_run_commits: "commit_run commit bs c c' \<Longrightarrow> (commits commit)\<^sup>*\<^sup>* c c'"
  by (induction bs arbitrary: c) (auto dest: commitsI intro: converse_rtranclp_into_rtranclp)

text \<open>The consumer accepted every batch of the run.\<close>

lemma commit_run_accepts:
  "commit_run commit bs c c' \<Longrightarrow> b \<in> set bs \<Longrightarrow> \<exists>d d'. commit b d = (Inr (), d')"
  by (induction bs arbitrary: c) auto

lemma scan_by_commits:
  assumes "config_ok cfg"
    and "scan prov commit cfg address topics start_block end_block p c = (res, p', c')"
  shows "(commits commit)\<^sup>*\<^sup>* c c'"
  using scan_trace [OF assms] by (auto dest: commit_run_commits)

section \<open>Completion\<close>

text \<open>
  A provider that serves ranges of up to \<open>k\<close> blocks: it answers such a range, and a longer one it
  answers or asks to split; it knows every block by its number.
\<close>

definition serves ::
  "'p evm_provider \<Rightarrow> string \<Rightarrow> string option list \<Rightarrow> int \<Rightarrow> ('p \<Rightarrow> bool) \<Rightarrow> bool"
where
  "serves prov address topics k up \<longleftrightarrow>
     (\<forall>p a b. up p \<and> 0 \<le> a \<and> a \<le> b \<longrightarrow> up (snd (provider_logs prov address a b topics p)) \<and>
        ((\<exists>logs. fst (provider_logs prov address a b topics p) = Inr logs) \<or>
         k < b - a + 1 \<and> (\<exists>code transient.
           fst (provider_logs prov address a b topics p) = Inl (ProviderError code transient True)))) \<and>
     (\<forall>p n. up p \<and> 0 \<le> n \<longrightarrow> up (snd (provider_block prov (Height n) p)) \<and>
        (\<exists>hash. fst (provider_block prov (Height n) p) =
           Inr \<lparr> block_number = n, block_hash = hash \<rparr>))"

lemma servesD:
  assumes "serves prov address topics k up" and "up p"
  shows "0 \<le> a \<Longrightarrow> a \<le> b \<Longrightarrow> provider_logs prov address a b topics p = (answer, p1) \<Longrightarrow>
      up p1 \<and> ((\<exists>logs. answer = Inr logs) \<or>
        k < b - a + 1 \<and> (\<exists>code transient. answer = Inl (ProviderError code transient True)))"
    and "0 \<le> n \<Longrightarrow> provider_block prov (Height n) p = (boundary, p2) \<Longrightarrow>
      up p2 \<and> (\<exists>hash. boundary = Inr \<lparr> block_number = n, block_hash = hash \<rparr>)"
  using assms unfolding serves_def by (metis fst_conv snd_conv)+

lemma scan_loop_completes:
  assumes serves: "serves prov address topics k up" and "1 \<le> k"
    and accepts: "\<And>b c. \<exists>c'. commit b c = (Inr (), c')"
    and "up p" and "chunk_ok cfg chunk" and "0 \<le> cursor"
  shows "\<exists>p' c'. scan_loop prov commit cfg address topics end_block cursor chunk p c = (Inr (), p', c')"
  using assms(4,5,6)
proof (induction "scan_work cfg end_block cursor chunk" arbitrary: cursor chunk p c
    rule: less_induct)
  case less
  let ?e = "min (cursor + chunk - 1) end_block"
  note loop = scan_loop.simps [of prov commit cfg address topics end_block cursor chunk p c]
  show ?case
  proof (cases "end_block < cursor")
    case True
    then show ?thesis by (simp add: loop)
  next
    case False
    then have e: "cursor \<le> ?e" "?e \<le> end_block" and live: "\<not> chunk < 1" "cursor \<le> end_block"
      using less.prems(2) by (auto simp: chunk_ok_def)
    obtain answer p1 where logs: "provider_logs prov address cursor ?e topics p = (answer, p1)"
      by fastforce
    from servesD(1) [OF serves less.prems(1,3) e(1) logs]
    consider (served) ls where "answer = Inr ls" "up p1"
      | (split) code transient where "answer = Inl (ProviderError code transient True)" "up p1"
          "chunk \<noteq> 1"
      using \<open>1 \<le> k\<close> by auto
    then show ?thesis
    proof cases
      case split
      from less.hyps [OF scan_work_halved [OF less.prems(2) split(3) live(2)] split(2)
          chunk_ok_halved [OF less.prems(2)] less.prems(3)] split logs live False
      show ?thesis by (simp add: loop Let_def)
    next
      case served
      obtain boundary p2 where block: "provider_block prov (Height ?e) p1 = (boundary, p2)" by fastforce
      have "0 \<le> ?e" using less.prems(3) e(1) by linarith
      from servesD(2) [OF serves served(2) this block] obtain hash where up: "up p2"
        and b: "boundary = Inr \<lparr> block_number = ?e, block_hash = hash \<rparr>" by blast
      obtain c1 where commit: "commit (turn_batch end_block cursor chunk ls hash) c = (Inr (), c1)"
        using accepts by blast
      from less.hyps [OF scan_work_committed [OF less.prems(2) chunk_ok_next [OF less.prems(2)] e] up
          chunk_ok_next [OF less.prems(2)]] less.prems(3) e(1) served logs block b commit live False
      show ?thesis by (simp add: loop Let_def turn_batch_def)
    qed
  qed
qed

section \<open>Properties\<close>

text \<open>
  A scan commits exactly its range: whatever the provider and the consumer do, the batches
  committed are contiguous from the start block, each of at least one block and at most the maximum
  chunk, each with the logs the provider answered for its own range and the hash of its own last
  block; a scan that returns has committed every block of the range once, in order, and a scan that
  raises has committed a prefix of it.
\<close>

theorem scan_covers_range:
  assumes "batch_consumer commit seen made"
    and "adaptive_historical_scanner initial maximum threshold = Inr cfg"
    and "scan prov commit cfg address topics start_block end_block p c = (res, p', c')"
  shows "\<exists>bs. seen c' = seen c @ concat (map made bs) \<and>
    contiguous maximum start_block bs \<and> (\<forall>b \<in> set bs. answered prov address topics b) \<and>
    (bs \<noteq> [] \<longrightarrow> resume_block start_block bs \<le> end_block + 1) \<and>
    concat (map (\<lambda>b. [batch_start_block b..batch_end_block b]) bs) =
      [start_block..resume_block start_block bs - 1] \<and>
    (res = Inr () \<longrightarrow> resume_block start_block bs = end_block + 1)"
proof -
  have "config_ok cfg" and max: "maximum_chunk cfg = maximum"
    using assms(2) adaptive_historical_scanner_ok
    by (auto simp: adaptive_historical_scanner_def split: if_splits)
  from batch_consumer.scan_appends [OF assms(1) this(1) assms(3)] show ?thesis
    by (auto simp: max dest: contiguous_blocks)
qed

text \<open>A provider for the examples: it refuses more than two blocks and knows every block.\<close>

definition sample_log :: "int \<Rightarrow> evm_log" where
  "sample_log n = \<lparr> log_address = ''0xa'', log_topics = [], log_data = ''0x'', log_block_number = n,
     log_block_hash = ''0xb'', log_transaction_hash = ''0xc'', log_index = 0, log_removed = False \<rparr>"

definition narrow_provider :: "unit evm_provider" where
  "narrow_provider = \<lparr> provider_chain_id = (\<lambda>p. (Inr 1, p)),
     provider_block = (\<lambda>tag p. case tag of
       Height n \<Rightarrow> (Inr \<lparr> block_number = n, block_hash = ''0xb'' \<rparr>, p)
     | Tag t \<Rightarrow> (Inr \<lparr> block_number = 9, block_hash = ''0xb'' \<rparr>, p)),
     provider_code = (\<lambda>a tag p. (Inr [], p)),
     provider_storage_at = (\<lambda>a slot tag p. (Inr [], p)),
     provider_logs = (\<lambda>a from to topics p.
       if 2 < to - from + 1 then (Inl (ProviderError ''range'' False True), p)
       else (Inr (map sample_log [from..to]), p)),
     provider_transaction = (\<lambda>h p. (Inl (RuntimeError ''none''), p)),
     provider_receipt = (\<lambda>h p. (Inl (RuntimeError ''none''), p)),
     provider_trace_transaction = (\<lambda>h p. (Inl (RuntimeError ''none''), p)) \<rparr>"

definition record_batch :: "scan_batch \<Rightarrow> scan_batch list \<Rightarrow> unit outcome \<times> scan_batch list" where
  "record_batch b bs = (Inr (), bs @ [b])"

lemma record_batch_consumer: "batch_consumer record_batch (\<lambda>bs. bs) (\<lambda>b. [b])"
  by unfold_locales (auto simp: record_batch_def)

lemma narrow_provider_serves: "serves narrow_provider address topics 2 (\<lambda>_. True)"
  by (auto simp: serves_def narrow_provider_def)

text \<open>
  A scan completes: when the provider serves ranges of up to some positive length and asks to
  split longer ones, and the consumer accepts every batch, the scan returns, however the chunk was
  configured and however long the range is.
\<close>

theorem scan_completes:
  assumes "serves prov address topics k up" and "1 \<le> k" and "up p"
    and "\<forall>b c. \<exists>c'. commit b c = (Inr (), c')"
    and "adaptive_historical_scanner initial maximum threshold = Inr cfg"
    and "0 \<le> start_block" and "start_block \<le> end_block"
  shows "\<exists>p' c'. scan prov commit cfg address topics start_block end_block p c = (Inr (), p', c')"
proof -
  have "chunk_ok cfg (initial_chunk cfg)"
    using adaptive_historical_scanner_ok [OF assms(5)] by (simp add: config_ok_def chunk_ok_def)
  with scan_loop_completes [OF assms(1,2) _ assms(3), of commit cfg "initial_chunk cfg" start_block
      end_block c] assms(4,6,7)
  show ?thesis by (simp add: scan_def)
qed

theorem scan_completes_witness:
  "\<exists>bs. scan narrow_provider record_batch
     \<lparr> initial_chunk = 8, maximum_chunk = 8, dense_log_threshold = 4 \<rparr> ''0xa'' [] 0 9 () [] =
     (Inr (), (), bs)"
  using scan_completes [OF narrow_provider_serves _ TrueI, of record_batch 8 8 4
      "\<lparr> initial_chunk = 8, maximum_chunk = 8, dense_log_threshold = 4 \<rparr>" 0 9]
  by (simp add: record_batch_def adaptive_historical_scanner_def)

theorem scan_covers_range_witness:
  "\<exists>bs. scan narrow_provider record_batch
      \<lparr> initial_chunk = 8, maximum_chunk = 8, dense_log_threshold = 4 \<rparr> ''0xa'' [] 0 3 () [] =
      (Inr (), (), bs) \<and>
    concat (map (\<lambda>b. [batch_start_block b..batch_end_block b]) bs) = [0..3]"
proof -
  let ?cfg = "\<lparr> initial_chunk = 8, maximum_chunk = 8, dense_log_threshold = 4 \<rparr>"
  have cfg: "adaptive_historical_scanner 8 8 4 = Inr ?cfg"
    by (simp add: adaptive_historical_scanner_def)
  obtain p' bs where run: "scan narrow_provider record_batch ?cfg ''0xa'' [] 0 3 () [] = (Inr (), p', bs)"
    by (simp add: scan_def scan_loop.simps narrow_provider_def record_batch_def next_chunk_def
        min_def max_def upto.simps)
  from scan_covers_range [OF record_batch_consumer cfg run] run show ?thesis
    by (auto simp: concat_map_singleton)
qed

end
