(* ===== verification/MintStore.thy ===== *)
theory MintStore
  imports EthereumTables Enrichment Scanner
begin

text \<open>
  The persistence of mint evidence and scan checkpoints
  (\<^verbatim>\<open>app/infrastructure/db/repositories/ethereum.py\<close>): the consumer that commits a scanned batch in one
  transaction, and the enrichment of stored mints. SHA-256, keccak, the ABI decoder and the checksum
  form are arguments, as are fresh ids and the clock. The consumer is an instance of the scanner's
  contract: a committed batch adds its evidence, its mints and its last block, and a failed one
  adds nothing.
\<close>

section \<open>Values\<close>

text \<open>What the store uses of the libraries.\<close>

record libraries =
  lib_sha256 :: "bytes \<Rightarrow> bytes"
  lib_keccak_hex :: "string \<Rightarrow> string"
  lib_abi :: abi_decoder
  lib_checksum :: checksummer

definition hex_bytes :: "nat \<Rightarrow> string \<Rightarrow> bytes outcome" where
  "hex_bytes n text =
     (case fromhex (remove_prefix ''0x'' text) of
        None \<Rightarrow> Inl (ValueError ''Ethereum hexadecimal value is malformed'')
      | Some result \<Rightarrow>
          (if length result \<noteq> n
           then Inl (ValueError (''Ethereum value must contain '' @ decimal n @ '' bytes''))
           else Inr result))"

definition evidence_payload :: "evm_log \<Rightarrow> json" where
  "evidence_payload log = JObject
     [(''address'', JStr (log_address log)),
      (''topics'', JList (map JStr (log_topics log))),
      (''data'', JStr (log_data log)),
      (''block_number'', JInt (log_block_number log)),
      (''block_hash'', JStr (log_block_hash log)),
      (''transaction_hash'', JStr (log_transaction_hash log)),
      (''log_index'', JInt (log_index log)),
      (''removed'', JBool (log_removed log))]"

definition content_hash :: "libraries \<Rightarrow> json \<Rightarrow> bytes" where
  "content_hash lib payload = lib_sha256 lib (utf8 (json_dumps payload))"

text \<open>\<open>decode_mint_log(log)\<close> with its default limit.\<close>

definition decode_log :: "libraries \<Rightarrow> evm_log \<Rightarrow> decoded_mint list outcome" where
  "decode_log lib log = decode_mint_log (lib_keccak_hex lib) (lib_abi lib) (lib_checksum lib) 5000 log"

section \<open>Rows\<close>

definition new_evidence ::
  "draws \<Rightarrow> nat \<Rightarrow> evidence_kind \<Rightarrow> bytes \<Rightarrow> string \<Rightarrow> int \<Rightarrow> bytes \<Rightarrow> json \<Rightarrow> raw_evidence"
where
  "new_evidence dr n kind hash alias block tx payload =
     \<lparr> evidence_id = draw_id dr n,
       evidence_kind = kind,
       evidence_content_hash = hash,
       evidence_provider_alias = alias,
       evidence_block_number = Some block,
       evidence_transaction_hash = Some tx,
       evidence_content = payload,
       evidence_retention_status = EvidenceRetentionStatus_ACTIVE,
       evidence_observed_at = draw_now dr n \<rparr>"

text \<open>An insert of evidence that does nothing when its content is already stored.\<close>

definition insert_evidence :: "raw_evidence \<Rightarrow> ethereum_db \<Rightarrow> (raw_evidence option \<times> ethereum_db) outcome" where
  "insert_evidence row db =
     (if \<not> evidence_fits row then Inl DataError
      else if \<not> evidence_checks row then Inl IntegrityError
      else attempt (insert_or_nothing same_content evidence_clash row (raw_evidences db)) (\<lambda>(made, rows).
        Inr (made, db\<lparr> raw_evidences := rows, drawn := Suc (drawn db) \<rparr>)))"

definition new_event ::
  "uuid \<Rightarrow> uuid \<Rightarrow> uuid \<Rightarrow> decoded_mint \<Rightarrow> bytes \<Rightarrow> bytes \<Rightarrow> mint_event"
where
  "new_event new_id cid eid mint bh tx =
     \<lparr> event_id = new_id,
       event_collection_id = cid,
       event_raw_evidence_id = eid,
       event_block_number = mint_block_number mint,
       event_block_hash = bh,
       event_transaction_hash = tx,
       event_log_index = mint_log_index mint,
       event_sub_index = int (mint_sub_index mint),
       event_token_standard = mint_token_standard mint,
       event_token_id = mint_token_id mint,
       event_quantity = mint_quantity mint,
       event_recipient = mint_recipient mint,
       event_transaction_sender = None,
       event_operator = mint_operator mint,
       event_payer = None,
       event_probable_initiator = None,
       event_identity_confidence = 0,
       event_identity_reason_code = ''not_enriched'',
       event_route = MintRoute_UNKNOWN,
       event_classification = MintClassification_UNKNOWN_MINT,
       event_classification_reason_code = ''not_classified'',
       event_finality = FinalityStatus_FINALIZED,
       event_canonical = True \<rparr>"

definition insert_event :: "mint_event \<Rightarrow> ethereum_db \<Rightarrow> ethereum_db outcome" where
  "insert_event row db =
     (if \<not> event_fits row then Inl DataError
      else if \<not> event_checks row then Inl IntegrityError
      else attempt (insert_or_nothing same_position event_clash row (mint_events db)) (\<lambda>(made, rows).
        if made \<noteq> None \<and> \<not> known_collection db (event_collection_id row) then Inl IntegrityError
        else Inr (db\<lparr> mint_events := rows, drawn := Suc (drawn db) \<rparr>)))"

text \<open>The reason code an event is stored with.\<close>

definition not_enriched :: "mint_event \<Rightarrow> bool" where
  "not_enriched e \<longleftrightarrow> event_identity_reason_code e = ''not_enriched''"

section \<open>The batch consumer\<close>

record mint_consumer =
  consumer_collection_id :: uuid
  consumer_scan_version :: int
  consumer_provider_alias :: string

text \<open>The evidence of one log: stored now or before.\<close>

definition log_evidence ::
  "draws \<Rightarrow> libraries \<Rightarrow> mint_consumer \<Rightarrow> evm_log \<Rightarrow> ethereum_db \<Rightarrow> (uuid \<times> ethereum_db) outcome"
where
  "log_evidence dr lib mc log db =
     (let payload = evidence_payload log; hash = content_hash lib payload in
      attempt (hex_bytes 32 (log_transaction_hash log)) (\<lambda>tx.
      attempt (insert_evidence (new_evidence dr (drawn db) EvidenceKind_LOG hash
        (consumer_provider_alias mc) (log_block_number log) tx payload) db) (\<lambda>(made, db').
        case made of
          Some row \<Rightarrow> Inr (evidence_id row, db')
        | None \<Rightarrow>
            (case select_one (\<lambda>r. evidence_content_hash r = hash) (raw_evidences db') of
               None \<Rightarrow> Inl (RuntimeError ''evidence idempotency conflict was not recoverable'')
             | Some row \<Rightarrow> Inr (evidence_id row, db')))))"

fun store_mints ::
  "draws \<Rightarrow> mint_consumer \<Rightarrow> uuid \<Rightarrow> decoded_mint list \<Rightarrow> ethereum_db \<Rightarrow> ethereum_db outcome"
where
  "store_mints dr mc eid [] db = Inr db"
| "store_mints dr mc eid (mint # mints) db =
     attempt (hex_bytes 32 (mint_block_hash mint)) (\<lambda>bh.
     attempt (hex_bytes 32 (mint_transaction_hash mint)) (\<lambda>tx.
     attempt (insert_event (new_event (draw_id dr (drawn db)) (consumer_collection_id mc) eid mint
       bh tx) db) (\<lambda>db'.
     store_mints dr mc eid mints db')))"

definition store_log ::
  "draws \<Rightarrow> libraries \<Rightarrow> mint_consumer \<Rightarrow> evm_log \<Rightarrow> ethereum_db \<Rightarrow> ethereum_db outcome"
where
  "store_log dr lib mc log db =
     attempt (log_evidence dr lib mc log db) (\<lambda>(eid, db1).
     attempt (decode_log lib log) (\<lambda>mints.
     store_mints dr mc eid mints db1))"

fun store_logs ::
  "draws \<Rightarrow> libraries \<Rightarrow> mint_consumer \<Rightarrow> evm_log list \<Rightarrow> ethereum_db \<Rightarrow> ethereum_db outcome"
where
  "store_logs dr lib mc [] db = Inr db"
| "store_logs dr lib mc (log # logs) db =
     attempt (store_log dr lib mc log db) (\<lambda>db'. store_logs dr lib mc logs db')"

text \<open>The checkpoint of the scan: it is made, or moves to the last block unless that is behind it.\<close>

definition new_checkpoint :: "draws \<Rightarrow> nat \<Rightarrow> mint_consumer \<Rightarrow> int \<Rightarrow> bytes \<Rightarrow> scan_checkpoint" where
  "new_checkpoint dr n mc block hash =
     \<lparr> checkpoint_id = draw_id dr n,
       checkpoint_collection_id = consumer_collection_id mc,
       checkpoint_scan_version = consumer_scan_version mc,
       last_committed_block_number = block,
       last_committed_block_hash = hash \<rparr>"

definition upsert_checkpoint :: "scan_checkpoint \<Rightarrow> ethereum_db \<Rightarrow> ethereum_db outcome" where
  "upsert_checkpoint row db =
     (if \<not> (bigint (last_committed_block_number row) \<and> integer_fits (checkpoint_scan_version row))
      then Inl DataError
      else if list_ex (same_checkpoint row) (scan_checkpoints db)
      then Inr (db\<lparr> scan_checkpoints :=
          update_rows (\<lambda>r. same_checkpoint row r \<and>
              last_committed_block_number r \<le> last_committed_block_number row)
            (\<lambda>r. r\<lparr> last_committed_block_number := last_committed_block_number row,
                      last_committed_block_hash := last_committed_block_hash row \<rparr>)
            (scan_checkpoints db), drawn := Suc (drawn db) \<rparr>)
      else if list_ex (\<lambda>r. checkpoint_id r = checkpoint_id row) (scan_checkpoints db)
      then Inl IntegrityError
      else if \<not> known_collection db (checkpoint_collection_id row) then Inl IntegrityError
      else Inr (db\<lparr> scan_checkpoints := scan_checkpoints db @ [row], drawn := Suc (drawn db) \<rparr>))"

definition store_batch ::
  "draws \<Rightarrow> libraries \<Rightarrow> mint_consumer \<Rightarrow> scan_batch \<Rightarrow> ethereum_db \<Rightarrow> (unit \<times> ethereum_db) outcome"
where
  "store_batch dr lib mc batch db =
     attempt (store_logs dr lib mc (batch_logs batch) db) (\<lambda>db1.
     attempt (hex_bytes 32 (batch_end_block_hash batch)) (\<lambda>hash.
     attempt (upsert_checkpoint (new_checkpoint dr (drawn db1) mc (batch_end_block batch) hash) db1)
       (\<lambda>db2. Inr ((), db2))))"

definition commit_batch ::
  "draws \<Rightarrow> libraries \<Rightarrow> mint_consumer \<Rightarrow> scan_batch \<Rightarrow> ethereum_db \<Rightarrow> unit outcome \<times> ethereum_db"
where
  "commit_batch dr lib mc batch db = transact db (store_batch dr lib mc batch db)"

section \<open>What a commit adds\<close>

type_synonym position = "bytes \<times> int \<times> int"

definition event_position :: "mint_event \<Rightarrow> position" where
  "event_position e = (event_transaction_hash e, event_log_index e, event_sub_index e)"

fun mint_position :: "decoded_mint \<Rightarrow> position option" where
  "mint_position m =
     (case hex_bytes 32 (mint_transaction_hash m) of
        Inl e \<Rightarrow> None
      | Inr tx \<Rightarrow> Some (tx, mint_log_index m, int (mint_sub_index m)))"

declare mint_position.simps [simp del]

definition log_positions :: "libraries \<Rightarrow> evm_log \<Rightarrow> position list" where
  "log_positions lib log =
     (case decode_log lib log of Inl e \<Rightarrow> [] | Inr mints \<Rightarrow> List.map_filter mint_position mints)"

definition log_hash :: "libraries \<Rightarrow> evm_log \<Rightarrow> bytes" where
  "log_hash lib log = content_hash lib (evidence_payload log)"

definition checkpoint_of :: "mint_consumer \<Rightarrow> scan_checkpoint \<Rightarrow> bool" where
  "checkpoint_of mc r \<longleftrightarrow> checkpoint_collection_id r = consumer_collection_id mc \<and>
     checkpoint_scan_version r = consumer_scan_version mc"

definition committed_block :: "mint_consumer \<Rightarrow> ethereum_db \<Rightarrow> int option" where
  "committed_block mc db =
     map_option last_committed_block_number (select_one (checkpoint_of mc) (scan_checkpoints db))"

definition stored_hashes :: "ethereum_db \<Rightarrow> bytes set" where
  "stored_hashes db = evidence_content_hash ` set (raw_evidences db)"

definition stored_positions :: "ethereum_db \<Rightarrow> position set" where
  "stored_positions db = event_position ` set (mint_events db)"

text \<open>The evidence and the mints of the store and the last block of the scan.\<close>

type_synonym store_view = "bytes set \<times> position set \<times> int option"

definition store_view :: "mint_consumer \<Rightarrow> ethereum_db \<Rightarrow> store_view" where
  "store_view mc db = (stored_hashes db, stored_positions db, committed_block mc db)"

fun absorb_batch :: "libraries \<Rightarrow> scan_batch \<Rightarrow> store_view \<Rightarrow> store_view" where
  "absorb_batch lib b (hashes, positions, block) =
     (hashes \<union> log_hash lib ` set (batch_logs b),
      positions \<union> (\<Union>log \<in> set (batch_logs b). set (log_positions lib log)),
      Some (case block of None \<Rightarrow> batch_end_block b | Some n \<Rightarrow> max n (batch_end_block b)))"

lemma insert_evidence_InrD:
  assumes "insert_evidence row db = Inr (made, db')"
  shows "db' = db\<lparr> raw_evidences := raw_evidences db', drawn := drawn db' \<rparr> \<and> evidence_checks row \<and>
    (made = Some row \<and> raw_evidences db' = raw_evidences db @ [row] \<and>
       (\<forall>r \<in> set (raw_evidences db). \<not> evidence_clash row r) \<or>
     made = None \<and> raw_evidences db' = raw_evidences db \<and>
       (\<exists>r \<in> set (raw_evidences db). evidence_content_hash r = evidence_content_hash row))"
proof -
  from assms obtain rows where insert:
    "insert_or_nothing same_content evidence_clash row (raw_evidences db) = Inr (made, rows)"
    and db': "db' = db\<lparr> raw_evidences := rows, drawn := Suc (drawn db) \<rparr>" and "evidence_checks row"
    by (auto simp: insert_evidence_def split: if_splits elim!: attempt_InrE)
  moreover from insert have "made = Some row \<and> rows = raw_evidences db @ [row] \<and>
      (\<forall>r \<in> set (raw_evidences db). \<not> evidence_clash row r) \<or>
    made = None \<and> rows = raw_evidences db \<and>
      (\<exists>r \<in> set (raw_evidences db). evidence_content_hash r = evidence_content_hash row)"
    by (cases made) (auto simp: same_content_def dest!: insert_or_nothing_SomeD insert_or_nothing_NoneD)
  ultimately show ?thesis by simp
qed

lemma log_evidence_InrD:
  assumes "log_evidence dr lib mc log db = Inr (eid, db')"
  shows "db' = db\<lparr> raw_evidences := raw_evidences db', drawn := drawn db' \<rparr> \<and>
    (\<exists>row. row \<in> set (raw_evidences db') \<and> evidence_id row = eid \<and>
       evidence_content_hash row = log_hash lib log \<and>
       (raw_evidences db' = raw_evidences db \<or> raw_evidences db' = raw_evidences db @ [row] \<and>
          (\<forall>r \<in> set (raw_evidences db). \<not> evidence_clash row r) \<and>
          evidence_checks row \<and> evidence_content row = evidence_payload log \<and>
          evidence_kind row = EvidenceKind_LOG))"
proof -
  let ?hash = "content_hash lib (evidence_payload log)"
  from assms obtain tx made db1 where
    stored: "insert_evidence (new_evidence dr (drawn db) EvidenceKind_LOG ?hash
      (consumer_provider_alias mc) (log_block_number log) tx (evidence_payload log)) db = Inr (made, db1)"
    and answer: "(case made of Some row \<Rightarrow> Inr (evidence_id row, db1)
      | None \<Rightarrow> (case select_one (\<lambda>r. evidence_content_hash r = ?hash) (raw_evidences db1) of
          None \<Rightarrow> Inl (RuntimeError ''evidence idempotency conflict was not recoverable'')
        | Some row \<Rightarrow> Inr (evidence_id row, db1))) = Inr (eid, db')"
    by (auto simp: log_evidence_def Let_def elim!: attempt_InrE)
  then have "db' = db1" by (auto split: option.splits)
  from insert_evidence_InrD [OF stored] answer show ?thesis unfolding \<open>db' = db1\<close>
  proof (elim conjE disjE, goal_cases)
    case 1
    then show ?case by (auto simp: log_hash_def new_evidence_def)
  next
    case 2
    then show ?case by (auto simp: log_hash_def split: option.splits dest!: select_one_SomeD)
  qed
qed

text \<open>What a mint event keeps of the decoded mint, which enrichment never changes.\<close>

definition records_mint :: "mint_event \<Rightarrow> decoded_mint \<Rightarrow> bool" where
  "records_mint e m \<longleftrightarrow>
     event_block_number e = mint_block_number m \<and>
     hex_bytes 32 (mint_block_hash m) = Inr (event_block_hash e) \<and>
     hex_bytes 32 (mint_transaction_hash m) = Inr (event_transaction_hash e) \<and>
     event_log_index e = mint_log_index m \<and> event_sub_index e = int (mint_sub_index m) \<and>
     event_token_standard e = mint_token_standard m \<and> event_token_id e = mint_token_id m \<and>
     event_quantity e = mint_quantity m \<and> event_recipient e = mint_recipient m \<and>
     event_operator e = mint_operator m"

lemma insert_event_InrD:
  assumes "insert_event row db = Inr db'"
  shows "db' = db\<lparr> mint_events := mint_events db', drawn := drawn db' \<rparr> \<and>
    (mint_events db' = mint_events db @ [row] \<and> event_checks row \<and>
       known_collection db (event_collection_id row) \<and>
       (\<forall>e \<in> set (mint_events db). \<not> event_clash row e) \<or>
     mint_events db' = mint_events db \<and> (\<exists>e \<in> set (mint_events db). same_position row e))"
proof -
  from assms obtain made rows where insert:
    "insert_or_nothing same_position event_clash row (mint_events db) = Inr (made, rows)"
    and db': "db' = db\<lparr> mint_events := rows, drawn := Suc (drawn db) \<rparr>" and "event_checks row"
    and "made \<noteq> None \<longrightarrow> known_collection db (event_collection_id row)"
    by (auto simp: insert_event_def split: if_splits elim!: attempt_InrE)
  moreover from insert have "made = Some row \<and> rows = mint_events db @ [row] \<and>
      (\<forall>e \<in> set (mint_events db). \<not> event_clash row e) \<or>
    made = None \<and> rows = mint_events db \<and> (\<exists>e \<in> set (mint_events db). same_position row e)"
    by (cases made) (auto dest!: insert_or_nothing_SomeD insert_or_nothing_NoneD)
  ultimately show ?thesis by auto
qed

text \<open>The events a step adds: each from a mint, for the consumer's collection and the given evidence.\<close>

definition made_from :: "mint_consumer \<Rightarrow> (uuid \<Rightarrow> decoded_mint \<Rightarrow> bool) \<Rightarrow> mint_event \<Rightarrow> bool" where
  "made_from mc source e \<longleftrightarrow> event_collection_id e = consumer_collection_id mc \<and> event_checks e \<and>
     event_identity_reason_code e = ''not_enriched'' \<and>
     (\<exists>m. source (event_raw_evidence_id e) m \<and> records_mint e m)"

definition adds_events ::
  "mint_consumer \<Rightarrow> (uuid \<Rightarrow> decoded_mint \<Rightarrow> bool) \<Rightarrow> ethereum_db \<Rightarrow> ethereum_db \<Rightarrow> bool"
where
  "adds_events mc source db db' \<longleftrightarrow> (\<exists>new. mint_events db' = mint_events db @ new \<and>
     (\<forall>e \<in> set new. made_from mc source e \<and> known_collection db (event_collection_id e)) \<and>
     (unique_table event_clash (mint_events db) \<longrightarrow> unique_table event_clash (mint_events db')))"

lemma made_from_mono:
  "made_from mc source e \<Longrightarrow> (\<And>eid m. source eid m \<Longrightarrow> source' eid m) \<Longrightarrow> made_from mc source' e"
  unfolding made_from_def by blast

lemma adds_events_refl [simp]: "adds_events mc source db db"
  by (simp add: adds_events_def)

lemma adds_events_trans:
  assumes "adds_events mc source db db1" and "adds_events mc source' db1 db2"
    and "collections db1 = collections db"
    and "\<And>eid m. source eid m \<Longrightarrow> source2 eid m" and "\<And>eid m. source' eid m \<Longrightarrow> source2 eid m"
  shows "adds_events mc source2 db db2"
proof -
  from assms(1,2) obtain new new' where
    "mint_events db1 = mint_events db @ new" "mint_events db2 = mint_events db1 @ new'"
    "\<forall>e \<in> set new. made_from mc source e \<and> known_collection db (event_collection_id e)"
    "\<forall>e \<in> set new'. made_from mc source' e \<and> known_collection db1 (event_collection_id e)"
    "unique_table event_clash (mint_events db) \<longrightarrow> unique_table event_clash (mint_events db1)"
    "unique_table event_clash (mint_events db1) \<longrightarrow> unique_table event_clash (mint_events db2)"
    by (auto simp: adds_events_def)
  moreover from this assms(4,5) have "\<forall>e \<in> set (new @ new'). made_from mc source2 e"
    by (auto intro: made_from_mono)
  ultimately show ?thesis
    using assms(3) unfolding adds_events_def
    by (intro exI [of _ "new @ new'"]) (auto simp: known_collection_def)
qed

lemma events_frame_trans:
  "db1 = db\<lparr> mint_events := x, drawn := n \<rparr> \<Longrightarrow> db2 = db1\<lparr> mint_events := y, drawn := m \<rparr> \<Longrightarrow>
     db2 = db\<lparr> mint_events := y, drawn := m \<rparr>"
  by simp

lemma store_mints_InrD:
  assumes "store_mints dr mc eid mints db = Inr db'"
  shows "db' = db\<lparr> mint_events := mint_events db', drawn := drawn db' \<rparr> \<and>
    stored_positions db' = stored_positions db \<union> set (List.map_filter mint_position mints) \<and>
    adds_events mc (\<lambda>id m. id = eid \<and> m \<in> set mints) db db'"
  using assms
proof (induction mints arbitrary: db)
  case (Cons m mints)
  from Cons.prems obtain bh tx db1 where
    bytes: "hex_bytes 32 (mint_block_hash m) = Inr bh" "hex_bytes 32 (mint_transaction_hash m) = Inr tx"
    and insert: "insert_event (new_event (draw_id dr (drawn db)) (consumer_collection_id mc) eid m bh tx) db =
      Inr db1" and rest: "store_mints dr mc eid mints db1 = Inr db'"
    by (auto elim!: attempt_InrE)
  let ?row = "new_event (draw_id dr (drawn db)) (consumer_collection_id mc) eid m bh tx"
  note first = insert_event_InrD [OF insert]
  note tail = Cons.IH [OF rest, THEN conjunct2]
  have row: "mint_position m = Some (event_position ?row)" "records_mint ?row m"
    "event_collection_id ?row = consumer_collection_id mc" "event_raw_evidence_id ?row = eid"
    "event_identity_reason_code ?row = ''not_enriched''"
    using bytes by (simp_all add: mint_position.simps event_position_def new_event_def records_mint_def)
  have "stored_positions db1 = insert (event_position ?row) (stored_positions db)"
    using first [THEN conjunct2]
    by (auto simp: stored_positions_def same_position_def event_position_def image_iff)
  moreover have "List.map_filter mint_position (m # mints) =
      event_position ?row # List.map_filter mint_position mints"
    by (simp only: List.map_filter_simps row(1) option.case)
  ultimately have "stored_positions db' =
      stored_positions db \<union> set (List.map_filter mint_position (m # mints))"
    by (simp only: tail [THEN conjunct1]) simp
  moreover have "adds_events mc (\<lambda>id x. id = eid \<and> x = m) db db1"
    using first [THEN conjunct2]
  proof (elim disjE conjE)
    assume "mint_events db1 = mint_events db @ [?row]" "event_checks ?row"
      "known_collection db (event_collection_id ?row)" "\<forall>e \<in> set (mint_events db). \<not> event_clash ?row e"
    with row show ?thesis
      by (intro adds_events_def [THEN iffD2] exI [of _ "[?row]"]) (auto simp: made_from_def unique_table_snoc)
  qed (simp add: adds_events_def)
  moreover have "collections db1 = collections db" by (subst first [THEN conjunct1]) simp
  moreover have "db' = db\<lparr> mint_events := mint_events db', drawn := drawn db' \<rparr>"
    by (rule events_frame_trans [OF first [THEN conjunct1] Cons.IH [OF rest, THEN conjunct1]])
  ultimately show ?case
    using tail [THEN conjunct2] by (auto elim: adds_events_trans)
qed (simp add: List.map_filter_simps)

text \<open>
  The digest of evidence: of the payload of a log, and of kind and payload together for the
  evidence of enrichment.
\<close>

definition kinded :: "evidence_kind \<Rightarrow> json \<Rightarrow> json" where
  "kinded kind payload = JObject [(''kind'', JStr (evidence_kind_value kind)), (''payload'', payload)]"

definition evidence_ok :: "libraries \<Rightarrow> raw_evidence \<Rightarrow> bool" where
  "evidence_ok lib r \<longleftrightarrow> evidence_checks r \<and> evidence_content_hash r = content_hash lib
     (if evidence_kind r = EvidenceKind_LOG then evidence_content r
      else kinded (evidence_kind r) (evidence_content r))"

definition adds_evidence :: "libraries \<Rightarrow> ethereum_db \<Rightarrow> ethereum_db \<Rightarrow> bool" where
  "adds_evidence lib db db' \<longleftrightarrow> (\<exists>new. raw_evidences db' = raw_evidences db @ new \<and>
     (\<forall>r \<in> set new. evidence_ok lib r) \<and>
     (unique_table evidence_clash (raw_evidences db) \<longrightarrow> unique_table evidence_clash (raw_evidences db')))"

lemma adds_evidence_refl [simp]: "adds_evidence lib db db"
  by (simp add: adds_evidence_def)

lemma adds_evidence_same: "raw_evidences db' = raw_evidences db \<Longrightarrow> adds_evidence lib db db'"
  by (simp add: adds_evidence_def)

lemma adds_evidence_trans:
  "adds_evidence lib db db1 \<Longrightarrow> adds_evidence lib db1 db2 \<Longrightarrow> adds_evidence lib db db2"
  unfolding adds_evidence_def by (elim exE conjE) (rule exI, auto)

lemma adds_evidence_subset: "adds_evidence lib db db' \<Longrightarrow> set (raw_evidences db) \<subseteq> set (raw_evidences db')"
  by (auto simp: adds_evidence_def)

text \<open>A mint that the log behind a piece of stored evidence decodes to.\<close>

definition traces :: "libraries \<Rightarrow> ethereum_db \<Rightarrow> uuid \<Rightarrow> decoded_mint \<Rightarrow> bool" where
  "traces lib db eid m \<longleftrightarrow> (\<exists>r \<in> set (raw_evidences db). \<exists>log mints. evidence_id r = eid \<and>
     evidence_content_hash r = log_hash lib log \<and> decode_log lib log = Inr mints \<and> m \<in> set mints)"

lemma traces_mono: "adds_evidence lib db db' \<Longrightarrow> traces lib db eid m \<Longrightarrow> traces lib db' eid m"
  unfolding traces_def by (blast dest: adds_evidence_subset)

lemma evidence_frame_events:
  "db1 = db\<lparr> raw_evidences := x, drawn := n \<rparr> \<Longrightarrow> db2 = db1\<lparr> mint_events := y, drawn := m \<rparr> \<Longrightarrow>
     db2 = db\<lparr> raw_evidences := x, mint_events := y, drawn := m \<rparr>"
  by simp

lemma store_log_InrD:
  assumes "store_log dr lib mc log db = Inr db'"
  shows "db' = db\<lparr> raw_evidences := raw_evidences db', mint_events := mint_events db', drawn := drawn db' \<rparr> \<and>
    stored_hashes db' = insert (log_hash lib log) (stored_hashes db) \<and>
    stored_positions db' = stored_positions db \<union> set (log_positions lib log) \<and>
    adds_evidence lib db db' \<and> adds_events mc (traces lib db') db db'"
proof -
  from assms obtain eid db1 mints where evidence: "log_evidence dr lib mc log db = Inr (eid, db1)"
    and decoded: "decode_log lib log = Inr mints" and rest: "store_mints dr mc eid mints db1 = Inr db'"
    by (auto simp: store_log_def elim!: attempt_InrE)
  note first = log_evidence_InrD [OF evidence] and tail = store_mints_InrD [OF rest]
  from first obtain row where row: "row \<in> set (raw_evidences db1)" "evidence_id row = eid"
      "evidence_content_hash row = log_hash lib log"
    and new: "raw_evidences db1 = raw_evidences db \<or> raw_evidences db1 = raw_evidences db @ [row] \<and>
      (\<forall>r \<in> set (raw_evidences db). \<not> evidence_clash row r) \<and> evidence_checks row \<and>
      evidence_content row = evidence_payload log \<and> evidence_kind row = EvidenceKind_LOG" by blast
  have frames: "raw_evidences db' = raw_evidences db1" "mint_events db1 = mint_events db"
    "collections db1 = collections db"
    by (subst tail [THEN conjunct1], simp, (subst first [THEN conjunct1], simp)+)
  have frame: "db' = db\<lparr> raw_evidences := raw_evidences db', mint_events := mint_events db', drawn := drawn db' \<rparr>"
    unfolding frames(1)
    by (rule evidence_frame_events [OF first [THEN conjunct1] tail [THEN conjunct1]])
  have hashes: "stored_hashes db' = insert (log_hash lib log) (stored_hashes db)"
    unfolding stored_hashes_def row(3) [symmetric] using row(1) new frames(1) by auto
  have positions: "stored_positions db' = stored_positions db \<union> set (log_positions lib log)"
    using tail [THEN conjunct2, THEN conjunct1] frames(2) decoded
    by (simp add: stored_positions_def log_positions_def)
  have "adds_evidence lib db db'"
    using new
  proof (elim disjE conjE)
    assume "raw_evidences db1 = raw_evidences db @ [row]" "\<forall>r \<in> set (raw_evidences db). \<not> evidence_clash row r"
      "evidence_checks row" "evidence_content row = evidence_payload log" "evidence_kind row = EvidenceKind_LOG"
    with row(3) frames(1) show ?thesis
      by (intro adds_evidence_def [THEN iffD2] exI [of _ "[row]"])
        (auto simp: evidence_ok_def log_hash_def unique_table_snoc)
  qed (use frames(1) in \<open>simp add: adds_evidence_same\<close>)
  moreover have "traces lib db' eid m" if "m \<in> set mints" for m
    using row decoded that frames(1) unfolding traces_def by metis
  with tail [THEN conjunct2, THEN conjunct2] have "adds_events mc (traces lib db') db db'"
    using adds_events_trans [of mc "\<lambda>_ _. False" db db1 "\<lambda>id m. id = eid \<and> m \<in> set mints" db' "traces lib db'"]
      frames(2,3) by (auto simp: adds_events_def)
  ultimately show ?thesis using frame hashes positions by blast
qed

lemma adds_evidence_collections:
  "db' = db\<lparr> raw_evidences := x, mint_events := y, drawn := n \<rparr> \<Longrightarrow>
     collections db' = collections db \<and> scan_checkpoints db' = scan_checkpoints db"
  by simp

lemma both_frame_trans:
  "db1 = db\<lparr> raw_evidences := x, mint_events := y, drawn := n \<rparr> \<Longrightarrow>
     db2 = db1\<lparr> raw_evidences := x', mint_events := y', drawn := m \<rparr> \<Longrightarrow>
     db2 = db\<lparr> raw_evidences := x', mint_events := y', drawn := m \<rparr>"
  by simp

lemma store_logs_InrD:
  assumes "store_logs dr lib mc logs db = Inr db'"
  shows "db' = db\<lparr> raw_evidences := raw_evidences db', mint_events := mint_events db', drawn := drawn db' \<rparr> \<and>
    stored_hashes db' = stored_hashes db \<union> log_hash lib ` set logs \<and>
    stored_positions db' = stored_positions db \<union> (\<Union>log \<in> set logs. set (log_positions lib log)) \<and>
    adds_evidence lib db db' \<and> adds_events mc (traces lib db') db db'"
  using assms
proof (induction logs arbitrary: db)
  case (Cons log logs)
  from Cons.prems obtain db1 where one: "store_log dr lib mc log db = Inr db1"
    and rest: "store_logs dr lib mc logs db1 = Inr db'" by (auto elim!: attempt_InrE)
  note first = store_log_InrD [OF one] and tail = Cons.IH [OF rest]
  from tail have later: "adds_evidence lib db1 db'" by blast
  have "db' = db\<lparr> raw_evidences := raw_evidences db', mint_events := mint_events db', drawn := drawn db' \<rparr>"
    by (rule both_frame_trans [OF first [THEN conjunct1] tail [THEN conjunct1]])
  moreover have "stored_hashes db' = stored_hashes db \<union> log_hash lib ` set (log # logs)"
    "stored_positions db' = stored_positions db \<union> (\<Union>log \<in> set (log # logs). set (log_positions lib log))"
    using first [THEN conjunct2] tail [THEN conjunct2] by auto
  moreover from first have "adds_evidence lib db db1" by (elim conjE)
  from adds_evidence_trans [OF this later] have "adds_evidence lib db db'" .
  moreover have "adds_events mc (traces lib db') db db'"
  proof (rule adds_events_trans)
    show "adds_events mc (traces lib db1) db db1" using first by (elim conjE)
    show "adds_events mc (traces lib db') db1 db'" using tail by (elim conjE)
    show "collections db1 = collections db"
      using adds_evidence_collections [OF first [THEN conjunct1]] by (rule conjunct1)
    show "traces lib db1 eid m \<Longrightarrow> traces lib db' eid m" for eid m by (rule traces_mono [OF later])
  qed
  ultimately show ?case by blast
qed simp

lemma upsert_checkpoint_InrD:
  assumes "upsert_checkpoint (new_checkpoint dr n mc block hash) db = Inr db'"
  shows "db' = db\<lparr> scan_checkpoints := scan_checkpoints db', drawn := Suc (drawn db) \<rparr> \<and>
    committed_block mc db' = Some (case committed_block mc db of None \<Rightarrow> block | Some k \<Rightarrow> max k block)"
proof -
  let ?row = "new_checkpoint dr n mc block hash"
  have same: "same_checkpoint ?row = checkpoint_of mc"
    by (rule ext) (auto simp: same_checkpoint_def checkpoint_of_def new_checkpoint_def)
  have row: "last_committed_block_number ?row = block" "last_committed_block_hash ?row = hash"
    by (simp_all add: new_checkpoint_def)
  show ?thesis
  proof (cases "list_ex (checkpoint_of mc) (scan_checkpoints db)")
    case True
    then obtain r where r: "select_one (checkpoint_of mc) (scan_checkpoints db) = Some r"
      using select_one_None_iff [of "checkpoint_of mc" "scan_checkpoints db"]
      by (cases "select_one (checkpoint_of mc) (scan_checkpoints db)") (auto simp: list_ex_iff)
    let ?p = "\<lambda>r. checkpoint_of mc r \<and> last_committed_block_number r \<le> block"
    let ?f = "\<lambda>r. r\<lparr> last_committed_block_number := block, last_committed_block_hash := hash \<rparr>"
    have db': "db' = db\<lparr> scan_checkpoints := update_rows ?p ?f (scan_checkpoints db), drawn := Suc (drawn db) \<rparr>"
      using assms True by (auto simp: upsert_checkpoint_def same row split: if_splits)
    have "select_one (checkpoint_of mc) (update_rows ?p ?f (scan_checkpoints db)) =
        Some (if ?p r then ?f r else r)"
      by (subst select_one_update_rows) (simp_all add: r checkpoint_of_def)
    with r db' select_one_SomeD [OF r] show ?thesis by (auto simp: committed_block_def max_def)
  next
    case False
    then have none: "select_one (checkpoint_of mc) (scan_checkpoints db) = None"
      by (simp add: select_one_None_iff list_ex_iff)
    have "db' = db\<lparr> scan_checkpoints := scan_checkpoints db @ [?row], drawn := Suc (drawn db) \<rparr>"
      using assms False by (auto simp: upsert_checkpoint_def same split: if_splits)
    moreover have "checkpoint_of mc ?row" by (simp add: checkpoint_of_def new_checkpoint_def)
    ultimately show ?thesis using none
      by (simp add: committed_block_def select_one_append new_checkpoint_def)
  qed
qed

lemma store_batch_InrD:
  assumes "store_batch dr lib mc batch db = Inr (u, db')"
  shows "store_view mc db' = absorb_batch lib batch (store_view mc db) \<and>
    adds_evidence lib db db' \<and> adds_events mc (traces lib db') db db' \<and>
    collections db' = collections db \<and> scan_jobs db' = scan_jobs db"
proof -
  from assms obtain db1 hash where logs: "store_logs dr lib mc (batch_logs batch) db = Inr db1"
    and upsert: "upsert_checkpoint (new_checkpoint dr (drawn db1) mc (batch_end_block batch) hash) db1 = Inr db'"
    by (auto simp: store_batch_def elim!: attempt_InrE)
  note first = store_logs_InrD [OF logs] and tail = upsert_checkpoint_InrD [OF upsert]
  have frames: "raw_evidences db' = raw_evidences db1" "mint_events db' = mint_events db1"
    "collections db' = collections db1" "scan_jobs db' = scan_jobs db1"
    by (subst tail [THEN conjunct1], simp)+
  have frames1: "collections db1 = collections db" "scan_jobs db1 = scan_jobs db"
    "scan_checkpoints db1 = scan_checkpoints db"
    by (subst first [THEN conjunct1], simp)+
  from frames have views: "stored_hashes db' = stored_hashes db1" "stored_positions db' = stored_positions db1"
    and trace: "traces lib db' = traces lib db1"
    by (auto simp: stored_hashes_def stored_positions_def traces_def fun_eq_iff)
  have "committed_block mc db1 = committed_block mc db" by (simp add: committed_block_def frames1)
  with first [THEN conjunct2] tail [THEN conjunct2] views
  have "store_view mc db' = absorb_batch lib batch (store_view mc db)" by (simp add: store_view_def)
  moreover from first have "adds_evidence lib db db1" by (elim conjE)
  moreover from first have "adds_events mc (traces lib db1) db db1" by (elim conjE)
  ultimately show ?thesis
    using frames frames1 by (simp add: adds_evidence_def adds_events_def trace)
qed

interpretation mint_batches: batch_fold "commit_batch dr lib mc" "store_view mc" "absorb_batch lib"
  for dr lib mc
  by unfold_locales
    (auto simp: commit_batch_def transact_Inr_iff elim!: transact.elims dest!: store_batch_InrD)

text \<open>Contiguous batches after the last committed block move it to their own last block.\<close>

definition logs_of :: "scan_batch list \<Rightarrow> evm_log list" where
  "logs_of bs = concat (map batch_logs bs)"

lemma fold_absorb_batch:
  assumes "contiguous m start bs" and "case block of None \<Rightarrow> True | Some n \<Rightarrow> n < start"
  shows "fold (absorb_batch lib) bs (hashes, positions, block) =
    (hashes \<union> log_hash lib ` set (logs_of bs),
     positions \<union> (\<Union>log \<in> set (logs_of bs). set (log_positions lib log)),
     if bs = [] then block else Some (resume_block start bs - 1))"
  using assms
proof (induction bs arbitrary: start hashes positions block)
  case (Cons b bs)
  then have "(case block of None \<Rightarrow> batch_end_block b | Some n \<Rightarrow> max n (batch_end_block b)) = batch_end_block b"
    by (auto split: option.splits)
  with Cons.prems Cons.IH [of "batch_end_block b + 1"] show ?case
    by (auto simp: logs_of_def)
qed (simp add: logs_of_def)

section \<open>Properties\<close>

text \<open>
  C12. The checkpoint never lies: a scan that starts behind the last committed block leaves, whether it
  returns or raises anywhere, exactly the evidence and the mints of a gapless run of batches from its
  first block on, as the provider answered them, together with a checkpoint at the last block of that
  run; a scan that returns has stored its whole range.
\<close>

theorem scan_stores_range:
  assumes "adaptive_historical_scanner initial maximum threshold = Inr cfg"
    and "scan prov (commit_batch dr lib mc) cfg address topics start_block end_block p db = (res, p', db')"
    and "\<forall>n. committed_block mc db = Some n \<longrightarrow> n < start_block"
  shows "\<exists>bs. contiguous maximum start_block bs \<and> (\<forall>b \<in> set bs. answered prov address topics b) \<and>
    (res = Inr () \<longrightarrow> resume_block start_block bs = end_block + 1) \<and>
    stored_hashes db' = stored_hashes db \<union> log_hash lib ` set (logs_of bs) \<and>
    stored_positions db' =
      stored_positions db \<union> (\<Union>log \<in> set (logs_of bs). set (log_positions lib log)) \<and>
    committed_block mc db' =
      (if bs = [] then committed_block mc db else Some (resume_block start_block bs - 1))"
proof -
  have cfg: "config_ok cfg" "maximum_chunk cfg = maximum"
    using assms(1) adaptive_historical_scanner_ok
    by (auto simp: adaptive_historical_scanner_def split: if_splits)
  from mint_batches.scan_commits [OF cfg(1) assms(2)] cfg(2) obtain bs where
    bs: "store_view mc db' = fold (absorb_batch lib) bs (store_view mc db)"
      "contiguous maximum start_block bs" "\<forall>b \<in> set bs. answered prov address topics b"
      "res = Inr () \<longrightarrow> resume_block start_block bs = end_block + 1" by auto
  have "case committed_block mc db of None \<Rightarrow> True | Some n \<Rightarrow> n < start_block"
    using assms(3) by (simp split: option.splits)
  from fold_absorb_batch [OF bs(2) this] bs show ?thesis
    by (intro exI [of _ bs]) (simp add: store_view_def)
qed

section \<open>Examples\<close>

text \<open>A chain with one mint in block three, and a store with its collection.\<close>

definition one_hash :: "8 word \<Rightarrow> string" where
  "one_hash n = ''0x'' @ bytes_hex (replicate 32 n)"

definition mint_log :: evm_log where
  "mint_log = transfer_log\<lparr> log_block_hash := one_hash 3, log_transaction_hash := one_hash 2 \<rparr>"

definition mint_chain :: "unit evm_provider" where
  "mint_chain = narrow_provider\<lparr>
     provider_block := (\<lambda>tag p. case tag of
       Height n \<Rightarrow> (Inr \<lparr> block_number = n, block_hash = one_hash 3 \<rparr>, p)
     | Tag t \<Rightarrow> (Inr \<lparr> block_number = 9, block_hash = one_hash 3 \<rparr>, p)),
     provider_logs := (\<lambda>a from to topics p.
       (Inr (if from \<le> 3 \<and> 3 \<le> to then [mint_log] else []), p)),
     provider_transaction := (\<lambda>h p. (Inr \<lparr> tx_hash = h, tx_sender = ''0xa0'', tx_recipient = Some ''0xc'',
       tx_value_wei = 5, tx_input_data = ''0x'', tx_block_number = 3 \<rparr>, p)),
     provider_receipt := (\<lambda>h p. (Inr \<lparr> receipt_transaction_hash = h, receipt_block_number = 3,
       receipt_block_hash = one_hash 3, receipt_status = 1, receipt_gas_used = 1,
       receipt_effective_gas_price = None \<rparr>, p)),
     provider_trace_transaction := (\<lambda>h p. (Inl (ProviderError ''rpc_error'' False False), p)) \<rparr>"

definition sample_libraries :: libraries where
  "sample_libraries = \<lparr> lib_sha256 = (\<lambda>m. replicate 31 0 @ [of_nat (length m)]), lib_keccak_hex = lower,
     lib_abi = plain_abi, lib_checksum = Inr \<rparr>"

definition counting :: draws where
  "counting = \<lparr> draw_id = int, draw_now = int \<rparr>"

definition sample_collection :: collection where
  "sample_collection = \<lparr> collection_id = 4, collection_chain_id = 1,
     collection_normalized_address = ''0xc'', collection_checksum_address = ''0xc'',
     collection_token_standard = TokenStandard_UNKNOWN, collection_deployment_block_number = Some 1,
     collection_deployment_block_hash = None, collection_deployment_confidence = DeploymentConfidence_EXACT,
     collection_deployment_confidence_value = 100, collection_scan_status = CollectionScanStatus_SCANNING \<rparr>"

definition sample_mint_db :: ethereum_db where
  "sample_mint_db = \<lparr> ethereum_access = \<lparr> platform_users = [], access_requests = [], workspaces = [],
       workspace_memberships = [], notification_destinations = [], workspace_strategies = [],
       audit_logs = [], reads_back = True \<rparr>,
     collections = [sample_collection], workspace_collections = [], scan_jobs = [], scan_checkpoints = [],
     raw_evidences = [], mint_events = [], drawn = 0 \<rparr>"

definition sample_consumer :: mint_consumer where
  "sample_consumer = \<lparr> consumer_collection_id = 4, consumer_scan_version = 1,
     consumer_provider_alias = ''chain'' \<rparr>"

definition scanned_db :: "unit outcome \<times> unit \<times> ethereum_db" where
  "scanned_db = scan mint_chain (commit_batch counting sample_libraries sample_consumer)
     \<lparr> initial_chunk = 3, maximum_chunk = 3, dense_log_threshold = 4 \<rparr> ''0xc'' [] 1 5 () sample_mint_db"

lemma scanned_db_commits:
  "(\<lambda>(answer, p, db). (answer, map (\<lambda>e. (event_token_id e, not_enriched e)) (mint_events db))) scanned_db =
     (Inr (), [(7, True)])"
  unfolding scanned_db_def by code_simp

lemma scanned_dbE:
  obtains db e where "scanned_db = (Inr (), (), db)" and "mint_events db = [e]" and "event_token_id e = 7"
    and "not_enriched e"
proof -
  obtain answer p db where run: "scanned_db = (answer, p, db)" by (metis prod_cases3)
  from scanned_db_commits [unfolded run] that [of db] run show thesis by auto
qed

theorem scan_stores_range_witness:
  "\<exists>db. scanned_db = (Inr (), (), db) \<and> committed_block sample_consumer db = Some 5"
proof -
  obtain db where run: "scanned_db = (Inr (), (), db)" by (rule scanned_dbE)
  have "adaptive_historical_scanner 3 3 4 = Inr \<lparr> initial_chunk = 3, maximum_chunk = 3, dense_log_threshold = 4 \<rparr>"
    by (simp add: adaptive_historical_scanner_def)
  from scan_stores_range [OF this run [unfolded scanned_db_def]] run show ?thesis
    by (auto simp: committed_block_def sample_mint_db_def split: if_splits)
qed

end
