(* ===== verification/MintEnrichment.thy ===== *)
theory MintEnrichment
  imports MintStore
begin

text \<open>
  The enrichment of stored mints (\<^verbatim>\<open>SqlAlchemyMintEnricher\<close> in
  \<^verbatim>\<open>app/infrastructure/db/repositories/ethereum.py\<close>) and the invariant of the mint store: every mint
  traces to the evidence it was decoded from, and neither evidence nor provenance ever changes. The
  order in which the database answers the distinct transactions is that of their first mint.
\<close>

section \<open>Evidence of a transaction\<close>

definition json_option :: "('a \<Rightarrow> json) \<Rightarrow> 'a option \<Rightarrow> json" where
  "json_option f x = (case x of None \<Rightarrow> JNull | Some y \<Rightarrow> f y)"

definition transaction_payload :: "evm_transaction \<Rightarrow> json" where
  "transaction_payload tx = JObject
     [(''transaction_hash'', JStr (tx_hash tx)),
      (''sender'', JStr (tx_sender tx)),
      (''recipient'', json_option JStr (tx_recipient tx)),
      (''value_wei'', JInt (tx_value_wei tx)),
      (''input_data'', JStr (tx_input_data tx)),
      (''block_number'', JInt (tx_block_number tx))]"

definition receipt_payload :: "evm_receipt \<Rightarrow> json" where
  "receipt_payload receipt = JObject
     [(''transaction_hash'', JStr (receipt_transaction_hash receipt)),
      (''block_number'', JInt (receipt_block_number receipt)),
      (''block_hash'', JStr (receipt_block_hash receipt)),
      (''status'', JInt (receipt_status receipt)),
      (''gas_used'', JInt (receipt_gas_used receipt)),
      (''effective_gas_price'', json_option JInt (receipt_effective_gas_price receipt))]"

definition append_evidence ::
  "draws \<Rightarrow> libraries \<Rightarrow> evidence_kind \<Rightarrow> string \<Rightarrow> int \<Rightarrow> string \<Rightarrow> json \<Rightarrow> ethereum_db \<Rightarrow> ethereum_db outcome"
where
  "append_evidence dr lib kind alias block transaction_hash payload db =
     attempt (hex_bytes 32 transaction_hash) (\<lambda>tx.
     attempt (insert_evidence (new_evidence dr (drawn db) kind (content_hash lib (kinded kind payload))
       alias block tx payload) db) (\<lambda>(made, db'). Inr db'))"

section \<open>The enricher\<close>

text \<open>\<open>"0x" + raw.hex()\<close>\<close>

definition prefixed_hex :: "bytes \<Rightarrow> string" where
  "prefixed_hex raw = ''0x'' @ bytes_hex raw"

text \<open>A stored mint as a decoded one, and the fields that its enrichment sets.\<close>

definition stored_mint :: "string \<Rightarrow> string \<Rightarrow> mint_event \<Rightarrow> decoded_mint" where
  "stored_mint address transaction_hash e =
     \<lparr> mint_collection_address = address,
       mint_token_standard = event_token_standard e,
       mint_token_id = event_token_id e,
       mint_quantity = event_quantity e,
       mint_recipient = event_recipient e,
       mint_operator = event_operator e,
       mint_block_number = event_block_number e,
       mint_block_hash = prefixed_hex (event_block_hash e),
       mint_transaction_hash = transaction_hash,
       mint_log_index = event_log_index e,
       mint_sub_index = nat (event_sub_index e) \<rparr>"

definition enriched_event :: "mint_event \<Rightarrow> enriched_mint \<Rightarrow> mint_event" where
  "enriched_event e x = e\<lparr>
     event_transaction_sender := Some (enriched_transaction_sender x),
     event_payer := enriched_payer x,
     event_probable_initiator := enriched_probable_initiator x,
     event_identity_confidence := enriched_identity_confidence x,
     event_identity_reason_code := enriched_identity_reason_code x,
     event_route := enriched_route x,
     event_classification := enriched_classification x,
     event_classification_reason_code := enriched_classification_reason_code x \<rparr>"

fun enrich_rows ::
  "checksummer \<Rightarrow> string \<Rightarrow> string \<Rightarrow> evm_transaction \<Rightarrow> evm_receipt \<Rightarrow> (mint_event \<Rightarrow> bool) \<Rightarrow>
     mint_event list \<Rightarrow> mint_event list outcome"
where
  "enrich_rows checksum address txh tx receipt due [] = Inr []"
| "enrich_rows checksum address txh tx receipt due (e # es) =
     attempt (if due e
         then attempt (enrich_mint checksum (stored_mint address txh e) tx receipt False None)
           (\<lambda>x. Inr (enriched_event e x))
         else Inr e) (\<lambda>e'.
     attempt (enrich_rows checksum address txh tx receipt due es) (\<lambda>es'. Inr (e' # es')))"

definition due_for :: "uuid \<Rightarrow> bytes \<Rightarrow> mint_event \<Rightarrow> bool" where
  "due_for cid raw_hash e \<longleftrightarrow>
     event_collection_id e = cid \<and> event_transaction_hash e = raw_hash \<and> not_enriched e"

text \<open>The transaction that stores the evidence and enriches the mints of one transaction hash.\<close>

definition store_enrichment ::
  "draws \<Rightarrow> libraries \<Rightarrow> string \<Rightarrow> uuid \<Rightarrow> string \<Rightarrow> bytes \<Rightarrow> evm_transaction \<Rightarrow> evm_receipt \<Rightarrow>
     json option \<Rightarrow> ethereum_db \<Rightarrow> (unit \<times> ethereum_db) outcome"
where
  "store_enrichment dr lib alias cid address raw_hash tx receipt trace db =
     (let txh = prefixed_hex raw_hash in
      attempt (append_evidence dr lib EvidenceKind_TRANSACTION alias (tx_block_number tx) txh
        (transaction_payload tx) db) (\<lambda>db1.
      attempt (append_evidence dr lib EvidenceKind_RECEIPT alias (receipt_block_number receipt) txh
        (receipt_payload receipt) db1) (\<lambda>db2.
      attempt (case trace of
          None \<Rightarrow> Inr db2
        | Some payload \<Rightarrow> append_evidence dr lib EvidenceKind_TRACE alias (receipt_block_number receipt)
            txh payload db2) (\<lambda>db3.
      attempt (enrich_rows (lib_checksum lib) address txh tx receipt (due_for cid raw_hash)
        (mint_events db3)) (\<lambda>rows.
      if \<not> list_all event_fits rows then Inl DataError
      else if \<not> list_all event_checks rows then Inl IntegrityError
      else Inr ((), db3\<lparr> mint_events := rows \<rparr>))))))"

fun enrich_hashes ::
  "draws \<Rightarrow> libraries \<Rightarrow> 'p evm_provider \<Rightarrow> string \<Rightarrow> uuid \<Rightarrow> string \<Rightarrow> bytes list \<Rightarrow> string list \<Rightarrow> 'p \<Rightarrow>
     ethereum_db \<Rightarrow> string list outcome \<times> 'p \<times> ethereum_db"
where
  "enrich_hashes dr lib prov alias cid address [] warnings p db = (Inr warnings, p, db)"
| "enrich_hashes dr lib prov alias cid address (h # hs) warnings p db =
     (case provider_transaction prov (prefixed_hex h) p of
        (Inl e, p1) \<Rightarrow> (Inl e, p1, db)
      | (Inr tx, p1) \<Rightarrow>
     (case provider_receipt prov (prefixed_hex h) p1 of
        (Inl e, p2) \<Rightarrow> (Inl e, p2, db)
      | (Inr receipt, p2) \<Rightarrow>
          let store = (\<lambda>trace warnings p3.
            case transact db (store_enrichment dr lib alias cid address h tx receipt trace db) of
              (Inl e, db') \<Rightarrow> (Inl e, p3, db')
            | (Inr _, db') \<Rightarrow> enrich_hashes dr lib prov alias cid address hs warnings p3 db')
          in (case provider_trace_transaction prov (prefixed_hex h) p2 of
                (Inl (ProviderError code transient split_range), p3) \<Rightarrow>
                  store None (warnings @ [''trace_unavailable:'' @ code]) p3
              | (Inl e, p3) \<Rightarrow> (Inl e, p3, db)
              | (Inr trace, p3) \<Rightarrow> store (Some trace) warnings p3)))"

definition pending_in :: "uuid \<Rightarrow> int \<Rightarrow> int \<Rightarrow> mint_event \<Rightarrow> bool" where
  "pending_in cid start_block end_block e \<longleftrightarrow> event_collection_id e = cid \<and>
     start_block \<le> event_block_number e \<and> event_block_number e \<le> end_block \<and> not_enriched e"

definition enrich_range ::
  "draws \<Rightarrow> libraries \<Rightarrow> 'p evm_provider \<Rightarrow> string \<Rightarrow> uuid \<Rightarrow> int \<Rightarrow> int \<Rightarrow> 'p \<Rightarrow> ethereum_db \<Rightarrow>
     string list outcome \<times> 'p \<times> ethereum_db"
where
  "enrich_range dr lib prov alias cid start_block end_block p db =
     (case select_one (\<lambda>c. collection_id c = cid) (collections db) of
        None \<Rightarrow> (Inr [''collection_not_found''], p, db)
      | Some c \<Rightarrow>
          (case enrich_hashes dr lib prov alias cid (collection_checksum_address c)
              (remdups (map event_transaction_hash
                (filter (pending_in cid start_block end_block) (mint_events db)))) [] p db of
             (answer, p', db') \<Rightarrow>
               (attempt answer (\<lambda>warnings. Inr (sort_key key_order (remdups warnings))), p', db')))"

section \<open>What enrichment changes\<close>

text \<open>An event without the fields that enrichment sets.\<close>

definition provenance :: "mint_event \<Rightarrow> mint_event" where
  "provenance e = e\<lparr>
     event_transaction_sender := None, event_payer := None, event_probable_initiator := None,
     event_identity_confidence := 0, event_identity_reason_code := [], event_route := MintRoute_UNKNOWN,
     event_classification := MintClassification_UNKNOWN_MINT, event_classification_reason_code := [] \<rparr>"

lemma provenance_enriched [simp]: "provenance (enriched_event e x) = provenance e"
  by (simp add: provenance_def enriched_event_def)

lemma provenance_fields:
  "provenance e' = provenance e \<Longrightarrow> event_id e' = event_id e \<and>
     event_collection_id e' = event_collection_id e \<and> event_raw_evidence_id e' = event_raw_evidence_id e \<and>
     event_block_number e' = event_block_number e \<and> event_block_hash e' = event_block_hash e \<and>
     event_transaction_hash e' = event_transaction_hash e \<and> event_log_index e' = event_log_index e \<and>
     event_sub_index e' = event_sub_index e \<and> event_token_standard e' = event_token_standard e \<and>
     event_token_id e' = event_token_id e \<and> event_quantity e' = event_quantity e \<and>
     event_recipient e' = event_recipient e \<and> event_operator e' = event_operator e"
  by (cases e; cases e') (simp add: provenance_def)

lemma provenance_clash:
  "provenance e' = provenance e \<Longrightarrow> provenance f' = provenance f \<Longrightarrow> event_clash e' f' \<longleftrightarrow> event_clash e f"
  using provenance_fields [of e' e] provenance_fields [of f' f]
  by (simp add: event_clash_def same_position_def)

lemma provenance_records:
  "provenance e' = provenance e \<Longrightarrow> records_mint e' m \<longleftrightarrow> records_mint e m"
  using provenance_fields [of e' e] by (simp add: records_mint_def)

text \<open>
  Rows before and after a step that only enriches: the same events in the same order, each as it was
  or, where it was due, with its provenance and a reason.
\<close>

definition enriches :: "(mint_event \<Rightarrow> bool) \<Rightarrow> mint_event \<Rightarrow> mint_event \<Rightarrow> bool" where
  "enriches due e e' \<longleftrightarrow> e' = e \<or> due e \<and> not_enriched e \<and> provenance e' = provenance e \<and>
     \<not> not_enriched e' \<and> event_identity_confidence e' \<in> {0..100}"

definition rows_enriched :: "(mint_event \<Rightarrow> bool) \<Rightarrow> mint_event list \<Rightarrow> mint_event list \<Rightarrow> bool" where
  "rows_enriched due rows rows' \<longleftrightarrow> list_all2 (enriches due) rows rows'"

lemma enriches_provenance: "enriches due e e' \<Longrightarrow> provenance e' = provenance e"
  by (auto simp: enriches_def)

lemma rows_enriched_refl [simp]: "rows_enriched due rows rows"
  unfolding rows_enriched_def by (rule list_all2_refl) (simp add: enriches_def)

lemma rows_enriched_mono:
  "rows_enriched due rows rows' \<Longrightarrow> (\<And>e. due e \<Longrightarrow> not_enriched e \<Longrightarrow> due' e) \<Longrightarrow> rows_enriched due' rows rows'"
  unfolding rows_enriched_def by (erule list_all2_mono) (auto simp: enriches_def)

lemma rows_enriched_trans:
  assumes "rows_enriched due rows rows1" and "rows_enriched due rows1 rows2"
  shows "rows_enriched due rows rows2"
  using assms unfolding rows_enriched_def
  by (rule list_all2_trans [rotated]) (auto simp: enriches_def)

lemma rows_enriched_provenance:
  "rows_enriched due rows rows' \<Longrightarrow> map provenance rows' = map provenance rows"
  unfolding rows_enriched_def by (induction rule: list_all2_induct) (auto dest: enriches_provenance)

lemma enrich_mint_reason:
  assumes "enrich_mint checksum m tx receipt False None = Inr x"
  shows "enriched_identity_reason_code x \<noteq> ''not_enriched'' \<and> enriched_identity_confidence x \<in> {0..100}"
  using assms by (auto simp: enrich_mint_def Let_def split: option.splits if_splits elim!: attempt_InrE)

lemma enrich_rows_InrD:
  assumes "enrich_rows checksum address txh tx receipt (due_for cid h) rows = Inr rows'"
  shows "rows_enriched (due_for cid h) rows rows' \<and> (\<forall>e' \<in> set rows'. \<not> due_for cid h e')"
  using assms
proof (induction rows arbitrary: rows')
  case (Cons e rows)
  then obtain e' es' where rows': "rows' = e' # es'"
    and rest: "enrich_rows checksum address txh tx receipt (due_for cid h) rows = Inr es'"
    and one: "(if due_for cid h e
         then attempt (enrich_mint checksum (stored_mint address txh e) tx receipt False None)
           (\<lambda>x. Inr (enriched_event e x)) else Inr e) = Inr e'"
    by (auto elim!: attempt_InrE)
  have "enriches (due_for cid h) e e' \<and> \<not> due_for cid h e'"
  proof (cases "due_for cid h e")
    case True
    with one obtain x where x: "enrich_mint checksum (stored_mint address txh e) tx receipt False None = Inr x"
      "e' = enriched_event e x" by (auto elim!: attempt_InrE)
    with enrich_mint_reason [OF x(1)] True show ?thesis
      by (auto simp: enriches_def due_for_def not_enriched_def enriched_event_def provenance_def)
  qed (use one in \<open>simp add: enriches_def\<close>)
  with Cons.IH [OF rest] show ?case by (simp add: rows' rows_enriched_def)
qed simp

lemma append_evidence_InrD:
  assumes "append_evidence dr lib kind alias block txh payload db = Inr db'" and "kind \<noteq> EvidenceKind_LOG"
  shows "db' = db\<lparr> raw_evidences := raw_evidences db', drawn := drawn db' \<rparr> \<and> adds_evidence lib db db'"
proof -
  from assms(1) obtain tx made where insert: "insert_evidence (new_evidence dr (drawn db) kind
      (content_hash lib (kinded kind payload)) alias block tx payload) db = Inr (made, db')"
    by (auto simp: append_evidence_def elim!: attempt_InrE)
  let ?row = "new_evidence dr (drawn db) kind (content_hash lib (kinded kind payload)) alias block tx payload"
  note stored = insert_evidence_InrD [OF insert]
  have "adds_evidence lib db db'" using stored [THEN conjunct2, THEN conjunct2]
  proof (elim disjE conjE)
    assume "raw_evidences db' = raw_evidences db @ [?row]" "\<forall>r \<in> set (raw_evidences db). \<not> evidence_clash ?row r"
    moreover have "evidence_ok lib ?row"
      using stored [THEN conjunct2, THEN conjunct1] assms(2)
      by (simp add: evidence_ok_def evidence_checks_def new_evidence_def)
    ultimately show ?thesis
      by (intro adds_evidence_def [THEN iffD2] exI [of _ "[?row]"]) (simp add: unique_table_snoc)
  qed (simp add: adds_evidence_same)
  with stored show ?thesis by blast
qed

definition same_scan_state :: "ethereum_db \<Rightarrow> ethereum_db \<Rightarrow> bool" where
  "same_scan_state db db' \<longleftrightarrow> collections db' = collections db \<and> scan_jobs db' = scan_jobs db \<and>
     scan_checkpoints db' = scan_checkpoints db"

lemma same_scan_state_refl [simp]: "same_scan_state db db"
  by (simp add: same_scan_state_def)

lemma append_evidence_frame:
  assumes "append_evidence dr lib kind alias block txh payload db = Inr db'" and "kind \<noteq> EvidenceKind_LOG"
  shows "same_scan_state db db' \<and> mint_events db' = mint_events db \<and> adds_evidence lib db db'"
proof -
  note D = append_evidence_InrD [OF assms]
  have "same_scan_state db db' \<and> mint_events db' = mint_events db"
    by (subst D [THEN conjunct1], subst D [THEN conjunct1]) (simp add: same_scan_state_def)
  with D show ?thesis by blast
qed

lemma store_enrichment_InrD:
  assumes "store_enrichment dr lib alias cid address h tx receipt trace db = Inr (u, db')"
  shows "rows_enriched (due_for cid h) (mint_events db) (mint_events db') \<and>
    (\<forall>e \<in> set (mint_events db'). \<not> due_for cid h e) \<and>
    adds_evidence lib db db' \<and> same_scan_state db db'"
proof -
  let ?txh = "prefixed_hex h"
  from assms obtain db1 db2 db3 rows where
    one: "append_evidence dr lib EvidenceKind_TRANSACTION alias (tx_block_number tx) ?txh
      (transaction_payload tx) db = Inr db1"
    and two: "append_evidence dr lib EvidenceKind_RECEIPT alias (receipt_block_number receipt) ?txh
      (receipt_payload receipt) db1 = Inr db2"
    and three: "(case trace of None \<Rightarrow> Inr db2
      | Some payload \<Rightarrow> append_evidence dr lib EvidenceKind_TRACE alias (receipt_block_number receipt)
          ?txh payload db2) = Inr db3"
    and rows: "enrich_rows (lib_checksum lib) address ?txh tx receipt (due_for cid h) (mint_events db3) = Inr rows"
    and db': "db' = db3\<lparr> mint_events := rows \<rparr>"
    by (auto simp: store_enrichment_def Let_def split: if_splits elim!: attempt_InrE)
  have "same_scan_state db2 db3 \<and> mint_events db3 = mint_events db2 \<and> adds_evidence lib db2 db3"
    using three by (cases trace) (auto dest: append_evidence_frame)
  with append_evidence_frame [OF one] append_evidence_frame [OF two]
  have same: "same_scan_state db db3" "mint_events db3 = mint_events db" and "adds_evidence lib db db3"
    by (auto simp: same_scan_state_def intro: adds_evidence_trans)
  moreover from this(3) have "adds_evidence lib db db'" by (simp add: adds_evidence_def db')
  moreover have "same_scan_state db db'" using same(1) by (simp add: same_scan_state_def db')
  ultimately show ?thesis using enrich_rows_InrD [OF rows] by (simp add: db')
qed

definition due_among :: "uuid \<Rightarrow> bytes list \<Rightarrow> mint_event \<Rightarrow> bool" where
  "due_among cid hs e \<longleftrightarrow> event_collection_id e = cid \<and> event_transaction_hash e \<in> set hs \<and> not_enriched e"

lemma rows_enriched_keeps_none:
  assumes "rows_enriched due rows rows'" and "\<forall>e \<in> set rows. \<not> due_for cid h e"
  shows "\<forall>e \<in> set rows'. \<not> due_for cid h e"
  using assms unfolding rows_enriched_def
  by (induction rule: list_all2_induct) (auto simp: enriches_def due_for_def)

lemma enrich_hashes_cases:
  assumes "enrich_hashes dr lib prov alias cid address (h # hs) warnings p db = (answer, p', db')"
  shows "(\<exists>e. answer = Inl e) \<and> db' = db \<or>
    (\<exists>tx receipt trace warnings1 p1 db1 u.
       store_enrichment dr lib alias cid address h tx receipt trace db = Inr (u, db1) \<and>
       enrich_hashes dr lib prov alias cid address hs warnings1 p1 db1 = (answer, p', db'))"
  using assms
  by (fastforce simp: Let_def split: prod.splits sum.splits exn.splits elim!: transact.elims)

lemma enrich_hashes_ok:
  assumes "enrich_hashes dr lib prov alias cid address hs warnings p db = (answer, p', db')"
  shows "rows_enriched (due_among cid hs) (mint_events db) (mint_events db') \<and>
    adds_evidence lib db db' \<and> same_scan_state db db' \<and>
    ((\<exists>ws. answer = Inr ws) \<longrightarrow> (\<forall>h \<in> set hs. \<forall>e \<in> set (mint_events db'). \<not> due_for cid h e))"
  using assms
proof (induction hs arbitrary: warnings p db)
  case (Cons h hs)
  from enrich_hashes_cases [OF Cons.prems] show ?case
  proof (elim disjE exE conjE)
    fix tx receipt trace warnings1 p1 db1 u
    assume "store_enrichment dr lib alias cid address h tx receipt trace db = Inr (u, db1)"
      and rest: "enrich_hashes dr lib prov alias cid address hs warnings1 p1 db1 = (answer, p', db')"
    from store_enrichment_InrD [OF this(1)] Cons.IH [OF rest]
    have rows: "rows_enriched (due_for cid h) (mint_events db) (mint_events db1)"
        "rows_enriched (due_among cid hs) (mint_events db1) (mint_events db')"
      and none: "\<forall>e \<in> set (mint_events db1). \<not> due_for cid h e"
      and evidence: "adds_evidence lib db db1" "adds_evidence lib db1 db'"
      and same: "same_scan_state db db1" "same_scan_state db1 db'"
      and last: "(\<exists>ws. answer = Inr ws) \<longrightarrow>
        (\<forall>h \<in> set hs. \<forall>e \<in> set (mint_events db'). \<not> due_for cid h e)" by blast+
    have "rows_enriched (due_among cid (h # hs)) (mint_events db) (mint_events db')"
      by (rule rows_enriched_trans; rule rows_enriched_mono, rule rows)
        (auto simp: due_for_def due_among_def)
    moreover have "\<forall>e \<in> set (mint_events db'). \<not> due_for cid h e"
      by (rule rows_enriched_keeps_none [OF rows(2) none])
    ultimately show ?thesis
      using adds_evidence_trans [OF evidence] same last by (auto simp: same_scan_state_def)
  qed simp
qed simp

section \<open>The invariant of the store\<close>

definition store_ok :: "libraries \<Rightarrow> ethereum_db \<Rightarrow> bool" where
  "store_ok lib db \<longleftrightarrow>
     unique_table evidence_clash (raw_evidences db) \<and> unique_table event_clash (mint_events db) \<and>
     (\<forall>r \<in> set (raw_evidences db). evidence_ok lib r) \<and>
     (\<forall>e \<in> set (mint_events db). event_checks e \<and> known_collection db (event_collection_id e) \<and>
        (\<exists>m. traces lib db (event_raw_evidence_id e) m \<and> records_mint e m))"

text \<open>
  A step of the store: a batch is committed, a range is enriched, whatever either ends with, or
  another part of the program adds collections, jobs or checkpoints.
\<close>

inductive store_step :: "libraries \<Rightarrow> 'p evm_provider \<Rightarrow> ethereum_db \<Rightarrow> ethereum_db \<Rightarrow> bool"
  for lib :: libraries and prov :: "'p evm_provider"
where
  committed: "commit_batch dr lib mc b db = (answer, db') \<Longrightarrow> store_step lib prov db db'"
| enriched: "enrich_range dr lib prov alias cid start_block end_block p db = (answer, p', db') \<Longrightarrow>
    store_step lib prov db db'"
| other: "raw_evidences db' = raw_evidences db \<Longrightarrow> mint_events db' = mint_events db \<Longrightarrow>
    (\<And>cid. known_collection db cid \<Longrightarrow> known_collection db' cid) \<Longrightarrow> store_step lib prov db db'"

text \<open>
  What every step keeps: the evidence as it is, and each event with its provenance, unchanged once it
  is enriched; new evidence and new events come at the end.
\<close>

definition event_kept :: "mint_event \<Rightarrow> mint_event \<Rightarrow> bool" where
  "event_kept e e' \<longleftrightarrow> provenance e' = provenance e \<and> (not_enriched e \<or> e' = e)"

definition store_grows :: "ethereum_db \<Rightarrow> ethereum_db \<Rightarrow> bool" where
  "store_grows db db' \<longleftrightarrow> (\<exists>evidence. raw_evidences db' = raw_evidences db @ evidence) \<and>
     (\<exists>old new. mint_events db' = old @ new \<and> list_all2 event_kept (mint_events db) old)"

lemma event_kept_refl [simp]: "event_kept e e"
  by (simp add: event_kept_def)

lemma event_kept_rows_refl [simp]: "list_all2 event_kept rows rows"
  by (rule list_all2_refl) simp

lemma event_kept_trans: "event_kept e e1 \<Longrightarrow> event_kept e1 e2 \<Longrightarrow> event_kept e e2"
  by (auto simp: event_kept_def)

lemma store_growsI:
  "raw_evidences db' = raw_evidences db @ evidence \<Longrightarrow> mint_events db' = old @ new \<Longrightarrow>
     list_all2 event_kept (mint_events db) old \<Longrightarrow> store_grows db db'"
  unfolding store_grows_def by blast

lemma store_grows_same:
  "raw_evidences db' = raw_evidences db \<Longrightarrow> mint_events db' = mint_events db \<Longrightarrow> store_grows db db'"
  by (rule store_growsI [where evidence = "[]" and old = "mint_events db" and new = "[]"])
    (simp_all only: append_Nil2 event_kept_rows_refl)

lemma store_grows_refl [simp]: "store_grows db db"
  by (simp add: store_grows_same)

lemma store_grows_trans:
  assumes "store_grows db db1" and "store_grows db1 db2"
  shows "store_grows db db2"
proof -
  from assms obtain evidence evidence1 old new old1 new1 where
    ev: "raw_evidences db1 = raw_evidences db @ evidence" "raw_evidences db2 = raw_evidences db1 @ evidence1"
    and old: "mint_events db1 = old @ new" "list_all2 event_kept (mint_events db) old"
    and old1: "mint_events db2 = old1 @ new1" "list_all2 event_kept (old @ new) old1"
    by (auto simp: store_grows_def)
  from old1(2) obtain us vs where "old1 = us @ vs" "list_all2 event_kept old us"
    by (auto simp: list_all2_append1)
  with old(2) old1(1) have "mint_events db2 = us @ (vs @ new1)" "list_all2 event_kept (mint_events db) us"
    using list_all2_trans [of event_kept event_kept event_kept, OF event_kept_trans] by auto
  with ev show ?thesis unfolding store_grows_def by auto
qed

lemma commit_batch_cases:
  assumes "commit_batch dr lib mc b db = (answer, db')"
  shows "db' = db \<or> adds_evidence lib db db' \<and> adds_events mc (traces lib db') db db' \<and>
    collections db' = collections db \<and> scan_jobs db' = scan_jobs db"
  using assms store_batch_InrD [of dr lib mc b db]
  by (cases "store_batch dr lib mc b db") (auto simp: commit_batch_def)

lemma enrich_range_cases:
  assumes "enrich_range dr lib prov alias cid start_block end_block p db = (answer, p', db')"
  shows "rows_enriched (\<lambda>e. event_collection_id e = cid) (mint_events db) (mint_events db') \<and>
    adds_evidence lib db db' \<and> same_scan_state db db'"
proof (cases "select_one (\<lambda>c. collection_id c = cid) (collections db)")
  case (Some c)
  with assms obtain hs answer' where
    "enrich_hashes dr lib prov alias cid (collection_checksum_address c) hs [] p db = (answer', p', db')"
    by (auto simp: enrich_range_def split: prod.splits)
  from enrich_hashes_ok [OF this] show ?thesis
    by (auto simp: due_among_def elim: rows_enriched_mono)
qed (use assms in \<open>auto simp: enrich_range_def\<close>)

lemma rows_enriched_kept: "rows_enriched due rows rows' \<Longrightarrow> list_all2 event_kept rows rows'"
  unfolding rows_enriched_def
  by (erule list_all2_mono) (auto simp: enriches_def event_kept_def)

lemma store_step_grows:
  assumes "store_step lib prov db db'"
  shows "store_grows db db'"
  using assms
proof cases
  case (committed dr mc b answer)
  from commit_batch_cases [OF committed] show ?thesis
  proof (elim disjE conjE)
    assume "adds_evidence lib db db'" "adds_events mc (traces lib db') db db'"
    then show ?thesis unfolding store_grows_def adds_evidence_def adds_events_def
      using event_kept_rows_refl by blast
  qed simp
next
  case (enriched dr als cid a b p answer q)
  from enrich_range_cases [OF enriched] obtain new where "raw_evidences db' = raw_evidences db @ new"
    "list_all2 event_kept (mint_events db) (mint_events db')"
    by (auto simp: adds_evidence_def dest: rows_enriched_kept)
  then show ?thesis by (auto intro: store_growsI [where new = "[]"])
next
  case other
  then show ?thesis by (simp add: store_grows_same)
qed

lemma rows_enriched_unique:
  assumes "rows_enriched due rows rows'" and "unique_table event_clash rows"
  shows "unique_table event_clash rows'"
proof -
  from assms(1) have "list_all2 (\<lambda>e e'. provenance e' = provenance e) rows rows'"
    unfolding rows_enriched_def by (rule list_all2_mono) (rule enriches_provenance)
  then have same: "length rows' = length rows"
    "\<And>i. i < length rows \<Longrightarrow> provenance (rows' ! i) = provenance (rows ! i)"
    by (auto simp: list_all2_conv_all_nth)
  show ?thesis unfolding unique_table_def sorted_wrt_iff_nth_less
  proof (intro allI impI)
    fix i j assume ij: "i < j" "j < length rows'"
    with assms(2) same(1) have "\<not> event_clash (rows ! j) (rows ! i)"
      by (auto simp: unique_table_def sorted_wrt_iff_nth_less)
    with provenance_clash [OF same(2) same(2), of j i] ij same(1)
    show "\<not> event_clash (rows' ! j) (rows' ! i)" by simp
  qed
qed

lemma sorted_wrt_distinct_map: "sorted_wrt (\<lambda>r r'. f r \<noteq> f r') rows \<longleftrightarrow> distinct (map f rows)"
  by (induction rows) auto

lemma store_ok_enriched:
  assumes "store_ok lib db" and "rows_enriched due (mint_events db) (mint_events db')"
    and "adds_evidence lib db db'" and "collections db' = collections db"
  shows "store_ok lib db'"
proof -
  have "event_checks e' \<and> known_collection db' (event_collection_id e') \<and>
      (\<exists>m. traces lib db' (event_raw_evidence_id e') m \<and> records_mint e' m)"
    if "e' \<in> set (mint_events db')" for e'
  proof -
    from that obtain i where i: "i < length (mint_events db')" "e' = mint_events db' ! i"
      by (auto simp: in_set_conv_nth)
    define e where "e = mint_events db ! i"
    from i assms(2) have e: "e \<in> set (mint_events db)" "enriches due e e'"
      unfolding e_def by (auto simp: rows_enriched_def list_all2_conv_all_nth)
    note same = provenance_fields [OF enriches_provenance [OF e(2)]]
    from assms(1) e(1) have "event_checks e" "known_collection db (event_collection_id e)"
      "\<exists>m. traces lib db (event_raw_evidence_id e) m \<and> records_mint e m"
      by (auto simp: store_ok_def)
    moreover from e(2) calculation(1) same have "event_checks e'"
      by (auto simp: enriches_def event_checks_def)
    ultimately show ?thesis
      using same assms(4) traces_mono [OF assms(3)] provenance_records [OF enriches_provenance [OF e(2)]]
      by (auto simp: known_collection_def)
  qed
  moreover have "unique_table event_clash (mint_events db')"
    using rows_enriched_unique [OF assms(2)] assms(1) by (simp add: store_ok_def)
  ultimately show ?thesis
    using assms(1,3) by (auto simp: store_ok_def adds_evidence_def)
qed

lemma store_ok_committed:
  assumes "store_ok lib db" and "adds_evidence lib db db'" and "adds_events mc (traces lib db') db db'"
    and "collections db' = collections db"
  shows "store_ok lib db'"
proof -
  from assms(3) obtain new where new: "mint_events db' = mint_events db @ new"
    "\<forall>e \<in> set new. made_from mc (traces lib db') e \<and> known_collection db (event_collection_id e)"
    "unique_table event_clash (mint_events db) \<longrightarrow> unique_table event_clash (mint_events db')"
    by (auto simp: adds_events_def)
  have "event_checks e \<and> known_collection db' (event_collection_id e) \<and>
      (\<exists>m. traces lib db' (event_raw_evidence_id e) m \<and> records_mint e m)"
    if "e \<in> set (mint_events db')" for e
  proof (cases "e \<in> set new")
    case True
    with new(2) assms(4) show ?thesis by (auto simp: made_from_def known_collection_def)
  next
    case False
    with that new(1) assms(1) have "event_checks e" "known_collection db (event_collection_id e)"
      "\<exists>m. traces lib db (event_raw_evidence_id e) m \<and> records_mint e m"
      by (auto simp: store_ok_def)
    with assms(4) traces_mono [OF assms(2)] show ?thesis unfolding known_collection_def by metis
  qed
  with assms(1,2) new(3) show ?thesis by (auto simp: store_ok_def adds_evidence_def)
qed

lemma store_step_ok:
  assumes "store_step lib prov db db'" and "store_ok lib db"
  shows "store_ok lib db'"
  using assms(1)
proof cases
  case (committed dr mc b answer)
  from commit_batch_cases [OF committed] store_ok_committed [OF assms(2)] assms(2) show ?thesis by blast
next
  case (enriched dr als cid a b p answer q)
  from enrich_range_cases [OF enriched] show ?thesis
    by (intro store_ok_enriched [OF assms(2)]) (auto simp: same_scan_state_def)
next
  case other
  with assms(2) show ?thesis by (auto simp: store_ok_def traces_def)
qed

lemma store_steps_ok: "(store_step lib prov)\<^sup>*\<^sup>* db db' \<Longrightarrow> store_ok lib db \<Longrightarrow> store_ok lib db'"
  by (induction rule: rtranclp_induct) (auto intro: store_step_ok)

lemma store_steps_grow: "(store_step lib prov)\<^sup>*\<^sup>* db db' \<Longrightarrow> store_grows db db'"
  by (induction rule: rtranclp_induct) (auto intro: store_grows_trans store_step_grows)

section \<open>Properties\<close>

text \<open>
  C11. Every stored mint is real: in whatever order batches are committed, ranges are enriched and
  collections are added, with whatever failures, each mint of the store names a piece of stored
  evidence whose content hash is that of a log which the strict decoder decodes to exactly this mint;
  no two mints have the same transaction, log index and sub index, and no two pieces of evidence the
  same content.
\<close>

theorem stored_mints_trace:
  assumes "(store_step lib prov)\<^sup>*\<^sup>* db db'" and "raw_evidences db = []" and "mint_events db = []"
  shows "(\<forall>e \<in> set (mint_events db'). \<exists>r \<in> set (raw_evidences db'). \<exists>log mints m.
      evidence_id r = event_raw_evidence_id e \<and>
      evidence_content_hash r = lib_sha256 lib (utf8 (json_dumps (evidence_payload log))) \<and>
      decode_log lib log = Inr mints \<and> m \<in> set mints \<and> records_mint e m) \<and>
    distinct (map event_position (mint_events db')) \<and>
    distinct (map evidence_content_hash (raw_evidences db'))"
proof -
  have "store_ok lib db" using assms(2,3) by (simp add: store_ok_def)
  with assms(1) have ok: "store_ok lib db'" by (rule store_steps_ok)
  then have unique: "unique_table event_clash (mint_events db')" "unique_table evidence_clash (raw_evidences db')"
    by (simp_all add: store_ok_def)
  have "distinct (map event_position (mint_events db'))"
    unfolding sorted_wrt_distinct_map [symmetric]
    by (rule sorted_wrt_mono_rel [OF _ unique(1) [unfolded unique_table_def]])
      (auto simp: event_clash_def same_position_def event_position_def)
  moreover have "distinct (map evidence_content_hash (raw_evidences db'))"
    unfolding sorted_wrt_distinct_map [symmetric]
    by (rule sorted_wrt_mono_rel [OF _ unique(2) [unfolded unique_table_def]])
      (auto simp: evidence_clash_def same_content_def)
  moreover have "\<exists>r \<in> set (raw_evidences db'). \<exists>log mints m. evidence_id r = event_raw_evidence_id e \<and>
      evidence_content_hash r = lib_sha256 lib (utf8 (json_dumps (evidence_payload log))) \<and>
      decode_log lib log = Inr mints \<and> m \<in> set mints \<and> records_mint e m"
    if "e \<in> set (mint_events db')" for e
    using ok that unfolding store_ok_def traces_def log_hash_def content_hash_def by blast
  ultimately show ?thesis by blast
qed

text \<open>
  C14. Stored observations are immutable: later steps leave every piece of evidence as it is, leave of
  every mint its provenance (collection, evidence, block, transaction, token, quantity, recipient), and
  leave a mint that is enriched entirely unchanged; rows are only added behind the ones there were.
\<close>

theorem observations_immutable:
  assumes "(store_step lib prov)\<^sup>*\<^sup>* db db'"
  shows "take (length (raw_evidences db)) (raw_evidences db') = raw_evidences db \<and>
    (\<forall>i < length (mint_events db). i < length (mint_events db') \<and>
       provenance (mint_events db' ! i) = provenance (mint_events db ! i) \<and>
       (\<not> not_enriched (mint_events db ! i) \<longrightarrow> mint_events db' ! i = mint_events db ! i))"
proof -
  from store_steps_grow [OF assms] obtain evidence old new where
    "raw_evidences db' = raw_evidences db @ evidence" and rows: "mint_events db' = old @ new"
    and kept: "list_all2 event_kept (mint_events db) old"
    by (auto simp: store_grows_def)
  moreover from kept have "length old = length (mint_events db)"
    "\<And>i. i < length (mint_events db) \<Longrightarrow> event_kept (mint_events db ! i) (old ! i)"
    by (auto simp: list_all2_conv_all_nth)
  ultimately show ?thesis by (auto simp: nth_append event_kept_def)
qed

text \<open>
  C13. Enrichment is complete and runs once: when the enrichment of a range returns, no mint of the
  collection in the range is left without a reason, only such mints of the collection were changed,
  each keeps its provenance and names an initiator only with a confidence between 0 and 100; and
  enriching the range again asks the provider nothing and changes nothing.
\<close>

theorem enrichment_complete:
  assumes "enrich_range dr lib prov alias cid start_block end_block p db = (Inr warnings, p', db')"
    and "known_collection db cid"
  shows "(\<forall>e \<in> set (mint_events db'). \<not> pending_in cid start_block end_block e) \<and>
    length (mint_events db') = length (mint_events db) \<and>
    (\<forall>i < length (mint_events db). mint_events db' ! i = mint_events db ! i \<or>
       event_collection_id (mint_events db ! i) = cid \<and> not_enriched (mint_events db ! i) \<and>
       provenance (mint_events db' ! i) = provenance (mint_events db ! i) \<and>
       event_identity_confidence (mint_events db' ! i) \<in> {0..100}) \<and>
    enrich_range dr lib prov alias cid start_block end_block q db' = (Inr [], q, db')"
proof -
  from assms(2) obtain c where c: "select_one (\<lambda>c. collection_id c = cid) (collections db) = Some c"
    using select_one_None_iff [of "\<lambda>c. collection_id c = cid" "collections db"]
    by (cases "select_one (\<lambda>c. collection_id c = cid) (collections db)")
      (auto simp: known_collection_def list_ex_iff)
  define hs where "hs = remdups (map event_transaction_hash (filter (pending_in cid start_block end_block) (mint_events db)))"
  from assms(1) c obtain ws where run: "enrich_hashes dr lib prov alias cid (collection_checksum_address c)
      hs [] p db = (Inr ws, p', db')"
    by (auto simp: enrich_range_def hs_def [symmetric] split: prod.splits elim!: attempt_InrE)
  from enrich_hashes_ok [OF run] have rows: "length (mint_events db') = length (mint_events db)"
    "\<And>i. i < length (mint_events db) \<Longrightarrow> enriches (due_among cid hs) (mint_events db ! i) (mint_events db' ! i)"
    and none: "\<And>h e. h \<in> set hs \<Longrightarrow> e \<in> set (mint_events db') \<Longrightarrow> \<not> due_for cid h e"
    and same: "collections db' = collections db"
    unfolding rows_enriched_def same_scan_state_def list_all2_conv_all_nth by auto
  have left: "\<not> pending_in cid start_block end_block e'" if "e' \<in> set (mint_events db')" for e'
  proof
    assume pending: "pending_in cid start_block end_block e'"
    from that obtain i where i: "i < length (mint_events db)" "e' = mint_events db' ! i"
      using rows(1) by (auto simp: in_set_conv_nth)
    with rows(2) [OF i(1)] pending have "e' = mint_events db ! i"
      by (auto simp: enriches_def pending_in_def)
    with i(1) nth_mem [OF i(1)] pending have "event_transaction_hash e' \<in> set hs"
      by (simp add: hs_def)
    from none [OF this that] pending show False by (simp add: due_for_def pending_in_def)
  qed
  then have "filter (pending_in cid start_block end_block) (mint_events db') = []" by simp
  with c same have "enrich_range dr lib prov alias cid start_block end_block q db' = (Inr [], q, db')"
    by (simp add: enrich_range_def)
  with left rows show ?thesis by (auto simp: enriches_def due_among_def)
qed

section \<open>Examples\<close>

text \<open>A store with one mint that is still to be enriched, and a digest that is always the same.\<close>

definition block_raw :: bytes where
  "block_raw = replicate 32 3"

definition tx_raw :: bytes where
  "tx_raw = replicate 32 2"

lemma one_hash_raw: "one_hash 3 = prefixed_hex block_raw" "one_hash 2 = prefixed_hex tx_raw"
  by (simp_all add: one_hash_def prefixed_hex_def block_raw_def tx_raw_def)

lemma length_raw [simp]: "length block_raw = 32" "length tx_raw = 32"
  by (simp_all add: block_raw_def tx_raw_def)

definition pending_event :: mint_event where
  "pending_event = new_event 1 4 0 \<lparr> mint_collection_address = ''0xc'',
     mint_token_standard = TokenStandard_ERC721, mint_token_id = 7, mint_quantity = 1,
     mint_recipient = ''0xa0'', mint_operator = None, mint_block_number = 3,
     mint_block_hash = prefixed_hex block_raw, mint_transaction_hash = prefixed_hex tx_raw,
     mint_log_index = 2, mint_sub_index = 0 \<rparr> block_raw tx_raw"

definition flat_libraries :: libraries where
  "flat_libraries = sample_libraries\<lparr> lib_sha256 := (\<lambda>m. replicate 32 0) \<rparr>"

definition pending_db :: ethereum_db where
  "pending_db = sample_mint_db\<lparr> mint_events := [pending_event],
     raw_evidences := [new_evidence counting 0 EvidenceKind_LOG (replicate 32 0) ''chain'' 3 tx_raw JNull] \<rparr>"

lemma hex_bytes_prefixed: "length raw = n \<Longrightarrow> hex_bytes n (prefixed_hex raw) = Inr raw"
  by (simp add: hex_bytes_def prefixed_hex_def)

lemma append_flat_evidence:
  assumes "length alias \<le> 64" and "bigint block" and "length raw = 32"
    and "list_ex (\<lambda>r. evidence_content_hash r = replicate 32 0) (raw_evidences db)"
  shows "append_evidence dr flat_libraries kind alias block (prefixed_hex raw) payload db =
    Inr (db\<lparr> drawn := Suc (drawn db) \<rparr>)"
proof -
  have "list_ex (same_content (new_evidence dr n kind (replicate 32 0) alias block raw payload))
      (raw_evidences db)" for n
    using assms(4)
    by (simp add: list_ex_iff same_content_def new_evidence_def eq_commute [of "replicate 32 0"])
  with assms(1-3) show ?thesis
    by (simp add: append_evidence_def hex_bytes_prefixed insert_evidence_def evidence_fits_def
        evidence_checks_def content_hash_def flat_libraries_def insert_or_nothing_def)
      (simp add: new_evidence_def)
qed

definition enriched_db :: "string list outcome \<times> unit \<times> ethereum_db" where
  "enriched_db = enrich_range counting flat_libraries mint_chain ''chain'' 4 1 5 () pending_db"

definition direct_transaction :: evm_transaction where
  "direct_transaction = \<lparr> tx_hash = prefixed_hex tx_raw, tx_sender = ''0xa0'', tx_recipient = Some ''0xc'',
     tx_value_wei = 5, tx_input_data = ''0x'', tx_block_number = 3 \<rparr>"

definition direct_receipt :: evm_receipt where
  "direct_receipt = \<lparr> receipt_transaction_hash = prefixed_hex tx_raw, receipt_block_number = 3,
     receipt_block_hash = prefixed_hex block_raw, receipt_status = 1, receipt_gas_used = 1,
     receipt_effective_gas_price = None \<rparr>"

lemma pending_event_enriched:
  "\<exists>e. enrich_rows (lib_checksum flat_libraries) ''0xc'' (prefixed_hex tx_raw) direct_transaction
      direct_receipt (due_for 4 tx_raw) [pending_event] = Inr [e] \<and>
    event_fits e \<and> event_checks e \<and> event_probable_initiator e = Some ''0xa0''"
  by (simp add: enrich_mint_def evidence_refusal_def is_direct_def direct_transaction_def direct_receipt_def
      stored_mint_def pending_event_def new_event_def due_for_def not_enriched_def flat_libraries_def
      sample_libraries_def classify_mint_def decide_def enriched_event_def event_fits_def event_checks_def
      bigint_def integer_fits_def numeric78_def lower_def)

lemma mint_chain_answers:
  "provider_transaction mint_chain (prefixed_hex tx_raw) () = (Inr direct_transaction, ())"
  "provider_receipt mint_chain (prefixed_hex tx_raw) () = (Inr direct_receipt, ())"
  "provider_trace_transaction mint_chain h () = (Inl (ProviderError ''rpc_error'' False False), ())"
  by (simp_all add: mint_chain_def direct_transaction_def direct_receipt_def one_hash_raw)

lemma enriched_db_result:
  "\<exists>db e. enriched_db = (Inr [''trace_unavailable:rpc_error''], (), db) \<and> mint_events db = [e] \<and>
     event_probable_initiator e = Some ''0xa0''"
proof -
  have rows: "list_ex (\<lambda>r. evidence_content_hash r = replicate 32 0) (raw_evidences pending_db)"
    by (simp add: pending_db_def new_evidence_def)
  have pending: "remdups (map event_transaction_hash (filter (pending_in 4 1 5) (mint_events pending_db))) = [tx_raw]"
    by (simp add: pending_db_def pending_event_def new_event_def pending_in_def not_enriched_def)
  have known: "select_one (\<lambda>c. collection_id c = 4) (collections pending_db) = Some sample_collection"
    "collection_checksum_address sample_collection = ''0xc''"
    by (simp_all add: pending_db_def sample_mint_db_def sample_collection_def)
  have events: "mint_events pending_db = [pending_event]" by (simp add: pending_db_def)
  have blocks: "tx_block_number direct_transaction = 3" "receipt_block_number direct_receipt = 3"
    by (simp_all add: direct_transaction_def direct_receipt_def)
  obtain e where e: "enrich_rows (lib_checksum flat_libraries) ''0xc'' (prefixed_hex tx_raw) direct_transaction
      direct_receipt (due_for 4 tx_raw) [pending_event] = Inr [e]" "event_fits e" "event_checks e"
      "event_probable_initiator e = Some ''0xa0''"
    using pending_event_enriched by blast
  show ?thesis
    unfolding enriched_db_def enrich_range_def known pending
    using rows e
    by (simp add: mint_chain_answers Let_def store_enrichment_def append_flat_evidence bigint_def known
        blocks events)
qed


lemma sample_scan_steps:
  assumes "scanned_db = (answer, p, db)"
  shows "(store_step sample_libraries mint_chain)\<^sup>*\<^sup>* sample_mint_db db"
proof -
  have "(commits (commit_batch counting sample_libraries sample_consumer))\<^sup>*\<^sup>* sample_mint_db db"
    by (rule scan_by_commits [OF _ assms [unfolded scanned_db_def]]) (simp add: config_ok_def)
  then show ?thesis
    by (rule mono_rtranclp [rule_format, rotated]) (auto simp: commits_def intro: store_step.committed)
qed

theorem stored_mints_trace_witness:
  "\<exists>db e. scanned_db = (Inr (), (), db) \<and> mint_events db = [e] \<and> event_token_id e = 7 \<and>
     (\<exists>r \<in> set (raw_evidences db). evidence_id r = event_raw_evidence_id e)"
proof -
  obtain db e where run: "scanned_db = (Inr (), (), db)" and e: "mint_events db = [e]" "event_token_id e = 7"
    by (rule scanned_dbE)
  from stored_mints_trace [OF sample_scan_steps [OF run]] e run show ?thesis
    by (auto simp: sample_mint_db_def)
qed

theorem observations_immutable_witness:
  "\<exists>db e. enriched_db = (Inr [''trace_unavailable:rpc_error''], (), db) \<and> mint_events db = [e] \<and>
     provenance e = provenance pending_event \<and>
     take 1 (raw_evidences db) = raw_evidences pending_db"
proof -
  obtain db e where run: "enriched_db = (Inr [''trace_unavailable:rpc_error''], (), db)"
    and e: "mint_events db = [e]"
    using enriched_db_result by blast
  have "(store_step flat_libraries mint_chain)\<^sup>*\<^sup>* pending_db db"
    by (rule r_into_rtranclp) (rule store_step.enriched [OF run [unfolded enriched_db_def]])
  from observations_immutable [OF this] run e show ?thesis by (auto simp: pending_db_def)
qed

theorem enrichment_complete_witness:
  "\<exists>db. enriched_db = (Inr [''trace_unavailable:rpc_error''], (), db) \<and>
     enrich_range counting flat_libraries mint_chain ''chain'' 4 1 5 () db = (Inr [], (), db)"
proof -
  obtain db where run: "enriched_db = (Inr [''trace_unavailable:rpc_error''], (), db)"
    using enriched_db_result by blast
  have "known_collection pending_db 4"
    by (simp add: known_collection_def pending_db_def sample_mint_db_def sample_collection_def)
  from enrichment_complete [OF run [unfolded enriched_db_def] this, of "()"] run show ?thesis by auto
qed

end
