(* ===== verification/Discovery.thy ===== *)
theory Discovery
  imports EvmPorts PyText Enums
begin

text \<open>
  Collection validation and the search for the deployment block
  (\<^verbatim>\<open>app/application/ethereum/collections.py\<close>). The address checks of the Web3 library and the
  provider are arguments. The lemmas say which block the binary search finds and how many times it
  asks the provider.
\<close>

section \<open>The search\<close>

record collection_probe =
  probe_normalized_address :: string
  probe_checksum_address :: string
  probe_deployment_block_number :: int
  probe_deployment_block_hash :: string
  probe_deployment_confidence :: deployment_confidence
  probe_deployment_confidence_value :: int

definition verify_chain :: "'p evm_provider \<Rightarrow> int \<Rightarrow> 'p \<Rightarrow> unit outcome \<times> 'p" where
  "verify_chain prov chain_id =
     ask (provider_chain_id prov) (\<lambda>actual p.
       if actual \<noteq> chain_id
       then (Inl (RuntimeError (''Ethereum provider chain mismatch: expected '' @ str_int chain_id @
          '', received '' @ str_int actual)), p)
       else (Inr (), p))"

function deployment_search ::
  "'p evm_provider \<Rightarrow> string \<Rightarrow> int \<Rightarrow> int \<Rightarrow> 'p \<Rightarrow> int outcome \<times> 'p"
where
  "deployment_search prov checksum low high p =
     (if low < high then
        let middle = (low + high) div 2 in
        case provider_code prov checksum (Height middle) p of
          (Inl e, p1) \<Rightarrow> (Inl e, p1)
        | (Inr code, p1) \<Rightarrow>
            if code \<noteq> [] then deployment_search prov checksum low middle p1
            else deployment_search prov checksum (middle + 1) high p1
      else (Inr low, p))"
  by pat_completeness auto

termination
  by (relation "measure (\<lambda>(prov, checksum, low, high, p). nat (high - low))") auto

declare deployment_search.simps [simp del]

definition probe ::
  "(string \<Rightarrow> bool) \<Rightarrow> (string \<Rightarrow> string) \<Rightarrow> 'p evm_provider \<Rightarrow> int \<Rightarrow> string \<Rightarrow> 'p \<Rightarrow>
     collection_probe outcome \<times> 'p"
where
  "probe is_address to_checksum_address prov chain_id address p =
     (if \<not> is_address address
      then (Inl (InvalidCollection ''collection address is not a valid Ethereum address''), p)
      else
        let checksum = to_checksum_address address in
        ask (verify_chain prov chain_id) (\<lambda>_.
        ask (provider_block prov (Tag ''finalized'')) (\<lambda>finalized.
        ask (provider_code prov checksum (Height (block_number finalized))) (\<lambda>code p3.
          if code = []
          then (Inl (InvalidCollection ''address has no contract code at the finalized boundary''), p3)
          else
            ask (deployment_search prov checksum 0 (block_number finalized)) (\<lambda>low.
            ask (provider_block prov (Height low)) (\<lambda>deployment p5.
              (Inr \<lparr> probe_normalized_address = lower checksum,
                     probe_checksum_address = checksum,
                     probe_deployment_block_number = block_number deployment,
                     probe_deployment_block_hash = block_hash deployment,
                     probe_deployment_confidence = DeploymentConfidence_EXACT,
                     probe_deployment_confidence_value = 100 \<rparr>, p5))) p3))) p)"

section \<open>A provider with a history\<close>

text \<open>
  The provider answers code queries about the address from one history of the chain:
  \<open>deployed n\<close> says whether the address has code after block \<open>n\<close>. It names blocks by their
  numbers.
\<close>

definition answers_from :: "'p evm_provider \<Rightarrow> string \<Rightarrow> (int \<Rightarrow> bool) \<Rightarrow> bool" where
  "answers_from prov checksum deployed \<longleftrightarrow>
     (\<forall>n p code p'. provider_code prov checksum (Height n) p = (Inr code, p') \<longrightarrow>
        (code \<noteq> [] \<longleftrightarrow> deployed n)) \<and>
     (\<forall>n p b p'. provider_block prov (Height n) p = (Inr b, p') \<longrightarrow> block_number b = n)"

lemma answers_fromD:
  "answers_from prov checksum deployed \<Longrightarrow>
     provider_code prov checksum (Height n) p = (Inr code, p') \<Longrightarrow> code \<noteq> [] \<longleftrightarrow> deployed n"
  "answers_from prov checksum deployed \<Longrightarrow>
     provider_block prov (Height n) p = (Inr b, p') \<Longrightarrow> block_number b = n"
  unfolding answers_from_def by blast+

lemma middle_between:
  fixes low high :: int
  assumes "low < high"
  shows "low \<le> (low + high) div 2" and "(low + high) div 2 < high"
  using assms by auto

lemma deployment_search_boundary:
  assumes "answers_from prov checksum deployed"
    and "deployment_search prov checksum low high p = (Inr n, p')"
    and "low \<le> high" and "deployed high" and "low = 0 \<or> \<not> deployed (low - 1)"
  shows "low \<le> n \<and> n \<le> high \<and> deployed n \<and> (n = 0 \<or> \<not> deployed (n - 1))"
  using assms
proof (induction "nat (high - low)" arbitrary: low high p rule: less_induct)
  case less
  show ?case
  proof (cases "low < high")
    case False
    with less.prems show ?thesis by (simp add: deployment_search.simps)
  next
    case True
    let ?m = "(low + high) div 2"
    note m = middle_between [OF True]
    obtain code p1 where code: "provider_code prov checksum (Height ?m) p = (Inr code, p1)"
      and rest: "(if code \<noteq> [] then deployment_search prov checksum low ?m p1
        else deployment_search prov checksum (?m + 1) high p1) = (Inr n, p')"
      using less.prems(2) True
      by (auto simp: deployment_search.simps [of prov checksum low] Let_def
          split: prod.splits sum.splits)
    note dep = answers_fromD(1) [OF less.prems(1) code]
    show ?thesis
    proof (cases "code = []")
      case False
      then have "nat (?m - low) < nat (high - low)" using m by auto
      from less.hyps [OF this less.prems(1), of p1] False rest dep m less.prems(5)
      show ?thesis by fastforce
    next
      case True
      then have "nat (high - (?m + 1)) < nat (high - low)" using m by auto
      from less.hyps [OF this less.prems(1), of p1] True rest dep m less.prems(4)
      show ?thesis by fastforce
    qed
  qed
qed

text \<open>How many code queries the search makes, for a provider whose state counts them.\<close>

definition counts_code_queries :: "'p evm_provider \<Rightarrow> string \<Rightarrow> ('p \<Rightarrow> nat) \<Rightarrow> bool" where
  "counts_code_queries prov checksum asked \<longleftrightarrow>
     (\<forall>tag p. asked (snd (provider_code prov checksum tag p)) = Suc (asked p))"

lemma deployment_search_queries:
  assumes "counts_code_queries prov checksum asked"
    and "deployment_search prov checksum low high p = (res, p')"
    and "low \<le> high" and "high - low < 2 ^ k"
  shows "asked p' \<le> asked p + k"
  using assms(2-)
proof (induction k arbitrary: low high p)
  case 0
  then show ?case by (simp add: deployment_search.simps)
next
  case (Suc k)
  show ?case
  proof (cases "low < high")
    case False
    with Suc.prems show ?thesis by (simp add: deployment_search.simps)
  next
    case True
    let ?m = "(low + high) div 2"
    note m = middle_between [OF True]
    have half: "?m - low < 2 ^ k" "high - (?m + 1) < 2 ^ k" using Suc.prems(3) by auto
    obtain answer p1 where code: "provider_code prov checksum (Height ?m) p = (answer, p1)"
      by fastforce
    have one: "asked p1 = Suc (asked p)"
      using assms(1) code unfolding counts_code_queries_def by (metis snd_conv)
    show ?thesis
    proof (cases answer)
      case (Inl e)
      with Suc.prems(1) True code one show ?thesis
        by (simp add: deployment_search.simps [of prov checksum low] Let_def)
    next
      case (Inr bytes)
      then have "(if bytes \<noteq> [] then deployment_search prov checksum low ?m p1
          else deployment_search prov checksum (?m + 1) high p1) = (res, p')"
        using Suc.prems(1) True code
        by (simp add: deployment_search.simps [of prov checksum low] Let_def)
      with Suc.IH [of low ?m p1] Suc.IH [of "?m + 1" high p1] m half one show ?thesis
        by (auto split: if_splits)
    qed
  qed
qed

section \<open>Properties\<close>

text \<open>The stages of a probe that answers.\<close>

lemma probe_InrE:
  assumes "probe is_address to_checksum prov chain_id address p = (Inr r, p')"
  obtains fin code p0 p1 p2 p3 p4 where
    "is_address address"
    "provider_block prov (Tag ''finalized'') p0 = (Inr fin, p1)"
    "provider_code prov (to_checksum address) (Height (block_number fin)) p1 = (Inr code, p2)"
    "code \<noteq> []"
    "deployment_search prov (to_checksum address) 0 (block_number fin) p2 = (Inr p4, p3)"
    "\<exists>b. provider_block prov (Height p4) p3 = (Inr b, p') \<and>
      probe_deployment_block_number r = block_number b \<and>
      probe_deployment_block_hash r = block_hash b"
    "probe_deployment_confidence r = DeploymentConfidence_EXACT"
  using assms
  by (auto simp: probe_def Let_def split: if_splits elim!: ask_InrE)

text \<open>
  C29. The deployment search finds a boundary: when the provider answers from one history of the
  chain, the block a probe reports is at most the finalized one, the address has code after it and,
  unless it is block zero, none after the block before. If code once deployed stays, it is the
  first block with code.
\<close>

theorem probe_finds_boundary:
  assumes "probe is_address to_checksum prov chain_id address p = (Inr r, p')"
    and "answers_from prov (to_checksum address) deployed"
    and "\<forall>p b p1. provider_block prov (Tag ''finalized'') p = (Inr b, p1) \<longrightarrow> block_number b = final"
    and "0 \<le> final"
  shows "0 \<le> probe_deployment_block_number r \<and> probe_deployment_block_number r \<le> final \<and>
    deployed (probe_deployment_block_number r) \<and>
    (probe_deployment_block_number r = 0 \<or> \<not> deployed (probe_deployment_block_number r - 1)) \<and>
    ((\<forall>m n. 0 \<le> m \<longrightarrow> m \<le> n \<longrightarrow> deployed m \<longrightarrow> deployed n) \<longrightarrow>
       (\<forall>m. 0 \<le> m \<longrightarrow> (deployed m \<longleftrightarrow> probe_deployment_block_number r \<le> m)))"
proof (rule probe_InrE [OF assms(1)], goal_cases)
  case (1 fin code p0 p1 p2 p3 n)
  have fin: "block_number fin = final" using assms(3) 1(2) by blast
  have "deployed final" using answers_fromD(1) [OF assms(2) 1(3)] 1(4) by (simp add: fin)
  then have n: "0 \<le> n" "n \<le> final" "deployed n" "n = 0 \<or> \<not> deployed (n - 1)"
    using deployment_search_boundary [OF assms(2) 1(5)] assms(4) by (auto simp: fin)
  have r: "probe_deployment_block_number r = n"
    using 1(6) answers_fromD(2) [OF assms(2)] by auto
  have "deployed m \<longleftrightarrow> n \<le> m"
    if mono: "\<forall>m n. 0 \<le> m \<longrightarrow> m \<le> n \<longrightarrow> deployed m \<longrightarrow> deployed n" and "0 \<le> m" for m
  proof
    assume "deployed m"
    show "n \<le> m"
    proof (rule ccontr)
      assume "\<not> n \<le> m"
      then have "deployed (n - 1)"
        using mono [rule_format, of m "n - 1"] \<open>deployed m\<close> \<open>0 \<le> m\<close> by simp
      with n(4) \<open>\<not> n \<le> m\<close> \<open>0 \<le> m\<close> show False by simp
    qed
  next
    assume "n \<le> m"
    then show "deployed m" using mono n(1,3) by blast
  qed
  then show ?case unfolding r using n by blast
qed

text \<open>
  A probe is cheap: whatever the provider answers, the number of code queries a probe makes is
  at most one more than the number of binary digits of the finalized block's number.
\<close>

theorem probe_query_bound:
  assumes "probe is_address to_checksum prov chain_id address p = (res, p')"
    and "counts_code_queries prov (to_checksum address) asked"
    and "\<forall>q. asked (snd (provider_chain_id prov q)) = asked q"
    and "\<forall>tag q. asked (snd (provider_block prov tag q)) = asked q"
    and "\<forall>q b q1. provider_block prov (Tag ''finalized'') q = (Inr b, q1) \<longrightarrow>
      0 \<le> block_number b \<and> block_number b < 2 ^ k"
  shows "asked p' \<le> asked p + 1 + k"
proof -
  let ?checksum = "to_checksum address"
  have chain: "costs asked (verify_chain prov chain_id) (0 + 0)"
    unfolding verify_chain_def by (rule costs_ask) (use assms(3) in \<open>auto simp: costs_def\<close>)
  have block: "costs asked (provider_block prov tag) 0" for tag
    using assms(4) by (simp add: costs_def)
  have code: "costs asked (provider_code prov ?checksum tag) 1" for tag
    using assms(2) by (simp add: costs_def counts_code_queries_def)
  have search: "costs asked (deployment_search prov ?checksum 0 high) k"
    if "0 \<le> high" "high < 2 ^ k" for high
    using deployment_search_queries [OF assms(2)] that by (intro costsI) fastforce
  have found: "costs asked (ask (deployment_search prov ?checksum 0 (block_number fin)) (\<lambda>low.
      ask (provider_block prov (Height low)) (\<lambda>deployment p5. (g deployment, p5)))) (k + (0 + 0))"
    if "provider_block prov (Tag ''finalized'') q = (Inr fin, q')"
    for fin q q' and g :: "block_reference \<Rightarrow> collection_probe outcome"
    using assms(5) that by (intro costs_ask search block) auto
  have "costs asked (probe is_address to_checksum prov chain_id address)
      ((0 + 0) + (0 + (1 + (k + (0 + 0)))))"
  proof (cases "is_address address")
    case True
    then have probe: "probe is_address to_checksum prov chain_id address =
        ask (verify_chain prov chain_id) (\<lambda>_.
        ask (provider_block prov (Tag ''finalized'')) (\<lambda>fin.
        ask (provider_code prov ?checksum (Height (block_number fin))) (\<lambda>code p3.
          if code = [] then (Inl (InvalidCollection
            ''address has no contract code at the finalized boundary''), p3)
          else ask (deployment_search prov ?checksum 0 (block_number fin)) (\<lambda>low.
            ask (provider_block prov (Height low)) (\<lambda>deployment p5.
              (Inr \<lparr> probe_normalized_address = lower ?checksum,
                     probe_checksum_address = ?checksum,
                     probe_deployment_block_number = block_number deployment,
                     probe_deployment_block_hash = block_hash deployment,
                     probe_deployment_confidence = DeploymentConfidence_EXACT,
                     probe_deployment_confidence_value = 100 \<rparr>, p5))) p3)))"
      by (simp add: probe_def fun_eq_iff Let_def)
    show ?thesis
      unfolding probe
      by (rule costs_ask [OF chain], rule costs_ask [OF block], rule costs_ask [OF code],
          rule costsI) (auto dest: costsD [OF found] split: if_splits)
  qed (auto simp: probe_def costs_def)
  from costsD [OF this assms(1)] show ?thesis by simp
qed

text \<open>A chain for the examples: the contract is deployed at block 5, block 9 is final; the state
  counts the code queries.\<close>

definition sample_chain :: "nat evm_provider" where
  "sample_chain = \<lparr> provider_chain_id = (\<lambda>p. (Inr 1, p)),
     provider_block = (\<lambda>tag p. case tag of
       Height n \<Rightarrow> (Inr \<lparr> block_number = n, block_hash = ''0xb'' \<rparr>, p)
     | Tag t \<Rightarrow> (Inr \<lparr> block_number = 9, block_hash = ''0xf'' \<rparr>, p)),
     provider_code = (\<lambda>a tag p. (Inr (case tag of
       Height n \<Rightarrow> if 5 \<le> n then [1] else [] | Tag t \<Rightarrow> [1]), Suc p)),
     provider_storage_at = (\<lambda>a slot tag p. (Inr [], p)),
     provider_logs = (\<lambda>a from to topics p. (Inr [], p)),
     provider_transaction = (\<lambda>h p. (Inl (RuntimeError ''none''), p)),
     provider_receipt = (\<lambda>h p. (Inl (RuntimeError ''none''), p)),
     provider_trace_transaction = (\<lambda>h p. (Inl (RuntimeError ''none''), p)) \<rparr>"

lemma sample_probe:
  "\<exists>r. probe (\<lambda>_. True) (\<lambda>a. a) sample_chain 1 ''0xA'' 0 = (Inr r, 5) \<and>
     probe_deployment_block_number r = 5"
  by (simp add: probe_def verify_chain_def ask_def sample_chain_def deployment_search.simps Let_def)

theorem probe_finds_boundary_witness:
  "\<exists>r. probe (\<lambda>_. True) (\<lambda>a. a) sample_chain 1 ''0xA'' 0 = (Inr r, 5) \<and>
     probe_deployment_block_number r \<le> 9 \<and> 5 \<le> probe_deployment_block_number r"
proof -
  obtain r where run: "probe (\<lambda>_. True) (\<lambda>a. a) sample_chain 1 ''0xA'' 0 = (Inr r, 5)"
    using sample_probe by blast
  have "answers_from sample_chain ''0xA'' (\<lambda>n. 5 \<le> n)"
    by (auto simp: answers_from_def sample_chain_def)
  from probe_finds_boundary [OF run this, of 9] run show ?thesis
    by (simp add: sample_chain_def)
qed

theorem probe_query_bound_witness:
  "snd (probe (\<lambda>_. True) (\<lambda>a. a) sample_chain 1 ''0xA'' 0) \<le> 0 + 1 + 4"
proof (rule probe_query_bound [of "\<lambda>_. True" "\<lambda>a. a" sample_chain 1 "''0xA''" 0 _ _ "\<lambda>n. n"])
  show "probe (\<lambda>_. True) (\<lambda>a. a) sample_chain 1 ''0xA'' 0 =
      (fst (probe (\<lambda>_. True) (\<lambda>a. a) sample_chain 1 ''0xA'' 0),
       snd (probe (\<lambda>_. True) (\<lambda>a. a) sample_chain 1 ''0xA'' 0))" by simp
qed (auto simp: counts_code_queries_def sample_chain_def split: block_tag.splits)

end
