(* ===== verification/Settings.thy ===== *)
theory Settings
  imports PyText Enums
begin

text \<open>
  The settings of the processes and their validators
  (\<^verbatim>\<open>app/infrastructure/config/settings.py\<close>). Reading the environment and its conversion to the
  declared types is pydantic's: the arguments are the converted values, and of the errors that
  pydantic collects the model answers the first.
\<close>

section \<open>Settings of every process\<close>

record runtime_settings =
  app_env :: string
  log_level :: string
  settings_ceiling :: string

definition app_envs :: "string list" where
  "app_envs = [''local'', ''test'', ''development'', ''staging'', ''production'']"

definition log_levels :: "string list" where
  "log_levels = [''DEBUG'', ''INFO'', ''WARNING'', ''ERROR'', ''CRITICAL'']"

definition require :: "bool \<Rightarrow> string \<Rightarrow> unit outcome" where
  "require ok message = (if ok then Inr () else Inl (ValueError message))"

definition checked_runtime :: "'a runtime_settings_scheme \<Rightarrow> unit outcome" where
  "checked_runtime s =
     attempt (require (app_env s \<in> set app_envs) ''literal_error'') (\<lambda>_.
     attempt (require (log_level s \<in> set log_levels) ''literal_error'') (\<lambda>_.
     require (settings_ceiling s = ''paper'') ''literal_error''))"

definition runtime_context :: "'a runtime_settings_scheme \<Rightarrow> (string \<times> json) list" where
  "runtime_context s =
     [(''app_env'', JStr (app_env s)), (''log_level'', JStr (log_level s)),
      (''release_execution_ceiling'', JStr (settings_ceiling s))]"

definition in_range :: "int \<Rightarrow> int \<Rightarrow> int \<Rightarrow> unit outcome" where
  "in_range low high n = require (low \<le> n \<and> n \<le> high) ''range_error''"

section \<open>The API process\<close>

record api_settings = runtime_settings +
  api_database_url :: string
  api_queue_url :: string
  telegram_bot_token :: string
  telegram_webhook_secret :: string
  telegram_platform_owner_ids :: "int list"
  signer_internal_url :: string
  api_signer_secret :: string
  api_chain_id :: int
  max_execution_wallets :: int
  user_rate_limit :: int
  workspace_rate_limit :: int

definition owner_ids :: "int list \<Rightarrow> int list outcome" where
  "owner_ids ids =
     (if ids = [] then Inl (ValueError ''at least one numeric Telegram platform owner ID is required'')
      else if list_ex (\<lambda>i. i \<le> 0) ids
      then Inl (ValueError ''Telegram platform owner IDs must be positive integers'')
      else Inr (sort (remdups ids)))"

definition control_secret :: "string \<Rightarrow> unit outcome" where
  "control_secret s =
     require (32 \<le> length s) ''control secrets must contain at least 32 characters''"

definition load_api_settings :: "api_settings \<Rightarrow> api_settings outcome" where
  "load_api_settings s =
     attempt (checked_runtime s) (\<lambda>_.
     attempt (control_secret (telegram_webhook_secret s)) (\<lambda>_.
     attempt (owner_ids (telegram_platform_owner_ids s)) (\<lambda>ids.
     attempt (control_secret (api_signer_secret s)) (\<lambda>_.
     attempt (require (api_chain_id s = 1) ''literal_error'') (\<lambda>_.
     attempt (in_range 1 100 (max_execution_wallets s)) (\<lambda>_.
     attempt (in_range 1 600 (user_rate_limit s)) (\<lambda>_.
     attempt (in_range 1 5000 (workspace_rate_limit s)) (\<lambda>_.
     Inr (s\<lparr> telegram_platform_owner_ids := ids \<rparr>)))))))))"

definition api_context :: "api_settings \<Rightarrow> (string \<times> json) list" where
  "api_context s = runtime_context s @
     [(''ethereum_chain_id'', JInt (api_chain_id s)),
      (''max_execution_wallets_per_workspace'', JInt (max_execution_wallets s)),
      (''telegram_user_rate_limit_per_minute'', JInt (user_rate_limit s)),
      (''workspace_rate_limit_per_minute'', JInt (workspace_rate_limit s))]"

section \<open>The worker process\<close>

record worker_settings = runtime_settings +
  worker_database_url :: string
  worker_queue_url :: string
  ethereum_http_url :: string
  ethereum_wss_url :: string
  worker_chain_id :: int
  ethereum_reorg_lookback :: int
  indexer_initial_chunk :: int
  indexer_max_chunk :: int

definition chunk_bounds_are_ordered :: "worker_settings \<Rightarrow> worker_settings outcome" where
  "chunk_bounds_are_ordered s =
     (if indexer_max_chunk s < indexer_initial_chunk s
      then Inl (ValueError ''INDEXER_INITIAL_CHUNK cannot exceed INDEXER_MAX_CHUNK'')
      else Inr s)"

definition load_worker_settings :: "worker_settings \<Rightarrow> worker_settings outcome" where
  "load_worker_settings s =
     attempt (checked_runtime s) (\<lambda>_.
     attempt (require (worker_chain_id s = 1) ''literal_error'') (\<lambda>_.
     attempt (in_range 1 2048 (ethereum_reorg_lookback s)) (\<lambda>_.
     attempt (in_range 1 5000 (indexer_initial_chunk s)) (\<lambda>_.
     attempt (in_range 1 5000 (indexer_max_chunk s)) (\<lambda>_.
     chunk_bounds_are_ordered s)))))"

definition worker_context :: "worker_settings \<Rightarrow> (string \<times> json) list" where
  "worker_context s = runtime_context s @
     [(''ethereum_chain_id'', JInt (worker_chain_id s)),
      (''ethereum_reorg_lookback'', JInt (ethereum_reorg_lookback s)),
      (''indexer_initial_chunk'', JInt (indexer_initial_chunk s)),
      (''indexer_max_chunk'', JInt (indexer_max_chunk s))]"

section \<open>The signer process\<close>

record signer_settings = runtime_settings +
  signer_database_url :: string
  signer_secret :: string
  aws_region :: string
  aws_kms_key_arn :: string
  aws_access_key_id :: "string option"
  aws_secret_access_key :: "string option"
  aws_session_token :: "string option"

definition static_aws_credentials_are_complete :: "signer_settings \<Rightarrow> signer_settings outcome" where
  "static_aws_credentials_are_complete s =
     (if (aws_access_key_id s = None) \<noteq> (aws_secret_access_key s = None)
      then Inl (ValueError ''AWS_ACCESS_KEY_ID and AWS_SECRET_ACCESS_KEY must be supplied together'')
      else Inr s)"

definition load_signer_settings :: "signer_settings \<Rightarrow> signer_settings outcome" where
  "load_signer_settings s =
     attempt (checked_runtime s) (\<lambda>_.
     attempt (require (32 \<le> length (signer_secret s))
       ''SIGNER_AUTH_SECRET must contain at least 32 characters'') (\<lambda>_.
     static_aws_credentials_are_complete s))"

definition aws_client_credentials :: "signer_settings \<Rightarrow> (string \<times> string) list" where
  "aws_client_credentials s =
     (case (aws_access_key_id s, aws_secret_access_key s) of
        (Some key, Some secret) \<Rightarrow> [(''aws_access_key_id'', key), (''aws_secret_access_key'', secret)]
      | _ \<Rightarrow> []) @
     (case aws_session_token s of None \<Rightarrow> [] | Some token \<Rightarrow> [(''aws_session_token'', token)])"

section \<open>What accepted settings promise\<close>

lemma require_eq_Inr_iff [simp]: "require ok message = Inr u \<longleftrightarrow> ok"
  by (simp add: require_def)

lemma owner_ids_Inr_iff:
  "owner_ids ids = Inr out \<longleftrightarrow> ids \<noteq> [] \<and> (\<forall>i \<in> set ids. 0 < i) \<and> out = sort (remdups ids)"
  by (auto simp: owner_ids_def list_ex_iff simp flip: not_le)

lemma sort_eq_Nil_iff [simp]: "sort xs = [] \<longleftrightarrow> xs = []"
  by (metis length_0_conv length_sort)

lemma sort_remdups_sorted: "sorted xs \<Longrightarrow> distinct xs \<Longrightarrow> sort (remdups xs) = xs"
  by (simp add: distinct_remdups_id sorted_sort_id)

definition api_settings_ok :: "api_settings \<Rightarrow> bool" where
  "api_settings_ok s \<longleftrightarrow> app_env s \<in> set app_envs \<and> log_level s \<in> set log_levels \<and>
     settings_ceiling s = ''paper'' \<and> 32 \<le> length (telegram_webhook_secret s) \<and>
     32 \<le> length (api_signer_secret s) \<and> telegram_platform_owner_ids s \<noteq> [] \<and>
     (\<forall>i \<in> set (telegram_platform_owner_ids s). 0 < i) \<and> api_chain_id s = 1 \<and>
     1 \<le> max_execution_wallets s \<and> max_execution_wallets s \<le> 100 \<and>
     1 \<le> user_rate_limit s \<and> user_rate_limit s \<le> 600 \<and>
     1 \<le> workspace_rate_limit s \<and> workspace_rate_limit s \<le> 5000"

lemma load_api_settings_Inr_iff:
  "load_api_settings s = Inr s' \<longleftrightarrow> api_settings_ok s \<and>
     s' = s\<lparr> telegram_platform_owner_ids := sort (remdups (telegram_platform_owner_ids s)) \<rparr>"
  by (auto simp: load_api_settings_def api_settings_ok_def checked_runtime_def control_secret_def in_range_def
      owner_ids_Inr_iff attempt_eq_Inr_iff)

lemma load_worker_settings_Inr_iff:
  "load_worker_settings s = Inr s' \<longleftrightarrow> s' = s \<and> app_env s \<in> set app_envs \<and> log_level s \<in> set log_levels \<and>
     settings_ceiling s = ''paper'' \<and> worker_chain_id s = 1 \<and>
     1 \<le> ethereum_reorg_lookback s \<and> ethereum_reorg_lookback s \<le> 2048 \<and>
     1 \<le> indexer_initial_chunk s \<and> indexer_initial_chunk s \<le> indexer_max_chunk s \<and>
     indexer_max_chunk s \<le> 5000"
  by (auto simp: load_worker_settings_def checked_runtime_def in_range_def chunk_bounds_are_ordered_def
      attempt_eq_Inr_iff)

lemma load_signer_settings_Inr_iff:
  "load_signer_settings s = Inr s' \<longleftrightarrow> s' = s \<and> app_env s \<in> set app_envs \<and> log_level s \<in> set log_levels \<and>
     settings_ceiling s = ''paper'' \<and> 32 \<le> length (signer_secret s) \<and>
     (aws_access_key_id s = None \<longleftrightarrow> aws_secret_access_key s = None)"
  by (auto simp: load_signer_settings_def checked_runtime_def static_aws_credentials_are_complete_def
      attempt_eq_Inr_iff)

lemma api_settings_idempotent:
  assumes "load_api_settings s = Inr s'"
  shows "load_api_settings s' = Inr s'"
  using assms
  by (auto simp: load_api_settings_Inr_iff api_settings_ok_def sort_remdups_sorted)

text \<open>
  The credentials handed to the AWS client are the two static keys together or neither of them, and
  the session token where there is one.
\<close>

lemma aws_credentials_complete:
  assumes "load_signer_settings s = Inr s'"
  shows "map fst (aws_client_credentials s') =
    (if aws_access_key_id s = None then [] else [''aws_access_key_id'', ''aws_secret_access_key'']) @
    (if aws_session_token s = None then [] else [''aws_session_token''])"
  using assms by (auto simp: load_signer_settings_Inr_iff aws_client_credentials_def split: option.splits)

end
