(* ===== verification/ScanWorker.thy ===== *)
theory ScanWorker
  imports MintEnrichment Discovery Settings
begin

text \<open>
  The scan task of the indexer worker (\<^verbatim>\<open>app/workers/collections.py\<close>): it finds the deployment block
  of a collection, opens the scan job with its fixed end, scans and enriches the next slice of at
  most a hundred blocks behind the checkpoint, and asks for another task until the job is complete.
  Every database transaction of the task is one definition; whatever raises in between leaves the
  transactions before it committed.
\<close>

section \<open>The task\<close>

definition scan_slice_blocks :: int where
  "scan_slice_blocks = 100"

text \<open>The alias of the provider, by default.\<close>

definition provider_alias :: string where
  "provider_alias = ''chainstack-primary''"

record 'p scan_worker =
  worker_config :: worker_settings
  worker_provider :: "'p evm_provider"
  worker_libraries :: libraries
  worker_draws :: draws
  worker_is_address :: "string \<Rightarrow> bool"
  worker_to_checksum :: "string \<Rightarrow> string"

text \<open>A step of a task answers, and leaves the provider and the database as they are then.\<close>

type_synonym ('p, 'a) task_state = "'a outcome \<times> 'p \<times> ethereum_db"

definition and_then ::
  "('p, 'a) task_state \<Rightarrow> ('a \<Rightarrow> 'p \<Rightarrow> ethereum_db \<Rightarrow> ('p, 'b) task_state) \<Rightarrow> ('p, 'b) task_state"
where
  "and_then m f = (case m of (Inl e, p, db) \<Rightarrow> (Inl e, p, db) | (Inr x, p, db) \<Rightarrow> f x p db)"

definition in_transaction :: "'p \<Rightarrow> ethereum_db \<Rightarrow> ('a \<times> ethereum_db) outcome \<Rightarrow> ('p, 'a) task_state" where
  "in_transaction p db m = (case transact db m of (answer, db') \<Rightarrow> (answer, p, db'))"

definition update_collection :: "uuid \<Rightarrow> (collection \<Rightarrow> collection) \<Rightarrow> ethereum_db \<Rightarrow> ethereum_db" where
  "update_collection cid f db = db\<lparr> collections := update_rows (\<lambda>c. collection_id c = cid) f (collections db) \<rparr>"

definition update_job :: "scan_job \<Rightarrow> (scan_job \<Rightarrow> scan_job) \<Rightarrow> ethereum_db \<Rightarrow> ethereum_db" where
  "update_job j f db = db\<lparr> scan_jobs := update_rows (\<lambda>r. job_id r = job_id j) f (scan_jobs db) \<rparr>"

definition slice_consumer :: "uuid \<Rightarrow> mint_consumer" where
  "slice_consumer cid = \<lparr> consumer_collection_id = cid, consumer_scan_version = 1,
     consumer_provider_alias = provider_alias \<rparr>"

definition record_deployment ::
  "uuid \<Rightarrow> collection_probe \<Rightarrow> ethereum_db \<Rightarrow> (int option \<times> ethereum_db) outcome"
where
  "record_deployment cid pr db =
     (case collection_row cid db of
        None \<Rightarrow> Inr (None, db)
      | Some c \<Rightarrow>
          (case fromhex (remove_prefix ''0x'' (probe_deployment_block_hash pr)) of
             None \<Rightarrow> Inl (ValueError ''non-hexadecimal number found in fromhex() arg'')
           | Some hash \<Rightarrow>
               if \<not> bigint (probe_deployment_block_number pr) then Inl DataError
               else Inr (Some (probe_deployment_block_number pr), update_collection cid (\<lambda>c. c\<lparr>
                 collection_deployment_block_number := Some (probe_deployment_block_number pr),
                 collection_deployment_block_hash := Some hash,
                 collection_deployment_confidence := probe_deployment_confidence pr,
                 collection_deployment_confidence_value := probe_deployment_confidence_value pr,
                 collection_scan_status := CollectionScanStatus_SCANNING \<rparr>) db)))"

definition locate_start ::
  "'p scan_worker \<Rightarrow> collection \<Rightarrow> 'p \<Rightarrow> ethereum_db \<Rightarrow> ('p, int option) task_state"
where
  "locate_start wk c p db =
     (case collection_deployment_block_number c of
        Some n \<Rightarrow> (Inr (Some n), p, db)
      | None \<Rightarrow>
          (case probe (worker_is_address wk) (worker_to_checksum wk) (worker_provider wk) 1
              (collection_checksum_address c) p of
             (Inl e, p') \<Rightarrow> (Inl e, p', db)
           | (Inr pr, p') \<Rightarrow> in_transaction p' db (record_deployment (collection_id c) pr db)))"

definition new_job :: "uuid \<Rightarrow> uuid \<Rightarrow> int \<Rightarrow> int \<Rightarrow> scan_job" where
  "new_job jid cid start_block end_block =
     \<lparr> job_id = jid, job_collection_id = cid, job_scan_version = 1, job_start_block = start_block,
       job_end_block = end_block, job_status = ScanJobStatus_RUNNING, job_attempt_count = 1,
       job_quality_warnings = [], job_error_code = None \<rparr>"

text \<open>The next block of a job: the one behind the checkpoint, or the first.\<close>

definition next_block :: "scan_job \<Rightarrow> ethereum_db \<Rightarrow> int" where
  "next_block j db =
     (case committed_block (slice_consumer (job_collection_id j)) db of
        None \<Rightarrow> job_start_block j | Some n \<Rightarrow> n + 1)"

text \<open>The transaction that opens or resumes the job; \<open>None\<close> when it is completed.\<close>

definition open_job ::
  "draws \<Rightarrow> uuid \<Rightarrow> int \<Rightarrow> int \<Rightarrow> ethereum_db \<Rightarrow> ((int \<times> int) option \<times> ethereum_db) outcome"
where
  "open_job dr cid start_block end_block db =
     (case job_row cid db of
        None \<Rightarrow>
          (let j = new_job (draw_id dr (drawn db)) cid start_block end_block in
           if \<not> job_fits j then Inl DataError
           else if \<not> job_checks j \<or> \<not> known_collection db cid then Inl IntegrityError
           else attempt (insert_row job_clash j (scan_jobs db)) (\<lambda>rows.
             Inr (Some (next_block j db, job_end_block j),
               db\<lparr> scan_jobs := rows, drawn := Suc (drawn db) \<rparr>)))
      | Some j \<Rightarrow>
          if job_status j = ScanJobStatus_COMPLETED then Inr (None, db)
          else if \<not> integer_fits (job_attempt_count j + 1) then Inl DataError
          else Inr (Some (next_block j db, job_end_block j),
            update_job j (\<lambda>r. r\<lparr> job_status := ScanJobStatus_RUNNING,
              job_attempt_count := job_attempt_count r + 1 \<rparr>) db))"

definition scan_range ::
  "'p scan_worker \<Rightarrow> collection \<Rightarrow> int \<Rightarrow> int \<Rightarrow> 'p \<Rightarrow> ethereum_db \<Rightarrow> ('p, string list) task_state"
where
  "scan_range wk c cursor slice_end p db =
     (case adaptive_historical_scanner (min (indexer_initial_chunk (worker_config wk)) scan_slice_blocks)
         (min (indexer_max_chunk (worker_config wk)) scan_slice_blocks) 1000 of
        Inl e \<Rightarrow> (Inl e, p, db)
      | Inr cfg \<Rightarrow>
          and_then (scan (worker_provider wk)
              (commit_batch (worker_draws wk) (worker_libraries wk) (slice_consumer (collection_id c)))
              cfg (collection_checksum_address c) [] cursor slice_end p db) (\<lambda>_ p' db'.
          enrich_range (worker_draws wk) (worker_libraries wk) (worker_provider wk) provider_alias
            (collection_id c) cursor slice_end p' db'))"

text \<open>The codes of the warnings a job has, and the transaction that adds new ones.\<close>

definition warning_codes :: "json list \<Rightarrow> string list" where
  "warning_codes items = concat (map (\<lambda>item. case item of
     JObject members \<Rightarrow> [json_str (json_get members ''code'')] | _ \<Rightarrow> []) items)"

definition add_warnings :: "uuid \<Rightarrow> string list \<Rightarrow> ethereum_db \<Rightarrow> (unit \<times> ethereum_db) outcome" where
  "add_warnings cid warnings db =
     (case job_row cid db of
        None \<Rightarrow> Inr ((), db)
      | Some j \<Rightarrow> Inr ((), update_job j (\<lambda>r. r\<lparr> job_quality_warnings := job_quality_warnings j @
          map (\<lambda>w. JObject [(''code'', JStr w)])
            (filter (\<lambda>w. w \<notin> set (warning_codes (job_quality_warnings j))) warnings) \<rparr>) db))"

definition complete_scan :: "uuid \<Rightarrow> ethereum_db \<Rightarrow> (unit \<times> ethereum_db) outcome" where
  "complete_scan cid db =
     (let db1 = (case job_row cid db of
            None \<Rightarrow> db
          | Some j \<Rightarrow> update_job j (\<lambda>r. r\<lparr> job_status := ScanJobStatus_COMPLETED \<rparr>) db);
          warned = (case job_row cid db of None \<Rightarrow> False | Some j \<Rightarrow> job_quality_warnings j \<noteq> [])
      in Inr ((), update_collection cid (\<lambda>c. c\<lparr> collection_scan_status :=
           if warned then CollectionScanStatus_QUALITY_WARNING
           else CollectionScanStatus_COMPLETE \<rparr>) db1))"

text \<open>The work of a slice once the job is open, and the whole of \<open>_scan_collection\<close>.\<close>

definition finish_slice :: "uuid \<Rightarrow> bool \<Rightarrow> 'p \<Rightarrow> ethereum_db \<Rightarrow> ('p, bool) task_state" where
  "finish_slice cid completed p db =
     (if completed
      then and_then (in_transaction p db (complete_scan cid db)) (\<lambda>_ p' db'. (Inr True, p', db'))
      else (Inr False, p, db))"

definition scan_slice ::
  "'p scan_worker \<Rightarrow> collection \<Rightarrow> int \<Rightarrow> int \<Rightarrow> 'p \<Rightarrow> ethereum_db \<Rightarrow> ('p, bool) task_state"
where
  "scan_slice wk c cursor fixed_end p db =
     (if cursor \<le> fixed_end then
        let slice_end = min (cursor + scan_slice_blocks - 1) fixed_end in
        and_then (scan_range wk c cursor slice_end p db) (\<lambda>warnings p1 db1.
        and_then (if warnings = [] then (Inr (), p1, db1)
            else in_transaction p1 db1 (add_warnings (collection_id c) warnings db1)) (\<lambda>_ p2 db2.
        finish_slice (collection_id c) (fixed_end \<le> slice_end) p2 db2))
      else finish_slice (collection_id c) True p db)"

definition scan_collection :: "'p scan_worker \<Rightarrow> uuid \<Rightarrow> 'p \<Rightarrow> ethereum_db \<Rightarrow> ('p, bool) task_state" where
  "scan_collection wk cid p db =
     (case collection_row cid db of
        None \<Rightarrow> (Inr True, p, db)
      | Some c \<Rightarrow>
          (case provider_block (worker_provider wk) (Tag ''finalized'') p of
             (Inl e, p1) \<Rightarrow> (Inl e, p1, db)
           | (Inr finalized, p1) \<Rightarrow>
               and_then (locate_start wk c p1 db) (\<lambda>start p2 db2.
               case start of None \<Rightarrow> (Inr True, p2, db2) | Some start_block \<Rightarrow>
               and_then (in_transaction p2 db2
                 (open_job (worker_draws wk) cid start_block (block_number finalized) db2)) (\<lambda>window p3 db3.
               case window of None \<Rightarrow> (Inr True, p3, db3) | Some (cursor, fixed_end) \<Rightarrow>
               scan_slice wk c cursor fixed_end p3 db3))))"

text \<open>
  The task asks for its next run with the same collection until a run answers that the job is
  completed; \<open>n\<close> bounds the runs, and \<open>None\<close> says that there would be another.
\<close>

fun run_tasks :: "nat \<Rightarrow> 'p scan_worker \<Rightarrow> uuid \<Rightarrow> 'p \<Rightarrow> ethereum_db \<Rightarrow>
    bool outcome option \<times> 'p \<times> ethereum_db"
where
  "run_tasks 0 wk cid p db = (None, p, db)"
| "run_tasks (Suc n) wk cid p db =
     (case scan_collection wk cid p db of
        (Inr False, p', db') \<Rightarrow> run_tasks n wk cid p' db'
      | (answer, p', db') \<Rightarrow> (Some answer, p', db'))"

end
