(* ===== verification/ScanProgress.thy ===== *)
theory ScanProgress
  imports ScanWorker
begin

text \<open>
  Progress of the scan tasks (\<^verbatim>\<open>app/workers/collections.py\<close>): the invariant that ties every scan job to
  a gapless run of provider answers whose mints are stored, its preservation by every task and by
  the registration of collections, the number of tasks a job needs, and what the task never does:
  it never enriches a mint at or before the checkpoint.
\<close>

section \<open>What a batch leaves in the store\<close>

text \<open>A log is stored: it decodes, its evidence is kept, and so is a mint for each of its mints.\<close>

definition log_stored :: "libraries \<Rightarrow> ethereum_db \<Rightarrow> evm_log \<Rightarrow> bool" where
  "log_stored lib db log \<longleftrightarrow> log_hash lib log \<in> stored_hashes db \<and>
     (\<exists>mints. decode_log lib log = Inr mints \<and>
        (\<forall>m \<in> set mints. \<exists>e \<in> set (mint_events db). mint_position m = Some (event_position e)))"

lemma log_stored_mono:
  "log_stored lib db log \<Longrightarrow> stored_hashes db \<subseteq> stored_hashes db' \<Longrightarrow>
     stored_positions db \<subseteq> stored_positions db' \<Longrightarrow> log_stored lib db' log"
  unfolding log_stored_def stored_positions_def by (fastforce simp: image_subset_iff image_iff)

text \<open>The logs of a batch that a commit accepts decode, and their mints have positions.\<close>

definition log_decodes :: "libraries \<Rightarrow> evm_log \<Rightarrow> bool" where
  "log_decodes lib log \<longleftrightarrow> (\<exists>mints. decode_log lib log = Inr mints \<and> (\<forall>m \<in> set mints. mint_position m \<noteq> None))"

lemma store_mints_positions:
  "store_mints dr mc eid mints db = Inr db' \<Longrightarrow> \<forall>m \<in> set mints. mint_position m \<noteq> None"
  by (induction mints arbitrary: db) (auto simp: mint_position.simps elim!: attempt_InrE)

lemma store_logs_decode: "store_logs dr lib mc logs db = Inr db' \<Longrightarrow> \<forall>log \<in> set logs. log_decodes lib log"
  by (induction logs arbitrary: db)
    (auto simp: store_log_def log_decodes_def dest: store_mints_positions elim!: attempt_InrE)

lemma commit_batch_decodes:
  "commit_batch dr lib mc b db = (Inr u, db') \<Longrightarrow> \<forall>log \<in> set (batch_logs b). log_decodes lib log"
proof -
  assume "commit_batch dr lib mc b db = (Inr u, db')"
  then obtain db1 where "store_logs dr lib mc (batch_logs b) db = Inr db1"
    by (auto simp: commit_batch_def transact_Inr_iff store_batch_def elim!: attempt_InrE)
  then show ?thesis by (rule store_logs_decode)
qed

lemma map_filter_member: "x \<in> set xs \<Longrightarrow> f x = Some y \<Longrightarrow> y \<in> set (List.map_filter f xs)"
  by (induction xs) (auto simp: List.map_filter_simps split: option.splits)

lemma log_storedI:
  assumes "log_decodes lib log" and "log_hash lib log \<in> stored_hashes db"
    and "set (log_positions lib log) \<subseteq> stored_positions db"
  shows "log_stored lib db log"
proof -
  from assms(1) obtain mints where mints: "decode_log lib log = Inr mints"
    "\<forall>m \<in> set mints. mint_position m \<noteq> None" by (auto simp: log_decodes_def)
  have "\<exists>e \<in> set (mint_events db). mint_position m = Some (event_position e)" if "m \<in> set mints" for m
  proof -
    from mints(2) that obtain q where q: "mint_position m = Some q" by blast
    with mints(1) that have "q \<in> set (log_positions lib log)"
      by (simp add: log_positions_def map_filter_member)
    with assms(3) q show ?thesis by (auto simp: stored_positions_def)
  qed
  with assms(2) mints(1) show ?thesis by (auto simp: log_stored_def)
qed

text \<open>A commit leaves the checkpoints of other collections as they are.\<close>

lemma store_logs_checkpoints:
  "store_logs dr lib mc logs db = Inr db' \<Longrightarrow> scan_checkpoints db' = scan_checkpoints db"
  by (rule store_logs_InrD [THEN conjunct1, THEN adds_evidence_collections, THEN conjunct2])

lemma upsert_checkpoint_other:
  assumes "upsert_checkpoint (new_checkpoint dr n mc block hash) db = Inr db'"
    and "consumer_collection_id mc' \<noteq> consumer_collection_id mc"
  shows "committed_block mc' db' = committed_block mc' db"
proof -
  let ?row = "new_checkpoint dr n mc block hash"
  have other: "same_checkpoint ?row r \<Longrightarrow> \<not> checkpoint_of mc' r" for r
    using assms(2) by (auto simp: same_checkpoint_def checkpoint_of_def new_checkpoint_def)
  have row: "\<not> checkpoint_of mc' ?row"
    using assms(2) by (auto simp: checkpoint_of_def new_checkpoint_def)
  have same: "checkpoint_of mc' (r\<lparr> last_committed_block_number := k, last_committed_block_hash := h \<rparr>) =
      checkpoint_of mc' r" for r k h
    by (simp add: checkpoint_of_def)
  from assms(1) show ?thesis
    unfolding upsert_checkpoint_def committed_block_def
    using row by (auto split: if_splits simp: same other
        intro!: arg_cong [where f = "map_option last_committed_block_number"] select_one_update_other)
qed

lemma commit_batch_other:
  assumes "commit_batch dr lib mc b db = (answer, db')"
    and "consumer_collection_id mc' \<noteq> consumer_collection_id mc"
  shows "committed_block mc' db' = committed_block mc' db"
proof (cases "store_batch dr lib mc b db")
  case (Inr x)
  then obtain u db1 hash where logs: "store_logs dr lib mc (batch_logs b) db = Inr db1"
    and upsert: "upsert_checkpoint (new_checkpoint dr (drawn db1) mc (batch_end_block b) hash) db1 = Inr (snd x)"
    by (auto simp: store_batch_def elim!: attempt_InrE)
  have "committed_block mc' db1 = committed_block mc' db"
    using store_logs_checkpoints [OF logs] by (simp add: committed_block_def)
  with upsert_checkpoint_other [OF upsert assms(2)] Inr assms(1) show ?thesis
    by (cases x) (simp add: commit_batch_def)
qed (use assms(1) in \<open>simp add: commit_batch_def\<close>)


section \<open>The invariant\<close>

definition address_of :: "uuid \<Rightarrow> ethereum_db \<Rightarrow> string option" where
  "address_of cid db = map_option collection_checksum_address (collection_row cid db)"

text \<open>
  The blocks of a job up to its checkpoint are a gapless run of batches that the provider answered,
  and every log of theirs is stored.
\<close>

definition scanned_by :: "'p scan_worker \<Rightarrow> ethereum_db \<Rightarrow> scan_job \<Rightarrow> scan_batch list \<Rightarrow> bool" where
  "scanned_by wk db j bs \<longleftrightarrow>
     (\<exists>a. address_of (job_collection_id j) db = Some a \<and>
        (\<forall>b \<in> set bs. answered (worker_provider wk) a [] b)) \<and>
     contiguous scan_slice_blocks (job_start_block j) bs \<and>
     (\<forall>log \<in> set (logs_of bs). log_stored (worker_libraries wk) db log) \<and>
     resume_block (job_start_block j) bs \<le> job_end_block j + 1 \<and>
     committed_block (slice_consumer (job_collection_id j)) db =
       (if bs = [] then None else Some (resume_block (job_start_block j) bs - 1))"

definition job_ok :: "'p scan_worker \<Rightarrow> ethereum_db \<Rightarrow> scan_job \<Rightarrow> bool" where
  "job_ok wk db j \<longleftrightarrow> job_scan_version j = 1 \<and> 0 \<le> job_start_block j \<and>
     (\<exists>bs. scanned_by wk db j bs \<and>
        (job_status j = ScanJobStatus_COMPLETED \<longrightarrow>
           resume_block (job_start_block j) bs = job_end_block j + 1))"

definition jobs_ok :: "'p scan_worker \<Rightarrow> ethereum_db \<Rightarrow> bool" where
  "jobs_ok wk db \<longleftrightarrow> unique_table job_clash (scan_jobs db) \<and>
     (\<forall>j \<in> set (scan_jobs db). job_ok wk db j) \<and>
     (\<forall>cid. job_row cid db = None \<longrightarrow> committed_block (slice_consumer cid) db = None)"

lemma scanned_by_next_block:
  "scanned_by wk db j bs \<Longrightarrow> next_block j db = resume_block (job_start_block j) bs"
  by (cases bs) (auto simp: scanned_by_def next_block_def)

lemma job_ok_next_block:
  assumes "job_ok wk db j"
  shows "0 \<le> next_block j db \<and> next_block j db \<le> job_end_block j + 1 \<and>
    (job_status j = ScanJobStatus_COMPLETED \<longrightarrow> next_block j db = job_end_block j + 1)"
proof -
  from assms obtain bs where bs: "scanned_by wk db j bs" "0 \<le> job_start_block j"
    "job_status j = ScanJobStatus_COMPLETED \<longrightarrow>
      resume_block (job_start_block j) bs = job_end_block j + 1" by (auto simp: job_ok_def)
  from bs(1) have "contiguous scan_slice_blocks (job_start_block j) bs"
    "resume_block (job_start_block j) bs \<le> job_end_block j + 1" by (auto simp: scanned_by_def)
  with contiguous_resume [OF this(1)] bs show ?thesis by (simp add: scanned_by_next_block [OF bs(1)])
qed

lemma job_row_in: "job_row cid db = Some j \<Longrightarrow> j \<in> set (scan_jobs db) \<and> job_collection_id j = cid"
  by (auto simp: job_row_def job_of_def dest: select_one_SomeD)

lemma job_row_unique:
  assumes "jobs_ok wk db" and "j \<in> set (scan_jobs db)"
  shows "job_row (job_collection_id j) db = Some j"
proof -
  from assms have "job_scan_version j = 1" by (auto simp: jobs_ok_def job_ok_def)
  with assms show ?thesis unfolding job_row_def
    by (intro select_one_unique_table [where clash = job_clash])
      (auto simp: jobs_ok_def job_of_def job_clash_def)
qed

subsection \<open>Steps that move no checkpoint\<close>

text \<open>
  What such a step keeps: the addresses of the collections, the checkpoints, and what is stored.
\<close>

definition keeps_progress :: "ethereum_db \<Rightarrow> ethereum_db \<Rightarrow> bool" where
  "keeps_progress db db' \<longleftrightarrow>
     (\<forall>cid a. address_of cid db = Some a \<longrightarrow> address_of cid db' = Some a) \<and>
     (\<forall>cid. committed_block (slice_consumer cid) db' = committed_block (slice_consumer cid) db) \<and>
     stored_hashes db \<subseteq> stored_hashes db' \<and> stored_positions db \<subseteq> stored_positions db'"

lemma keeps_progress_next_block: "keeps_progress db db' \<Longrightarrow> next_block j db' = next_block j db"
  by (simp add: keeps_progress_def next_block_def)

text \<open>What the invariant asks of a job does not depend on its counters and warnings.\<close>

definition same_job :: "scan_job \<Rightarrow> scan_job \<Rightarrow> bool" where
  "same_job j j' \<longleftrightarrow> job_id j' = job_id j \<and> job_collection_id j' = job_collection_id j \<and>
     job_scan_version j' = job_scan_version j \<and> job_start_block j' = job_start_block j \<and>
     job_end_block j' = job_end_block j"

lemma scanned_by_keeps:
  "scanned_by wk db j bs \<Longrightarrow> keeps_progress db db' \<Longrightarrow> same_job j j' \<Longrightarrow> scanned_by wk db' j' bs"
  unfolding scanned_by_def keeps_progress_def same_job_def
  by (metis log_stored_mono)

lemma same_job_next_block: "same_job j j' \<Longrightarrow> next_block j' db = next_block j db"
  by (auto simp: same_job_def next_block_def split: option.splits)

lemma job_ok_keeps:
  assumes "job_ok wk db j" and "keeps_progress db db'" and "same_job j j'"
    and "job_status j' = ScanJobStatus_COMPLETED \<Longrightarrow>
      job_status j = ScanJobStatus_COMPLETED \<or> next_block j db = job_end_block j + 1"
  shows "job_ok wk db' j'"
proof -
  from assms(1) obtain bs where bs: "scanned_by wk db j bs" "job_status j = ScanJobStatus_COMPLETED \<longrightarrow>
      resume_block (job_start_block j) bs = job_end_block j + 1"
    by (auto simp: job_ok_def)
  with assms(4) have "job_status j' = ScanJobStatus_COMPLETED \<longrightarrow>
      resume_block (job_start_block j') bs = job_end_block j' + 1"
    using assms(3) scanned_by_next_block [OF bs(1)] by (auto simp: same_job_def)
  with scanned_by_keeps [OF bs(1) assms(2,3)] assms(1,3) show ?thesis
    by (auto simp: job_ok_def same_job_def)
qed

lemma select_one_map:
  assumes "\<And>r. r \<in> set rows \<Longrightarrow> q (f r) \<longleftrightarrow> q r"
  shows "select_one q (map f rows) = map_option f (select_one q rows)"
  using assms by (induction rows) auto

lemma jobs_ok_keeps:
  assumes "jobs_ok wk db" and "keeps_progress db db'" and "scan_jobs db' = map f (scan_jobs db)"
    and "\<And>j. j \<in> set (scan_jobs db) \<Longrightarrow> same_job j (f j)"
    and "\<And>j. j \<in> set (scan_jobs db) \<Longrightarrow> job_status (f j) = ScanJobStatus_COMPLETED \<Longrightarrow>
      job_status j = ScanJobStatus_COMPLETED \<or> next_block j db = job_end_block j + 1"
  shows "jobs_ok wk db'"
proof -
  from assms(1) have ok: "unique_table job_clash (scan_jobs db)"
    "\<And>j. j \<in> set (scan_jobs db) \<Longrightarrow> job_ok wk db j"
    "\<And>cid. job_row cid db = None \<Longrightarrow> committed_block (slice_consumer cid) db = None"
    by (auto simp: jobs_ok_def)
  have "unique_table job_clash (scan_jobs db')"
    unfolding assms(3) using assms(4)
    by (intro unique_table_map [OF ok(1)]) (auto simp: job_clash_def same_job_def)
  moreover have "job_ok wk db' j'" if "j' \<in> set (scan_jobs db')" for j'
    using that assms(3,4,5) by (auto intro: job_ok_keeps [OF ok(2) assms(2)])
  moreover have "committed_block (slice_consumer cid) db' = None" if "job_row cid db' = None" for cid
  proof -
    have "job_row cid db' = map_option f (job_row cid db)"
      unfolding job_row_def assms(3) using assms(4)
      by (intro select_one_map) (auto simp: job_of_def same_job_def)
    with that ok(3) assms(2) show ?thesis by (simp add: keeps_progress_def)
  qed
  ultimately show ?thesis by (auto simp: jobs_ok_def)
qed

lemmas jobs_ok_same = jobs_ok_keeps [where f = id, simplified same_job_def id_apply, simplified]


section \<open>The steps of a task\<close>

lemma keeps_progress_refl [simp]: "keeps_progress db db"
  by (simp add: keeps_progress_def)

lemma keeps_progress_trans:
  "keeps_progress db db1 \<Longrightarrow> keeps_progress db1 db2 \<Longrightarrow> keeps_progress db db2"
  by (auto simp: keeps_progress_def)

lemma and_then_cases:
  assumes "and_then m f = (answer, p', db')"
  obtains (failed) e where "m = (Inl e, p', db')" and "answer = Inl e"
  | (went) x p1 db1 where "m = (Inr x, p1, db1)" and "f x p1 db1 = (answer, p', db')"
  using assms by (auto simp: and_then_def split: prod.splits sum.splits)

lemma in_transaction_cases:
  assumes "in_transaction p db m = (answer, p', db')"
  obtains (aborted) e where "answer = Inl e" and "p' = p" and "db' = db"
  | (committed) x where "m = Inr (x, db')" and "answer = Inr x" and "p' = p"
  using assms by (cases m) (auto simp: in_transaction_def)

lemma update_collection_keeps:
  assumes "\<And>c. collection_id (f c) = collection_id c \<and>
    collection_checksum_address (f c) = collection_checksum_address c"
  shows "keeps_progress db (update_collection cid f db)"
proof -
  have "address_of cid' (update_collection cid f db) = address_of cid' db" for cid'
    by (cases "select_one (\<lambda>c. collection_id c = cid') (collections db)")
      (simp_all add: address_of_def collection_row_def update_collection_def select_one_update_rows assms)
  then show ?thesis
    by (simp add: keeps_progress_def update_collection_def committed_block_def stored_hashes_def
        stored_positions_def)
qed

lemma update_job_keeps: "keeps_progress db (update_job j f db)"
  by (simp add: keeps_progress_def update_job_def committed_block_def stored_hashes_def
      stored_positions_def address_of_def collection_row_def)

lemma jobs_ok_update_job:
  assumes "jobs_ok wk db" and "j \<in> set (scan_jobs db)" and "\<And>r. same_job r (f r)"
    and "job_status (f j) = ScanJobStatus_COMPLETED \<Longrightarrow>
      job_status j = ScanJobStatus_COMPLETED \<or> next_block j db = job_end_block j + 1"
  shows "jobs_ok wk (update_job j f db)"
proof (rule jobs_ok_keeps [OF assms(1) update_job_keeps, where f = "\<lambda>r. if job_id r = job_id j then f r else r"])
  show "scan_jobs (update_job j f db) = map (\<lambda>r. if job_id r = job_id j then f r else r) (scan_jobs db)"
    by (simp add: update_job_def update_rows_def)
next
  fix r assume r: "r \<in> set (scan_jobs db)"
  show "same_job r (if job_id r = job_id j then f r else r)"
    using assms(3) by (simp add: same_job_def)
  assume completed: "job_status (if job_id r = job_id j then f r else r) = ScanJobStatus_COMPLETED"
  have "r = j" if "job_id r = job_id j"
    using unique_tableD [of job_clash "scan_jobs db" r j] assms(1,2) r that clash_sym(3)
    by (auto simp: jobs_ok_def job_clash_def)
  with completed assms(4)
  show "job_status r = ScanJobStatus_COMPLETED \<or> next_block r db = job_end_block r + 1"
    by (auto split: if_splits)
qed

lemma record_deployment_ok:
  assumes "record_deployment cid pr db = Inr (start, db')" and "jobs_ok wk db"
  shows "jobs_ok wk db' \<and> keeps_progress db db' \<and> scan_jobs db' = scan_jobs db \<and> mint_events db' = mint_events db"
proof -
  from assms(1) have "keeps_progress db db' \<and> scan_jobs db' = scan_jobs db \<and> mint_events db' = mint_events db"
    by (auto simp: record_deployment_def update_collection_keeps
        split: option.splits if_splits) (auto simp: update_collection_def)
  with jobs_ok_keeps [OF assms(2), of db' id] show ?thesis by (simp add: same_job_def)
qed

lemma locate_start_ok:
  assumes "locate_start wk c p db = (answer, p', db')" and "jobs_ok wk db"
  shows "jobs_ok wk db' \<and> keeps_progress db db' \<and> scan_jobs db' = scan_jobs db \<and> mint_events db' = mint_events db"
  using assms
  by (auto simp: locate_start_def split: option.splits prod.splits sum.splits
      elim!: in_transaction_cases dest: record_deployment_ok)

lemma insert_job_ok:
  assumes "jobs_ok wk db" and "job_row cid db = None" and "known_collection db cid"
    and "insert_row job_clash j (scan_jobs db) = Inr rows"
    and j: "j = new_job jid cid start_block end_block" and "job_checks j"
  shows "jobs_ok wk (db\<lparr> scan_jobs := rows, drawn := n \<rparr>)"
proof -
  let ?db = "db\<lparr> scan_jobs := rows, drawn := n \<rparr>"
  note rows = insert_row_InrD [OF assms(4)]
  have keeps: "keeps_progress db ?db"
    by (simp add: keeps_progress_def committed_block_def stored_hashes_def stored_positions_def
        address_of_def collection_row_def)
  have none: "committed_block (slice_consumer cid) db = None"
    using assms(1,2) by (simp add: jobs_ok_def)
  obtain a where "address_of cid db = Some a"
    using assms(3) select_one_None_iff [of "\<lambda>c. collection_id c = cid" "collections db"]
    by (cases "collection_row cid db")
      (auto simp: address_of_def collection_row_def known_collection_def list_ex_iff)
  with keeps have "scanned_by wk ?db j []"
    using none assms(6)
    by (auto simp: scanned_by_def keeps_progress_def j new_job_def job_checks_def logs_of_def)
  then have "job_ok wk ?db j"
    using assms(6) by (auto simp: job_ok_def j new_job_def job_checks_def)
  moreover have "job_ok wk ?db j'" if "j' \<in> set (scan_jobs db)" for j'
    using assms(1) that by (intro job_ok_keeps [OF _ keeps]) (auto simp: jobs_ok_def same_job_def)
  moreover have "unique_table job_clash rows"
    using assms(1,4) by (auto simp: jobs_ok_def intro: unique_table_insert_row)
  moreover have "committed_block (slice_consumer k) ?db = None" if "job_row k ?db = None" for k
  proof -
    from that rows have "job_row k db = None"
      by (auto simp: job_row_def select_one_None_iff)
    with assms(1) keeps show ?thesis by (simp add: jobs_ok_def keeps_progress_def)
  qed
  ultimately show ?thesis using rows by (auto simp: jobs_ok_def)
qed


lemma open_job_ok:
  assumes "open_job dr cid start_block end_block db = Inr (window, db')" and "jobs_ok wk db"
  shows "jobs_ok wk db' \<and> keeps_progress db db' \<and> mint_events db' = mint_events db \<and>
    (case window of
       None \<Rightarrow> db' = db \<and> (\<exists>j. job_row cid db = Some j \<and> job_status j = ScanJobStatus_COMPLETED)
     | Some (cursor, fixed_end) \<Rightarrow> \<exists>j. job_row cid db' = Some j \<and> cursor = next_block j db' \<and>
         fixed_end = job_end_block j \<and> job_status j \<noteq> ScanJobStatus_COMPLETED \<and>
         (\<forall>j0. job_row cid db = Some j0 \<longrightarrow> same_job j0 j))"
proof (cases "job_row cid db")
  case None
  let ?j = "new_job (draw_id dr (drawn db)) cid start_block end_block"
  from assms(1) None obtain rows where rows: "insert_row job_clash ?j (scan_jobs db) = Inr rows"
    "job_checks ?j" "known_collection db cid" "window = Some (next_block ?j db, job_end_block ?j)"
    and db': "db' = db\<lparr> scan_jobs := rows, drawn := Suc (drawn db) \<rparr>"
    by (auto simp: open_job_def Let_def split: if_splits elim!: attempt_InrE)
  have ok: "jobs_ok wk db'"
    unfolding db' by (rule insert_job_ok [OF assms(2) None rows(3,1) refl rows(2)])
  have keeps: "keeps_progress db db'"
    by (simp add: db' keeps_progress_def committed_block_def stored_hashes_def stored_positions_def
        address_of_def collection_row_def)
  have "?j \<in> set (scan_jobs db')" using insert_row_InrD [OF rows(1)] by (simp add: db')
  from job_row_unique [OF ok this] have "job_row cid db' = Some ?j" by (simp add: new_job_def)
  moreover have "mint_events db' = mint_events db" by (simp add: db')
  ultimately show ?thesis using ok keeps rows(4) None
    by (simp add: keeps_progress_next_block [OF keeps] new_job_def)
next
  case (Some j)
  note j = job_row_in [OF Some]
  show ?thesis
  proof (cases "job_status j = ScanJobStatus_COMPLETED")
    case True
    with assms Some show ?thesis by (auto simp: open_job_def)
  next
    case False
    let ?f = "\<lambda>r. r\<lparr> job_status := ScanJobStatus_RUNNING, job_attempt_count := job_attempt_count r + 1 \<rparr>"
    have same: "same_job r (?f r)" for r by (simp add: same_job_def)
    from assms(1) Some False have run: "window = Some (next_block j db, job_end_block j)" "db' = update_job j ?f db"
      by (auto simp: open_job_def split: if_splits)
    have ok: "jobs_ok wk db'"
      unfolding run by (rule jobs_ok_update_job [OF assms(2) j [THEN conjunct1] same]) simp
    have keeps: "keeps_progress db db'" unfolding run by (rule update_job_keeps)
    have "?f j \<in> set (scan_jobs db')"
      using j by (auto simp: run update_job_def set_update_rows)
    from job_row_unique [OF ok this] j have "job_row cid db' = Some (?f j)" by simp
    moreover have "mint_events db' = mint_events db" by (simp add: run update_job_def)
    ultimately show ?thesis using ok keeps run(1) Some same [of j]
      by (simp add: keeps_progress_next_block [OF keeps] same_job_next_block [OF same])
  qed
qed

lemma event_position_provenance: "event_position (provenance e) = event_position e"
  by (simp add: event_position_def provenance_def)

lemma rows_enriched_positions:
  assumes "rows_enriched due rows rows'"
  shows "event_position ` set rows' = event_position ` set rows"
proof -
  have positions: "event_position ` set es = set (map event_position (map provenance es))" for es
    by (auto simp: event_position_provenance image_iff)
  show ?thesis unfolding positions using rows_enriched_provenance [OF assms] by simp
qed

lemma enrich_range_keeps:
  assumes "enrich_range dr lib prov alias cid start_block end_block p db = (answer, p', db')"
  shows "keeps_progress db db' \<and> scan_jobs db' = scan_jobs db"
  using enrich_range_cases [OF assms] rows_enriched_positions adds_evidence_subset
  by (fastforce simp: keeps_progress_def same_scan_state_def committed_block_def stored_hashes_def
      stored_positions_def address_of_def collection_row_def)

lemma commits_frame:
  assumes "(commits (commit_batch dr lib mc))\<^sup>*\<^sup>* db db'"
  shows "collections db' = collections db \<and> scan_jobs db' = scan_jobs db \<and>
    (\<forall>mc'. consumer_collection_id mc' \<noteq> consumer_collection_id mc \<longrightarrow>
       committed_block mc' db' = committed_block mc' db)"
  using assms
proof (induction rule: rtranclp_induct)
  case (step db1 db2)
  then obtain b answer where "commit_batch dr lib mc b db1 = (answer, db2)" by (auto simp: commits_def)
  with step.IH commit_batch_cases [OF this] commit_batch_other [OF this] show ?case by auto
qed simp

lemma contiguous_mono: "contiguous m from bs \<Longrightarrow> m \<le> m' \<Longrightarrow> contiguous m' from bs"
  by (induction bs arbitrary: "from") auto

text \<open>What a scan from the next block on commits, and what it leaves of other collections.\<close>

definition scan_adds ::
  "libraries \<Rightarrow> 'p evm_provider \<Rightarrow> string \<Rightarrow> uuid \<Rightarrow> int \<Rightarrow> scan_batch list \<Rightarrow> ethereum_db \<Rightarrow> ethereum_db \<Rightarrow> bool"
where
  "scan_adds lib prov a cid from new db db' \<longleftrightarrow>
     contiguous scan_slice_blocks from new \<and> (\<forall>b \<in> set new. answered prov a [] b) \<and>
     (\<forall>log \<in> set (logs_of new). log_stored lib db' log) \<and>
     stored_hashes db \<subseteq> stored_hashes db' \<and> stored_positions db \<subseteq> stored_positions db' \<and>
     collections db' = collections db \<and> scan_jobs db' = scan_jobs db \<and>
     committed_block (slice_consumer cid) db' = (if new = [] then committed_block (slice_consumer cid) db
       else Some (resume_block from new - 1)) \<and>
     (\<forall>k. k \<noteq> cid \<longrightarrow> committed_block (slice_consumer k) db' = committed_block (slice_consumer k) db)"

lemma scan_adds_batches:
  assumes "config_ok cfg" and "maximum_chunk cfg \<le> scan_slice_blocks"
    and "scan prov (commit_batch dr lib (slice_consumer cid)) cfg a [] start_block slice_end p db = (answer, p', db')"
    and "case committed_block (slice_consumer cid) db of None \<Rightarrow> True | Some n \<Rightarrow> n < start_block"
  shows "\<exists>new. scan_adds lib prov a cid start_block new db db' \<and>
    (new \<noteq> [] \<longrightarrow> resume_block start_block new \<le> slice_end + 1) \<and>
    (answer = Inr () \<longrightarrow> resume_block start_block new = slice_end + 1)"
proof -
  let ?mc = "slice_consumer cid"
  from scan_trace [OF assms(1,3)] obtain new where
    run: "commit_run (commit_batch dr lib ?mc) new db db'"
    and new: "contiguous (maximum_chunk cfg) start_block new" "\<forall>b \<in> set new. answered prov a [] b"
      "new \<noteq> [] \<longrightarrow> resume_block start_block new \<le> slice_end + 1"
      "answer = Inr () \<longrightarrow> resume_block start_block new = slice_end + 1" by blast
  have "fold (absorb_batch lib) new (store_view ?mc db) =
     (stored_hashes db \<union> log_hash lib ` set (logs_of new),
      stored_positions db \<union> (\<Union>log \<in> set (logs_of new). set (log_positions lib log)),
      if new = [] then committed_block ?mc db else Some (resume_block start_block new - 1))"
    unfolding store_view_def by (rule fold_absorb_batch [OF new(1) assms(4)])
  with mint_batches.commit_run_seen [OF run] have view:
    "stored_hashes db' = stored_hashes db \<union> log_hash lib ` set (logs_of new)"
    "stored_positions db' = stored_positions db \<union> (\<Union>log \<in> set (logs_of new). set (log_positions lib log))"
    "committed_block ?mc db' = (if new = [] then committed_block ?mc db
       else Some (resume_block start_block new - 1))"
    by (simp_all add: store_view_def)
  have "log_decodes lib log" if "log \<in> set (logs_of new)" for log
    using that commit_run_accepts [OF run] by (fastforce simp: logs_of_def dest: commit_batch_decodes)
  then have "log_stored lib db' log" if "log \<in> set (logs_of new)" for log
    using that by (intro log_storedI) (auto simp: view)
  with view new commits_frame [OF commit_run_commits [OF run]] contiguous_mono [OF new(1) assms(2)]
  have "scan_adds lib prov a cid start_block new db db'"
    by (simp add: scan_adds_def) (simp add: slice_consumer_def)
  with new(3,4) show ?thesis by blast
qed

lemma scanned_by_extend:
  assumes "scanned_by wk db j bs" and "address_of (job_collection_id j) db = Some a"
    and "scan_adds (worker_libraries wk) (worker_provider wk) a (job_collection_id j) (next_block j db) new db db'"
    and "new \<noteq> [] \<longrightarrow> resume_block (next_block j db) new \<le> job_end_block j + 1"
  shows "scanned_by wk db' j (bs @ new)"
proof -
  note next_is = scanned_by_next_block [OF assms(1)]
  have "log_stored (worker_libraries wk) db' log" if "log \<in> set (logs_of bs)" for log
    using assms(1,3) that log_stored_mono [of "worker_libraries wk" db log db']
    by (auto simp: scanned_by_def scan_adds_def)
  moreover have "address_of k db' = address_of k db" for k
    using assms(3) by (simp add: scan_adds_def address_of_def collection_row_def)
  ultimately show ?thesis
    using assms by (cases "new = []")
      (auto simp: scanned_by_def scan_adds_def contiguous_append resume_block_append logs_of_def
        next_is [symmetric])
qed

lemma scanned_by_other:
  assumes "scanned_by wk db j bs" and "job_collection_id j \<noteq> cid"
    and "scan_adds (worker_libraries wk) prov a cid from new db db'"
  shows "scanned_by wk db' j bs"
proof -
  have "address_of k db' = address_of k db" for k
    using assms(3) by (simp add: scan_adds_def address_of_def collection_row_def)
  with assms log_stored_mono [of "worker_libraries wk" db _ db'] show ?thesis
    by (auto simp: scanned_by_def scan_adds_def)
qed

lemma jobs_ok_extend:
  assumes "jobs_ok wk db" and "job_row cid db = Some j" and "job_ok wk db' j"
    and "scan_adds (worker_libraries wk) prov a cid from new db db'"
  shows "jobs_ok wk db'"
proof -
  from assms(4) have jobs: "scan_jobs db' = scan_jobs db"
    and others: "\<And>k. k \<noteq> cid \<Longrightarrow> committed_block (slice_consumer k) db' = committed_block (slice_consumer k) db"
    by (auto simp: scan_adds_def)
  have "job_ok wk db' j'" if "j' \<in> set (scan_jobs db')" for j'
  proof (cases "job_collection_id j' = cid")
    case True
    with job_row_unique [OF assms(1), of j'] that jobs assms(2,3) show ?thesis by simp
  next
    case False
    from that jobs assms(1) have "job_ok wk db j'" by (auto simp: jobs_ok_def)
    with scanned_by_other [OF _ False assms(4)] show ?thesis unfolding job_ok_def by blast
  qed
  moreover have "committed_block (slice_consumer k) db' = None" if "job_row k db' = None" for k
    using that assms(1,2) others [of k] jobs by (cases "k = cid") (auto simp: job_row_def jobs_ok_def)
  ultimately show ?thesis using assms(1) jobs by (auto simp: jobs_ok_def)
qed

lemma scan_ok:
  assumes "jobs_ok wk db" and "job_row cid db = Some j" and "address_of cid db = Some a"
    and "config_ok cfg" and "maximum_chunk cfg \<le> scan_slice_blocks"
    and "next_block j db \<le> slice_end" and "slice_end \<le> job_end_block j"
    and "scan (worker_provider wk) (commit_batch dr (worker_libraries wk) (slice_consumer cid)) cfg a []
      (next_block j db) slice_end p db = (answer, p', db')"
  shows "jobs_ok wk db' \<and> scan_jobs db' = scan_jobs db \<and> collections db' = collections db \<and>
    (answer = Inr () \<longrightarrow> next_block j db' = slice_end + 1)"
proof -
  note j = job_row_in [OF assms(2)]
  have "case committed_block (slice_consumer cid) db of None \<Rightarrow> True | Some n \<Rightarrow> n < next_block j db"
    using j by (simp add: next_block_def split: option.splits)
  from scan_adds_batches [OF assms(4,5,8) this] obtain new where
    adds: "scan_adds (worker_libraries wk) (worker_provider wk) a cid (next_block j db) new db db'"
    and new: "new \<noteq> [] \<longrightarrow> resume_block (next_block j db) new \<le> slice_end + 1"
      "answer = Inr () \<longrightarrow> resume_block (next_block j db) new = slice_end + 1" by blast
  from assms(1) j have ok_j: "job_ok wk db j" by (auto simp: jobs_ok_def)
  then obtain bs where bs: "scanned_by wk db j bs" by (auto simp: job_ok_def)
  have extended: "scanned_by wk db' j (bs @ new)"
    using adds new(1) assms(3,7) j by (intro scanned_by_extend [OF bs]) auto
  have "job_status j \<noteq> ScanJobStatus_COMPLETED"
    using job_ok_next_block [OF ok_j] assms(6,7) by auto
  with extended ok_j have "job_ok wk db' j" by (auto simp: job_ok_def)
  from jobs_ok_extend [OF assms(1,2) this adds] adds new(2) show ?thesis
    by (auto simp: scan_adds_def scanned_by_next_block [OF extended] resume_block_append
        scanned_by_next_block [OF bs])
qed

section \<open>A whole task\<close>

text \<open>Settings that \<^verbatim>\<open>WorkerSettings\<close> accepts make a scanner of at most a slice.\<close>

lemma slice_scanner:
  assumes "load_worker_settings s = Inr s"
  shows "\<exists>cfg. adaptive_historical_scanner (min (indexer_initial_chunk s) scan_slice_blocks)
      (min (indexer_max_chunk s) scan_slice_blocks) 1000 = Inr cfg \<and>
    config_ok cfg \<and> maximum_chunk cfg \<le> scan_slice_blocks"
  using assms
  by (auto simp: load_worker_settings_Inr_iff adaptive_historical_scanner_def config_ok_def scan_slice_blocks_def)

definition at_job :: "'p scan_worker \<Rightarrow> collection \<Rightarrow> scan_job \<Rightarrow> ethereum_db \<Rightarrow> bool" where
  "at_job wk c j db \<longleftrightarrow> load_worker_settings (worker_config wk) = Inr (worker_config wk) \<and> jobs_ok wk db \<and>
     job_row (collection_id c) db = Some j \<and> job_status j \<noteq> ScanJobStatus_COMPLETED \<and>
     address_of (collection_id c) db = Some (collection_checksum_address c)"

lemma scan_range_ok:
  assumes "at_job wk c j db" and "next_block j db \<le> slice_end" and "slice_end \<le> job_end_block j"
    and "scan_range wk c (next_block j db) slice_end p db = (answer, p', db')"
  shows "at_job wk c j db' \<and> (\<forall>warnings. answer = Inr warnings \<longrightarrow> next_block j db' = slice_end + 1)"
proof -
  from assms(1) have settings: "load_worker_settings (worker_config wk) = Inr (worker_config wk)"
    and ok: "jobs_ok wk db" and row: "job_row (collection_id c) db = Some j"
    and address: "address_of (collection_id c) db = Some (collection_checksum_address c)"
    and status: "job_status j \<noteq> ScanJobStatus_COMPLETED"
    by (auto simp: at_job_def)
  from slice_scanner [OF settings] obtain cfg where
    cfg: "adaptive_historical_scanner (min (indexer_initial_chunk (worker_config wk)) scan_slice_blocks)
      (min (indexer_max_chunk (worker_config wk)) scan_slice_blocks) 1000 = Inr cfg"
      "config_ok cfg" "maximum_chunk cfg \<le> scan_slice_blocks" by blast
  note scanned = scan_ok [OF ok row address cfg(2,3) assms(2,3)]
  have same: "at_job wk c j db1" if "jobs_ok wk db1" "scan_jobs db1 = scan_jobs db"
      "address_of (collection_id c) db1 = address_of (collection_id c) db" for db1
    using that settings row address status by (simp add: at_job_def job_row_def)
  from assms(4) show ?thesis unfolding scan_range_def cfg(1) sum.case
  proof (cases rule: and_then_cases)
    case (failed e)
    with scanned [OF failed(1)] show ?thesis
      by (auto intro!: same simp: address_of_def collection_row_def)
  next
    case (went u p1 db1)
    note first = scanned [OF went(1)] and rest = enrich_range_keeps [OF went(2)]
    from rest jobs_ok_keeps [of wk db1 db' id] first have "jobs_ok wk db'"
      by (simp add: same_job_def)
    moreover have "address_of (collection_id c) db1 = Some (collection_checksum_address c)"
      using first address by (simp add: address_of_def collection_row_def)
    with rest address have "address_of (collection_id c) db' = address_of (collection_id c) db"
      by (simp add: keeps_progress_def)
    moreover have "next_block j db' = next_block j db1" using rest by (blast dest: keeps_progress_next_block)
    ultimately show ?thesis using first rest same by simp
  qed
qed

lemma finish_slice_ok:
  assumes "at_job wk c j db" and "completed \<longleftrightarrow> next_block j db = job_end_block j + 1"
    and "finish_slice (collection_id c) completed p db = (answer, p', db')"
  shows "jobs_ok wk db' \<and> answer = Inr completed \<and> (\<exists>j'. job_row (collection_id c) db' = Some j' \<and> same_job j j' \<and>
    next_block j' db' = next_block j db \<and> (completed \<longrightarrow> job_status j' = ScanJobStatus_COMPLETED))"
proof (cases completed)
  case False
  with assms show ?thesis by (auto simp: finish_slice_def at_job_def same_job_def)
next
  case True
  let ?f = "\<lambda>r. r\<lparr> job_status := ScanJobStatus_COMPLETED \<rparr>"
  from assms(1) have row: "job_row (collection_id c) db = Some j" and ok: "jobs_ok wk db"
    by (auto simp: at_job_def)
  note j = job_row_in [OF row]
  have same: "same_job r (?f r)" for r by (simp add: same_job_def)
  define db1 where "db1 = update_job j ?f db"
  have ok1: "jobs_ok wk db1"
    unfolding db1_def using j assms(2) True
    by (intro jobs_ok_update_job [OF ok _ same]) auto
  from assms(3) True row obtain g where db': "db' = update_collection (collection_id c) g db1"
    and g: "\<And>k. collection_id (g k) = collection_id k \<and>
      collection_checksum_address (g k) = collection_checksum_address k"
    and answer: "answer = Inr completed"
    by (auto simp: finish_slice_def and_then_def in_transaction_def complete_scan_def Let_def db1_def)
  have keeps: "keeps_progress db1 db'" unfolding db' by (rule update_collection_keeps [OF g])
  have jobs: "scan_jobs db' = scan_jobs db1" by (simp add: db' update_collection_def)
  have ok': "jobs_ok wk db'"
    using jobs_ok_keeps [OF ok1 keeps, of id] jobs by (simp add: same_job_def)
  have "?f j \<in> set (scan_jobs db')" using j by (auto simp: jobs db1_def update_job_def set_update_rows)
  from job_row_unique [OF ok' this] j have "job_row (collection_id c) db' = Some (?f j)" by simp
  moreover have "next_block (?f j) db' = next_block j db"
    using keeps_progress_next_block [OF keeps] keeps_progress_next_block [OF update_job_keeps]
    by (simp add: same_job_next_block [OF same] db1_def)
  ultimately show ?thesis using ok' answer same [of j] by auto
qed

lemma add_warnings_ok:
  assumes "add_warnings (collection_id c) warnings db = Inr (u, db')" and "at_job wk c j db"
  shows "\<exists>j'. at_job wk c j' db' \<and> same_job j j' \<and> next_block j' db' = next_block j db"
proof -
  from assms(2) have row: "job_row (collection_id c) db = Some j" and ok: "jobs_ok wk db"
    by (auto simp: at_job_def)
  note j = job_row_in [OF row]
  from assms(1) row obtain ws where db': "db' = update_job j (\<lambda>r. r\<lparr> job_quality_warnings := ws \<rparr>) db"
    by (auto simp: add_warnings_def)
  let ?f = "\<lambda>r. r\<lparr> job_quality_warnings := ws \<rparr>"
  have same: "same_job r (?f r)" for r by (simp add: same_job_def)
  have ok': "jobs_ok wk db'"
    unfolding db' by (rule jobs_ok_update_job [OF ok j [THEN conjunct1] same]) simp
  have "?f j \<in> set (scan_jobs db')" using j by (auto simp: db' update_job_def set_update_rows)
  from job_row_unique [OF ok' this] j have "job_row (collection_id c) db' = Some (?f j)" by simp
  moreover have keeps: "keeps_progress db db'" unfolding db' by (rule update_job_keeps)
  ultimately have "at_job wk c (?f j) db'"
    using assms(2) ok' by (auto simp: at_job_def keeps_progress_def)
  then show ?thesis
    using same [of j] keeps_progress_next_block [OF keeps] same_job_next_block [OF same] by auto
qed

text \<open>What a slice leaves behind: the next block is a slice further, or the job is completed.\<close>

definition advanced :: "'p scan_worker \<Rightarrow> uuid \<Rightarrow> scan_job \<Rightarrow> int \<Rightarrow> bool \<Rightarrow> ethereum_db \<Rightarrow> bool" where
  "advanced wk cid j cursor completed db' \<longleftrightarrow>
     (\<exists>j'. job_row cid db' = Some j' \<and> same_job j j' \<and>
        next_block j' db' = min (cursor + scan_slice_blocks) (job_end_block j + 1) \<and>
        (completed \<longleftrightarrow> next_block j' db' = job_end_block j + 1) \<and>
        (completed \<longrightarrow> job_status j' = ScanJobStatus_COMPLETED))"


lemma scan_slice_ok:
  assumes "at_job wk c j db"
    and "scan_slice wk c (next_block j db) (job_end_block j) p db = (answer, p', db')"
  shows "jobs_ok wk db' \<and>
    (\<forall>completed. answer = Inr completed \<longrightarrow> advanced wk (collection_id c) j (next_block j db) completed db')"
proof (cases "next_block j db \<le> job_end_block j")
  case False
  from assms(1) have "job_ok wk db j" by (auto simp: at_job_def jobs_ok_def dest: job_row_in)
  from job_ok_next_block [OF this] False have "next_block j db = job_end_block j + 1" by simp
  with finish_slice_ok [OF assms(1), of True p answer p' db'] assms(2) False show ?thesis
    by (auto simp: scan_slice_def advanced_def scan_slice_blocks_def)
next
  case True
  let ?slice_end = "min (next_block j db + scan_slice_blocks - 1) (job_end_block j)"
  have slice: "next_block j db \<le> ?slice_end" "?slice_end \<le> job_end_block j"
    using True by (auto simp: scan_slice_blocks_def)
  note scanned = scan_range_ok [OF assms(1) slice]
  from assms(2) True have run: "and_then (scan_range wk c (next_block j db) ?slice_end p db) (\<lambda>warnings p1 db1.
      and_then (if warnings = [] then (Inr (), p1, db1)
          else in_transaction p1 db1 (add_warnings (collection_id c) warnings db1)) (\<lambda>_ p2 db2.
      finish_slice (collection_id c) (job_end_block j \<le> ?slice_end) p2 db2)) = (answer, p', db')"
    by (simp add: scan_slice_def Let_def)
  then show ?thesis
  proof (cases rule: and_then_cases)
    case (failed e)
    with scanned [OF failed(1)] show ?thesis by (auto simp: at_job_def)
  next
    case (went warnings p1 db1)
    from scanned [OF went(1)] have one: "at_job wk c j db1" "next_block j db1 = ?slice_end + 1" by auto
    from went(2) show ?thesis
    proof (cases rule: and_then_cases)
      case (failed e)
      then show ?thesis using one by (auto simp: at_job_def split: if_splits elim!: in_transaction_cases)
    next
      case (went u p2 db2)
      have "\<exists>j2. at_job wk c j2 db2 \<and> same_job j j2 \<and> next_block j2 db2 = next_block j db1"
        using went(1) one(1) add_warnings_ok [OF _ one(1)]
        by (auto simp: same_job_def split: if_splits elim!: in_transaction_cases)
      then obtain j2 where j2: "at_job wk c j2 db2" "same_job j j2" "next_block j2 db2 = ?slice_end + 1"
        using one(2) by auto
      have "job_end_block j \<le> ?slice_end \<longleftrightarrow> next_block j2 db2 = job_end_block j2 + 1"
        using j2(2,3) slice(2) by (auto simp: same_job_def)
      from finish_slice_ok [OF j2(1) this went(2)] j2(2,3) slice show ?thesis
        by (auto simp: advanced_def same_job_def)
    qed
  qed
qed

text \<open>One whole task.\<close>

definition configured :: "'p scan_worker \<Rightarrow> bool" where
  "configured wk \<longleftrightarrow> load_worker_settings (worker_config wk) = Inr (worker_config wk)"

lemma locate_start_known:
  assumes "locate_start wk c p db = (Inr start, p', db')" and "collection_row (collection_id c) db = Some c"
  shows "start \<noteq> None"
  using assms
  by (cases "collection_deployment_block_number c")
    (auto simp: locate_start_def record_deployment_def split: option.splits prod.splits sum.splits if_splits
      elim!: in_transaction_cases dest: sym)

lemma open_and_scan_cases:
  assumes "and_then (in_transaction p db (open_job dr (collection_id c) start_block end_block db)) (\<lambda>window p3 db3.
      case window of None \<Rightarrow> (Inr True, p3, db3) | Some (cursor, fixed_end) \<Rightarrow>
      scan_slice wk c cursor fixed_end p3 db3) = (answer, p', db')"
    and "configured wk" and "jobs_ok wk db"
    and "address_of (collection_id c) db = Some (collection_checksum_address c)"
  shows "db' = db \<and> (\<forall>completed. answer = Inr completed \<longrightarrow>
      completed \<and> (\<exists>j. job_row (collection_id c) db = Some j \<and> job_status j = ScanJobStatus_COMPLETED)) \<or>
    (\<exists>j p3 db3. at_job wk c j db3 \<and> keeps_progress db db3 \<and> mint_events db3 = mint_events db \<and>
       (\<forall>j0. job_row (collection_id c) db = Some j0 \<longrightarrow> same_job j0 j) \<and>
       scan_slice wk c (next_block j db3) (job_end_block j) p3 db3 = (answer, p', db'))"
  using assms(1)
proof (cases rule: and_then_cases)
  case (failed e)
  then show ?thesis by (auto elim!: in_transaction_cases)
next
  case (went window p3 db3)
  from went(1) have opened: "open_job dr (collection_id c) start_block end_block db = Inr (window, db3)"
    by (auto elim!: in_transaction_cases)
  note ok = open_job_ok [OF opened assms(3)]
  show ?thesis
  proof (cases window)
    case None
    with went(2) ok show ?thesis by auto
  next
    case (Some w)
    obtain cursor fixed_end where w: "w = (cursor, fixed_end)" by fastforce
    from ok Some w obtain j where j: "job_row (collection_id c) db3 = Some j" "cursor = next_block j db3"
      "fixed_end = job_end_block j" "job_status j \<noteq> ScanJobStatus_COMPLETED"
      "\<forall>j0. job_row (collection_id c) db = Some j0 \<longrightarrow> same_job j0 j" and keeps: "keeps_progress db db3"
      "jobs_ok wk db3" "mint_events db3 = mint_events db" by auto
    with assms(2,4) have "at_job wk c j db3" by (auto simp: at_job_def configured_def keeps_progress_def)
    moreover from went(2) Some w j have
      "scan_slice wk c (next_block j db3) (job_end_block j) p3 db3 = (answer, p', db')" by simp
    ultimately show ?thesis using j(5) keeps(1,3) by (intro disjI2 exI conjI)
  qed
qed

lemma scan_collection_cases:
  assumes "scan_collection wk cid p db = (answer, p', db')" and "configured wk" and "jobs_ok wk db"
  shows "jobs_ok wk db' \<and> keeps_progress db db' \<and> scan_jobs db' = scan_jobs db \<and>
      mint_events db' = mint_events db \<and> (\<forall>completed. answer = Inr completed \<longrightarrow> completed \<and> (collection_row cid db = None \<or>
         (\<exists>j. job_row cid db = Some j \<and> job_status j = ScanJobStatus_COMPLETED))) \<or>
    (\<exists>c j p3 db3. collection_id c = cid \<and> at_job wk c j db3 \<and> keeps_progress db db3 \<and>
       mint_events db3 = mint_events db \<and>
       (\<forall>j0. job_row cid db = Some j0 \<longrightarrow> same_job j0 j) \<and>
       scan_slice wk c (next_block j db3) (job_end_block j) p3 db3 = (answer, p', db'))"
proof (cases "collection_row cid db")
  case None
  with assms(1,3) show ?thesis by (auto simp: scan_collection_def)
next
  case (Some c)
  then have c: "collection_id c = cid" by (auto simp: collection_row_def dest: select_one_SomeD)
  obtain res p1 where block: "provider_block (worker_provider wk) (Tag ''finalized'') p = (res, p1)" by fastforce
  show ?thesis
  proof (cases res)
    case (Inl e)
    with assms(1,3) Some block show ?thesis by (auto simp: scan_collection_def)
  next
    case (Inr finalized)
    from assms(1) Some block Inr have "and_then (locate_start wk c p1 db) (\<lambda>start p2 db2.
        case start of None \<Rightarrow> (Inr True, p2, db2) | Some start_block \<Rightarrow>
        and_then (in_transaction p2 db2
          (open_job (worker_draws wk) cid start_block (block_number finalized) db2)) (\<lambda>window p3 db3.
        case window of None \<Rightarrow> (Inr True, p3, db3) | Some (cursor, fixed_end) \<Rightarrow>
        scan_slice wk c cursor fixed_end p3 db3)) = (answer, p', db')"
      by (simp add: scan_collection_def)
    then show ?thesis
    proof (cases rule: and_then_cases)
      case (failed e)
      with locate_start_ok [OF failed(1) assms(3)] show ?thesis by auto
    next
      case (went start p2 db2)
      note located = locate_start_ok [OF went(1) assms(3)]
      from locate_start_known [OF went(1)] c Some obtain start_block where "start = Some start_block" by auto
      with went(2) c have run: "and_then (in_transaction p2 db2
          (open_job (worker_draws wk) (collection_id c) start_block (block_number finalized) db2)) (\<lambda>window p3 db3.
        case window of None \<Rightarrow> (Inr True, p3, db3) | Some (cursor, fixed_end) \<Rightarrow>
        scan_slice wk c cursor fixed_end p3 db3) = (answer, p', db')" by simp
      have "address_of (collection_id c) db2 = Some (collection_checksum_address c)"
        using located Some c by (auto simp: keeps_progress_def address_of_def)
      from open_and_scan_cases [OF run assms(2) _ this] located have
        "db' = db2 \<and> (\<forall>completed. answer = Inr completed \<longrightarrow>
            completed \<and> (\<exists>j. job_row (collection_id c) db2 = Some j \<and> job_status j = ScanJobStatus_COMPLETED)) \<or>
          (\<exists>j p3 db3. at_job wk c j db3 \<and> keeps_progress db2 db3 \<and> mint_events db3 = mint_events db2 \<and>
             (\<forall>j0. job_row (collection_id c) db2 = Some j0 \<longrightarrow> same_job j0 j) \<and>
             scan_slice wk c (next_block j db3) (job_end_block j) p3 db3 = (answer, p', db'))" by blast
      then show ?thesis
        using located c keeps_progress_trans [of db db2] by (fastforce simp: job_row_def)
    qed
  qed
qed

lemma scan_collection_jobs_ok:
  assumes "scan_collection wk cid p db = (answer, p', db')" and "configured wk" and "jobs_ok wk db"
  shows "jobs_ok wk db'"
  using scan_collection_cases [OF assms] by (elim disjE exE conjE) (simp_all add: scan_slice_ok)

lemma job_row_address: "jobs_ok wk db \<Longrightarrow> job_row cid db = Some j \<Longrightarrow> collection_row cid db \<noteq> None"
  by (auto simp: jobs_ok_def job_ok_def scanned_by_def address_of_def dest!: job_row_in)

text \<open>A task that asks for the next one has moved the checkpoint by a whole slice.\<close>

lemma scan_collection_advances:
  assumes "scan_collection wk cid p db = (Inr False, p', db')" and "configured wk" and "jobs_ok wk db"
    and "job_row cid db = Some j"
  shows "\<exists>j'. job_row cid db' = Some j' \<and> same_job j j' \<and> next_block j db + scan_slice_blocks \<le> job_end_block j \<and>
    next_block j' db' = next_block j db + scan_slice_blocks"
proof -
  from scan_collection_cases [OF assms(1-3)] assms(4) obtain c j1 p3 db3 where
    c: "collection_id c = cid" and at: "at_job wk c j1 db3" and keeps: "keeps_progress db db3"
    and same: "same_job j j1"
    and run: "scan_slice wk c (next_block j1 db3) (job_end_block j1) p3 db3 = (Inr False, p', db')" by auto
  have "advanced wk cid j1 (next_block j1 db3) False db'" using scan_slice_ok [OF at run] c by blast
  then obtain j' where j': "job_row cid db' = Some j'" "same_job j1 j'"
    "next_block j' db' = min (next_block j1 db3 + scan_slice_blocks) (job_end_block j1 + 1)"
    "next_block j' db' \<noteq> job_end_block j1 + 1" by (auto simp: advanced_def)
  moreover have "next_block j1 db3 = next_block j db"
    by (simp add: keeps_progress_next_block [OF keeps] same_job_next_block [OF same])
  ultimately show ?thesis using same by (auto simp: same_job_def min_def split: if_splits)
qed

section \<open>Runs of the worker\<close>

text \<open>
  Tasks for any collections run one after another, each against whatever state the provider is in,
  and between them collections are registered.
\<close>

inductive worker_step :: "'p scan_worker \<Rightarrow> ethereum_db \<Rightarrow> ethereum_db \<Rightarrow> bool" for wk :: "'p scan_worker" where
  ran: "scan_collection wk cid p db = (answer, p', db') \<Longrightarrow> worker_step wk db db'"
| registered: "collections db' = collections db @ new \<Longrightarrow> scan_jobs db' = scan_jobs db \<Longrightarrow>
    scan_checkpoints db' = scan_checkpoints db \<Longrightarrow> raw_evidences db' = raw_evidences db \<Longrightarrow>
    mint_events db' = mint_events db \<Longrightarrow> worker_step wk db db'"

inductive_cases worker_stepE: "worker_step wk db db'"

lemma registered_keeps:
  assumes "collections db' = collections db @ new" and "scan_checkpoints db' = scan_checkpoints db"
    and "raw_evidences db' = raw_evidences db" and "mint_events db' = mint_events db"
  shows "keeps_progress db db'"
  using assms
  by (auto simp: keeps_progress_def committed_block_def stored_hashes_def stored_positions_def
      address_of_def collection_row_def select_one_append)

lemma worker_step_jobs_ok:
  assumes "worker_step wk db db'" and "configured wk" and "jobs_ok wk db"
  shows "jobs_ok wk db'"
  using assms(1)
proof (rule worker_stepE)
  fix cid p answer p'
  assume "scan_collection wk cid p db = (answer, p', db')"
  then show ?thesis using assms(2,3) by (rule scan_collection_jobs_ok)
next
  fix new
  assume "collections db' = collections db @ new" "scan_jobs db' = scan_jobs db"
    "scan_checkpoints db' = scan_checkpoints db" "raw_evidences db' = raw_evidences db"
    "mint_events db' = mint_events db"
  then show ?thesis
    using jobs_ok_keeps [OF assms(3) registered_keeps, of db' new id] by (simp add: same_job_def)
qed

lemma worker_steps_jobs_ok:
  "(worker_step wk)\<^sup>*\<^sup>* db db' \<Longrightarrow> configured wk \<Longrightarrow> jobs_ok wk db \<Longrightarrow> jobs_ok wk db'"
  by (induction rule: rtranclp_induct) (auto intro: worker_step_jobs_ok)

lemma jobs_ok_empty: "scan_jobs db = [] \<Longrightarrow> scan_checkpoints db = [] \<Longrightarrow> jobs_ok wk db"
  by (simp add: jobs_ok_def committed_block_def)

text \<open>Every task is a sequence of steps of the mint store.\<close>

lemma other_steps:
  "raw_evidences db' = raw_evidences db \<Longrightarrow> mint_events db' = mint_events db \<Longrightarrow>
     (\<And>cid. known_collection db cid \<Longrightarrow> known_collection db' cid) \<Longrightarrow> (store_step lib prov)\<^sup>*\<^sup>* db db'"
  by (rule r_into_rtranclp) (rule store_step.other)

lemma update_frames [simp]:
  "raw_evidences (update_collection cid f db) = raw_evidences db"
  "mint_events (update_collection cid f db) = mint_events db"
  "raw_evidences (update_job j g db) = raw_evidences db"
  "mint_events (update_job j g db) = mint_events db"
  "known_collection (update_job j g db) k = known_collection db k"
  by (simp_all add: update_collection_def update_job_def known_collection_def)

lemma known_update_collection:
  "(\<And>c. collection_id (f c) = collection_id c) \<Longrightarrow>
     known_collection (update_collection cid f db) k \<longleftrightarrow> known_collection db k"
  by (auto simp: known_collection_def update_collection_def list_ex_iff set_update_rows)

lemma record_deployment_steps:
  "record_deployment cid pr db = Inr (start, db') \<Longrightarrow> (store_step lib prov)\<^sup>*\<^sup>* db db'"
  by (rule other_steps)
    (auto simp: record_deployment_def known_update_collection split: option.splits if_splits)

lemma open_job_steps:
  "open_job dr cid start_block end_block db = Inr (window, db') \<Longrightarrow> (store_step lib prov)\<^sup>*\<^sup>* db db'"
  by (rule other_steps)
    (auto simp: open_job_def Let_def update_job_def known_collection_def
      split: option.splits if_splits elim!: attempt_InrE)

lemma add_warnings_steps:
  "add_warnings cid warnings db = Inr (u, db') \<Longrightarrow> (store_step lib prov)\<^sup>*\<^sup>* db db'"
  by (rule other_steps) (auto simp: add_warnings_def split: option.splits)

lemma complete_scan_steps:
  "complete_scan cid db = Inr (u, db') \<Longrightarrow> (store_step lib prov)\<^sup>*\<^sup>* db db'"
  by (rule other_steps)
    (auto simp: complete_scan_def Let_def known_update_collection split: option.splits)

lemma commits_steps:
  "(commits (commit_batch dr lib mc))\<^sup>*\<^sup>* db db' \<Longrightarrow> (store_step lib prov)\<^sup>*\<^sup>* db db'"
  by (induction rule: rtranclp_induct)
    (auto simp: commits_def intro: store_step.committed rtranclp.rtrancl_into_rtrancl)

lemma scan_range_steps:
  assumes "scan_range wk c cursor slice_end p db = (answer, p', db')"
  shows "(store_step (worker_libraries wk) (worker_provider wk))\<^sup>*\<^sup>* db db'"
proof (cases "adaptive_historical_scanner (min (indexer_initial_chunk (worker_config wk)) scan_slice_blocks)
    (min (indexer_max_chunk (worker_config wk)) scan_slice_blocks) 1000")
  case (Inl e)
  with assms show ?thesis by (simp add: scan_range_def)
next
  case (Inr cfg)
  then have cfg: "config_ok cfg"
    using adaptive_historical_scanner_ok by blast
  note commits = scan_by_commits [OF cfg, THEN commits_steps]
  from assms show ?thesis unfolding scan_range_def Inr sum.case
  proof (cases rule: and_then_cases)
    case (failed e)
    show ?thesis by (rule commits [OF failed(1)])
  next
    case (went u p1 db1)
    show ?thesis
      by (rule rtranclp.rtrancl_into_rtrancl [OF commits [OF went(1)] store_step.enriched [OF went(2)]])
  qed
qed

lemma finish_slice_steps:
  "finish_slice cid completed p db = (answer, p', db') \<Longrightarrow> (store_step lib prov)\<^sup>*\<^sup>* db db'"
  by (auto simp: finish_slice_def split: if_splits
      elim!: and_then_cases in_transaction_cases intro: complete_scan_steps)

lemma scan_slice_steps:
  assumes "scan_slice wk c cursor fixed_end p db = (answer, p', db')"
  shows "(store_step (worker_libraries wk) (worker_provider wk))\<^sup>*\<^sup>* db db'"
  using assms
  by (auto simp: scan_slice_def Let_def split: if_splits elim!: and_then_cases in_transaction_cases
      dest!: scan_range_steps
        finish_slice_steps [where lib = "worker_libraries wk" and prov = "worker_provider wk"]
        add_warnings_steps [where lib = "worker_libraries wk" and prov = "worker_provider wk"]
      intro: rtranclp_trans)


lemma scan_collection_steps:
  assumes "scan_collection wk cid p db = (answer, p', db')"
  shows "(store_step (worker_libraries wk) (worker_provider wk))\<^sup>*\<^sup>* db db'"
proof -
  let ?steps = "(store_step (worker_libraries wk) (worker_provider wk))\<^sup>*\<^sup>*"
  have located: "?steps db1 db2" if "locate_start wk c q db1 = (start, q', db2)" for c q db1 start q' db2
    using that by (auto simp: locate_start_def split: option.splits prod.splits sum.splits
        elim!: in_transaction_cases intro: record_deployment_steps)
  have opened: "?steps db1 db2" if "in_transaction q db1 (open_job dr cid s e db1) = (w, q', db2)"
    for q db1 dr s e w q' db2
    using that by (auto elim!: in_transaction_cases intro: open_job_steps)
  from assms show ?thesis
    by (auto simp: scan_collection_def split: option.splits prod.splits sum.splits elim!: and_then_cases
        dest!: located opened scan_slice_steps) (blast intro: rtranclp_trans)+
qed

lemma worker_steps_store:
  assumes "(worker_step wk)\<^sup>*\<^sup>* db db'"
  shows "(store_step (worker_libraries wk) (worker_provider wk))\<^sup>*\<^sup>* db db'"
  using assms
proof (induction rule: rtranclp_induct)
  case (step db1 db2)
  from step.hyps(2) have "(store_step (worker_libraries wk) (worker_provider wk))\<^sup>*\<^sup>* db1 db2"
    by (cases rule: worker_step.cases)
      (auto intro: scan_collection_steps other_steps simp: known_collection_def)
  with step.IH show ?case by (rule rtranclp_trans)
qed simp

section \<open>Mints behind the checkpoint\<close>

text \<open>Every transaction is in one block.\<close>

definition one_block_per_transaction :: "ethereum_db \<Rightarrow> bool" where
  "one_block_per_transaction db \<longleftrightarrow> (\<forall>e \<in> set (mint_events db). \<forall>f \<in> set (mint_events db).
     event_transaction_hash e = event_transaction_hash f \<longrightarrow> event_block_number e = event_block_number f)"

lemma store_grows_one_block:
  assumes "store_grows db db'" and "one_block_per_transaction db'"
  shows "one_block_per_transaction db"
proof -
  from assms(1) obtain old new where old: "mint_events db' = old @ new"
    "list_all2 event_kept (mint_events db) old" by (auto simp: store_grows_def)
  have "\<exists>e' \<in> set (mint_events db'). event_transaction_hash e' = event_transaction_hash e \<and>
      event_block_number e' = event_block_number e" if e: "e \<in> set (mint_events db)" for e
  proof -
    from e obtain i where i: "i < length (mint_events db)" "e = mint_events db ! i"
      by (auto simp: in_set_conv_nth)
    with old(2) have "event_kept e (old ! i)" "old ! i \<in> set old"
      by (auto simp: list_all2_conv_all_nth)
    then show ?thesis using old(1) provenance_fields [of "old ! i" e] by (auto simp: event_kept_def)
  qed
  with assms(2) show ?thesis unfolding one_block_per_transaction_def by metis
qed

text \<open>The mint at position \<open>i\<close> that was missed: not enriched, and at or before the checkpoint.\<close>

definition missed :: "ethereum_db \<Rightarrow> nat \<Rightarrow> mint_event \<Rightarrow> bool" where
  "missed db i e \<longleftrightarrow> i < length (mint_events db) \<and> mint_events db ! i = e \<and> not_enriched e \<and>
     (\<exists>n. committed_block (slice_consumer (event_collection_id e)) db = Some n \<and> event_block_number e \<le> n)"

lemma missed_keeps:
  "missed db i e \<Longrightarrow> keeps_progress db db' \<Longrightarrow> mint_events db' = mint_events db \<Longrightarrow> missed db' i e"
  by (auto simp: missed_def keeps_progress_def)

lemma commit_batch_missed:
  assumes "commit_batch dr lib mc b db = (answer, db')" and "missed db i e"
    and "mc = slice_consumer cid"
  shows "missed db' i e"
proof -
  have rows: "i < length (mint_events db') \<and> mint_events db' ! i = e"
    using commit_batch_cases [OF assms(1)] assms(2) by (auto simp: missed_def adds_events_def nth_append)
  from assms(2) obtain n where n: "committed_block (slice_consumer (event_collection_id e)) db = Some n"
    "event_block_number e \<le> n" by (auto simp: missed_def)
  have "\<exists>k. committed_block (slice_consumer (event_collection_id e)) db' = Some k \<and> n \<le> k"
  proof (cases "event_collection_id e = cid")
    case False
    with commit_batch_other [OF assms(1)] n assms(3) show ?thesis by (simp add: slice_consumer_def)
  next
    case True
    show ?thesis
    proof (cases answer)
      case (Inl x)
      with assms(1) n show ?thesis by (cases "store_batch dr lib mc b db") (auto simp: commit_batch_def)
    next
      case (Inr u)
      from mint_batches.commit_seen [OF assms(1) [unfolded Inr]] n True assms(3) show ?thesis
        by (simp add: store_view_def)
    qed
  qed
  with rows n(2) assms(2) show ?thesis by (auto simp: missed_def)
qed


lemma enrich_range_due:
  assumes "enrich_range dr lib prov alias cid start_block end_block p db = (answer, p', db')"
  shows "rows_enriched (\<lambda>e. event_collection_id e = cid \<and> (\<exists>f \<in> set (mint_events db).
      pending_in cid start_block end_block f \<and> event_transaction_hash f = event_transaction_hash e))
    (mint_events db) (mint_events db')"
proof (cases "select_one (\<lambda>c. collection_id c = cid) (collections db)")
  case (Some c)
  with assms obtain answer' where
    "enrich_hashes dr lib prov alias cid (collection_checksum_address c) (remdups (map event_transaction_hash
      (filter (pending_in cid start_block end_block) (mint_events db)))) [] p db = (answer', p', db')"
    by (auto simp: enrich_range_def split: prod.splits)
  from enrich_hashes_ok [OF this, THEN conjunct1] show ?thesis
    by (rule rows_enriched_mono) (auto simp: due_among_def)
qed (use assms in \<open>simp add: enrich_range_def\<close>)

lemma enrich_range_missed:
  assumes "enrich_range dr lib prov alias cid start_block end_block p db = (answer, p', db')"
    and "missed db i e" and "one_block_per_transaction db"
    and "event_collection_id e = cid \<Longrightarrow> event_block_number e < start_block"
  shows "missed db' i e"
proof -
  from assms(2) have i: "i < length (mint_events db)" "mint_events db ! i = e" by (auto simp: missed_def)
  from enrich_range_due [OF assms(1)] have len: "length (mint_events db') = length (mint_events db)"
    and enriched: "enriches (\<lambda>e. event_collection_id e = cid \<and> (\<exists>f \<in> set (mint_events db).
      pending_in cid start_block end_block f \<and> event_transaction_hash f = event_transaction_hash e))
      e (mint_events db' ! i)"
    using i by (auto simp: rows_enriched_def list_all2_conv_all_nth)
  have "mint_events db' ! i = e"
  proof (rule ccontr)
    assume "mint_events db' ! i \<noteq> e"
    with enriched obtain f where f: "event_collection_id e = cid" "f \<in> set (mint_events db)"
      "pending_in cid start_block end_block f" "event_transaction_hash f = event_transaction_hash e"
      by (auto simp: enriches_def)
    have "e \<in> set (mint_events db)" using i by (metis nth_mem)
    with f assms(3) have "event_block_number f = event_block_number e"
      unfolding one_block_per_transaction_def by blast
    with f(1,3) assms(4) show False by (simp add: pending_in_def)
  qed
  with len assms(2) enrich_range_keeps [OF assms(1)] show ?thesis
    by (auto simp: missed_def keeps_progress_def)
qed

lemma commits_missed:
  "(commits (commit_batch dr lib (slice_consumer cid)))\<^sup>*\<^sup>* db db' \<Longrightarrow> missed db i e \<Longrightarrow> missed db' i e"
  by (induction rule: rtranclp_induct) (auto simp: commits_def intro: commit_batch_missed)

lemma scan_range_missed:
  assumes "scan_range wk c cursor slice_end p db = (answer, p', db')"
    and "missed db i e" and "one_block_per_transaction db'"
    and "event_collection_id e = collection_id c \<Longrightarrow> event_block_number e < cursor"
  shows "missed db' i e"
proof (cases "adaptive_historical_scanner (min (indexer_initial_chunk (worker_config wk)) scan_slice_blocks)
    (min (indexer_max_chunk (worker_config wk)) scan_slice_blocks) 1000")
  case (Inl x)
  with assms show ?thesis by (simp add: scan_range_def)
next
  case (Inr cfg)
  then have cfg: "config_ok cfg"
    using adaptive_historical_scanner_ok by blast
  note kept = commits_missed [OF scan_by_commits [OF cfg] assms(2)]
  from assms(1) show ?thesis unfolding scan_range_def Inr sum.case
  proof (cases rule: and_then_cases)
    case (failed x)
    show ?thesis by (rule kept [OF failed(1)])
  next
    case (went u p1 db1)
    have "store_step (worker_libraries wk) (worker_provider wk) db1 db'"
      by (rule store_step.enriched [OF went(2)])
    then have "one_block_per_transaction db1"
      using store_grows_one_block [OF store_step_grows assms(3)] by blast
    from enrich_range_missed [OF went(2) kept [OF went(1)] this] assms(4) show ?thesis by simp
  qed
qed

lemma small_steps_missed:
  "finish_slice cid completed p db = (answer, p', db') \<Longrightarrow> missed db i e \<Longrightarrow> missed db' i e"
  "add_warnings cid warnings db = Inr (u, db') \<Longrightarrow> missed db i e \<Longrightarrow> missed db' i e"
  by (auto simp: finish_slice_def complete_scan_def add_warnings_def and_then_def in_transaction_def Let_def
      missed_def committed_block_def update_collection_def update_job_def split: if_splits option.splits)

lemma scan_slice_missed:
  assumes "scan_slice wk c cursor fixed_end p db = (answer, p', db')"
    and "missed db i e" and "one_block_per_transaction db'"
    and "event_collection_id e = collection_id c \<Longrightarrow> event_block_number e < cursor"
  shows "missed db' i e"
proof (cases "cursor \<le> fixed_end")
  case False
  with assms(1,2) show ?thesis by (auto simp: scan_slice_def intro: small_steps_missed)
next
  case True
  let ?steps = "(store_step (worker_libraries wk) (worker_provider wk))\<^sup>*\<^sup>*"
  have blocks: "one_block_per_transaction db1" if "?steps db1 db'" for db1
    using store_grows_one_block [OF store_steps_grow [OF that] assms(3)] .
  let ?slice_end = "min (cursor + scan_slice_blocks - 1) fixed_end"
  from assms(1) True have "and_then (scan_range wk c cursor ?slice_end p db) (\<lambda>warnings p1 db1.
      and_then (if warnings = [] then (Inr (), p1, db1)
          else in_transaction p1 db1 (add_warnings (collection_id c) warnings db1)) (\<lambda>_ p2 db2.
      finish_slice (collection_id c) (fixed_end \<le> ?slice_end) p2 db2)) = (answer, p', db')"
    by (simp add: scan_slice_def Let_def)
  then show ?thesis
  proof (cases rule: and_then_cases)
    case (failed x)
    from scan_range_missed [OF failed(1) assms(2,3)] assms(4) show ?thesis by simp
  next
    case (went warnings p1 db1)
    have later: "?steps db1 db' \<and> (missed db1 i e \<longrightarrow> missed db' i e)" using went(2)
      by (auto split: if_splits elim!: and_then_cases in_transaction_cases
          intro: finish_slice_steps add_warnings_steps rtranclp_trans small_steps_missed)
    with scan_range_missed [OF went(1) assms(2) blocks] assms(4) show ?thesis by simp
  qed
qed

lemma scan_collection_missed:
  assumes "scan_collection wk cid p db = (answer, p', db')" and "configured wk" and "jobs_ok wk db"
    and "missed db i e" and "one_block_per_transaction db'"
  shows "missed db' i e"
  using scan_collection_cases [OF assms(1-3)]
proof (elim disjE exE conjE)
  assume "keeps_progress db db'" "mint_events db' = mint_events db"
  with assms(4) show ?thesis by (rule missed_keeps)
next
  fix c j p3 db3
  assume c: "collection_id c = cid" and at: "at_job wk c j db3" and "keeps_progress db db3"
    and "mint_events db3 = mint_events db"
    and run: "scan_slice wk c (next_block j db3) (job_end_block j) p3 db3 = (answer, p', db')"
  with assms(4) have missed: "missed db3 i e" by (blast intro: missed_keeps)
  have "event_block_number e < next_block j db3" if "event_collection_id e = collection_id c"
    using missed that at by (auto simp: missed_def at_job_def next_block_def dest: job_row_in)
  from scan_slice_missed [OF run missed assms(5) this] show ?thesis .
qed

end
