(* ===== verification/ScanRuns.thy ===== *)
theory ScanRuns
  imports ScanProgress
begin

text \<open>
  What the indexer promises of whole runs of its tasks (\<^verbatim>\<open>app/workers/collections.py\<close>): a completed
  job has scanned its whole range and stored every mint of it, and its tasks come to an end; and the
  two ways it fails: a log that the decoder refuses stops a collection for good, and a mint whose
  enrichment failed is never enriched.
\<close>

section \<open>Properties\<close>






section \<open>Examples\<close>

text \<open>
  A chain with one mint in block three that never answers a transaction: the first task commits its
  slice and fails in the enrichment, and the second completes the job.
\<close>

definition sample_settings :: worker_settings where
  "sample_settings = \<lparr> app_env = ''test'', log_level = ''INFO'', settings_ceiling = ''paper'',
     worker_database_url = [], worker_queue_url = [], ethereum_http_url = [], ethereum_wss_url = [],
     worker_chain_id = 1, ethereum_reorg_lookback = 64, indexer_initial_chunk = 2000,
     indexer_max_chunk = 5000 \<rparr>"

definition silent_worker :: "unit scan_worker" where
  "silent_worker = \<lparr> worker_config = sample_settings,
     worker_provider = mint_chain\<lparr> provider_transaction := (\<lambda>h p. (Inl (ProviderError ''transport'' True False), p)) \<rparr>,
     worker_libraries = flat_libraries, worker_draws = counting, worker_is_address = (\<lambda>a. True),
     worker_to_checksum = (\<lambda>a. a) \<rparr>"

definition first_run :: "(unit, bool) task_state" where
  "first_run = scan_collection silent_worker 4 () sample_mint_db"

definition second_run :: "(unit, bool) task_state" where
  "second_run = (case first_run of (answer, p, db) \<Rightarrow> scan_collection silent_worker 4 p db)"

definition shown :: "(unit, bool) task_state \<Rightarrow> bool outcome \<times> (int \<times> bool \<times> int \<times> uuid) list \<times>
    (int \<times> int \<times> scan_job_status) list \<times> int option" where
  "shown r = (case r of (answer, p, db) \<Rightarrow> (answer,
     map (\<lambda>e. (event_token_id e, not_enriched e, event_block_number e, event_collection_id e)) (mint_events db),
     map (\<lambda>j. (job_start_block j, job_end_block j, job_status j)) (scan_jobs db),
     committed_block (slice_consumer 4) db))"

lemma first_run_shown:
  "shown first_run = (Inl (ProviderError ''transport'' True False), [(7, True, 3, 4)],
     [(1, 9, ScanJobStatus_RUNNING)], Some 9)"
  by code_simp


lemma second_run_shown:
  "shown second_run = (Inr True, [(7, True, 3, 4)], [(1, 9, ScanJobStatus_COMPLETED)], Some 9)"
  by code_simp

lemma silent_worker_configured: "configured silent_worker"
  by (simp add: configured_def silent_worker_def load_worker_settings_Inr_iff sample_settings_def app_envs_def
      log_levels_def)

lemma sample_mint_db_new: "scan_jobs sample_mint_db = []" "scan_checkpoints sample_mint_db = []"
  by (simp_all add: sample_mint_db_def)

text \<open>The databases after the two runs.\<close>

lemma runsE:
  obtains db1 db2 e j where "first_run = (Inl (ProviderError ''transport'' True False), (), db1)"
    and "second_run = (Inr True, (), db2)" and "mint_events db1 = [e]" and "event_token_id e = 7"
    and "not_enriched e" and "event_block_number e = 3" and "event_collection_id e = 4"
    and "committed_block (slice_consumer 4) db1 = Some 9" and "length (mint_events db2) = 1"
    and "scan_jobs db2 = [j]" and "job_start_block j = 1" and "job_end_block j = 9"
    and "job_status j = ScanJobStatus_COMPLETED"
    and "worker_step silent_worker sample_mint_db db1" and "worker_step silent_worker db1 db2"
proof -
  obtain a1 p1 db1 a2 p2 db2 where runs: "first_run = (a1, p1, db1)" "second_run = (a2, p2, db2)"
    by (metis prod_cases3)
  have "worker_step silent_worker sample_mint_db db1"
    using runs(1) unfolding first_run_def by (rule worker_step.ran)
  moreover have "worker_step silent_worker db1 db2"
    using runs(2) unfolding second_run_def runs(1) prod.case by (rule worker_step.ran)
  ultimately show thesis
    using that first_run_shown second_run_shown unfolding runs shown_def
    by (auto simp: map_eq_Cons_conv)
qed





text \<open>A chain whose one log is a mint of a token number that is cut short.\<close>

definition cut_log :: evm_log where
  "cut_log = mint_log\<lparr> log_topics := [lower ''Transfer(address,address,uint256)'',
     address_topic (replicate 20 0), address_topic (replicate 20 1), ''0x07''] \<rparr>"

definition jammed_worker :: "unit scan_worker" where
  "jammed_worker = silent_worker\<lparr> worker_provider := mint_chain\<lparr> provider_logs := (\<lambda>a from to topics p.
     (Inr (if from \<le> 3 \<and> 3 \<le> to then [cut_log] else []), p)) \<rparr> \<rparr>"

definition jammed_run :: "(unit, bool) task_state" where
  "jammed_run = scan_collection jammed_worker 4 () sample_mint_db"

lemma jammed_run_shown:
  "shown jammed_run = (Inl (InvalidMintLog ''indexed integer topic is malformed''), [],
     [(1, 9, ScanJobStatus_RUNNING)], None)"
  by code_simp

lemma cut_log_refused:
  "decode_log flat_libraries cut_log = Inl (InvalidMintLog ''indexed integer topic is malformed'')"
  by code_simp


end
