(* ===== verification/TelegramUpdates.thy ===== *)
theory TelegramUpdates
  imports Enums PyText
begin

text \<open>
  The durable deduplication of Telegram updates (\<^verbatim>\<open>app/application/access/updates.py\<close> on
  \<^verbatim>\<open>app/infrastructure/db/repositories/telegram_updates.py\<close>) and the webhook that uses it
  (\<^verbatim>\<open>app/api/routes/telegram.py\<close>). The parsing of the request body and the dispatcher are
  arguments of the webhook; the clock and the fresh ids are arguments too. Deliveries run
  concurrently, so the life of an update is a step relation whose steps are the transactions.
\<close>

section \<open>The table\<close>

record telegram_update =
  update_row_id :: uuid
  update_bot_id :: string
  update_update_id :: int
  update_status :: telegram_update_status
  update_correlation_id :: uuid
  update_processed_at :: "instant option"
  update_failure_code :: "string option"

definition update_matches :: "string \<Rightarrow> int \<Rightarrow> telegram_update \<Rightarrow> bool" where
  "update_matches bid uid r \<longleftrightarrow> update_bot_id r = bid \<and> update_update_id r = uid"

text \<open>
  Insert, or on a conflict over bot and update id set a failed row back to received. The row id
  is returned when a row was inserted or updated, which is the answer of the claim. A clash of
  the fresh row id with another row fails.
\<close>

definition reclaimed :: "uuid \<Rightarrow> telegram_update \<Rightarrow> telegram_update" where
  "reclaimed correlation_id r =
     r\<lparr> update_status := TelegramUpdateStatus_RECEIVED,
        update_correlation_id := correlation_id,
        update_failure_code := None,
        update_processed_at := None \<rparr>"

definition claim_row ::
  "string \<Rightarrow> int \<Rightarrow> uuid \<Rightarrow> uuid \<Rightarrow> telegram_update list \<Rightarrow> (bool \<times> telegram_update list) outcome"
where
  "claim_row bid uid correlation_id new_id rows =
     (case select_one (update_matches bid uid) rows of
        None \<Rightarrow>
          attempt (insert_checked (\<lambda>r. length (update_bot_id r) \<le> 32) (\<lambda>_. True)
            (\<lambda>r r'. update_row_id r = update_row_id r')
            \<lparr> update_row_id = new_id,
              update_bot_id = bid,
              update_update_id = uid,
              update_status = TelegramUpdateStatus_RECEIVED,
              update_correlation_id = correlation_id,
              update_processed_at = None,
              update_failure_code = None \<rparr> rows) (\<lambda>rows'. Inr (True, rows'))
      | Some r \<Rightarrow>
          if update_status r = TelegramUpdateStatus_FAILED
          then Inr (True, update_rows (update_matches bid uid) (reclaimed correlation_id) rows)
          else Inr (False, rows))"

definition mark ::
  "string \<Rightarrow> int \<Rightarrow> telegram_update_status \<Rightarrow> string option \<Rightarrow> instant \<Rightarrow> telegram_update list \<Rightarrow>
     telegram_update list"
where
  "mark bid uid status failure_code now rows =
     update_rows (update_matches bid uid)
       (\<lambda>r. r\<lparr> update_status := status, update_processed_at := Some now,
               update_failure_code := failure_code \<rparr>) rows"

definition mark_processed :: "string \<Rightarrow> int \<Rightarrow> instant \<Rightarrow> telegram_update list \<Rightarrow> telegram_update list" where
  "mark_processed bid uid now rows = mark bid uid TelegramUpdateStatus_PROCESSED None now rows"

definition mark_failed ::
  "string \<Rightarrow> int \<Rightarrow> string \<Rightarrow> instant \<Rightarrow> telegram_update list \<Rightarrow> telegram_update list"
where
  "mark_failed bid uid failure_code now rows =
     mark bid uid TelegramUpdateStatus_FAILED (Some failure_code) now rows"

section \<open>The deduplicator\<close>

definition claim ::
  "string \<Rightarrow> int \<Rightarrow> uuid \<Rightarrow> uuid \<Rightarrow> telegram_update list \<Rightarrow> bool outcome \<times> telegram_update list"
where
  "claim bid uid correlation_id new_id rows =
     (if bid = [] \<or> 32 < length bid
      then (Inl (ValueError ''bot_id must contain between 1 and 32 characters''), rows)
      else if uid < 0
      then (Inl (ValueError ''Telegram update_id cannot be negative''), rows)
      else transact rows (claim_row bid uid correlation_id new_id rows))"

definition failed ::
  "string \<Rightarrow> int \<Rightarrow> string \<Rightarrow> instant \<Rightarrow> telegram_update list \<Rightarrow> unit outcome \<times> telegram_update list"
where
  "failed bid uid failure_code now rows =
     (if failure_code = [] \<or> 64 < length failure_code
      then (Inl (ValueError ''failure_code must contain between 1 and 64 characters''), rows)
      else (Inr (), mark_failed bid uid failure_code now rows))"

section \<open>The webhook\<close>

record telegram_runtime =
  runtime_webhook_secret :: string
  runtime_bot_id :: string

text \<open>
  \<open>parsed\<close> is the update id of the body when it is a valid update, and \<open>dispatch\<close> runs the
  handlers on the rest of the program's state; both are the libraries'.
\<close>

definition telegram_webhook ::
  "telegram_runtime option \<Rightarrow> string option \<Rightarrow> int option \<Rightarrow> ('w \<Rightarrow> unit outcome \<times> 'w) \<Rightarrow> uuid \<Rightarrow> uuid \<Rightarrow>
     instant \<Rightarrow> telegram_update list \<Rightarrow> 'w \<Rightarrow> string outcome \<times> telegram_update list \<times> 'w"
where
  "telegram_webhook runtime secret_header parsed dispatch correlation_id new_id now rows world =
     (case runtime of
        None \<Rightarrow> (Inl (HttpFailure 503 ''telegram_runtime_unavailable''), rows, world)
      | Some rt \<Rightarrow>
          (case compare_digest (case secret_header of None \<Rightarrow> [] | Some s \<Rightarrow> s)
              (runtime_webhook_secret rt) of
             Inl e \<Rightarrow> (Inl e, rows, world)
           | Inr False \<Rightarrow> (Inl (HttpFailure 401 ''invalid_webhook_secret''), rows, world)
           | Inr True \<Rightarrow>
               (case parsed of
                  None \<Rightarrow> (Inl (HttpFailure 400 ''invalid_telegram_update''), rows, world)
                | Some uid \<Rightarrow>
                    (case claim (runtime_bot_id rt) uid correlation_id new_id rows of
                       (Inl e, rows1) \<Rightarrow> (Inl e, rows1, world)
                     | (Inr False, rows1) \<Rightarrow> (Inr ''duplicate'', rows1, world)
                     | (Inr True, rows1) \<Rightarrow>
                         (case dispatch world of
                            (Inl e, world') \<Rightarrow>
                              (case failed (runtime_bot_id rt) uid ''dispatch_failed'' now rows1 of
                                 (Inl e', rows2) \<Rightarrow> (Inl e', rows2, world')
                               | (Inr _, rows2) \<Rightarrow>
                                   (Inl (HttpFailure 503 ''telegram_dispatch_failed''), rows2, world'))
                          | (Inr _, world') \<Rightarrow>
                              (Inr ''processed'', mark_processed (runtime_bot_id rt) uid now rows1,
                               world'))))))"

section \<open>The life of an update\<close>

definition status_of :: "string \<Rightarrow> int \<Rightarrow> telegram_update list \<Rightarrow> telegram_update_status option" where
  "status_of bid uid rows = map_option update_status (select_one (update_matches bid uid) rows)"

lemma status_of_update:
  assumes "\<And>r. update_bot_id (f r) = update_bot_id r \<and> update_update_id (f r) = update_update_id r \<and>
    update_status (f r) = st"
  shows "status_of b u (update_rows (update_matches bid uid) f rows) =
    (if b = bid \<and> u = uid then map_option (\<lambda>_. st) (status_of b u rows) else status_of b u rows)"
proof -
  have "select_one (update_matches b u) (update_rows (update_matches bid uid) f rows) =
      map_option (\<lambda>r. if update_matches bid uid r then f r else r)
        (select_one (update_matches b u) rows)"
    by (rule select_one_update_rows) (simp add: update_matches_def assms)
  then show ?thesis
    using assms select_one_SomeD [of "update_matches b u" rows]
    by (cases "select_one (update_matches b u) rows") (auto simp: status_of_def update_matches_def)
qed

lemma status_of_mark:
  "status_of b u (mark bid uid st code now rows) =
     (if b = bid \<and> u = uid then map_option (\<lambda>_. st) (status_of b u rows) else status_of b u rows)"
  unfolding mark_def by (rule status_of_update) simp

lemma status_of_reclaimed:
  "status_of b u (update_rows (update_matches bid uid) (reclaimed cid) rows) =
     (if b = bid \<and> u = uid
      then map_option (\<lambda>_. TelegramUpdateStatus_RECEIVED) (status_of b u rows)
      else status_of b u rows)"
  by (rule status_of_update) (simp add: reclaimed_def)

lemma claim_row_status:
  assumes "claim_row bid uid cid nid rows = Inr (granted, rows')"
  shows "granted \<longleftrightarrow> status_of bid uid rows \<in> {None, Some TelegramUpdateStatus_FAILED}"
    and "status_of b u rows' =
      (if b = bid \<and> u = uid \<and> granted then Some TelegramUpdateStatus_RECEIVED else status_of b u rows)"
proof -
  show "granted \<longleftrightarrow> status_of bid uid rows \<in> {None, Some TelegramUpdateStatus_FAILED}"
    using assms
    by (auto simp: claim_row_def status_of_def split: option.splits if_splits elim!: attempt_InrE)
  show "status_of b u rows' =
      (if b = bid \<and> u = uid \<and> granted then Some TelegramUpdateStatus_RECEIVED else status_of b u rows)"
  proof (cases "select_one (update_matches bid uid) rows")
    case None
    with assms have rows': "\<exists>r. rows' = rows @ [r] \<and> update_bot_id r = bid \<and>
        update_update_id r = uid \<and> update_status r = TelegramUpdateStatus_RECEIVED" and granted
      by (auto simp: claim_row_def dest!: insert_checked_InrD elim!: attempt_InrE)
    with None show ?thesis
      by (auto simp: status_of_def select_one_append update_matches_def split: option.splits)
  next
    case (Some r)
    with assms show ?thesis
      by (auto simp: claim_row_def status_of_reclaimed split: if_splits) (simp add: status_of_def)
  qed
qed

text \<open>
  A delivery of an update claims it; a granted claim runs the handlers, and the delivery ends by
  marking the update processed or failed. A delivery whose process dies ends without a mark.
  The state is the table and the multiset of running deliveries, as a list of keys.
\<close>

type_synonym deliveries = "telegram_update list \<times> (string \<times> int) list"

inductive delivery_step :: "deliveries \<Rightarrow> deliveries \<Rightarrow> bool" where
  granted: "claim bid uid cid nid rows = (Inr True, rows') \<Longrightarrow>
    delivery_step (rows, running) (rows', (bid, uid) # running)"
| turned_away: "claim bid uid cid nid rows = (res, rows') \<Longrightarrow> res \<noteq> Inr True \<Longrightarrow>
    delivery_step (rows, running) (rows', running)"
| succeeded: "(bid, uid) \<in> set running \<Longrightarrow>
    delivery_step (rows, running) (mark_processed bid uid now rows, remove1 (bid, uid) running)"
| raised: "(bid, uid) \<in> set running \<Longrightarrow> failed bid uid code now rows = (Inr (), rows') \<Longrightarrow>
    delivery_step (rows, running) (rows', remove1 (bid, uid) running)"
| died: "key \<in> set running \<Longrightarrow> delivery_step (rows, running) (rows, remove1 key running)"

inductive_cases delivery_stepE: "delivery_step (rows, running) s"

inductive delivery_reachable :: "deliveries \<Rightarrow> bool" where
  start: "delivery_reachable ([], [])"
| step: "delivery_reachable s \<Longrightarrow> delivery_step s s' \<Longrightarrow> delivery_reachable s'"

lemma claim_status:
  assumes "claim bid uid cid nid rows = (res, rows')"
  shows "res = Inr True \<Longrightarrow> status_of bid uid rows \<in> {None, Some TelegramUpdateStatus_FAILED}"
    and "status_of b u rows' = (if b = bid \<and> u = uid \<and> res = Inr True
      then Some TelegramUpdateStatus_RECEIVED else status_of b u rows)"
proof -
  consider "\<exists>e. res = Inl e \<and> rows' = rows"
    | g where "claim_row bid uid cid nid rows = Inr (g, rows')" "res = Inr g"
    using assms
    by (cases "claim_row bid uid cid nid rows") (auto simp: claim_def split: if_splits)
  note cases = this
  show "res = Inr True \<Longrightarrow> status_of bid uid rows \<in> {None, Some TelegramUpdateStatus_FAILED}"
    by (rule cases) (auto dest: claim_row_status(1))
  show "status_of b u rows' = (if b = bid \<and> u = uid \<and> res = Inr True
      then Some TelegramUpdateStatus_RECEIVED else status_of b u rows)"
    by (rule cases) (auto simp: claim_row_status(2))
qed

lemma failed_status:
  "failed bid uid code now rows = (Inr (), rows') \<Longrightarrow>
     status_of b u rows' = (if b = bid \<and> u = uid
       then map_option (\<lambda>_. TelegramUpdateStatus_FAILED) (status_of b u rows)
       else status_of b u rows)"
  by (auto simp: failed_def mark_failed_def status_of_mark split: if_splits)

text \<open>Every running delivery holds a received row, and no two run for one update.\<close>

definition deliveries_ok :: "deliveries \<Rightarrow> bool" where
  "deliveries_ok = (\<lambda>(rows, running). distinct running \<and>
     (\<forall>(bid, uid) \<in> set running. status_of bid uid rows = Some TelegramUpdateStatus_RECEIVED))"

lemma delivery_step_ok:
  assumes "deliveries_ok s" and "delivery_step s s'"
  shows "deliveries_ok s'"
  using assms(2,1)
proof (induction rule: delivery_step.induct)
  case (granted bid uid cid nid rows rows' running)
  with claim_status [OF granted(1)] show ?case by (auto simp: deliveries_ok_def)
next
  case (turned_away bid uid cid nid rows res rows' running)
  with claim_status(2) [OF turned_away(1)] show ?case by (auto simp: deliveries_ok_def)
next
  case (succeeded bid uid running rows now)
  then show ?case by (auto simp: deliveries_ok_def mark_processed_def status_of_mark)
next
  case (raised bid uid running code now rows rows')
  with failed_status [OF raised(2)] show ?case by (auto simp: deliveries_ok_def)
next
  case (died key running rows)
  then show ?case by (auto simp: deliveries_ok_def)
qed

lemma delivery_reachable_ok: "delivery_reachable s \<Longrightarrow> deliveries_ok s"
  by (induction rule: delivery_reachable.induct)
    (simp add: deliveries_ok_def, erule (1) delivery_step_ok)

text \<open>An update no delivery holds, received or processed, stays as it is for ever.\<close>

definition at_rest :: "string \<Rightarrow> int \<Rightarrow> telegram_update_status \<Rightarrow> deliveries \<Rightarrow> bool" where
  "at_rest bid uid st s \<longleftrightarrow> status_of bid uid (fst s) = Some st \<and> (bid, uid) \<notin> set (snd s)"

lemma at_rest_step:
  assumes "delivery_step s s'" and "at_rest bid uid st s" and "st \<noteq> TelegramUpdateStatus_FAILED"
  shows "at_rest bid uid st s'"
  using assms
proof (induction rule: delivery_step.induct)
  case (granted b u cid nid rows rows' running)
  with claim_status [OF granted(1)] show ?case by (auto simp: at_rest_def)
next
  case (turned_away b u cid nid rows res rows' running)
  with claim_status(2) [OF turned_away(1)] show ?case by (auto simp: at_rest_def)
next
  case (succeeded b u running rows now)
  then show ?case
    by (auto simp: at_rest_def mark_processed_def status_of_mark dest: notin_set_remove1)
next
  case (raised b u running code now rows rows')
  with failed_status [OF raised(2)] show ?case by (auto simp: at_rest_def dest: notin_set_remove1)
next
  case (died key running rows)
  then show ?case by (auto simp: at_rest_def dest: notin_set_remove1)
qed

lemma at_rest_steps:
  "delivery_step\<^sup>*\<^sup>* s s' \<Longrightarrow> at_rest bid uid st s \<Longrightarrow> st \<noteq> TelegramUpdateStatus_FAILED \<Longrightarrow>
     at_rest bid uid st s'"
  by (induction rule: rtranclp_induct) (auto intro: at_rest_step)

section \<open>Properties\<close>

lemma deliveries_okD:
  "deliveries_ok s \<Longrightarrow> (bid, uid) \<in> set (snd s) \<Longrightarrow>
     status_of bid uid (fst s) = Some TelegramUpdateStatus_RECEIVED"
  by (auto simp: deliveries_ok_def)

lemma claim_row_total:
  assumes "length bid \<le> 32" and "\<forall>r \<in> set rows. update_row_id r \<noteq> nid"
  shows "\<exists>g rows1. claim_row bid uid cid nid rows = Inr (g, rows1)"
proof (cases "select_one (update_matches bid uid) rows")
  case None
  with assms show ?thesis
    by (auto simp: claim_row_def insert_checked_def insert_row_def list_ex_iff)
qed (auto simp: claim_row_def)

lemma claim_new:
  "claim bid uid cid nid [] = (if bid = [] \<or> 32 < length bid
     then (Inl (ValueError ''bot_id must contain between 1 and 32 characters''), [])
     else if uid < 0 then (Inl (ValueError ''Telegram update_id cannot be negative''), [])
     else (Inr True, [\<lparr> update_row_id = nid, update_bot_id = bid, update_update_id = uid,
       update_status = TelegramUpdateStatus_RECEIVED, update_correlation_id = cid,
       update_processed_at = None, update_failure_code = None \<rparr>]))"
  by (simp add: claim_def claim_row_def insert_checked_def insert_row_def)

text \<open>
  C15. Exclusive and final delivery: in every reachable state of the concurrent deliveries, no two
  run for the same update of the same bot, each runs on a row marked received, and from any state
  in which an update is processed it stays processed and is never delivered again, whatever
  deliveries arrive, finish, fail or die afterwards.
\<close>

theorem delivery_exclusive:
  assumes "delivery_reachable s" and "delivery_step\<^sup>*\<^sup>* s s'"
  shows "distinct (snd s) \<and>
    (\<forall>(bid, uid) \<in> set (snd s). status_of bid uid (fst s) = Some TelegramUpdateStatus_RECEIVED) \<and>
    (status_of bid uid (fst s) = Some TelegramUpdateStatus_PROCESSED \<longrightarrow>
       status_of bid uid (fst s') = Some TelegramUpdateStatus_PROCESSED \<and>
       (bid, uid) \<notin> set (snd s'))"
proof -
  have ok: "deliveries_ok s" using assms(1) by (rule delivery_reachable_ok)
  have "at_rest bid uid TelegramUpdateStatus_PROCESSED s'"
    if "status_of bid uid (fst s) = Some TelegramUpdateStatus_PROCESSED"
    using deliveries_okD [OF ok] that by (intro at_rest_steps [OF assms(2)]) (auto simp: at_rest_def)
  with ok show ?thesis by (auto simp: at_rest_def deliveries_ok_def)
qed

text \<open>A history: a delivery of update 5 is granted, and processed.\<close>

definition received_row :: telegram_update where
  "received_row = \<lparr> update_row_id = 1, update_bot_id = ''7'', update_update_id = 5,
     update_status = TelegramUpdateStatus_RECEIVED, update_correlation_id = 9,
     update_processed_at = None, update_failure_code = None \<rparr>"

lemma received_reachable: "delivery_reachable ([received_row], [(''7'', 5)])"
proof -
  have "claim ''7'' 5 9 1 [] = (Inr True, [received_row])"
    by (simp add: claim_new received_row_def)
  from delivery_step.granted [OF this] show ?thesis
    by (rule delivery_reachable.step [OF delivery_reachable.start])
qed

lemma processed_reachable: "delivery_reachable (mark_processed ''7'' 5 20 [received_row], [])"
proof -
  have "delivery_step ([received_row], [(''7'', 5)]) (mark_processed ''7'' 5 20 [received_row], [])"
    using delivery_step.succeeded [of "''7''" 5 "[(''7'', 5)]" "[received_row]" 20] by simp
  with received_reachable show ?thesis by (rule delivery_reachable.step)
qed

theorem delivery_exclusive_witness:
  "status_of ''7'' 5 (mark_processed ''7'' 5 20 [received_row]) =
      Some TelegramUpdateStatus_PROCESSED \<and>
    distinct (snd (mark_processed ''7'' 5 20 [received_row], [] :: (string \<times> int) list))"
  using delivery_exclusive [OF processed_reachable rtranclp.rtrancl_refl, of "''7''" 5]
  by (simp add: mark_processed_def status_of_mark)
    (simp add: status_of_def update_matches_def received_row_def)

text \<open>
  C38. A delivery that dies loses its update: once the process that claimed an update ends without
  marking it, the row stays received and, whatever deliveries of that update arrive later, none is
  ever granted.
\<close>

theorem died_delivery_loses_update:
  assumes "delivery_reachable (rows, running)" and "(bid, uid) \<in> set running"
    and "delivery_step\<^sup>*\<^sup>* (rows, remove1 (bid, uid) running) s'"
  shows "status_of bid uid (fst s') = Some TelegramUpdateStatus_RECEIVED \<and>
    (bid, uid) \<notin> set (snd s') \<and> fst (claim bid uid cid nid (fst s')) \<noteq> Inr True"
proof -
  have "deliveries_ok (rows, running)" using assms(1) by (rule delivery_reachable_ok)
  then have "at_rest bid uid TelegramUpdateStatus_RECEIVED (rows, remove1 (bid, uid) running)"
    using assms(2) by (auto simp: at_rest_def deliveries_ok_def)
  from at_rest_steps [OF assms(3) this] have rest: "at_rest bid uid TelegramUpdateStatus_RECEIVED s'"
    by simp
  obtain res rows' where claim: "claim bid uid cid nid (fst s') = (res, rows')" by fastforce
  have "res \<noteq> Inr True" using claim_status(1) [OF claim] rest by (auto simp: at_rest_def)
  with claim rest show ?thesis by (simp add: at_rest_def)
qed

theorem died_delivery_loses_update_witness:
  "fst (claim ''7'' 5 10 2 [received_row]) \<noteq> Inr True"
  using died_delivery_loses_update [OF received_reachable, of "''7''" 5, OF _ rtranclp.rtrancl_refl]
  by simp

text \<open>
  C34. The webhook runs the handlers at most once and records how they ended: with the right secret
  and a valid update, an update already received or processed is answered as a duplicate with
  nothing run or stored; otherwise the handlers run exactly once on the program's state, and the
  update ends processed, or failed with the answer 503, whichever they did.
\<close>

theorem webhook_runs_handlers_once:
  assumes "is_ascii secret" and "runtime_webhook_secret rt = secret"
    and "runtime_bot_id rt \<noteq> []" and "length (runtime_bot_id rt) \<le> 32" and "0 \<le> uid"
    and "\<forall>r \<in> set rows. update_row_id r \<noteq> nid"
    and "telegram_webhook (Some rt) (Some secret) (Some uid) dispatch cid nid now rows world =
      (answer, rows', world')"
  shows "if status_of (runtime_bot_id rt) uid rows \<in> {None, Some TelegramUpdateStatus_FAILED}
    then world' = snd (dispatch world) \<and>
      (case fst (dispatch world) of
         Inr _ \<Rightarrow> answer = Inr ''processed'' \<and>
           status_of (runtime_bot_id rt) uid rows' = Some TelegramUpdateStatus_PROCESSED
       | Inl _ \<Rightarrow> answer = Inl (HttpFailure 503 ''telegram_dispatch_failed'') \<and>
           status_of (runtime_bot_id rt) uid rows' = Some TelegramUpdateStatus_FAILED)
    else answer = Inr ''duplicate'' \<and> rows' = rows \<and> world' = world"
proof -
  let ?b = "runtime_bot_id rt"
  obtain g rows1 where row: "claim_row ?b uid cid nid rows = Inr (g, rows1)"
    using claim_row_total [OF assms(4,6)] by blast
  then have claim: "claim ?b uid cid nid rows = (Inr g, rows1)"
    using assms(3-5) by (simp add: claim_def)
  note st = claim_row_status [OF row]
  have unclaimed: "rows1 = rows" if "\<not> g"
    using row that by (auto simp: claim_row_def split: option.splits if_splits elim!: attempt_InrE)
  obtain res w where d: "dispatch world = (res, w)" by fastforce
  have secret: "compare_digest secret (runtime_webhook_secret rt) = Inr True"
    using assms(1,2) by (simp add: compare_digest_def)
  show ?thesis
  proof (cases g)
    case False
    with assms(7) secret claim unclaimed have "answer = Inr ''duplicate'' \<and> rows' = rows \<and> world' = world"
      by (simp add: telegram_webhook_def)
    with False st(1) show ?thesis by auto
  next
    case True
    then have received: "status_of ?b uid rows1 = Some TelegramUpdateStatus_RECEIVED"
      using st(2) by simp
    show ?thesis
    proof (cases res)
      case (Inl e)
      with assms(7) secret claim True d have "answer = Inl (HttpFailure 503 ''telegram_dispatch_failed'')"
        and "rows' = mark_failed ?b uid ''dispatch_failed'' now rows1" and "world' = w"
        by (simp_all add: telegram_webhook_def failed_def)
      with True st(1) d Inl received show ?thesis by (simp add: mark_failed_def status_of_mark)
    next
      case (Inr u)
      with assms(7) secret claim True d have "answer = Inr ''processed''"
        and "rows' = mark_processed ?b uid now rows1" and "world' = w"
        by (simp_all add: telegram_webhook_def)
      with True st(1) d Inr received show ?thesis by (simp add: mark_processed_def status_of_mark)
    qed
  qed
qed

theorem webhook_runs_handlers_once_witness:
  "telegram_webhook (Some \<lparr> runtime_webhook_secret = ''s'', runtime_bot_id = ''7'' \<rparr>) (Some ''s'')
      (Some 5) (\<lambda>n :: nat. (Inr (), Suc n)) 9 1 20 [] 0 =
    (Inr ''processed'', mark_processed ''7'' 5 20 [received_row], 1) \<and>
   status_of ''7'' 5 (mark_processed ''7'' 5 20 [received_row]) = Some TelegramUpdateStatus_PROCESSED"
proof -
  let ?rt = "\<lparr> runtime_webhook_secret = ''s'', runtime_bot_id = ''7'' \<rparr>"
  have run: "telegram_webhook (Some ?rt) (Some ''s'') (Some 5) (\<lambda>n :: nat. (Inr (), Suc n)) 9 1 20 [] 0 =
      (Inr ''processed'', mark_processed ''7'' 5 20 [received_row], 1)"
    by (simp add: telegram_webhook_def compare_digest_def is_ascii_def claim_new received_row_def)
  from webhook_runs_handlers_once [OF _ _ _ _ _ _ run] show ?thesis
    by (simp add: run is_ascii_def) (simp add: status_of_def)
qed

end
