(* ===== verification/Proxies.thy ===== *)
theory Proxies
  imports Scanner Decoders "HOL-Library.AList" "HOL-Library.Product_Lexorder"
begin

text \<open>
  EIP-1967 implementation history (\<^verbatim>\<open>app/application/ethereum/proxies.py\<close>): the log collector, which
  is the consumer the scanner's contract is interpreted on, the two readings of an implementation
  address, and the resolver that turns upgrade events into the intervals of blocks in which each
  implementation was the active one.
\<close>

section \<open>The resolver\<close>

definition eip1967_implementation_slot :: string where
  "eip1967_implementation_slot =
     ''0x360894a13ba1a3210667c828492db98dca3e2076cc3735a920a3ca505d382bbc''"

definition upgraded_topic :: "(string \<Rightarrow> string) \<Rightarrow> string" where
  "upgraded_topic keccak_hex = keccak_hex ''Upgraded(address)''"

record implementation_interval =
  implementation_address :: string
  effective_from_block :: int
  effective_to_block :: "int option"
  interval_evidence :: json

definition log_collector_commit :: "scan_batch \<Rightarrow> evm_log list \<Rightarrow> unit outcome \<times> evm_log list" where
  "log_collector_commit batch logs = (Inr (), logs @ batch_logs batch)"

interpretation log_collector: batch_consumer log_collector_commit "\<lambda>logs. logs" batch_logs
  by unfold_locales (auto simp: log_collector_commit_def)

definition implementation_from_word :: "checksummer \<Rightarrow> bytes \<Rightarrow> string option outcome" where
  "implementation_from_word checksum word =
     (if length word \<noteq> 32
      then Inl (InvalidProxyEvidence ''EIP-1967 storage word must contain 32 bytes'')
      else if \<not> list_ex (\<lambda>b. b \<noteq> 0) word then Inr None
      else if list_ex (\<lambda>b. b \<noteq> 0) (take 12 word)
      then Inl (InvalidProxyEvidence ''EIP-1967 implementation word is not an address'')
      else attempt (checksum (''0x'' @ bytes_hex (drop 12 word))) (\<lambda>a. Inr (Some a)))"

definition implementation_from_upgrade ::
  "(string \<Rightarrow> string) \<Rightarrow> checksummer \<Rightarrow> evm_log \<Rightarrow> string outcome"
where
  "implementation_from_upgrade keccak_hex checksum log =
     (if length (log_topics log) \<noteq> 2 \<or> lower (log_topics log ! 0) \<noteq> upgraded_topic keccak_hex
      then Inl (InvalidProxyEvidence ''Upgraded event topics are malformed'')
      else case fromhex (remove_prefix ''0x'' (log_topics log ! 1)) of
          None \<Rightarrow> Inl (InvalidProxyEvidence ''Upgraded implementation topic is malformed'')
        | Some word \<Rightarrow>
            attempt (implementation_from_word checksum word) (\<lambda>implementation.
              case implementation of
                None \<Rightarrow>
                  Inl (InvalidProxyEvidence ''Upgraded implementation cannot be the zero address'')
              | Some a \<Rightarrow> Inr a))"

definition implementation_at ::
  "'p evm_provider \<Rightarrow> checksummer \<Rightarrow> string \<Rightarrow> int \<Rightarrow> 'p \<Rightarrow> string option outcome \<times> 'p"
where
  "implementation_at prov checksum address block =
     (if block < 0 then (\<lambda>p. (Inl (ValueError ''implementation block cannot be negative''), p))
      else ask (provider_storage_at prov address eip1967_implementation_slot (Height block))
        (\<lambda>word p. (implementation_from_word checksum word, p)))"

text \<open>The upgrade of each block: the last event of a block replaces the earlier ones.\<close>

type_synonym upgrades = "(int \<times> string \<times> evm_log) list"

fun collect_upgrades ::
  "(string \<Rightarrow> string) \<Rightarrow> 'p evm_provider \<Rightarrow> checksummer \<Rightarrow> evm_log list \<Rightarrow> upgrades \<Rightarrow> 'p \<Rightarrow>
     upgrades outcome \<times> 'p"
where
  "collect_upgrades keccak_hex prov checksum [] upgrades p = (Inr upgrades, p)"
| "collect_upgrades keccak_hex prov checksum (log # logs) upgrades p =
     (case implementation_from_upgrade keccak_hex checksum log of
        Inl e \<Rightarrow> (Inl e, p)
      | Inr implementation \<Rightarrow>
          ask (provider_code prov implementation (Height (log_block_number log)))
            (\<lambda>code p'. if code = []
              then (Inl (InvalidProxyEvidence ''Upgraded implementation has no contract code''), p')
              else collect_upgrades keccak_hex prov checksum logs
                (AList.update (log_block_number log) (implementation, log) upgrades) p') p)"

text \<open>The interval that is being built, and the closed ones before it.\<close>

record timeline =
  intervals :: "implementation_interval list"
  active_address :: "string option"
  active_from :: int
  active_evidence :: json

definition upgrade_evidence :: "evm_log \<Rightarrow> json" where
  "upgrade_evidence log = JObject
     [(''kind'', JStr ''eip1967_upgraded_event''),
      (''block_hash'', JStr (log_block_hash log)),
      (''transaction_hash'', JStr (log_transaction_hash log)),
      (''log_index'', JInt (log_index log))]"

definition same_address :: "string option \<Rightarrow> string \<Rightarrow> bool" where
  "same_address active a = (case active of None \<Rightarrow> False | Some b \<Rightarrow> lower b = lower a)"

fun advance :: "int \<times> string \<times> evm_log \<Rightarrow> timeline \<Rightarrow> timeline" where
  "advance (block, implementation, log) t =
     (if same_address (active_address t) implementation then t
     else t\<lparr> intervals := intervals t @ (case active_address t of
               None \<Rightarrow> []
             | Some a \<Rightarrow>
                 [\<lparr> implementation_address = a, effective_from_block = active_from t,
                    effective_to_block = Some (block - 1),
                    interval_evidence = active_evidence t \<rparr>]),
             active_address := Some implementation,
             active_from := block,
             active_evidence := upgrade_evidence log \<rparr>)"

declare advance.simps [simp del]

definition baseline_block :: "int \<Rightarrow> int" where
  "baseline_block start_block = (if 0 < start_block then start_block - 1 else start_block)"

definition baseline_timeline :: "string option \<Rightarrow> int \<Rightarrow> timeline" where
  "baseline_timeline baseline start_block =
     \<lparr> intervals = [], active_address = baseline, active_from = start_block,
       active_evidence = JObject [(''kind'', JStr ''eip1967_storage''),
         (''observed_at_block'', JInt (baseline_block start_block))] \<rparr>"

definition finish :: "timeline \<Rightarrow> string option \<Rightarrow> implementation_interval list outcome" where
  "finish t final =
     (case final of
        None \<Rightarrow>
          if active_address t \<noteq> None
          then Inl (InvalidProxyEvidence ''implementation disappeared without upgrade evidence'')
          else Inr []
      | Some f \<Rightarrow>
          (case active_address t of
             None \<Rightarrow>
               Inl (InvalidProxyEvidence ''implementation history does not match finalized storage'')
           | Some a \<Rightarrow>
               if lower a \<noteq> lower f
               then Inl (InvalidProxyEvidence
                 ''implementation history does not match finalized storage'')
               else Inr (intervals t @
                 [\<lparr> implementation_address = a, effective_from_block = active_from t,
                    effective_to_block = None, interval_evidence = active_evidence t \<rparr>])))"

definition log_position :: "evm_log \<Rightarrow> int \<times> int" where
  "log_position log = (log_block_number log, log_index log)"

definition history ::
  "(string \<Rightarrow> string) \<Rightarrow> 'p evm_provider \<Rightarrow> checksummer \<Rightarrow> scanner_config \<Rightarrow> string \<Rightarrow> int \<Rightarrow> int \<Rightarrow>
     'p \<Rightarrow> implementation_interval list outcome \<times> 'p"
where
  "history keccak_hex prov checksum cfg address start_block end_block p =
     (if start_block < 0 \<or> end_block < start_block
      then (Inl (ValueError ''invalid proxy history range''), p)
      else case checksum address of
          Inl e \<Rightarrow> (Inl e, p)
        | Inr canonical \<Rightarrow>
            (case scan prov log_collector_commit cfg canonical
                [Some (upgraded_topic keccak_hex)] start_block end_block p [] of
               (Inl e, p1, logs) \<Rightarrow> (Inl e, p1)
             | (Inr _, p1, logs) \<Rightarrow>
                 ask (collect_upgrades keccak_hex prov checksum (sort_key log_position logs) [])
                   (\<lambda>upgrades.
                 ask (implementation_at prov checksum canonical (baseline_block start_block))
                   (\<lambda>baseline.
                 ask (implementation_at prov checksum canonical end_block)
                   (\<lambda>final p'.
                     (finish (fold advance (sort_key fst upgrades)
                        (baseline_timeline baseline start_block)) final, p')))) p1))"

section \<open>The latest of a list up to a block\<close>

definition latest :: "('a \<Rightarrow> int) \<Rightarrow> int \<Rightarrow> 'a list \<Rightarrow> 'a option" where
  "latest at b xs = (case rev (filter (\<lambda>x. at x \<le> b) xs) of [] \<Rightarrow> None | x # _ \<Rightarrow> Some x)"

lemma latest_Nil [simp]: "latest at b [] = None"
  by (simp add: latest_def)

lemma latest_snoc [simp]:
  "latest at b (xs @ [x]) = (if at x \<le> b then Some x else latest at b xs)"
  by (simp add: latest_def)

text \<open>What the upgrade events say: the implementation due at a block.\<close>

definition upgraded_to :: "(string \<Rightarrow> string) \<Rightarrow> checksummer \<Rightarrow> evm_log \<Rightarrow> string option" where
  "upgraded_to keccak_hex checksum log =
     (case implementation_from_upgrade keccak_hex checksum log of Inl e \<Rightarrow> None | Inr a \<Rightarrow> Some a)"

definition implementation_due ::
  "(evm_log \<Rightarrow> string option) \<Rightarrow> evm_log list \<Rightarrow> string option \<Rightarrow> int \<Rightarrow> string option"
where
  "implementation_due target logs baseline b =
     (case latest log_block_number b (sort_key log_position logs) of
        None \<Rightarrow> baseline
      | Some log \<Rightarrow> target log)"

definition covering :: "implementation_interval list \<Rightarrow> int \<Rightarrow> implementation_interval list" where
  "covering is b = filter (\<lambda>i. effective_from_block i \<le> b \<and>
     (case effective_to_block i of None \<Rightarrow> True | Some e \<Rightarrow> b \<le> e)) is"

lemma covering_append [simp]: "covering (is @ js) b = covering is b @ covering js b"
  by (simp add: covering_def)

lemma covering_Nil [simp]: "covering [] b = []"
  by (simp add: covering_def)

definition succeeds :: "implementation_interval \<Rightarrow> implementation_interval \<Rightarrow> bool" where
  "succeeds i j \<longleftrightarrow> effective_to_block i = Some (effective_from_block j - 1) \<and>
     lower (implementation_address i) \<noteq> lower (implementation_address j)"

section \<open>The upgrades of the logs\<close>

lemma collect_upgrades_fold:
  assumes "collect_upgrades keccak_hex prov checksum logs ups p = (Inr ups', p')"
  shows "(\<forall>l \<in> set logs. upgraded_to keccak_hex checksum l \<noteq> None) \<and>
    ups' = fold (\<lambda>l. AList.update (log_block_number l) (the (upgraded_to keccak_hex checksum l), l))
      logs ups"
  using assms
proof (induction logs arbitrary: ups p)
  case (Cons l logs)
  then obtain a where a: "implementation_from_upgrade keccak_hex checksum l = Inr a"
    by (auto split: sum.splits)
  with Cons.prems obtain q where
    "collect_upgrades keccak_hex prov checksum logs (AList.update (log_block_number l) (a, l) ups) q =
      (Inr ups', p')"
    by (auto elim!: ask_InrE split: if_splits)
  from Cons.IH [OF this] a show ?case by (simp add: upgraded_to_def)
qed simp

lemma update_newest:
  assumes "sorted_wrt (<) (map fst ups)" and "\<forall>u \<in> set ups. fst u \<le> (k::int)"
  shows "\<exists>older. AList.update k v ups = older @ [(k, v)] \<and>
    (ups = older \<or> (\<exists>w. ups = older @ [(k, w)])) \<and> (\<forall>u \<in> set older. fst u < k)"
  using assms
proof (induction ups)
  case (Cons u ups)
  show ?case
  proof (cases "fst u = k")
    case True
    with Cons.prems have "ups = []" by (cases ups) force+
    with True show ?thesis by (cases u) auto
  next
    case False
    with Cons obtain older where older: "AList.update k v ups = older @ [(k, v)]"
      "ups = older \<or> (\<exists>w. ups = older @ [(k, w)])" "\<forall>u \<in> set older. fst u < k" by auto
    with False Cons.prems show ?thesis
      by (intro exI [of _ "u # older"]) (cases u, auto)
  qed
qed simp

lemma upgrades_of_logs:
  assumes "sorted (map log_block_number logs)"
  shows "sorted_wrt (<) (map fst (fold (\<lambda>l. AList.update (log_block_number l) (f l, l)) logs [])) \<and>
    fst ` set (fold (\<lambda>l. AList.update (log_block_number l) (f l, l)) logs []) \<subseteq> log_block_number ` set logs \<and>
    map_option (\<lambda>u. fst (snd u)) (latest fst b (fold (\<lambda>l. AList.update (log_block_number l) (f l, l)) logs [])) =
      map_option f (latest log_block_number b logs)"
  using assms
proof (induction logs rule: rev_induct)
  case (snoc l logs)
  let ?ups = "fold (\<lambda>l. AList.update (log_block_number l) (f l, l)) logs []"
  let ?k = "log_block_number l"
  from snoc have ih: "sorted_wrt (<) (map fst ?ups)"
      "fst ` set ?ups \<subseteq> log_block_number ` set logs"
      "map_option (\<lambda>u. fst (snd u)) (latest fst b ?ups) = map_option f (latest log_block_number b logs)"
    and le: "\<forall>l' \<in> set logs. log_block_number l' \<le> ?k"
    by (auto simp: sorted_append)
  from ih(2) le have "\<forall>u \<in> set ?ups. fst u \<le> ?k" by auto
  from update_newest [OF ih(1) this, of "(f l, l)"] obtain older where
    older: "AList.update ?k (f l, l) ?ups = older @ [(?k, f l, l)]"
      "?ups = older \<or> (\<exists>w. ?ups = older @ [(?k, w)])" "\<forall>u \<in> set older. fst u < ?k" by blast
  have "sorted_wrt (<) (map fst older)" "fst ` set older \<subseteq> fst ` set ?ups"
    using older(2) ih(1) by (auto simp: sorted_wrt_append)
  moreover have "latest fst b older = latest fst b ?ups" if "b < ?k"
    using older(2) that by auto
  ultimately show ?case using older(1,3) ih
    by (auto simp: sorted_wrt_append image_iff subset_iff)
qed simp

section \<open>The intervals of the upgrades\<close>

text \<open>The intervals of a timeline with the one being built left open.\<close>

definition unfinished :: "timeline \<Rightarrow> implementation_interval list" where
  "unfinished t = (case active_address t of
     None \<Rightarrow> []
   | Some a \<Rightarrow>
       [\<lparr> implementation_address = a, effective_from_block = active_from t,
          effective_to_block = None, interval_evidence = active_evidence t \<rparr>])"

definition lowered :: "implementation_interval list \<Rightarrow> string list" where
  "lowered is = map (\<lambda>i. lower (implementation_address i)) is"

lemma lowered_append [simp]: "lowered (is @ js) = lowered is @ lowered js"
  by (simp add: lowered_def)

definition due :: "string option \<Rightarrow> upgrades \<Rightarrow> int \<Rightarrow> string option" where
  "due baseline ups b = (case latest fst b ups of None \<Rightarrow> baseline | Some u \<Rightarrow> Some (fst (snd u)))"

abbreviation built :: "string option \<Rightarrow> int \<Rightarrow> upgrades \<Rightarrow> timeline" where
  "built baseline start_block ups \<equiv> fold advance ups (baseline_timeline baseline start_block)"

lemma built_snoc:
  "built baseline start_block (ups @ [u]) = advance u (built baseline start_block ups)"
  by simp

lemma built_covering:
  assumes "sorted_wrt (<) (map fst ups)" and "start_block \<le> b"
  shows "((\<forall>u \<in> set ups. fst u \<le> b) \<longrightarrow>
      covering (intervals (built baseline start_block ups)) b = [] \<and>
      active_from (built baseline start_block ups) \<le> b) \<and>
    lowered (covering (intervals (built baseline start_block ups) @
        unfinished (built baseline start_block ups)) b) =
      (case due baseline ups b of None \<Rightarrow> [] | Some a \<Rightarrow> [lower a])"
  using assms
proof (induction ups rule: rev_induct)
  case Nil
  then show ?case
    by (auto simp: baseline_timeline_def unfinished_def due_def covering_def lowered_def
        split: option.splits)
next
  case (snoc u ups)
  obtain k a l where u: "u = (k, a, l)" by (cases u)
  from snoc.prems have sorted: "sorted_wrt (<) (map fst ups)" and before: "\<forall>v \<in> set ups. fst v < k"
    by (auto simp: sorted_wrt_append u)
  let ?t = "built baseline start_block ups"
  note ih = snoc.IH [OF sorted snoc.prems(2)]
  show ?case
  proof (cases "b < k")
    case True
    have "lowered (covering (intervals (advance u ?t) @ unfinished (advance u ?t)) b) =
        lowered (covering (intervals ?t @ unfinished ?t) b)"
      using True
      by (auto simp: u advance.simps unfinished_def covering_def lowered_def split: option.splits)
    with ih True show ?thesis by (simp add: built_snoc due_def u)
  next
    case False
    with before have all: "\<forall>v \<in> set ups. fst v \<le> b" by auto
    with ih have closed: "covering (intervals ?t) b = []" and from_le: "active_from ?t \<le> b" by auto
    show ?thesis
    proof (cases "same_address (active_address ?t) a")
      case True
      then obtain a' where "active_address ?t = Some a'" "lower a' = lower a"
        by (auto simp: same_address_def split: option.splits)
      with True closed from_le False show ?thesis
        by (auto simp: u advance.simps due_def unfinished_def covering_def lowered_def)
    next
      case other: False
      have "intervals (advance u ?t) = intervals ?t @ (case active_address ?t of
               None \<Rightarrow> []
             | Some a \<Rightarrow>
                 [\<lparr> implementation_address = a, effective_from_block = active_from ?t,
                    effective_to_block = Some (k - 1),
                    interval_evidence = active_evidence ?t \<rparr>])"
        and "active_address (advance u ?t) = Some a" and "active_from (advance u ?t) = k"
        using other by (simp_all add: u advance.simps)
      then show ?thesis using closed False
        by (cases "active_address ?t")
          (simp_all add: built_snoc due_def u unfinished_def covering_def lowered_def)
    qed
  qed
qed

lemma built_chain:
  "successively succeeds (intervals (built baseline start_block ups) @
     unfinished (built baseline start_block ups)) \<and>
   (intervals (built baseline start_block ups) \<noteq> [] \<longrightarrow>
     active_address (built baseline start_block ups) \<noteq> None)"
proof (induction ups rule: rev_induct)
  case Nil
  show ?case by (auto simp: baseline_timeline_def unfinished_def split: option.splits)
next
  case (snoc u ups)
  obtain k a l where u: "u = (k, a, l)" by (cases u)
  from snoc show ?case
    by (auto simp: u advance.simps unfinished_def same_address_def successively_append_iff succeeds_def
        split: option.splits)
qed

lemma finish_Inr:
  assumes "finish t final = Inr is" and "intervals t \<noteq> [] \<longrightarrow> active_address t \<noteq> None"
  shows "is = intervals t @ unfinished t \<and>
    (is \<noteq> [] \<longrightarrow> effective_to_block (last is) = None) \<and>
    map_option lower final = (if is = [] then None else Some (lower (implementation_address (last is))))"
  using assms
  by (auto simp: finish_def unfinished_def split: option.splits if_splits)

lemma history_Inr:
  assumes "history keccak_hex prov checksum cfg address start_block end_block p = (Inr is, p')"
  obtains canonical logs ups baseline final p1 p2 p3 where
    "checksum address = Inr canonical" and
    "scan prov log_collector_commit cfg canonical [Some (upgraded_topic keccak_hex)] start_block end_block
       p [] = (Inr (), p1, logs)" and
    "collect_upgrades keccak_hex prov checksum (sort_key log_position logs) [] p1 = (Inr ups, p2)" and
    "implementation_at prov checksum canonical (baseline_block start_block) p2 = (Inr baseline, p3)" and
    "implementation_at prov checksum canonical end_block p3 = (Inr final, p')" and
    "finish (built baseline start_block (sort_key fst ups)) final = Inr is"
  using assms
  by (auto simp: history_def split: if_splits sum.splits prod.splits elim!: ask_InrE intro: that)

lemma sorted_blocks: "sorted (map log_block_number (sort_key log_position logs))"
proof -
  have "sorted_wrt (\<lambda>x y. log_position x \<le> log_position y) (sort_key log_position logs)"
    using sorted_sort_key [of log_position logs] by (simp add: sorted_map)
  then have "sorted_wrt (\<lambda>x y. log_block_number x \<le> log_block_number y) (sort_key log_position logs)"
    by (rule sorted_wrt_mono_rel [rotated]) (auto simp: log_position_def less_eq_prod_def)
  then show ?thesis by (simp add: sorted_map)
qed

lemma collected_due:
  assumes "collect_upgrades keccak_hex prov checksum (sort_key log_position logs) [] p = (Inr ups, p')"
  shows "sorted_wrt (<) (map fst (sort_key fst ups)) \<and>
    due baseline (sort_key fst ups) b =
      implementation_due (upgraded_to keccak_hex checksum) logs baseline b"
proof -
  let ?f = "\<lambda>l. the (upgraded_to keccak_hex checksum l)"
  from collect_upgrades_fold [OF assms]
  have known: "\<forall>l \<in> set logs. upgraded_to keccak_hex checksum l \<noteq> None"
    and ups: "ups = fold (\<lambda>l. AList.update (log_block_number l) (?f l, l)) (sort_key log_position logs) []"
    by auto
  from upgrades_of_logs [OF sorted_blocks, of ?f logs b]
  have strict: "sorted_wrt (<) (map fst ups)"
    and at: "map_option (\<lambda>u. fst (snd u)) (latest fst b ups) =
      map_option ?f (latest log_block_number b (sort_key log_position logs))"
    unfolding ups by auto
  have same: "sort_key fst ups = ups"
    using strict by (simp add: sort_key_id_if_sorted sorted_wrt_mono_rel [of _ "(<)"] less_imp_le)
  have "upgraded_to keccak_hex checksum l = Some (?f l)"
    if "latest log_block_number b (sort_key log_position logs) = Some l" for l
  proof -
    from that obtain older where
      "rev (filter (\<lambda>x. log_block_number x \<le> b) (sort_key log_position logs)) = l # older"
      by (auto simp: latest_def simp del: rev_eq_Cons_iff split: list.splits)
    then have "l \<in> set (rev (filter (\<lambda>x. log_block_number x \<le> b) (sort_key log_position logs)))"
      by simp
    with known show ?thesis by auto
  qed
  with at strict same show ?thesis
    by (auto simp: due_def implementation_due_def split: option.splits)
qed


section \<open>Properties\<close>

text \<open>
  C18. A resolved implementation history says what the chain says: every block of the range was
  scanned for upgrade events, and at every block from the start on exactly the intervals of the
  implementation due there cover it, that is of the last upgrade event at or before the block, or,
  before the first event, of the address in storage just before the range (none when there is
  none). Each interval ends one block before the next, which has another address; the last is open
  and has the address that storage holds at the end block.
\<close>

theorem history_matches_upgrades:
  assumes "adaptive_historical_scanner initial maximum threshold = Inr cfg"
    and "history keccak_hex prov checksum cfg address start_block end_block p = (Inr is, p')"
  shows "\<exists>canonical bs baseline final.
    checksum address = Inr canonical \<and>
    contiguous maximum start_block bs \<and> resume_block start_block bs = end_block + 1 \<and>
    (\<forall>b \<in> set bs. answered prov canonical [Some (upgraded_topic keccak_hex)] b) \<and>
    (\<exists>q q'. implementation_at prov checksum canonical (baseline_block start_block) q = (Inr baseline, q')) \<and>
    (\<exists>q q'. implementation_at prov checksum canonical end_block q = (Inr final, q')) \<and>
    (\<forall>b \<ge> start_block. map (\<lambda>i. lower (implementation_address i)) (covering is b) =
      (case implementation_due (upgraded_to keccak_hex checksum) (concat (map batch_logs bs)) baseline b of
         None \<Rightarrow> []
       | Some a \<Rightarrow> [lower a])) \<and>
    successively succeeds is \<and>
    (is \<noteq> [] \<longrightarrow> effective_to_block (last is) = None) \<and>
    map_option lower final =
      (if is = [] then None else Some (lower (implementation_address (last is))))"
proof -
  have cfg: "config_ok cfg" "maximum_chunk cfg = maximum"
    using assms(1) adaptive_historical_scanner_ok
    by (auto simp: adaptive_historical_scanner_def split: if_splits)
  from assms(2) have "\<not> end_block < start_block" by (auto simp: history_def split: if_splits)
  from assms(2) obtain canonical logs ups baseline final p1 p2 p3 where
    canonical: "checksum address = Inr canonical" and
    scanned: "scan prov log_collector_commit cfg canonical [Some (upgraded_topic keccak_hex)]
      start_block end_block p [] = (Inr (), p1, logs)" and
    collected: "collect_upgrades keccak_hex prov checksum (sort_key log_position logs) [] p1 = (Inr ups, p2)" and
    base: "implementation_at prov checksum canonical (baseline_block start_block) p2 = (Inr baseline, p3)" and
    storage: "implementation_at prov checksum canonical end_block p3 = (Inr final, p')" and
    finished: "finish (built baseline start_block (sort_key fst ups)) final = Inr is"
    by (rule history_Inr)
  from log_collector.scan_appends [OF cfg(1) scanned] cfg(2) obtain bs where
    bs: "logs = concat (map batch_logs bs)" "contiguous maximum start_block bs"
      "\<forall>b \<in> set bs. answered prov canonical [Some (upgraded_topic keccak_hex)] b"
      "resume_block start_block bs = end_block + 1" by auto
  let ?t = "built baseline start_block (sort_key fst ups)"
  from finish_Inr [OF finished] built_chain [where baseline = baseline and start_block = start_block and ups = "sort_key fst ups"]
  have "is": "is = intervals ?t @ unfinished ?t" "is \<noteq> [] \<longrightarrow> effective_to_block (last is) = None"
    "map_option lower final = (if is = [] then None else Some (lower (implementation_address (last is))))"
    "successively succeeds is" by auto
  have "map (\<lambda>i. lower (implementation_address i)) (covering is b) =
      (case implementation_due (upgraded_to keccak_hex checksum) logs baseline b of
         None \<Rightarrow> [] | Some a \<Rightarrow> [lower a])" if "start_block \<le> b" for b
    using built_covering [where ups = "sort_key fst ups" and start_block = start_block and b = b and baseline = baseline] that
      collected_due [OF collected, where baseline = baseline and b = b] "is"(1) by (simp add: lowered_def)
  with canonical bs base storage "is"(2,3,4) show ?thesis by blast
qed

text \<open>
  A proxy for the examples: storage names the implementation of ones up to block 4 and the one of
  twos from block 5 on, and the upgrade event is in block 5.
\<close>

definition address_word :: "8 word \<Rightarrow> bytes" where
  "address_word n = replicate 12 0 @ replicate 20 n"

definition upgrade_log :: evm_log where
  "upgrade_log = \<lparr> log_address = ''0xa'',
     log_topics = [''0xup'', ''0x'' @ bytes_hex (address_word 2)], log_data = ''0x'',
     log_block_number = 5, log_block_hash = ''0xb'', log_transaction_hash = ''0xc'', log_index = 0,
     log_removed = False \<rparr>"

definition upgraded_proxy :: "unit evm_provider" where
  "upgraded_proxy = narrow_provider \<lparr>
     provider_code := (\<lambda>a tag p. (Inr [1], p)),
     provider_storage_at := (\<lambda>a slot tag p.
       (Inr (address_word (case tag of Height n \<Rightarrow> if n < 5 then 1 else 2 | Tag t \<Rightarrow> 2)), p)),
     provider_logs := (\<lambda>a from to topics p.
       (Inr (if from \<le> 5 \<and> 5 \<le> to then [upgrade_log] else []), p)) \<rparr>"

lemma upgraded_proxy_answers:
  "provider_code upgraded_proxy a tag p = (Inr [1], p)"
  "provider_storage_at upgraded_proxy a slot (Height n) p = (Inr (address_word (if n < 5 then 1 else 2)), p)"
  "provider_logs upgraded_proxy a from to topics p =
     (Inr (if from \<le> 5 \<and> 5 \<le> to then [upgrade_log] else []), p)"
  "provider_block upgraded_proxy (Height n) p =
     (Inr \<lparr> block_number = n, block_hash = ''0xb'' \<rparr>, p)"
  by (simp_all add: upgraded_proxy_def narrow_provider_def)

definition small_scanner :: scanner_config where
  "small_scanner = \<lparr> initial_chunk = 8, maximum_chunk = 8, dense_log_threshold = 4 \<rparr>"

lemma small_scanner_constructed: "adaptive_historical_scanner 8 8 4 = Inr small_scanner"
  by (simp add: adaptive_historical_scanner_def small_scanner_def)

lemma upgraded_proxy_history:
  "history (\<lambda>s. ''0xup'') upgraded_proxy Inr small_scanner ''0xa'' start_block 6 () =
     (Inr [\<lparr> implementation_address = ''0x'' @ bytes_hex (replicate 20 1),
             effective_from_block = start_block, effective_to_block = Some 4,
             interval_evidence = JObject [(''kind'', JStr ''eip1967_storage''),
               (''observed_at_block'', JInt (start_block - 1))] \<rparr>,
           \<lparr> implementation_address = ''0x'' @ bytes_hex (replicate 20 2),
             effective_from_block = 5, effective_to_block = None,
             interval_evidence = upgrade_evidence upgrade_log \<rparr>], ())"
  if "start_block = 4 \<or> start_block = 5"
proof -
  have word: "implementation_from_word Inr (address_word n) =
      Inr (Some (''0x'' @ bytes_hex (replicate 20 n)))" if "n \<noteq> 0" for n
    using that by (simp add: implementation_from_word_def address_word_def list_ex_iff)
  have upgrade: "implementation_from_upgrade (\<lambda>s. ''0xup'') Inr upgrade_log =
      Inr (''0x'' @ bytes_hex (replicate 20 2))"
    by (simp add: implementation_from_upgrade_def upgraded_topic_def upgrade_log_def word
        lower_def lower_char_def)
  have prefixed: "lower (''0x'' @ bytes_hex bs) = ''0x'' @ bytes_hex bs" for bs
    by (subst lower_append) (simp add: lower_def [of "''0x''"] lower_char_def)
  have differ: "lower (''0x'' @ bytes_hex (replicate 20 1)) \<noteq> lower (''0x'' @ bytes_hex (replicate 20 2))"
    by (simp only: prefixed) simp
  have scanned: "scan upgraded_proxy log_collector_commit small_scanner ''0xa'' [Some ''0xup'']
      start_block 6 () [] = (Inr (), (), [upgrade_log])"
    using that
    by (auto simp: scan_def scan_loop.simps [of upgraded_proxy] small_scanner_def
        upgraded_proxy_answers log_collector_commit_def)
  have "log_block_number upgrade_log = 5" by (simp add: upgrade_log_def)
  with that scanned upgrade differ show ?thesis
    by (auto simp: history_def upgraded_topic_def ask_def implementation_at_def baseline_block_def word
        upgraded_proxy_answers advance.simps baseline_timeline_def finish_def same_address_def)
qed

theorem history_matches_upgrades_witness:
  "\<exists>is. history (\<lambda>s. ''0xup'') upgraded_proxy Inr small_scanner ''0xa'' 4 6 () = (Inr is, ()) \<and>
     successively succeeds is \<and> length is = 2"
  using history_matches_upgrades [OF small_scanner_constructed upgraded_proxy_history [of 4]]
    upgraded_proxy_history [of 4] by auto

text \<open>
  An upgrade in the first block of the range leaves a degenerate interval: the implementation in
  storage before the range is closed one block before the start, so its interval ends before it
  begins and covers no block.
\<close>

theorem history_degenerate_interval:
  "\<exists>is. history (\<lambda>s. ''0xup'') upgraded_proxy Inr small_scanner ''0xa'' 5 6 () = (Inr is, ()) \<and>
     effective_from_block (is ! 0) = 5 \<and> effective_to_block (is ! 0) = Some 4"
  using upgraded_proxy_history [of 5] by auto

end
