(* ===== verification/SignerAuth.thy ===== *)
theory SignerAuth
  imports JsonText Ids
begin

text \<open>
  Requests to the private signer: the signed claims (\<^verbatim>\<open>app/signer/auth.py\<close>), the authentication
  of a request with its replay table (\<^verbatim>\<open>authenticate\<close> in \<^verbatim>\<open>app/signer/api.py\<close>,
  \<^verbatim>\<open>SqlAlchemySignerReplayRepository\<close> in \<^verbatim>\<open>app/signer/storage.py\<close>), and the request the client
  makes (\<^verbatim>\<open>app/infrastructure/signer_client.py\<close>). SHA-256 and HMAC-SHA-256 are arguments, and so
  is the clock. A body reaches these functions after the framework has validated it.
\<close>

section \<open>Claims\<close>

record digests =
  digest_sha256 :: "bytes \<Rightarrow> bytes"
  digest_hmac :: "bytes \<Rightarrow> bytes \<Rightarrow> bytes"

record signer_claims =
  claims_action :: string
  claims_caller :: string
  claims_workspace_id :: uuid
  claims_chain_id :: int
  claims_idempotency_key :: string
  claims_correlation_id :: uuid
  claims_request_id :: uuid
  claims_issued_at :: instant
  claims_has_timezone :: bool

text \<open>\<open>int(t.timestamp())\<close>, which rounds towards zero.\<close>

definition whole_seconds :: "instant \<Rightarrow> int" where
  "whole_seconds t = (if 0 \<le> t then t div 1000000 else - ((- t) div 1000000))"

definition canonical_body :: "json \<Rightarrow> bytes" where
  "canonical_body body = utf8 (json_dumps body)"

abbreviation newline :: char where
  "newline \<equiv> CHR 0x0A"

definition claim_parts :: "digests \<Rightarrow> signer_claims \<Rightarrow> json \<Rightarrow> string list" where
  "claim_parts d claims body =
     [claims_action claims,
      claims_caller claims,
      uuid_str (claims_workspace_id claims),
      str_int (claims_chain_id claims),
      claims_idempotency_key claims,
      uuid_str (claims_correlation_id claims),
      uuid_str (claims_request_id claims),
      str_int (whole_seconds (claims_issued_at claims)),
      bytes_hex (digest_sha256 d (canonical_body body))]"

definition canonical_claims :: "digests \<Rightarrow> signer_claims \<Rightarrow> json \<Rightarrow> bytes" where
  "canonical_claims d claims body = utf8 (join_with newline (claim_parts d claims body))"

definition sign_claims :: "digests \<Rightarrow> string \<Rightarrow> signer_claims \<Rightarrow> json \<Rightarrow> string" where
  "sign_claims d secret claims body =
     bytes_hex (digest_hmac d (utf8 secret) (canonical_claims d claims body))"

definition verify_claims ::
  "digests \<Rightarrow> string \<Rightarrow> signer_claims \<Rightarrow> json \<Rightarrow> string \<Rightarrow> instant \<Rightarrow> duration \<Rightarrow> unit outcome"
where
  "verify_claims d secret claims body signature current max_age =
     (if \<not> claims_has_timezone claims
      then Inl (SignerAuthenticationError ''signer timestamp must include a timezone'')
      else let age = current - claims_issued_at claims in
        if age < - seconds 5 \<or> max_age < age
        then Inl (SignerAuthenticationError ''signer request is expired'')
        else if length signature \<noteq> 64
        then Inl (SignerAuthenticationError ''signer request authentication failed'')
        else attempt (compare_digest signature (sign_claims d secret claims body)) (\<lambda>same.
          if \<not> same
          then Inl (SignerAuthenticationError ''signer request authentication failed'')
          else Inr ()))"

section \<open>Requests\<close>

datatype signer_body =
    CreateWalletRequest (body_workspace_id: uuid) (body_chain_id: int)
      (body_idempotency_key: string) (body_correlation_id: uuid)
  | RestoreRequest (body_signer_key_id: uuid) (body_workspace_id: uuid) (body_chain_id: int)
      (body_idempotency_key: string) (body_correlation_id: uuid)

text \<open>What the framework lets through.\<close>

definition uuid_range :: "uuid \<Rightarrow> bool" where
  "uuid_range u \<longleftrightarrow> 0 \<le> u \<and> u < 2 ^ 128"

definition validated :: "signer_body \<Rightarrow> bool" where
  "validated body \<longleftrightarrow>
     uuid_range (body_workspace_id body) \<and> body_chain_id body = 1 \<and>
     16 \<le> length (body_idempotency_key body) \<and> length (body_idempotency_key body) \<le> 128 \<and>
     uuid_range (body_correlation_id body) \<and>
     (case body of RestoreRequest k ws chain key cid \<Rightarrow> uuid_range k | _ \<Rightarrow> True)"

fun request_body :: "signer_body \<Rightarrow> json" where
  "request_body (CreateWalletRequest ws chain key cid) = JObject
     [(''workspace_id'', JStr (uuid_str ws)),
      (''chain_id'', JInt chain),
      (''idempotency_key'', JStr key),
      (''correlation_id'', JStr (uuid_str cid))]"
| "request_body (RestoreRequest k ws chain key cid) = JObject
     [(''signer_key_id'', JStr (uuid_str k)),
      (''workspace_id'', JStr (uuid_str ws)),
      (''chain_id'', JInt chain),
      (''idempotency_key'', JStr key),
      (''correlation_id'', JStr (uuid_str cid))]"

record signer_headers =
  header_caller :: string
  header_request_id :: uuid
  header_timestamp :: int
  header_signature :: string

section \<open>Replays\<close>

record signer_request_replay =
  replay_request_id :: uuid
  replay_expires_at :: instant

definition same_request :: "signer_request_replay \<Rightarrow> signer_request_replay \<Rightarrow> bool" where
  "same_request r r' \<longleftrightarrow> replay_request_id r = replay_request_id r'"

definition claim_request ::
  "uuid \<Rightarrow> instant \<Rightarrow> signer_request_replay list \<Rightarrow> (bool \<times> signer_request_replay list) outcome"
where
  "claim_request rid expires_at rows =
     attempt (insert_or_nothing same_request same_request
       \<lparr> replay_request_id = rid, replay_expires_at = expires_at \<rparr> rows) (\<lambda>(made, rows').
       Inr (made \<noteq> None, rows'))"

section \<open>Authentication\<close>

text \<open>\<open>datetime.fromtimestamp(s, tz=UTC)\<close>, which knows the years 1 to 9999.\<close>

definition utc_from_timestamp :: "int \<Rightarrow> instant outcome" where
  "utc_from_timestamp s =
     (if s < - (2 ^ 63) \<or> 2 ^ 63 \<le> s
      then Inl (OverflowError ''timestamp out of range for platform time_t'')
      else if s < - 62135596800 \<or> 253402300799 < s then Inl (ValueError ''year is out of range'')
      else Inr (seconds s))"

definition auth_max_age :: duration where
  "auth_max_age = seconds 60"

text \<open>What \<open>except (SignerAuthenticationError, ValueError, OSError)\<close> catches.\<close>

fun is_authentication_failure :: "exn \<Rightarrow> bool" where
  "is_authentication_failure (SignerAuthenticationError m) = True"
| "is_authentication_failure (ValueError m) = True"
| "is_authentication_failure UnicodeEncodeError = True"
| "is_authentication_failure _ = False"

definition request_claims :: "string \<Rightarrow> signer_body \<Rightarrow> signer_headers \<Rightarrow> instant \<Rightarrow> signer_claims" where
  "request_claims action body h issued_at =
     \<lparr> claims_action = action,
       claims_caller = header_caller h,
       claims_workspace_id = body_workspace_id body,
       claims_chain_id = body_chain_id body,
       claims_idempotency_key = body_idempotency_key body,
       claims_correlation_id = body_correlation_id body,
       claims_request_id = header_request_id h,
       claims_issued_at = issued_at,
       claims_has_timezone = True \<rparr>"

definition authenticate ::
  "digests \<Rightarrow> string \<Rightarrow> string \<Rightarrow> signer_body \<Rightarrow> signer_headers \<Rightarrow> instant \<Rightarrow>
     signer_request_replay list \<Rightarrow> unit outcome \<times> signer_request_replay list"
where
  "authenticate d secret action body h now rows =
     (case utc_from_timestamp (header_timestamp h) of
        Inl e \<Rightarrow> (Inl e, rows)
      | Inr issued_at \<Rightarrow>
          (case verify_claims d secret (request_claims action body h issued_at) (request_body body)
              (header_signature h) now auth_max_age of
             Inl e \<Rightarrow>
               (Inl (if is_authentication_failure e
                     then HttpFailure 401 ''signer_authentication_failed'' else e), rows)
           | Inr _ \<Rightarrow>
               (case transact rows
                   (claim_request (header_request_id h) (issued_at + auth_max_age) rows) of
                  (Inl e, rows') \<Rightarrow> (Inl e, rows')
                | (Inr claimed, rows') \<Rightarrow>
                    (if \<not> claimed then Inl (HttpFailure 409 ''signer_request_replayed'')
                     else Inr (), rows'))))"

section \<open>The client\<close>

text \<open>The body and the headers that the client sends, before the answer is awaited.\<close>

definition client_body :: "uuid \<Rightarrow> int \<Rightarrow> string \<Rightarrow> uuid \<Rightarrow> json" where
  "client_body ws chain key cid = JObject
     [(''workspace_id'', JStr (uuid_str ws)),
      (''chain_id'', JInt chain),
      (''idempotency_key'', JStr key),
      (''correlation_id'', JStr (uuid_str cid))]"

definition client_claims :: "uuid \<Rightarrow> int \<Rightarrow> string \<Rightarrow> uuid \<Rightarrow> uuid \<Rightarrow> instant \<Rightarrow> signer_claims" where
  "client_claims ws chain key cid rid issued_at =
     \<lparr> claims_action = ''wallet.create'',
       claims_caller = ''bot-api'',
       claims_workspace_id = ws,
       claims_chain_id = chain,
       claims_idempotency_key = key,
       claims_correlation_id = cid,
       claims_request_id = rid,
       claims_issued_at = issued_at,
       claims_has_timezone = True \<rparr>"

definition client_headers ::
  "digests \<Rightarrow> string \<Rightarrow> uuid \<Rightarrow> int \<Rightarrow> string \<Rightarrow> uuid \<Rightarrow> uuid \<Rightarrow> instant \<Rightarrow> signer_headers"
where
  "client_headers d secret ws chain key cid rid issued_at =
     (let claims = client_claims ws chain key cid rid issued_at in
      \<lparr> header_caller = claims_caller claims,
        header_request_id = rid,
        header_timestamp = whole_seconds issued_at,
        header_signature = sign_claims d secret claims (client_body ws chain key cid) \<rparr>)"

section \<open>What a signature covers\<close>

lemma newline_not_hex: "c \<in> set hex_digits \<Longrightarrow> c \<noteq> newline"
  by (auto simp: hex_digits_def)

lemma newline_uuid_str: "newline \<notin> set (uuid_str u)"
  using set_uuid_str newline_not_hex by fastforce

lemma newline_bytes_hex: "newline \<notin> set (bytes_hex bs)"
  using set_bytes_hex newline_not_hex by blast

lemma newline_str_int: "newline \<notin> set (str_int i)"
proof
  assume "newline \<in> set (str_int i)"
  then have "newline \<in> set (decimal (nat \<bar>i\<bar>))" by (auto simp: str_int_def split: if_splits)
  from decimal_digits [OF this] show False by simp
qed

text \<open>
  The parts can be read back from the joined text although the idempotency key may contain the
  separator: four parts without it stand before the key and four after it.
\<close>

lemma claim_parts_inject:
  assumes "join_with newline [a, b, c, d, k, e, f, g, h] = join_with newline [a', b', c', d', k', e', f', g', h']"
    and "newline \<notin> set a \<union> set b \<union> set c \<union> set d \<union> set e \<union> set f \<union> set g \<union> set h"
    and "newline \<notin> set a' \<union> set b' \<union> set c' \<union> set d' \<union> set e' \<union> set f' \<union> set g' \<union> set h'"
  shows "[a, b, c, d, k, e, f, g, h] = [a', b', c', d', k', e', f', g', h']"
proof -
  note front = first_part_inject [where sep = newline]
  note rear = last_part_inject [where sep = newline]
  from assms(1) have all: "a @ newline # b @ newline # c @ newline # d @ newline # k @ newline # e @
      newline # f @ newline # g @ newline # h =
    a' @ newline # b' @ newline # c' @ newline # d' @ newline # k' @ newline # e' @
      newline # f' @ newline # g' @ newline # h'"
    by simp
  have clear: "newline \<notin> set x" if "x \<in> {a, b, c, d, e, f, g, h, a', b', c', d', e', f', g', h'}" for x
    using that assms(2,3) by blast
  from front [OF clear clear all] have a: "a = a'" and 1: "b @ newline # c @ newline # d @ newline # k @
      newline # e @ newline # f @ newline # g @ newline # h =
    b' @ newline # c' @ newline # d' @ newline # k' @ newline # e' @ newline # f' @ newline # g' @ newline # h'"
    by simp_all
  from front [OF clear clear 1] have b: "b = b'" and 2: "c @ newline # d @ newline # k @ newline # e @
      newline # f @ newline # g @ newline # h =
    c' @ newline # d' @ newline # k' @ newline # e' @ newline # f' @ newline # g' @ newline # h'"
    by simp_all
  from front [OF clear clear 2] have c: "c = c'" and 3: "d @ newline # k @ newline # e @ newline # f @
      newline # g @ newline # h = d' @ newline # k' @ newline # e' @ newline # f' @ newline # g' @ newline # h'"
    by simp_all
  from front [OF clear clear 3] have d: "d = d'" and 4: "k @ newline # e @ newline # f @ newline # g @
      newline # h = k' @ newline # e' @ newline # f' @ newline # g' @ newline # h'"
    by simp_all
  from 4 have 5: "(k @ newline # e @ newline # f @ newline # g) @ newline # h =
      (k' @ newline # e' @ newline # f' @ newline # g') @ newline # h'" by simp
  from rear [OF clear clear 5] have h: "h = h'" and 6: "(k @ newline # e @ newline # f) @ newline # g =
      (k' @ newline # e' @ newline # f') @ newline # g'" by simp_all
  from rear [OF clear clear 6] have g: "g = g'" and 7: "(k @ newline # e) @ newline # f =
      (k' @ newline # e') @ newline # f'" by simp_all
  from rear [OF clear clear 7] have f: "f = f'" and 8: "k @ newline # e = k' @ newline # e'" by simp_all
  from rear [OF clear clear 8] a b c d f g h show ?thesis by simp
qed

lemma whole_seconds_seconds [simp]: "whole_seconds (seconds s) = s"
proof -
  have "- seconds s div 1000000 = - s"
    using nonzero_mult_div_cancel_right [of "1000000 :: int" "- s"] by simp
  then show ?thesis by (simp add: whole_seconds_def)
qed

lemma canonical_claims_inject:
  assumes "canonical_claims d claims body = canonical_claims d claims' body'"
    and "newline \<notin> set (claims_action claims) \<union> set (claims_caller claims)"
    and "newline \<notin> set (claims_action claims') \<union> set (claims_caller claims')"
  shows "claim_parts d claims body = claim_parts d claims' body'"
proof -
  from assms(1) have "join_with newline (claim_parts d claims body) =
      join_with newline (claim_parts d claims' body')"
    by (simp add: canonical_claims_def)
  then show ?thesis
    unfolding claim_parts_def
    by (rule claim_parts_inject)
      (use assms(2,3) in \<open>simp_all add: newline_uuid_str newline_bytes_hex newline_str_int\<close>)
qed

section \<open>The text of a body\<close>

lemma json_escape_plain: "c \<in> set hex_digits \<or> c = CHR ''-'' \<Longrightarrow> json_escape c = [c]"
  by (auto simp: hex_digits_def json_escape_def)

lemma json_string_uuid: "json_string (uuid_str u) = [CHR 0x22] @ uuid_str u @ [CHR 0x22]"
proof -
  have "concat (map json_escape s) = s" if "\<forall>c \<in> set s. json_escape c = [c]" for s
    using that by (induction s) auto
  then show ?thesis using set_uuid_str json_escape_plain by (simp add: json_string_def)
qed

lemma json_dumps_restore:
  "json_dumps (request_body (RestoreRequest k ws chain key cid)) =
     ''{'' @ json_string ''chain_id'' @ '':'' @ str_int chain @ '','' @
     json_string ''correlation_id'' @ '':'' @ json_string (uuid_str cid) @ '','' @
     json_string ''idempotency_key'' @ '':'' @ json_string key @ '','' @
     json_string ''signer_key_id'' @ '':'' @ json_string (uuid_str k) @ '','' @
     json_string ''workspace_id'' @ '':'' @ json_string (uuid_str ws) @ ''}''"
  by (simp add: key_order_def)

lemma restore_body_inject:
  assumes "canonical_body (request_body (RestoreRequest k ws chain key cid)) =
      canonical_body (request_body (RestoreRequest k' ws chain key cid))"
    and "uuid_range k" and "uuid_range k'"
  shows "k = k'"
proof -
  from assms(1) have "json_string (uuid_str k) = json_string (uuid_str k')"
    unfolding canonical_body_def utf8_inject json_dumps_restore
    by (auto simp: json_string_uuid)
  then have "uuid_str k = uuid_str k'" by (simp add: json_string_uuid)
  with assms(2,3) show ?thesis by (simp add: uuid_range_def uuid_str_inject)
qed

lemmas restore_fields_inject = restore_body_inject [unfolded request_body.simps]

section \<open>Accepted requests\<close>

text \<open>The two routes that authenticate, each with its own action.\<close>

fun route_action :: "signer_body \<Rightarrow> string" where
  "route_action (CreateWalletRequest ws chain key cid) = ''wallet.create''"
| "route_action (RestoreRequest k ws chain key cid) = ''wallet.restore''"

lemma newline_route_action: "newline \<notin> set (route_action body)"
  by (cases body) auto

definition signed_message :: "digests \<Rightarrow> signer_body \<Rightarrow> signer_headers \<Rightarrow> bytes" where
  "signed_message d body h = canonical_claims d
     (request_claims (route_action body) body h (seconds (header_timestamp h))) (request_body body)"

lemma verify_claims_InrD:
  assumes "verify_claims d secret claims body signature now max_age = Inr u"
  shows "signature = sign_claims d secret claims body \<and>
    - seconds 5 \<le> now - claims_issued_at claims \<and> now - claims_issued_at claims \<le> max_age"
  using assms
  by (auto simp: verify_claims_def Let_def compare_digest_def split: if_splits elim!: attempt_InrE)

lemma verify_claims_ok:
  assumes "signature = sign_claims d secret claims body" and "length signature = 64"
    and "claims_has_timezone claims" and "- seconds 5 \<le> now - claims_issued_at claims"
    and "now - claims_issued_at claims \<le> max_age"
  shows "verify_claims d secret claims body signature now max_age = Inr ()"
proof -
  have "is_ascii (bytes_hex bs)" for bs
    using set_bytes_hex [of _ bs] by (fastforce simp: is_ascii_def list_all_iff hex_digits_def)
  with assms show ?thesis by (simp add: verify_claims_def Let_def compare_digest_def sign_claims_def)
qed

definition replayed :: "signer_request_replay list \<Rightarrow> uuid set" where
  "replayed rows = replay_request_id ` set rows"

lemma claim_request_cases:
  assumes "claim_request rid expires_at rows = r"
  shows "r = Inr (False, rows) \<and> rid \<in> replayed rows \<or>
    rid \<notin> replayed rows \<and> r = Inr (True, rows @ [\<lparr> replay_request_id = rid, replay_expires_at = expires_at \<rparr>])"
proof -
  let ?row = "\<lparr> replay_request_id = rid, replay_expires_at = expires_at \<rparr>"
  have "list_ex (same_request ?row) rows \<longleftrightarrow> rid \<in> replayed rows"
    by (auto simp: list_ex_iff same_request_def replayed_def)
  with assms show ?thesis by (cases "rid \<in> replayed rows") (auto simp: claim_request_def insert_or_nothing_def)
qed

lemma authenticate_InrD:
  assumes "authenticate d secret (route_action body) body h now rows = (Inr u, rows')"
  shows "header_signature h = bytes_hex (digest_hmac d (utf8 secret) (signed_message d body h)) \<and>
    - seconds 5 \<le> now - seconds (header_timestamp h) \<and>
    now - seconds (header_timestamp h) \<le> auth_max_age \<and>
    header_request_id h \<notin> replayed rows \<and>
    replayed rows' = insert (header_request_id h) (replayed rows)"
proof -
  from assms obtain issued_at where issued: "utc_from_timestamp (header_timestamp h) = Inr issued_at"
    by (auto simp: authenticate_def split: sum.splits)
  then have at: "issued_at = seconds (header_timestamp h)"
    by (auto simp: utc_from_timestamp_def split: if_splits)
  from assms issued obtain u' where verified: "verify_claims d secret
      (request_claims (route_action body) body h issued_at) (request_body body) (header_signature h)
      now auth_max_age = Inr u'"
    by (auto simp: authenticate_def split: sum.splits)
  from claim_request_cases [OF refl, of "header_request_id h" "issued_at + auth_max_age" rows]
    assms issued verified
  have "header_request_id h \<notin> replayed rows \<and> replayed rows' = insert (header_request_id h) (replayed rows)"
    by (auto simp: authenticate_def replayed_def split: if_splits)
  with verify_claims_InrD [OF verified] show ?thesis
    by (simp add: at request_claims_def signed_message_def sign_claims_def)
qed

lemma authenticate_InlD:
  assumes "authenticate d secret action body h now rows = (Inl e, rows')"
  shows "rows' = rows"
proof (cases "utc_from_timestamp (header_timestamp h)")
  case (Inr issued_at)
  show ?thesis
  proof (cases "verify_claims d secret (request_claims action body h issued_at) (request_body body)
      (header_signature h) now auth_max_age")
    case verified: (Inr u)
    show ?thesis
      using assms Inr verified claim_request_cases [OF refl, of "header_request_id h"
        "issued_at + auth_max_age" rows] by (auto simp: authenticate_def split: if_splits)
  qed (use assms Inr in \<open>simp add: authenticate_def\<close>)
qed (use assms in \<open>simp add: authenticate_def\<close>)

text \<open>Equal messages are equal requests, as far as the digest of the body tells bodies apart.\<close>

lemma signed_message_inject:
  assumes "signed_message d body h = signed_message d body' h'"
    and "validated body" and "validated body'"
    and "newline \<notin> set (header_caller h)" and "newline \<notin> set (header_caller h')"
    and "uuid_range (header_request_id h)" and "uuid_range (header_request_id h')"
    and "digest_sha256 d (canonical_body (request_body body)) =
        digest_sha256 d (canonical_body (request_body body')) \<Longrightarrow>
      canonical_body (request_body body) = canonical_body (request_body body')"
  shows "body = body' \<and> header_caller h = header_caller h' \<and>
    header_request_id h = header_request_id h' \<and> header_timestamp h = header_timestamp h'"
proof -
  let ?claims = "\<lambda>body h. request_claims (route_action body) body h (seconds (header_timestamp h))"
  have parts: "claim_parts d (?claims body h) (request_body body) =
      claim_parts d (?claims body' h') (request_body body')"
    by (rule canonical_claims_inject [OF assms(1) [unfolded signed_message_def]])
      (use assms(4,5) newline_route_action in \<open>simp_all add: request_claims_def\<close>)
  then have fields: "route_action body = route_action body'" "header_caller h = header_caller h'"
      "body_workspace_id body = body_workspace_id body'" "body_chain_id body = body_chain_id body'"
      "body_idempotency_key body = body_idempotency_key body'"
      "body_correlation_id body = body_correlation_id body'"
      "header_request_id h = header_request_id h'" "header_timestamp h = header_timestamp h'"
    and digest: "digest_sha256 d (canonical_body (request_body body)) =
      digest_sha256 d (canonical_body (request_body body'))"
    using assms(2,3,6,7)
    by (auto simp: claim_parts_def request_claims_def validated_def uuid_range_def uuid_str_inject)
  from assms(8) [OF digest] fields assms(2,3) have "body = body'"
    by (cases body; cases body') (auto simp: validated_def dest: restore_fields_inject)
  with fields show ?thesis by simp
qed


lemma authenticate_ok:
  assumes "- 62135596800 \<le> header_timestamp h" and "header_timestamp h \<le> 253402300799"
    and "header_signature h = bytes_hex (digest_hmac d (utf8 secret) (signed_message d body h))"
    and "length (header_signature h) = 64"
    and "- seconds 5 \<le> now - seconds (header_timestamp h)"
    and "now - seconds (header_timestamp h) \<le> auth_max_age"
    and "header_request_id h \<notin> replayed rows"
  shows "\<exists>rows'. authenticate d secret (route_action body) body h now rows = (Inr (), rows')"
proof -
  have issued: "utc_from_timestamp (header_timestamp h) = Inr (seconds (header_timestamp h))"
    using assms(1,2) by (simp add: utc_from_timestamp_def)
  have "verify_claims d secret (request_claims (route_action body) body h (seconds (header_timestamp h)))
      (request_body body) (header_signature h) now auth_max_age = Inr ()"
    by (rule verify_claims_ok)
      (use assms in \<open>simp_all add: sign_claims_def signed_message_def request_claims_def\<close>)
  with issued claim_request_cases [OF refl, of "header_request_id h"
      "seconds (header_timestamp h) + auth_max_age" rows] assms(7)
  show ?thesis by (auto simp: authenticate_def)
qed

section \<open>Properties\<close>

text \<open>A history of requests to one signer, each with the time it arrives.\<close>

type_synonym signer_call = "signer_body \<times> signer_headers \<times> instant"

fun run_requests ::
  "digests \<Rightarrow> string \<Rightarrow> signer_call list \<Rightarrow> signer_request_replay list \<Rightarrow> unit outcome list"
where
  "run_requests d secret [] rows = []"
| "run_requests d secret ((body, h, now) # calls) rows =
     (case authenticate d secret (route_action body) body h now rows of
        (answer, rows') \<Rightarrow> answer # run_requests d secret calls rows')"

lemma length_run_requests [simp]: "length (run_requests d secret calls rows) = length calls"
  by (induction d secret calls rows rule: run_requests.induct) (auto split: prod.splits)

lemma authenticate_grows:
  "authenticate d secret (route_action body) body h now rows = (answer, rows') \<Longrightarrow>
     replayed rows \<subseteq> replayed rows'"
  by (cases answer) (auto dest: authenticate_InrD authenticate_InlD)

lemma accepted_is_new:
  assumes "j < length calls" and "run_requests d secret calls rows ! j = Inr ()"
    and "calls ! j = (body, h, now)"
  shows "header_request_id h \<notin> replayed rows \<and>
    header_signature h = bytes_hex (digest_hmac d (utf8 secret) (signed_message d body h)) \<and>
    - seconds 5 \<le> now - seconds (header_timestamp h) \<and>
    now - seconds (header_timestamp h) \<le> auth_max_age"
  using assms
proof (induction d secret calls rows arbitrary: j rule: run_requests.induct)
  case (2 d secret body1 h1 now1 calls rows)
  obtain answer rows' where first: "authenticate d secret (route_action body1) body1 h1 now1 rows =
      (answer, rows')" by fastforce
  show ?case
  proof (cases j)
    case 0
    with 2 first show ?thesis by (auto dest: authenticate_InrD)
  next
    case (Suc k)
    from 2 first Suc show ?thesis using authenticate_grows [OF first] by (auto dest!: "2.IH")
  qed
qed simp


text \<open>
  C23. A signature is bound to one request: two accepted requests with the same signature are the same
  request, with the same body (the restored key included), caller, request id and second, unless HMAC
  collides on the two messages or SHA-256 on the two bodies; the idempotency key may hold any
  characters, also the separator of the signed fields.
\<close>

theorem signature_binds_request:
  assumes "authenticate d secret (route_action body) body h now rows = (Inr (), rows1)"
    and "authenticate d secret (route_action body') body' h' now' rows' = (Inr (), rows2)"
    and "header_signature h = header_signature h'"
    and "validated body" and "validated body'"
    and "newline \<notin> set (header_caller h)" and "newline \<notin> set (header_caller h')"
    and "uuid_range (header_request_id h)" and "uuid_range (header_request_id h')"
    and "digest_hmac d (utf8 secret) (signed_message d body h) =
        digest_hmac d (utf8 secret) (signed_message d body' h') \<Longrightarrow>
      signed_message d body h = signed_message d body' h'"
    and "digest_sha256 d (canonical_body (request_body body)) =
        digest_sha256 d (canonical_body (request_body body')) \<Longrightarrow>
      canonical_body (request_body body) = canonical_body (request_body body')"
  shows "body = body' \<and> header_caller h = header_caller h' \<and>
    header_request_id h = header_request_id h' \<and> header_timestamp h = header_timestamp h'"
proof -
  from authenticate_InrD [OF assms(1)] authenticate_InrD [OF assms(2)] assms(3)
  have "digest_hmac d (utf8 secret) (signed_message d body h) =
      digest_hmac d (utf8 secret) (signed_message d body' h')"
    by (metis bytes_hex_inject)
  from signed_message_inject [OF assms(10) [OF this] assms(4-9,11)] show ?thesis .
qed

text \<open>
  Client and signer agree: the headers the client makes for a wallet creation are accepted by the
  signer that has the same secret, for a request id it has not seen, when the request arrives within
  the window around the second it was made in.
\<close>

theorem signer_accepts_client:
  assumes "\<And>k m. length (digest_hmac d k m) = 32"
    and "0 \<le> issued_at" and "issued_at \<le> seconds 253402300799"
    and "rid \<notin> replayed rows"
    and "issued_at - seconds 5 \<le> now" and "now \<le> seconds (whole_seconds issued_at) + seconds 60"
  shows "\<exists>rows'. authenticate d secret ''wallet.create'' (CreateWalletRequest ws 1 key cid)
    (client_headers d secret ws 1 key cid rid issued_at) now rows = (Inr (), rows')"
proof -
  let ?body = "CreateWalletRequest ws 1 key cid"
  let ?h = "client_headers d secret ws 1 key cid rid issued_at"
  have second: "0 \<le> whole_seconds issued_at" "whole_seconds issued_at \<le> 253402300799"
    "seconds (whole_seconds issued_at) \<le> issued_at"
    using assms(2,3) by (auto simp: whole_seconds_def)
  have "claim_parts d (client_claims ws 1 key cid rid issued_at) (client_body ws 1 key cid) =
      claim_parts d (request_claims (route_action ?body) ?body ?h (seconds (header_timestamp ?h)))
        (request_body ?body)"
    by (simp add: claim_parts_def client_claims_def request_claims_def client_headers_def Let_def
        client_body_def)
  then have "header_signature ?h = bytes_hex (digest_hmac d (utf8 secret) (signed_message d ?body ?h))"
    by (simp add: client_headers_def Let_def sign_claims_def signed_message_def canonical_claims_def)
  moreover have "length (header_signature ?h) = 64"
    using assms(1) by (simp add: client_headers_def Let_def sign_claims_def)
  moreover have "header_timestamp ?h = whole_seconds issued_at" "header_request_id ?h = rid"
    by (simp_all add: client_headers_def Let_def)
  ultimately have "\<exists>rows'. authenticate d secret (route_action ?body) ?body ?h now rows = (Inr (), rows')"
    using second assms(4-6) by (intro authenticate_ok) (simp_all add: auth_max_age_def)
  then show ?thesis by simp
qed


text \<open>
  Two malformed requests are not answered as authentication failures: a timestamp header outside
  the years 1 to 9999 raises before the handler's \<open>try\<close>, and a signature header of 64 characters
  that are not all ASCII makes the comparison raise a type error, which the handler does not catch.
\<close>

theorem malformed_request_escapes:
  "(253402300799 < header_timestamp h \<and> header_timestamp h < 2 ^ 63 \<longrightarrow>
      authenticate d secret (route_action body) body h now rows =
        (Inl (ValueError ''year is out of range''), rows)) \<and>
   (0 \<le> header_timestamp h \<and> header_timestamp h \<le> 253402300799 \<and>
      now = seconds (header_timestamp h) \<and>
      length (header_signature h) = 64 \<and> \<not> is_ascii (header_signature h) \<longrightarrow>
      (\<exists>m. authenticate d secret (route_action body) body h now rows = (Inl (TypeError m), rows)))"
  by (auto simp: authenticate_def utc_from_timestamp_def verify_claims_def Let_def compare_digest_def
      request_claims_def auth_max_age_def)

section \<open>Examples\<close>

text \<open>Digests of the right lengths, the keyed one with the length of its message.\<close>

definition sample_digests :: digests where
  "sample_digests = \<lparr> digest_sha256 = (\<lambda>m. replicate 32 0),
     digest_hmac = (\<lambda>k m. replicate 31 0 @ [of_nat (length m)]) \<rparr>"

definition sample_body :: signer_body where
  "sample_body = CreateWalletRequest 7 1 (replicate 16 (CHR ''k'')) 1"

definition sample_headers :: "uuid \<Rightarrow> signer_headers" where
  "sample_headers rid = client_headers sample_digests ''secret'' 7 1 (replicate 16 (CHR ''k'')) 1 rid 5000000"

lemma sample_headers_simps [simp]:
  "header_caller (sample_headers rid) = ''bot-api''" "header_request_id (sample_headers rid) = rid"
  "header_timestamp (sample_headers rid) = 5"
  by (simp_all add: sample_headers_def client_headers_def client_claims_def Let_def whole_seconds_def)

lemma sample_body_action: "route_action sample_body = ''wallet.create''"
  by (simp add: sample_body_def)

lemma sample_accepted:
  "rid \<notin> replayed rows \<Longrightarrow>
     \<exists>rows'. authenticate sample_digests ''secret'' (route_action sample_body) sample_body
       (sample_headers rid) 5000000 rows = (Inr (), rows')"
proof (rule authenticate_ok)
  have message: "canonical_claims sample_digests
      (client_claims 7 1 (replicate 16 (CHR ''k'')) 1 rid 5000000) (client_body 7 1 (replicate 16 (CHR ''k'')) 1) =
      signed_message sample_digests sample_body (sample_headers rid)"
    by (simp add: signed_message_def canonical_claims_def claim_parts_def client_claims_def
        request_claims_def client_body_def sample_body_def whole_seconds_def)
  show "header_signature (sample_headers rid) = bytes_hex (digest_hmac sample_digests (utf8 ''secret'')
      (signed_message sample_digests sample_body (sample_headers rid)))"
    unfolding message [symmetric]
    by (simp add: sample_headers_def client_headers_def Let_def sign_claims_def)
  then show "length (header_signature (sample_headers rid)) = 64" by (simp add: sample_digests_def)
qed (simp_all add: auth_max_age_def)


theorem signature_binds_request_witness:
  "\<exists>rows. authenticate sample_digests ''secret'' (route_action sample_body) sample_body
     (sample_headers 3) 5000000 [] = (Inr (), rows) \<and> header_caller (sample_headers 3) = ''bot-api''"
proof -
  obtain rows where accepted: "authenticate sample_digests ''secret'' (route_action sample_body)
      sample_body (sample_headers 3) 5000000 [] = (Inr (), rows)"
    using sample_accepted [of 3 "[]"] by (auto simp: replayed_def)
  have "validated sample_body" by (simp add: validated_def sample_body_def uuid_range_def)
  from signature_binds_request [OF accepted accepted refl this this] accepted
  show ?thesis by (auto simp: uuid_range_def)
qed

theorem signer_accepts_client_witness:
  "\<exists>rows. authenticate sample_digests ''secret'' ''wallet.create'' sample_body
     (sample_headers 3) 5000000 [] = (Inr (), rows)"
  using signer_accepts_client [of sample_digests 5000000 3 "[]" 5000000 "''secret''" 7
      "replicate 16 (CHR ''k'')" 1]
  by (simp add: sample_digests_def replayed_def whole_seconds_def sample_body_def sample_headers_def)

theorem malformed_request_escapes_witness:
  "authenticate sample_digests ''secret'' (route_action sample_body) sample_body
     ((sample_headers 3)\<lparr> header_timestamp := 253402300800 \<rparr>) 0 [] =
       (Inl (ValueError ''year is out of range''), []) \<and>
   (\<exists>m. authenticate sample_digests ''secret'' (route_action sample_body) sample_body
     ((sample_headers 3)\<lparr> header_signature := replicate 64 (char_of (233 :: nat)) \<rparr>) 5000000 [] =
       (Inl (TypeError m), []))"
  using malformed_request_escapes [where h = "(sample_headers 3)\<lparr> header_timestamp := 253402300800 \<rparr>"]
    malformed_request_escapes [where now = 5000000 and h = "(sample_headers 3)\<lparr> header_signature :=
      replicate 64 (char_of (233 :: nat)) \<rparr>"]
  by (simp add: is_ascii_def list_all_iff)

end
