(* ===== verification/SignerCustody.thy ===== *)
theory SignerCustody
  imports JsonText Ids
begin

text \<open>
  Custody of the wallet keys: key envelopes and their encryption (\<^verbatim>\<open>app/signer/envelope.py\<close>), the
  AWS KMS adapter (\<^verbatim>\<open>app/signer/kms.py\<close>), the envelope table (\<^verbatim>\<open>app/signer/storage.py\<close>) and the
  service (\<^verbatim>\<open>app/signer/service.py\<close>). The ciphers, the address of a key, SHA-256, the KMS client,
  the generated private key, the nonce and fresh ids are arguments. A function that works on key
  buffers answers their final contents beside its result.
\<close>

section \<open>Envelopes\<close>

record generated_data_key =
  data_key_plaintext :: bytes
  data_key_ciphertext :: bytes
  data_key_arn :: string

type_synonym encryption_context = "(string \<times> string) list"

record 'k data_key_provider =
  generate_data_key :: "encryption_context \<Rightarrow> 'k \<Rightarrow> generated_data_key outcome \<times> 'k"
  decrypt_data_key :: "bytes \<Rightarrow> encryption_context \<Rightarrow> 'k \<Rightarrow> bytes outcome \<times> 'k"

record key_envelope =
  envelope_signer_key_id :: uuid
  envelope_environment :: string
  envelope_workspace_id :: uuid
  envelope_chain_id :: int
  envelope_address :: string
  envelope_ciphertext :: bytes
  envelope_encrypted_data_key :: bytes
  envelope_nonce :: bytes
  envelope_tag :: bytes
  envelope_kms_key_arn :: string
  envelope_version :: int

text \<open>AES-GCM, with the tag at the end of the ciphertext, and the address of a private key.\<close>

record crypto =
  account_address :: "bytes \<Rightarrow> string"
  aes_encrypt :: "bytes \<Rightarrow> bytes \<Rightarrow> bytes \<Rightarrow> bytes \<Rightarrow> bytes"
  aes_decrypt :: "bytes \<Rightarrow> bytes \<Rightarrow> bytes \<Rightarrow> bytes \<Rightarrow> bytes outcome"

definition encryption_context :: "string \<Rightarrow> uuid \<Rightarrow> int \<Rightarrow> uuid \<Rightarrow> encryption_context" where
  "encryption_context environment ws chain key_id =
     [(''environment'', environment),
      (''workspace_id'', uuid_str ws),
      (''chain_id'', str_int chain),
      (''signer_key_id'', uuid_str key_id),
      (''purpose'', ''copymint-execution-wallet'')]"

definition envelope_context :: "key_envelope \<Rightarrow> encryption_context" where
  "envelope_context e = encryption_context (envelope_environment e) (envelope_workspace_id e)
     (envelope_chain_id e) (envelope_signer_key_id e)"

definition authenticated_data :: "encryption_context \<Rightarrow> string \<Rightarrow> bytes" where
  "authenticated_data context address = utf8 (json_dumps (JObject
     ([(''envelope_version'', JInt 1), (''address'', JStr address)] @
      map (\<lambda>(k, v). (k, JStr v)) context)))"

definition zeroize :: "bytes \<Rightarrow> bytes" where
  "zeroize buffer = fold (\<lambda>index b. b[index := 0]) [0..<length buffer] buffer"

record key_buffers =
  private_buffer :: bytes
  data_buffer :: bytes

definition cleared :: "bytes \<Rightarrow> bytes \<Rightarrow> key_buffers" where
  "cleared private data = \<lparr> private_buffer = zeroize private, data_buffer = zeroize data \<rparr>"

definition sealed_envelope ::
  "crypto \<Rightarrow> string \<Rightarrow> uuid \<Rightarrow> int \<Rightarrow> uuid \<Rightarrow> bytes \<Rightarrow> bytes \<Rightarrow> generated_data_key \<Rightarrow> key_envelope"
where
  "sealed_envelope c environment ws chain key_id private nonce dk =
     (let address = account_address c private;
          encrypted = aes_encrypt c (data_key_plaintext dk) nonce private
            (authenticated_data (encryption_context environment ws chain key_id) address)
      in \<lparr> envelope_signer_key_id = key_id,
           envelope_environment = environment,
           envelope_workspace_id = ws,
           envelope_chain_id = chain,
           envelope_address = address,
           envelope_ciphertext = take (length encrypted - 16) encrypted,
           envelope_encrypted_data_key = data_key_ciphertext dk,
           envelope_nonce = nonce,
           envelope_tag = drop (length encrypted - 16) encrypted,
           envelope_kms_key_arn = data_key_arn dk,
           envelope_version = 1 \<rparr>)"

definition create_key_envelope ::
  "crypto \<Rightarrow> 'k data_key_provider \<Rightarrow> string \<Rightarrow> uuid \<Rightarrow> int \<Rightarrow> uuid \<Rightarrow> bytes \<Rightarrow> bytes \<Rightarrow> 'k \<Rightarrow>
     key_envelope outcome \<times> key_buffers \<times> 'k"
where
  "create_key_envelope c provider environment ws chain key_id private nonce k =
     (if chain \<noteq> 1
      then (Inl (ValueError ''Release 1 wallet creation supports Ethereum mainnet only''),
        cleared [] [], k)
      else case generate_data_key provider (encryption_context environment ws chain key_id) k of
          (Inl e, k') \<Rightarrow> (Inl e, cleared private [], k')
        | (Inr dk, k') \<Rightarrow>
            (if length (data_key_plaintext dk) \<noteq> 32
             then (Inl (ValueError ''KMS returned an invalid AES-256 data key''), cleared private [], k')
             else (Inr (sealed_envelope c environment ws chain key_id private nonce dk),
               cleared private (data_key_plaintext dk), k')))"

definition restore_and_verify_address ::
  "crypto \<Rightarrow> 'k data_key_provider \<Rightarrow> key_envelope \<Rightarrow> 'k \<Rightarrow> string outcome \<times> key_buffers \<times> 'k"
where
  "restore_and_verify_address c provider e k =
     (case decrypt_data_key provider (envelope_encrypted_data_key e) (envelope_context e) k of
        (Inl x, k') \<Rightarrow> (Inl x, cleared [] [], k')
      | (Inr data, k') \<Rightarrow>
          (if length data \<noteq> 32
           then (Inl (ValueError ''KMS returned an invalid AES-256 data key''), cleared [] data, k')
           else case aes_decrypt c data (envelope_nonce e) (envelope_ciphertext e @ envelope_tag e)
               (authenticated_data (envelope_context e) (envelope_address e)) of
               Inl x \<Rightarrow> (Inl x, cleared [] data, k')
             | Inr private \<Rightarrow>
                 (if account_address c private \<noteq> envelope_address e
                  then Inl (ValueError ''restored private key does not match the stored address'')
                  else Inr (account_address c private), cleared private data, k')))"

section \<open>The KMS adapter\<close>

datatype aws_failure =
    ClientError string
  | BotoCoreError string

type_synonym 'a aws_answer = "aws_failure + 'a"

text \<open>
  The three operations of the client; a data key is its plaintext, its ciphertext and the ARN of its
  master key, a description the state of the key and its usage.
\<close>

record 'k kms_client =
  kms_describe_key :: "string \<Rightarrow> 'k \<Rightarrow> (bool \<times> string) aws_answer \<times> 'k"
  kms_generate_data_key :: "string \<Rightarrow> encryption_context \<Rightarrow> 'k \<Rightarrow> (bytes \<times> bytes \<times> string) aws_answer \<times> 'k"
  kms_decrypt :: "string \<Rightarrow> bytes \<Rightarrow> encryption_context \<Rightarrow> 'k \<Rightarrow> bytes aws_answer \<times> 'k"

fun failure_code :: "aws_failure \<Rightarrow> string" where
  "failure_code (ClientError code) = code"
| "failure_code (BotoCoreError type_name) = type_name"

definition kms_call :: "'a aws_answer \<times> 'k \<Rightarrow> 'a outcome \<times> 'k" where
  "kms_call call =
     (case call of
        (Inl failure, k) \<Rightarrow>
          (Inl (RuntimeError (''AWS KMS operation failed ('' @ failure_code failure @ '')'')), k)
      | (Inr answer, k) \<Rightarrow> (Inr answer, k))"

definition kms_health :: "'k kms_client \<Rightarrow> string \<Rightarrow> 'k \<Rightarrow> bool outcome \<times> 'k" where
  "kms_health client key_arn k =
     (case kms_call (kms_describe_key client key_arn k) of
        (Inl e, k') \<Rightarrow> (Inl e, k')
      | (Inr (enabled, usage), k') \<Rightarrow> (Inr (enabled \<and> usage = ''ENCRYPT_DECRYPT''), k'))"

definition aws_generate_data_key ::
  "'k kms_client \<Rightarrow> string \<Rightarrow> encryption_context \<Rightarrow> 'k \<Rightarrow> generated_data_key outcome \<times> 'k"
where
  "aws_generate_data_key client key_arn context k =
     (case kms_call (kms_generate_data_key client key_arn context k) of
        (Inl e, k') \<Rightarrow> (Inl e, k')
      | (Inr (plaintext, ciphertext, arn), k') \<Rightarrow>
          (if plaintext = [] \<or> ciphertext = [] \<or> arn = []
           then Inl (RuntimeError ''AWS KMS returned an incomplete data-key response'')
           else Inr \<lparr> data_key_plaintext = plaintext, data_key_ciphertext = ciphertext,
                      data_key_arn = arn \<rparr>, k'))"

definition aws_decrypt_data_key ::
  "'k kms_client \<Rightarrow> string \<Rightarrow> bytes \<Rightarrow> encryption_context \<Rightarrow> 'k \<Rightarrow> bytes outcome \<times> 'k"
where
  "aws_decrypt_data_key client key_arn ciphertext context k =
     (case kms_call (kms_decrypt client key_arn ciphertext context k) of
        (Inl e, k') \<Rightarrow> (Inl e, k')
      | (Inr plaintext, k') \<Rightarrow>
          (if length plaintext \<noteq> 32
           then Inl (RuntimeError ''AWS KMS returned an invalid decrypted data key'')
           else Inr plaintext, k'))"

definition aws_kms_provider :: "'k kms_client \<Rightarrow> string \<Rightarrow> 'k data_key_provider" where
  "aws_kms_provider client key_arn =
     \<lparr> generate_data_key = aws_generate_data_key client key_arn,
       decrypt_data_key = aws_decrypt_data_key client key_arn \<rparr>"

section \<open>The envelope table\<close>

record stored_envelope =
  stored_key_hash :: bytes
  stored_envelope :: key_envelope

definition same_envelope_key :: "stored_envelope \<Rightarrow> stored_envelope \<Rightarrow> bool" where
  "same_envelope_key r r' \<longleftrightarrow>
     envelope_environment (stored_envelope r) = envelope_environment (stored_envelope r') \<and>
     envelope_workspace_id (stored_envelope r) = envelope_workspace_id (stored_envelope r') \<and>
     envelope_chain_id (stored_envelope r) = envelope_chain_id (stored_envelope r') \<and>
     stored_key_hash r = stored_key_hash r'"

definition envelope_clash :: "stored_envelope \<Rightarrow> stored_envelope \<Rightarrow> bool" where
  "envelope_clash r r' \<longleftrightarrow>
     envelope_signer_key_id (stored_envelope r) = envelope_signer_key_id (stored_envelope r') \<or>
     same_envelope_key r r'"

definition envelope_checks :: "stored_envelope \<Rightarrow> bool" where
  "envelope_checks r \<longleftrightarrow>
     length (stored_key_hash r) = 32 \<and> length (envelope_nonce (stored_envelope r)) = 12 \<and>
     length (envelope_tag (stored_envelope r)) = 16 \<and> envelope_chain_id (stored_envelope r) = 1"

definition envelope_fits :: "stored_envelope \<Rightarrow> bool" where
  "envelope_fits r \<longleftrightarrow>
     length (envelope_environment (stored_envelope r)) \<le> 32 \<and>
     length (envelope_address (stored_envelope r)) \<le> 42 \<and>
     length (envelope_kms_key_arn (stored_envelope r)) \<le> 512"

definition keyed_by :: "string \<Rightarrow> uuid \<Rightarrow> int \<Rightarrow> bytes \<Rightarrow> stored_envelope \<Rightarrow> bool" where
  "keyed_by environment ws chain key_hash r \<longleftrightarrow>
     envelope_environment (stored_envelope r) = environment \<and>
     envelope_workspace_id (stored_envelope r) = ws \<and>
     envelope_chain_id (stored_envelope r) = chain \<and> stored_key_hash r = key_hash"

definition find_envelope ::
  "string \<Rightarrow> uuid \<Rightarrow> int \<Rightarrow> bytes \<Rightarrow> stored_envelope list \<Rightarrow> key_envelope option"
where
  "find_envelope environment ws chain key_hash rows =
     map_option stored_envelope (select_one (keyed_by environment ws chain key_hash) rows)"

definition save_or_get_envelope ::
  "key_envelope \<Rightarrow> bytes \<Rightarrow> stored_envelope list \<Rightarrow>
     ((key_envelope \<times> bool) \<times> stored_envelope list) outcome"
where
  "save_or_get_envelope e key_hash rows =
     (let row = \<lparr> stored_key_hash = key_hash, stored_envelope = e \<rparr> in
      if \<not> envelope_fits row then Inl DataError
      else if \<not> envelope_checks row then Inl IntegrityError
      else attempt (insert_or_nothing same_envelope_key envelope_clash row rows) (\<lambda>(made, rows').
        case made of
          Some r \<Rightarrow> Inr ((stored_envelope r, True), rows')
        | None \<Rightarrow>
            (case select_one (keyed_by (envelope_environment e) (envelope_workspace_id e)
                (envelope_chain_id e) key_hash) rows' of
               None \<Rightarrow> Inl (RuntimeError ''signer idempotency conflict was not recoverable'')
             | Some r \<Rightarrow> Inr ((stored_envelope r, False), rows'))))"

definition find_for_workspace ::
  "uuid \<Rightarrow> string \<Rightarrow> uuid \<Rightarrow> int \<Rightarrow> stored_envelope list \<Rightarrow> key_envelope option"
where
  "find_for_workspace key_id environment ws chain rows =
     map_option stored_envelope (select_one (\<lambda>r.
       envelope_signer_key_id (stored_envelope r) = key_id \<and>
       envelope_environment (stored_envelope r) = environment \<and>
       envelope_workspace_id (stored_envelope r) = ws \<and>
       envelope_chain_id (stored_envelope r) = chain) rows)"

section \<open>The service\<close>

record wallet_descriptor =
  descriptor_signer_key_id :: uuid
  descriptor_workspace_id :: uuid
  descriptor_chain_id :: int
  descriptor_address :: string
  descriptor_created :: bool

definition descriptor :: "key_envelope \<Rightarrow> bool \<Rightarrow> wallet_descriptor" where
  "descriptor e created =
     \<lparr> descriptor_signer_key_id = envelope_signer_key_id e,
       descriptor_workspace_id = envelope_workspace_id e,
       descriptor_chain_id = envelope_chain_id e,
       descriptor_address = envelope_address e,
       descriptor_created = created \<rparr>"

definition signer_hash_idempotency_key :: "(bytes \<Rightarrow> bytes) \<Rightarrow> string \<Rightarrow> bytes outcome" where
  "signer_hash_idempotency_key sha256 key =
     (if \<not> (16 \<le> length key \<and> length key \<le> 128)
      then Inl (ValueError ''idempotency key must contain between 16 and 128 characters'')
      else Inr (sha256 (utf8 key)))"

text \<open>What one creation draws: the id of the key, the private key and the nonce.\<close>

record drawn_key =
  drawn_key_id :: uuid
  drawn_private_key :: bytes
  drawn_nonce :: bytes

record 'k signer_service =
  service_sha256 :: "bytes \<Rightarrow> bytes"
  service_crypto :: crypto
  service_provider :: "'k data_key_provider"
  service_environment :: string

definition signer_create_wallet ::
  "'k signer_service \<Rightarrow> uuid \<Rightarrow> int \<Rightarrow> string \<Rightarrow> drawn_key \<Rightarrow> stored_envelope list \<Rightarrow> 'k \<Rightarrow>
     wallet_descriptor outcome \<times> stored_envelope list \<times> 'k"
where
  "signer_create_wallet sv ws chain key drawn rows k =
     (case signer_hash_idempotency_key (service_sha256 sv) key of
        Inl e \<Rightarrow> (Inl e, rows, k)
      | Inr key_hash \<Rightarrow>
          (case find_envelope (service_environment sv) ws chain key_hash rows of
             Some existing \<Rightarrow> (Inr (descriptor existing False), rows, k)
           | None \<Rightarrow>
               (case create_key_envelope (service_crypto sv) (service_provider sv)
                   (service_environment sv) ws chain (drawn_key_id drawn) (drawn_private_key drawn)
                   (drawn_nonce drawn) k of
                  (Inl e, buffers, k') \<Rightarrow> (Inl e, rows, k')
                | (Inr envelope, buffers, k') \<Rightarrow>
                    (case transact rows (save_or_get_envelope envelope key_hash rows) of
                       (Inl e, rows') \<Rightarrow> (Inl e, rows', k')
                     | (Inr (persisted, created), rows') \<Rightarrow>
                         (Inr (descriptor persisted created), rows', k')))))"

definition signer_verify_restore ::
  "'k signer_service \<Rightarrow> uuid \<Rightarrow> uuid \<Rightarrow> int \<Rightarrow> stored_envelope list \<Rightarrow> 'k \<Rightarrow> string outcome \<times> 'k"
where
  "signer_verify_restore sv key_id ws chain rows k =
     (case find_for_workspace key_id (service_environment sv) ws chain rows of
        None \<Rightarrow> (Inl (LookupError ''signer key was not found''), k)
      | Some envelope \<Rightarrow>
          (case restore_and_verify_address (service_crypto sv) (service_provider sv) envelope k of
             (answer, buffers, k') \<Rightarrow> (answer, k')))"

section \<open>Buffers\<close>

lemma zeroize_prefix:
  "n \<le> length buffer \<Longrightarrow>
     fold (\<lambda>index b. b[index := 0]) [0..<n] buffer = replicate n (0 :: 8 word) @ drop n buffer"
proof (induction n)
  case (Suc n)
  then have "fold (\<lambda>index b. b[index := 0]) [0..<Suc n] buffer =
      (replicate n 0 @ drop n buffer)[n := 0]" by simp
  also have "\<dots> = replicate n 0 @ (drop n buffer)[0 := 0]"
    by (simp add: list_update_append)
  also have "drop n buffer = buffer ! n # drop (Suc n) buffer"
    using Suc.prems by (simp add: Cons_nth_drop_Suc)
  finally show ?case by (simp add: replicate_app_Cons_same)
qed simp

lemma zeroize_eq [simp]: "zeroize buffer = replicate (length buffer) 0"
  using zeroize_prefix [of "length buffer" buffer] by (simp add: zeroize_def)

definition wiped :: "key_buffers \<Rightarrow> bool" where
  "wiped b \<longleftrightarrow> list_all (\<lambda>x. x = 0) (private_buffer b) \<and> list_all (\<lambda>x. x = 0) (data_buffer b)"

lemma wiped_cleared [simp]: "wiped (cleared private data)"
  by (simp add: wiped_def cleared_def list_all_iff)

lemma cleared_buffers [simp]:
  "private_buffer (cleared x y) = replicate (length x) 0" "data_buffer (cleared x y) = replicate (length y) 0"
  by (simp_all add: cleared_def)

section \<open>The table's contract\<close>

lemma envelope_clash_sym: "envelope_clash r r' \<longleftrightarrow> envelope_clash r' r"
  by (auto simp: envelope_clash_def same_envelope_key_def)

lemma keyed_by_clash:
  "keyed_by environment ws chain key_hash r \<Longrightarrow> keyed_by environment ws chain key_hash r' \<Longrightarrow>
     envelope_clash r r'"
  by (simp add: keyed_by_def envelope_clash_def same_envelope_key_def)

lemma find_envelope_unique:
  assumes "unique_table envelope_clash rows" and "r \<in> set rows" and "keyed_by environment ws chain key_hash r"
  shows "select_one (keyed_by environment ws chain key_hash) rows = Some r"
  by (rule select_one_unique_table [where p = "keyed_by environment ws chain key_hash",
        OF assms(1) envelope_clash_sym assms(2,3)])
    (rule keyed_by_clash [OF _ assms(3)])

text \<open>A save stores the new envelope, with which nothing clashes, or finds the one of its key.\<close>

lemma save_or_get_envelope_cases:
  assumes "save_or_get_envelope e key_hash rows = Inr ((stored, created), rows')"
  obtains (inserted) "created" and "stored = e"
      and "rows' = rows @ [\<lparr> stored_key_hash = key_hash, stored_envelope = e \<rparr>]"
      and "\<And>r. r \<in> set rows \<Longrightarrow> \<not> envelope_clash \<lparr> stored_key_hash = key_hash, stored_envelope = e \<rparr> r"
      and "envelope_checks \<lparr> stored_key_hash = key_hash, stored_envelope = e \<rparr>"
    | (existing) r where "\<not> created" and "rows' = rows" and "r \<in> set rows" and "stored = stored_envelope r"
      and "keyed_by (envelope_environment e) (envelope_workspace_id e) (envelope_chain_id e) key_hash r"
proof -
  let ?row = "\<lparr> stored_key_hash = key_hash, stored_envelope = e \<rparr>"
  from assms obtain made rows1 where checks: "envelope_checks ?row" and
    insert: "insert_or_nothing same_envelope_key envelope_clash ?row rows = Inr (made, rows1)"
    by (auto simp: save_or_get_envelope_def Let_def split: if_splits elim!: attempt_InrE)
  show thesis
  proof (cases made)
    case None
    from insert_or_nothing_NoneD [OF insert [unfolded None]] have rows1: "rows1 = rows" by simp
    from assms have "(case select_one (keyed_by (envelope_environment e) (envelope_workspace_id e)
        (envelope_chain_id e) key_hash) rows of
        None \<Rightarrow> Inl (RuntimeError ''signer idempotency conflict was not recoverable'')
      | Some r \<Rightarrow> Inr ((stored_envelope r, False), rows)) = Inr ((stored, created), rows')"
      by (simp add: save_or_get_envelope_def Let_def insert None rows1 split: if_splits)
    then obtain r where "\<not> created" "rows' = rows" "stored = stored_envelope r" and
      found: "select_one (keyed_by (envelope_environment e) (envelope_workspace_id e)
        (envelope_chain_id e) key_hash) rows = Some r"
      by (auto split: option.splits)
    with select_one_SomeD [OF found] show thesis by (intro existing [of r]) auto
  next
    case (Some x)
    with insert_or_nothing_SomeD [OF insert [unfolded Some]] have "x = ?row" "rows1 = rows @ [?row]"
      and free: "\<And>r. r \<in> set rows \<Longrightarrow> \<not> envelope_clash ?row r" by auto
    with assms insert Some checks show thesis
      by (intro inserted) (auto simp: save_or_get_envelope_def Let_def split: if_splits)
  qed
qed

lemma create_key_envelope_InrD:
  assumes "create_key_envelope c provider environment ws chain key_id private nonce k = (Inr e, b, k')"
  shows "\<exists>dk. chain = 1 \<and> generate_data_key provider (encryption_context environment ws chain key_id) k = (Inr dk, k') \<and>
    length (data_key_plaintext dk) = 32 \<and> e = sealed_envelope c environment ws chain key_id private nonce dk \<and>
    b = cleared private (data_key_plaintext dk)"
  using assms by (auto simp: create_key_envelope_def split: if_splits prod.splits sum.splits)

lemma sealed_envelope_simps [simp]:
  "envelope_signer_key_id (sealed_envelope c environment ws chain key_id private nonce dk) = key_id"
  "envelope_environment (sealed_envelope c environment ws chain key_id private nonce dk) = environment"
  "envelope_workspace_id (sealed_envelope c environment ws chain key_id private nonce dk) = ws"
  "envelope_chain_id (sealed_envelope c environment ws chain key_id private nonce dk) = chain"
  "envelope_address (sealed_envelope c environment ws chain key_id private nonce dk) = account_address c private"
  "envelope_encrypted_data_key (sealed_envelope c environment ws chain key_id private nonce dk) =
     data_key_ciphertext dk"
  "envelope_nonce (sealed_envelope c environment ws chain key_id private nonce dk) = nonce"
  "envelope_ciphertext (sealed_envelope c environment ws chain key_id private nonce dk) @
     envelope_tag (sealed_envelope c environment ws chain key_id private nonce dk) =
     aes_encrypt c (data_key_plaintext dk) nonce private
       (authenticated_data (encryption_context environment ws chain key_id) (account_address c private))"
  by (simp_all add: sealed_envelope_def Let_def)

lemma signer_create_wallet_cases:
  assumes "signer_create_wallet sv ws chain key drawn rows k = (Inr d, rows', k')"
  obtains (found) key_hash r where
      "signer_hash_idempotency_key (service_sha256 sv) key = Inr key_hash"
      and "d = descriptor (stored_envelope r) False" and "r \<in> set rows" and "rows' = rows" and "k' = k"
      and "keyed_by (service_environment sv) ws chain key_hash r"
    | (sealed) key_hash e b created stored where
      "signer_hash_idempotency_key (service_sha256 sv) key = Inr key_hash"
      and "find_envelope (service_environment sv) ws chain key_hash rows = None"
      and "create_key_envelope (service_crypto sv) (service_provider sv) (service_environment sv) ws chain
        (drawn_key_id drawn) (drawn_private_key drawn) (drawn_nonce drawn) k = (Inr e, b, k')"
      and "save_or_get_envelope e key_hash rows = Inr ((stored, created), rows')"
      and "d = descriptor stored created"
proof -
  from assms obtain key_hash where hash: "signer_hash_idempotency_key (service_sha256 sv) key = Inr key_hash"
    by (auto simp: signer_create_wallet_def split: sum.splits)
  show thesis
  proof (cases "find_envelope (service_environment sv) ws chain key_hash rows")
    case (Some e)
    then obtain r where "select_one (keyed_by (service_environment sv) ws chain key_hash) rows = Some r"
      and "e = stored_envelope r" by (auto simp: find_envelope_def)
    with select_one_SomeD [OF this(1)] assms hash Some show thesis
      by (intro found [of key_hash r]) (auto simp: signer_create_wallet_def)
  next
    case None
    with assms hash show thesis
      by (auto simp: signer_create_wallet_def transact_Inr_iff split: sum.splits prod.splits
          elim!: transact.elims intro!: sealed)
  qed
qed

text \<open>After a creation the table has the row of its key, which the answer describes.\<close>

lemma signer_create_wallet_stored:
  assumes "signer_create_wallet sv ws chain key drawn rows k = (Inr d, rows', k')"
    and "unique_table envelope_clash rows"
  shows "\<exists>key_hash r. signer_hash_idempotency_key (service_sha256 sv) key = Inr key_hash \<and> r \<in> set rows' \<and>
    keyed_by (service_environment sv) ws chain key_hash r \<and>
    d = descriptor (stored_envelope r) (descriptor_created d) \<and> unique_table envelope_clash rows' \<and>
    set rows \<subseteq> set rows'"
  using assms(1)
proof (cases rule: signer_create_wallet_cases)
  case (found key_hash r)
  with assms(2) show ?thesis by (intro exI [of _ key_hash] exI [of _ r]) (simp add: descriptor_def)
next
  case (sealed key_hash e b created stored)
  from create_key_envelope_InrD [OF sealed(3)] have fields: "envelope_environment e = service_environment sv"
    "envelope_workspace_id e = ws" "envelope_chain_id e = chain" by auto
  from sealed(4) show ?thesis
  proof (cases rule: save_or_get_envelope_cases)
    case inserted
    with sealed(1,5) fields assms(2) show ?thesis
      by (intro exI [of _ key_hash] exI [of _ "\<lparr> stored_key_hash = key_hash, stored_envelope = e \<rparr>"])
        (auto simp: keyed_by_def descriptor_def unique_table_snoc)
  next
    case (existing r)
    with sealed(1,5) fields assms(2) show ?thesis
      by (intro exI [of _ key_hash] exI [of _ r]) (auto simp: descriptor_def)
  qed
qed


section \<open>Properties\<close>

text \<open>
  What the ciphers and the key service document: decryption with the key, nonce and associated data
  of the encryption gives the plaintext back, and a data key is decrypted under the context it was
  generated for.
\<close>

definition crypto_documented :: "crypto \<Rightarrow> bool" where
  "crypto_documented c \<longleftrightarrow>
     (\<forall>key nonce plain aad. aes_decrypt c key nonce (aes_encrypt c key nonce plain aad) aad = Inr plain)"

definition provider_documented :: "'k data_key_provider \<Rightarrow> bool" where
  "provider_documented p \<longleftrightarrow> (\<forall>context k dk k'. generate_data_key p context k = (Inr dk, k') \<longrightarrow>
     (\<forall>k2. \<exists>k3. decrypt_data_key p (data_key_ciphertext dk) context k2 = (Inr (data_key_plaintext dk), k3)))"

lemma restore_sealed:
  assumes "crypto_documented c" and "provider_documented p"
    and "generate_data_key p (encryption_context environment ws chain key_id) k = (Inr dk, k')"
    and "length (data_key_plaintext dk) = 32"
  shows "\<exists>b k3. restore_and_verify_address c p (sealed_envelope c environment ws chain key_id private nonce dk) k2 =
    (Inr (account_address c private), b, k3)"
proof -
  from assms(2,3) obtain k3 where
    "decrypt_data_key p (data_key_ciphertext dk) (encryption_context environment ws chain key_id) k2 =
      (Inr (data_key_plaintext dk), k3)" unfolding provider_documented_def by blast
  with assms(1,4) show ?thesis
    by (simp add: restore_and_verify_address_def envelope_context_def crypto_documented_def)
qed


text \<open>
  Keys are created once: once a creation for a workspace, chain and idempotency key has answered,
  every later creation for them answers the same key, says that it did not create it, and changes
  nothing; and a creation that had looked the key up before, and now saves an envelope of its own,
  gets the stored one.
\<close>

theorem key_creation_idempotent:
  assumes "unique_table envelope_clash rows"
    and "signer_create_wallet sv ws chain key drawn rows k = (Inr d, rows', k')"
    and "set rows' \<subseteq> set later" and "unique_table envelope_clash later"
  shows "signer_create_wallet sv ws chain key drawn2 later k2 =
      (Inr (d\<lparr> descriptor_created := False \<rparr>), later, k2) \<and>
    (\<exists>key_hash. signer_hash_idempotency_key (service_sha256 sv) key = Inr key_hash \<and>
      (\<forall>e answer. envelope_environment e = service_environment sv \<and> envelope_workspace_id e = ws \<and>
        envelope_chain_id e = chain \<and> save_or_get_envelope e key_hash later = Inr answer \<longrightarrow>
        (\<exists>stored. answer = ((stored, False), later) \<and>
          descriptor stored False = d\<lparr> descriptor_created := False \<rparr>)))"
proof -
  from signer_create_wallet_stored [OF assms(2,1)] obtain key_hash r where
    hash: "signer_hash_idempotency_key (service_sha256 sv) key = Inr key_hash" and
    row: "r \<in> set later" "keyed_by (service_environment sv) ws chain key_hash r" and
    d: "d = descriptor (stored_envelope r) (descriptor_created d)"
    using assms(3) by blast
  have found: "select_one (keyed_by (service_environment sv) ws chain key_hash) later = Some r"
    by (rule find_envelope_unique [OF assms(4) row])
  have answer: "descriptor (stored_envelope r) False = d\<lparr> descriptor_created := False \<rparr>"
    by (subst d) (simp add: descriptor_def)
  have "signer_create_wallet sv ws chain key drawn2 later k2 =
      (Inr (d\<lparr> descriptor_created := False \<rparr>), later, k2)"
    using hash found answer by (simp add: signer_create_wallet_def find_envelope_def)
  moreover have "\<exists>stored. saved = ((stored, False), later) \<and>
      descriptor stored False = d\<lparr> descriptor_created := False \<rparr>"
    if "envelope_environment e = service_environment sv" "envelope_workspace_id e = ws"
      "envelope_chain_id e = chain" "save_or_get_envelope e key_hash later = Inr saved" for e saved
  proof -
    obtain stored created rows2 where saved: "saved = ((stored, created), rows2)" by (metis prod.collapse)
    from that(4) [unfolded saved] show ?thesis
    proof (cases rule: save_or_get_envelope_cases)
      case inserted
      have "envelope_clash \<lparr> stored_key_hash = key_hash, stored_envelope = e \<rparr> r"
        using row(2) that(1-3) by (simp add: keyed_by_def envelope_clash_def same_envelope_key_def)
      with inserted(4) [OF row(1)] show ?thesis by simp
    next
      case (existing r')
      have "keyed_by (service_environment sv) ws chain key_hash r'" using existing(5) that(1-3) by simp
      with find_envelope_unique [OF assms(4) existing(3)] found have "r' = r" by simp
      with existing saved answer show ?thesis by simp
    qed
  qed
  ultimately show ?thesis using hash by blast
qed

text \<open>
  No key material is left in the buffers: however a creation or a restore ends, with an answer, a
  refusal or an exception of the key service or the cipher, the buffers that held the private key and
  the data key are filled with zeros; on success they are as long as what they held.
\<close>

theorem key_buffers_wiped:
  "wiped (fst (snd (create_key_envelope c p environment ws chain key_id private nonce k))) \<and>
   wiped (fst (snd (restore_and_verify_address c p e k))) \<and>
   (\<forall>env b k'. create_key_envelope c p environment ws chain key_id private nonce k = (Inr env, b, k') \<longrightarrow>
      length (private_buffer b) = length private \<and> length (data_buffer b) = 32)"
  by (auto simp: create_key_envelope_def restore_and_verify_address_def split: prod.splits sum.splits)


section \<open>Examples\<close>

definition sample_crypto :: crypto where
  "sample_crypto = \<lparr> account_address = (\<lambda>key. ''0x'' @ bytes_hex (take 20 key)),
     aes_encrypt = (\<lambda>key nonce plain aad. plain @ replicate 16 0),
     aes_decrypt = (\<lambda>key nonce text aad. Inr (take (length text - 16) text)) \<rparr>"

definition sample_data_key :: generated_data_key where
  "sample_data_key = \<lparr> data_key_plaintext = replicate 32 1, data_key_ciphertext = [1],
     data_key_arn = ''arn'' \<rparr>"

definition sample_provider :: "unit data_key_provider" where
  "sample_provider = \<lparr> generate_data_key = (\<lambda>context k. (Inr sample_data_key, k)),
     decrypt_data_key = (\<lambda>text context k. (Inr (replicate 32 1), k)) \<rparr>"

definition sample_service :: "unit signer_service" where
  "sample_service = \<lparr> service_sha256 = (\<lambda>m. replicate 32 0), service_crypto = sample_crypto,
     service_provider = sample_provider, service_environment = ''test'' \<rparr>"

definition sample_drawn :: drawn_key where
  "sample_drawn = \<lparr> drawn_key_id = 5, drawn_private_key = replicate 32 9, drawn_nonce = replicate 12 0 \<rparr>"

definition sample_envelope :: key_envelope where
  "sample_envelope = sealed_envelope sample_crypto ''test'' 7 1 5 (replicate 32 9) (replicate 12 0) sample_data_key"

definition sample_stored :: stored_envelope where
  "sample_stored = \<lparr> stored_key_hash = replicate 32 0, stored_envelope = sample_envelope \<rparr>"

lemma sample_creation:
  "signer_create_wallet sample_service 7 1 (replicate 16 (CHR ''k'')) sample_drawn [] () =
     (Inr (descriptor sample_envelope True), [sample_stored], ())"
proof -
  have "length (envelope_tag sample_envelope) = 16" "envelope_kms_key_arn sample_envelope = ''arn''"
    by (simp_all add: sample_envelope_def sealed_envelope_def Let_def sample_crypto_def sample_data_key_def)
  then have "envelope_fits sample_stored" "envelope_checks sample_stored"
    by (simp_all add: envelope_fits_def envelope_checks_def sample_stored_def)
      (simp_all add: sample_envelope_def sample_crypto_def)
  then have "save_or_get_envelope sample_envelope (replicate 32 0) [] = Inr ((sample_envelope, True), [sample_stored])"
    by (simp add: save_or_get_envelope_def insert_or_nothing_def Let_def flip: sample_stored_def)
      (simp add: sample_stored_def)
  moreover have "create_key_envelope sample_crypto sample_provider ''test'' 7 1 5 (replicate 32 9)
      (replicate 12 0) () = (Inr sample_envelope, cleared (replicate 32 9) (replicate 32 1), ())"
    by (simp add: create_key_envelope_def sample_provider_def sample_envelope_def) (simp add: sample_data_key_def)
  ultimately show ?thesis
    by (simp add: signer_create_wallet_def signer_hash_idempotency_key_def sample_service_def
        sample_drawn_def find_envelope_def)
qed

lemma sample_unique: "unique_table envelope_clash [sample_stored]"
  by (simp add: unique_table_def)

lemma sample_documented: "crypto_documented sample_crypto" "provider_documented sample_provider"
  by (auto simp: crypto_documented_def provider_documented_def sample_crypto_def sample_provider_def
      sample_data_key_def)


theorem key_creation_idempotent_witness:
  "signer_create_wallet sample_service 7 1 (replicate 16 (CHR ''k''))
     (sample_drawn\<lparr> drawn_key_id := 6 \<rparr>) [sample_stored] () =
     (Inr (descriptor sample_envelope False), [sample_stored], ())"
  using key_creation_idempotent [OF _ sample_creation subset_refl [of "set [sample_stored]"] sample_unique,
      of "sample_drawn\<lparr> drawn_key_id := 6 \<rparr>" "()"]
  by (simp add: descriptor_def)

theorem key_buffers_wiped_witness:
  "create_key_envelope sample_crypto sample_provider ''test'' 7 1 5 (replicate 32 9) (replicate 12 0) () =
     (Inr sample_envelope, \<lparr> private_buffer = replicate 32 0, data_buffer = replicate 32 0 \<rparr>, ()) \<and>
   wiped \<lparr> private_buffer = replicate 32 0, data_buffer = replicate 32 0 \<rparr>"
proof -
  have "create_key_envelope sample_crypto sample_provider ''test'' 7 1 5 (replicate 32 9)
      (replicate 12 0) () = (Inr sample_envelope, cleared (replicate 32 9) (replicate 32 1), ())"
    by (simp add: create_key_envelope_def sample_provider_def sample_envelope_def) (simp add: sample_data_key_def)
  with key_buffers_wiped [of sample_crypto sample_provider "''test''" 7 1 5 "replicate 32 9" "replicate 12 0" "()"]
  show ?thesis by (simp add: cleared_def)
qed

end
