(* ===== verification/Wallets.thy ===== *)
theory Wallets
  imports AccessStore Decoders Ids "HOL-Library.Multiset"
begin

text \<open>
  Execution wallets: the wallet table and its repository
  (\<^verbatim>\<open>app/infrastructure/db/models/access.py\<close>, \<^verbatim>\<open>app/infrastructure/db/repositories/wallets.py\<close>,
  migration 0002), the service that creates and lists them
  (\<^verbatim>\<open>app/application/wallets/service.py\<close>) and the balance refresh
  (\<^verbatim>\<open>app/application/wallets/balances.py\<close>). A creation is four steps, each of its own
  transaction or call; the step relation interleaves any number of creations and refreshes. The
  signer, the refresh queue, the balance client, SHA-256 and the checksum form are arguments, as are
  fresh row ids and the clock.
\<close>

section \<open>Records\<close>

record wallet_record =
  wallet_id :: uuid
  wallet_workspace_id :: uuid
  wallet_chain_id :: int
  wallet_address :: string
  wallet_signer_key_id :: uuid
  wallet_status :: wallet_status
  wallet_balance_wei :: int
  wallet_balance_block_number :: "int option"
  wallet_balance_refreshed_at :: "instant option"

record execution_wallet = wallet_record +
  wallet_idempotency_key_hash :: bytes
  wallet_created_at :: instant

record signer_wallet_result =
  result_signer_key_id :: uuid
  result_workspace_id :: uuid
  result_chain_id :: int
  result_address :: string
  result_created :: bool

definition wallet_record_of :: "execution_wallet \<Rightarrow> wallet_record" where
  "wallet_record_of model =
     \<lparr> wallet_id = wallet_id model,
       wallet_workspace_id = wallet_workspace_id model,
       wallet_chain_id = wallet_chain_id model,
       wallet_address = wallet_address model,
       wallet_signer_key_id = wallet_signer_key_id model,
       wallet_status = wallet_status model,
       wallet_balance_wei = wallet_balance_wei model,
       wallet_balance_block_number = wallet_balance_block_number model,
       wallet_balance_refreshed_at = wallet_balance_refreshed_at model \<rparr>"

text \<open>The wallet table beside the access tables it refers to and audits in.\<close>

record wallet_store =
  wallet_access :: access_db
  execution_wallets :: "execution_wallet list"

section \<open>Constraints\<close>

definition same_idempotency :: "execution_wallet \<Rightarrow> execution_wallet \<Rightarrow> bool" where
  "same_idempotency r r' \<longleftrightarrow>
     wallet_workspace_id r = wallet_workspace_id r' \<and>
     wallet_idempotency_key_hash r = wallet_idempotency_key_hash r'"

definition execution_wallet_clash :: "execution_wallet \<Rightarrow> execution_wallet \<Rightarrow> bool" where
  "execution_wallet_clash r r' \<longleftrightarrow>
     wallet_id r = wallet_id r' \<or>
     wallet_signer_key_id r = wallet_signer_key_id r' \<or>
     wallet_chain_id r = wallet_chain_id r' \<and> wallet_address r = wallet_address r' \<or>
     same_idempotency r r'"

definition execution_wallet_checks :: "execution_wallet \<Rightarrow> bool" where
  "execution_wallet_checks r \<longleftrightarrow>
     wallet_chain_id r = 1 \<and> length (wallet_idempotency_key_hash r) = 32 \<and>
     0 \<le> wallet_balance_wei r"

definition execution_wallet_fits :: "execution_wallet \<Rightarrow> bool" where
  "execution_wallet_fits r \<longleftrightarrow> length (wallet_address r) \<le> 42"

definition wallet_policy :: "tenant_session \<Rightarrow> execution_wallet \<Rightarrow> bool" where
  "wallet_policy s r = workspace_isolation s (wallet_workspace_id r) None"

definition known_workspace :: "wallet_store \<Rightarrow> uuid \<Rightarrow> bool" where
  "known_workspace st ws \<longleftrightarrow> list_ex (\<lambda>w. workspace_id w = ws) (workspaces (wallet_access st))"

section \<open>The repository\<close>

definition wallet_session :: "uuid \<Rightarrow> tenant_session" where
  "wallet_session ws = set_workspace_context ws empty_session"

definition find_by_idempotency :: "uuid \<Rightarrow> bytes \<Rightarrow> wallet_store \<Rightarrow> wallet_record option" where
  "find_by_idempotency ws key_hash st =
     map_option wallet_record_of
       (select_one (\<lambda>r. wallet_policy (wallet_session ws) r \<and> wallet_workspace_id r = ws \<and>
          wallet_idempotency_key_hash r = key_hash) (execution_wallets st))"

definition count_active :: "uuid \<Rightarrow> wallet_store \<Rightarrow> nat" where
  "count_active ws st =
     length (filter (\<lambda>r. wallet_policy (wallet_session ws) r \<and> wallet_workspace_id r = ws \<and>
       wallet_status r = WalletStatus_ACTIVE) (execution_wallets st))"

definition new_wallet ::
  "signer_wallet_result \<Rightarrow> bytes \<Rightarrow> uuid \<Rightarrow> instant \<Rightarrow> execution_wallet"
where
  "new_wallet result key_hash new_id now =
     \<lparr> wallet_id = new_id,
       wallet_workspace_id = result_workspace_id result,
       wallet_chain_id = result_chain_id result,
       wallet_address = result_address result,
       wallet_signer_key_id = result_signer_key_id result,
       wallet_status = WalletStatus_ACTIVE,
       wallet_balance_wei = 0,
       wallet_balance_block_number = None,
       wallet_balance_refreshed_at = None,
       wallet_idempotency_key_hash = key_hash,
       wallet_created_at = now \<rparr>"

definition wallet_audit ::
  "uuid \<Rightarrow> signer_wallet_result \<Rightarrow> uuid \<Rightarrow> uuid \<Rightarrow> uuid \<Rightarrow> audit_log"
where
  "wallet_audit new_audit_id result new_id actor_user_id correlation_id =
     \<lparr> audit_id = new_audit_id,
       audit_workspace_id = Some (result_workspace_id result),
       audit_actor_type = ActorType_TELEGRAM_USER,
       audit_actor_id = uuid_str actor_user_id,
       audit_action = ''execution_wallet_created'',
       audit_resource_type = ''execution_wallet'',
       audit_resource_id = uuid_str new_id,
       audit_before = None,
       audit_after = Some (JObject
         [(''chain_id'', JInt (result_chain_id result)),
          (''address'', JStr (result_address result)),
          (''signer_key_id'', JStr (uuid_str (result_signer_key_id result)))]),
       audit_correlation_id = correlation_id,
       audit_severity = Severity_HIGH \<rparr>"

text \<open>The fresh ids and the transaction time of one save.\<close>

record save_stamp =
  stamp_wallet_id :: uuid
  stamp_audit_id :: uuid
  stamp_now :: instant

definition save_or_get ::
  "signer_wallet_result \<Rightarrow> bytes \<Rightarrow> uuid \<Rightarrow> uuid \<Rightarrow> save_stamp \<Rightarrow> wallet_store \<Rightarrow>
     ((wallet_record \<times> bool) \<times> wallet_store) outcome"
where
  "save_or_get result key_hash actor_user_id correlation_id stamp st =
     (let s = wallet_session (result_workspace_id result);
          row = new_wallet result key_hash (stamp_wallet_id stamp) (stamp_now stamp)
      in if \<not> execution_wallet_fits row then Inl DataError
      else if \<not> wallet_policy s row then Inl InsufficientPrivilege
      else if \<not> execution_wallet_checks row then Inl IntegrityError
      else attempt (insert_or_nothing same_idempotency execution_wallet_clash row
          (execution_wallets st)) (\<lambda>(created, rows).
        case created of
          Some r \<Rightarrow>
            if \<not> known_workspace st (wallet_workspace_id r) then Inl IntegrityError
            else attempt (insert_audit s
                (wallet_audit (stamp_audit_id stamp) result (stamp_wallet_id stamp) actor_user_id
                  correlation_id) (wallet_access st)) (\<lambda>access.
              Inr ((wallet_record_of r, True),
                st\<lparr> wallet_access := access, execution_wallets := rows \<rparr>))
        | None \<Rightarrow>
            (case select_one (\<lambda>r. wallet_policy s r \<and>
                wallet_workspace_id r = result_workspace_id result \<and>
                wallet_idempotency_key_hash r = key_hash) rows of
               None \<Rightarrow> Inl (RuntimeError ''wallet idempotency conflict was not recoverable'')
             | Some r \<Rightarrow> Inr ((wallet_record_of r, False), st))))"

definition list_wallets :: "uuid \<Rightarrow> wallet_store \<Rightarrow> wallet_record list" where
  "list_wallets ws st =
     map wallet_record_of (sort_key wallet_created_at
       (filter (\<lambda>r. wallet_policy (wallet_session ws) r \<and> wallet_workspace_id r = ws)
         (execution_wallets st)))"

definition find_by_id :: "uuid \<Rightarrow> uuid \<Rightarrow> wallet_store \<Rightarrow> wallet_record option" where
  "find_by_id ws wid st =
     map_option wallet_record_of
       (select_one (\<lambda>r. wallet_policy (wallet_session ws) r \<and> wallet_workspace_id r = ws \<and>
          wallet_id r = wid) (execution_wallets st))"

definition balance_due :: "uuid \<Rightarrow> uuid \<Rightarrow> int \<Rightarrow> execution_wallet \<Rightarrow> bool" where
  "balance_due ws wid block r \<longleftrightarrow>
     wallet_policy (wallet_session ws) r \<and> wallet_workspace_id r = ws \<and> wallet_id r = wid \<and>
     (case wallet_balance_block_number r of None \<Rightarrow> True | Some n \<Rightarrow> n \<le> block)"

definition with_balance :: "int \<Rightarrow> int \<Rightarrow> instant \<Rightarrow> execution_wallet \<Rightarrow> execution_wallet" where
  "with_balance balance block refreshed_at r =
     r\<lparr> wallet_balance_wei := balance, wallet_balance_block_number := Some block,
        wallet_balance_refreshed_at := Some refreshed_at \<rparr>"

text \<open>A block number is a \<open>BIGINT\<close>, a balance a \<open>NUMERIC(78, 0)\<close>.\<close>

definition update_balance ::
  "uuid \<Rightarrow> uuid \<Rightarrow> int \<Rightarrow> int \<Rightarrow> instant \<Rightarrow> wallet_store \<Rightarrow> (bool \<times> wallet_store) outcome"
where
  "update_balance ws wid balance block refreshed_at st =
     (if balance < 0 \<or> block < 0
      then Inl (ValueError ''balance and block number must be non-negative'')
      else if 2 ^ 63 \<le> block then Inl DataError
      else case select_one (balance_due ws wid block) (execution_wallets st) of
          None \<Rightarrow> Inr (False, st)
        | Some r \<Rightarrow>
            if 10 ^ 78 \<le> balance then Inl DataError
            else Inr (True, st\<lparr> execution_wallets :=
              update_rows (balance_due ws wid block) (with_balance balance block refreshed_at)
                (execution_wallets st) \<rparr>))"

section \<open>The service\<close>

record wallet_service_config =
  wallet_limit :: nat
  wallet_service_chain_id :: int

definition wallet_service :: "int \<Rightarrow> int \<Rightarrow> wallet_service_config outcome" where
  "wallet_service max_wallets_per_workspace chain_id =
     (if max_wallets_per_workspace < 1 then Inl (ValueError ''wallet limit must be positive'')
      else if chain_id \<noteq> 1
      then Inl (ValueError ''Release 1 supports Ethereum mainnet only'')
      else Inr \<lparr> wallet_limit = nat max_wallets_per_workspace,
                 wallet_service_chain_id = chain_id \<rparr>)"

definition hash_idempotency_key :: "(bytes \<Rightarrow> bytes) \<Rightarrow> string \<Rightarrow> bytes outcome" where
  "hash_idempotency_key sha256 key =
     (if \<not> (16 \<le> length key \<and> length key \<le> 128)
      then Inl (ValueError ''idempotency key must contain between 16 and 128 characters'')
      else Inr (sha256 (utf8 key)))"

text \<open>The signer as the service calls it: workspace, chain, idempotency key and correlation id.\<close>

record 'g wallet_ports =
  port_sha256 :: "bytes \<Rightarrow> bytes"
  port_checksum :: checksummer
  port_signer :: "uuid \<Rightarrow> int \<Rightarrow> string \<Rightarrow> uuid \<Rightarrow> 'g \<Rightarrow> signer_wallet_result outcome \<times> 'g"

definition creation_identity :: "request_context \<Rightarrow> (uuid \<times> uuid) outcome" where
  "creation_identity ctx =
     attempt (require_workspace ctx) (\<lambda>ws.
       case ctx_user_id ctx of
         None \<Rightarrow> Inl (AccessFailure AccessError ''An approved user identity is required.'')
       | Some uid \<Rightarrow> Inr (ws, uid))"

definition limit_reached :: "wallet_service_config \<Rightarrow> exn" where
  "limit_reached cfg = AccessFailure WalletLimitReached (''This workspace has reached its limit of '' @
     decimal (wallet_limit cfg) @ '' execution wallet(s).'')"

definition bound_result ::
  "wallet_service_config \<Rightarrow> checksummer \<Rightarrow> uuid \<Rightarrow> signer_wallet_result \<Rightarrow> signer_wallet_result outcome"
where
  "bound_result cfg checksum ws result =
     (if result_workspace_id result \<noteq> ws \<or> result_chain_id result \<noteq> wallet_service_chain_id cfg
      then Inl (RuntimeError ''signer returned a mismatched wallet binding'')
      else attempt (checksum (result_address result)) (\<lambda>address.
        Inr (result\<lparr> result_address := address \<rparr>)))"

definition create_wallet ::
  "wallet_service_config \<Rightarrow> 'g wallet_ports \<Rightarrow> request_context \<Rightarrow> string \<Rightarrow> save_stamp \<Rightarrow> wallet_store \<Rightarrow>
     'g \<Rightarrow> (wallet_record \<times> bool) outcome \<times> wallet_store \<times> 'g"
where
  "create_wallet cfg ports ctx key stamp st g =
     (case creation_identity ctx of
        Inl e \<Rightarrow> (Inl e, st, g)
      | Inr (ws, uid) \<Rightarrow>
     (case hash_idempotency_key (port_sha256 ports) key of
        Inl e \<Rightarrow> (Inl e, st, g)
      | Inr key_hash \<Rightarrow>
     (case find_by_idempotency ws key_hash st of
        Some existing \<Rightarrow> (Inr (existing, False), st, g)
      | None \<Rightarrow>
          if wallet_limit cfg \<le> count_active ws st then (Inl (limit_reached cfg), st, g)
          else
     (case port_signer ports ws (wallet_service_chain_id cfg) key (ctx_correlation_id ctx) g of
        (Inl e, g') \<Rightarrow> (Inl e, st, g')
      | (Inr result, g') \<Rightarrow>
     (case bound_result cfg (port_checksum ports) ws result of
        Inl e \<Rightarrow> (Inl e, st, g')
      | Inr bound \<Rightarrow>
          (let (answer, st') = transact st
             (save_or_get bound key_hash uid (ctx_correlation_id ctx) stamp st)
           in (answer, st', g')))))))"

text \<open>
  Listing asks for a refresh of each wallet; a failing request is logged and changes nothing.
\<close>

fun request_refreshes ::
  "(uuid \<Rightarrow> uuid \<Rightarrow> 'q \<Rightarrow> unit outcome \<times> 'q) \<Rightarrow> uuid \<Rightarrow> wallet_record list \<Rightarrow> 'q \<Rightarrow> 'q"
where
  "request_refreshes refresh ws [] q = q"
| "request_refreshes refresh ws (r # rs) q =
     request_refreshes refresh ws rs (snd (refresh ws (wallet_id r) q))"

definition service_list_wallets ::
  "(uuid \<Rightarrow> uuid \<Rightarrow> 'q \<Rightarrow> unit outcome \<times> 'q) option \<Rightarrow> request_context \<Rightarrow> wallet_store \<Rightarrow> 'q \<Rightarrow>
     wallet_record list outcome \<times> 'q"
where
  "service_list_wallets refresh ctx st q =
     (case require_workspace ctx of
        Inl e \<Rightarrow> (Inl e, q)
      | Inr ws \<Rightarrow>
          (Inr (list_wallets ws st),
           case refresh of None \<Rightarrow> q | Some f \<Rightarrow> request_refreshes f ws (list_wallets ws st) q))"

definition refresh_balance ::
  "(string \<Rightarrow> 'e \<Rightarrow> (int \<times> int) outcome \<times> 'e) \<Rightarrow> uuid \<Rightarrow> uuid \<Rightarrow> instant \<Rightarrow> wallet_store \<Rightarrow> 'e \<Rightarrow>
     bool outcome \<times> wallet_store \<times> 'e"
where
  "refresh_balance balance_at ws wid now st e =
     (case find_by_id ws wid st of
        None \<Rightarrow> (Inr False, st, e)
      | Some r \<Rightarrow>
          (case balance_at (wallet_address r) e of
             (Inl x, e') \<Rightarrow> (Inl x, st, e')
           | (Inr (balance, block), e') \<Rightarrow>
               (let (answer, st') = transact st (update_balance ws wid balance block now st)
                in (answer, st', e'))))"

section \<open>Interleaved creations\<close>

text \<open>
  The progress of one creation: before its lookup, before the limit is counted, before the signer is
  called, before the save, and its end.
\<close>

datatype creation =
    Requested request_context string
  | Counting request_context string uuid uuid bytes
  | Calling request_context string uuid uuid bytes
  | Saving request_context uuid uuid bytes signer_wallet_result
  | Answered uuid bytes "wallet_record \<times> bool"
  | Failed exn

definition ended :: "uuid \<Rightarrow> bytes \<Rightarrow> (wallet_record \<times> bool) outcome \<Rightarrow> creation" where
  "ended ws key_hash answer =
     (case answer of Inl e \<Rightarrow> Failed e | Inr result \<Rightarrow> Answered ws key_hash result)"

fun creation_turn ::
  "wallet_service_config \<Rightarrow> 'g wallet_ports \<Rightarrow> save_stamp \<Rightarrow> creation \<Rightarrow> wallet_store \<Rightarrow> 'g \<Rightarrow>
     creation \<times> wallet_store \<times> 'g"
where
  "creation_turn cfg ports stamp (Requested ctx key) st g =
     (case creation_identity ctx of
        Inl e \<Rightarrow> (Failed e, st, g)
      | Inr (ws, uid) \<Rightarrow>
          (case hash_idempotency_key (port_sha256 ports) key of
             Inl e \<Rightarrow> (Failed e, st, g)
           | Inr key_hash \<Rightarrow>
               (case find_by_idempotency ws key_hash st of
                  Some existing \<Rightarrow> (Answered ws key_hash (existing, False), st, g)
                | None \<Rightarrow> (Counting ctx key ws uid key_hash, st, g))))"
| "creation_turn cfg ports stamp (Counting ctx key ws uid key_hash) st g =
     (if wallet_limit cfg \<le> count_active ws st then (Failed (limit_reached cfg), st, g)
      else (Calling ctx key ws uid key_hash, st, g))"
| "creation_turn cfg ports stamp (Calling ctx key ws uid key_hash) st g =
     (case port_signer ports ws (wallet_service_chain_id cfg) key (ctx_correlation_id ctx) g of
        (Inl e, g') \<Rightarrow> (Failed e, st, g')
      | (Inr result, g') \<Rightarrow>
          (case bound_result cfg (port_checksum ports) ws result of
             Inl e \<Rightarrow> (Failed e, st, g')
           | Inr bound \<Rightarrow> (Saving ctx ws uid key_hash bound, st, g')))"
| "creation_turn cfg ports stamp (Saving ctx ws uid key_hash bound) st g =
     (let (answer, st') = transact st
        (save_or_get bound key_hash uid (ctx_correlation_id ctx) stamp st)
      in (ended ws key_hash answer, st', g))"
| "creation_turn cfg ports stamp (Answered ws key_hash answer) st g = (Answered ws key_hash answer, st, g)"
| "creation_turn cfg ports stamp (Failed e) st g = (Failed e, st, g)"

text \<open>Alone, the four turns are the operation.\<close>

fun creation_turns ::
  "nat \<Rightarrow> wallet_service_config \<Rightarrow> 'g wallet_ports \<Rightarrow> save_stamp \<Rightarrow> creation \<times> wallet_store \<times> 'g \<Rightarrow>
     creation \<times> wallet_store \<times> 'g"
where
  "creation_turns 0 cfg ports stamp w = w"
| "creation_turns (Suc n) cfg ports stamp (c, st, g) =
     creation_turns n cfg ports stamp (creation_turn cfg ports stamp c st g)"

fun creation_answer :: "creation \<Rightarrow> (wallet_record \<times> bool) outcome option" where
  "creation_answer (Answered ws key_hash answer) = Some (Inr answer)"
| "creation_answer (Failed e) = Some (Inl e)"
| "creation_answer _ = None"

lemma creation_answer_ended [simp]: "creation_answer (ended ws key_hash answer) = Some answer"
  by (cases answer) (simp_all add: ended_def)

lemma creation_turns_alone:
  "\<exists>c'. creation_turns 4 cfg ports stamp (Requested ctx key, st, g) =
      (c', snd (create_wallet cfg ports ctx key stamp st g)) \<and>
    creation_answer c' = Some (fst (create_wallet cfg ports ctx key stamp st g))"
  by (auto simp: numeral_eq_Suc create_wallet_def Let_def split: sum.splits prod.splits option.splits)

record 'g wallet_world =
  world_creations :: "creation list"
  world_store :: wallet_store
  world_signer :: 'g

text \<open>
  A step: a creation arrives, any creation takes its next turn, a refresh job writes a balance, or
  another part of the program changes the access tables, where no workspace is ever deleted.
\<close>

inductive wallet_step ::
  "wallet_service_config \<Rightarrow> 'g wallet_ports \<Rightarrow> 'g wallet_world \<Rightarrow> 'g wallet_world \<Rightarrow> bool"
  for cfg :: wallet_service_config and ports :: "'g wallet_ports"
where
  arrive: "wallet_step cfg ports w
    (w\<lparr> world_creations := world_creations w @ [Requested ctx key] \<rparr>)"
| turn: "i < length (world_creations w) \<Longrightarrow>
    creation_turn cfg ports stamp (world_creations w ! i) (world_store w) (world_signer w) =
      (c', st', g') \<Longrightarrow>
    wallet_step cfg ports w
      \<lparr> world_creations = (world_creations w)[i := c'], world_store = st', world_signer = g' \<rparr>"
| refresh: "update_balance ws wid balance block now (world_store w) = Inr (found, st') \<Longrightarrow>
    wallet_step cfg ports w (w\<lparr> world_store := st' \<rparr>)"
| access: "(\<And>ws. known_workspace (world_store w) ws \<Longrightarrow>
      list_ex (\<lambda>x. workspace_id x = ws) (workspaces acc)) \<Longrightarrow>
    wallet_step cfg ports w
      (w\<lparr> world_store := (world_store w)\<lparr> wallet_access := acc \<rparr> \<rparr>)"

inductive wallet_reachable ::
  "wallet_service_config \<Rightarrow> 'g wallet_ports \<Rightarrow> 'g wallet_world \<Rightarrow> bool"
  for cfg :: wallet_service_config and ports :: "'g wallet_ports"
where
  start: "wallet_reachable cfg ports
    \<lparr> world_creations = [],
      world_store = \<lparr> wallet_access = acc, execution_wallets = [] \<rparr>, world_signer = g \<rparr>"
| step: "wallet_reachable cfg ports w \<Longrightarrow> wallet_step cfg ports w w' \<Longrightarrow> wallet_reachable cfg ports w'"

inductive_cases wallet_stepE: "wallet_step cfg ports w w'"

section \<open>What a save does\<close>

lemma same_idempotency_clash: "same_idempotency r r' \<Longrightarrow> execution_wallet_clash r r'"
  by (simp add: execution_wallet_clash_def)

lemma execution_wallet_clash_sym: "execution_wallet_clash r r' \<longleftrightarrow> execution_wallet_clash r' r"
  by (auto simp: execution_wallet_clash_def same_idempotency_def)

lemma wallet_policy_own [simp]: "wallet_policy (wallet_session ws) r \<longleftrightarrow> wallet_workspace_id r = ws"
  by (auto simp: wallet_policy_def wallet_session_def workspace_isolation_def set_workspace_context_def
      empty_session_def)

lemma workspaces_insert_audit: "insert_audit s row db = Inr db' \<Longrightarrow> workspaces db' = workspaces db"
  by (auto simp: insert_audit_def elim!: attempt_InrE)

text \<open>A save inserts the new row, for which nothing clashes, or finds the row of its key.\<close>

lemma save_or_get_cases:
  assumes "save_or_get result key_hash uid cid stamp st = Inr ((r, created), st')"
  obtains (inserted) row acc where
      "created" and "row = new_wallet result key_hash (stamp_wallet_id stamp) (stamp_now stamp)"
      and "r = wallet_record_of row"
      and "st' = \<lparr> wallet_access = acc, execution_wallets = execution_wallets st @ [row] \<rparr>"
      and "workspaces acc = workspaces (wallet_access st)"
      and "execution_wallet_checks row" and "known_workspace st (wallet_workspace_id row)"
      and "\<And>r'. r' \<in> set (execution_wallets st) \<Longrightarrow> \<not> execution_wallet_clash row r'"
    | (existing) row where
      "\<not> created" and "st' = st" and "row \<in> set (execution_wallets st)"
      and "wallet_workspace_id row = result_workspace_id result"
      and "wallet_idempotency_key_hash row = key_hash" and "r = wallet_record_of row"
proof -
  let ?row = "new_wallet result key_hash (stamp_wallet_id stamp) (stamp_now stamp)"
  from assms obtain made rows where
    insert: "insert_or_nothing same_idempotency execution_wallet_clash ?row (execution_wallets st) =
      Inr (made, rows)" and checks: "execution_wallet_checks ?row"
    by (auto simp: save_or_get_def Let_def split: if_splits elim!: attempt_InrE)
  show thesis
  proof (cases made)
    case None
    with assms insert obtain row where "\<not> created" "st' = st" "r = wallet_record_of row"
      and row: "select_one (\<lambda>r. wallet_workspace_id r = result_workspace_id result \<and>
        wallet_idempotency_key_hash r = key_hash) rows = Some row"
      by (auto simp: save_or_get_def Let_def split: if_splits option.splits)
    with insert_or_nothing_NoneD [OF insert [unfolded None]] select_one_SomeD [OF row] show thesis
      by (intro existing [of row]) auto
  next
    case (Some x)
    with insert_or_nothing_SomeD [OF insert [unfolded Some]]
    have "x = ?row" "rows = execution_wallets st @ [?row]"
      and free: "\<And>r'. r' \<in> set (execution_wallets st) \<Longrightarrow> \<not> execution_wallet_clash ?row r'" by auto
    with assms insert Some obtain acc where
      "insert_audit (wallet_session (result_workspace_id result))
        (wallet_audit (stamp_audit_id stamp) result (stamp_wallet_id stamp) uid cid) (wallet_access st) =
        Inr acc" "known_workspace st (wallet_workspace_id ?row)" "created" "r = wallet_record_of ?row"
      "st' = st\<lparr> wallet_access := acc, execution_wallets := execution_wallets st @ [?row] \<rparr>"
      by (auto simp: save_or_get_def Let_def split: if_splits elim!: attempt_InrE)
    with free checks show thesis
      by (intro inserted [of ?row acc]) (auto simp: workspaces_insert_audit)
  qed
qed


section \<open>Invariants\<close>

definition wallets_ok :: "wallet_store \<Rightarrow> bool" where
  "wallets_ok st \<longleftrightarrow> unique_table execution_wallet_clash (execution_wallets st) \<and>
     (\<forall>r \<in> set (execution_wallets st).
        execution_wallet_checks r \<and> known_workspace st (wallet_workspace_id r))"

text \<open>What of a row never changes, and its part in a record.\<close>

definition wallet_key :: "execution_wallet \<Rightarrow> uuid \<times> uuid \<times> string \<times> uuid \<times> bytes" where
  "wallet_key r = (wallet_id r, wallet_workspace_id r, wallet_address r, wallet_signer_key_id r,
     wallet_idempotency_key_hash r)"

definition backed :: "wallet_store \<Rightarrow> uuid \<Rightarrow> bytes \<Rightarrow> wallet_record \<Rightarrow> bool" where
  "backed st ws key_hash r \<longleftrightarrow>
     (wallet_id r, wallet_workspace_id r, wallet_address r, wallet_signer_key_id r, key_hash)
       \<in> wallet_key ` set (execution_wallets st) \<and> wallet_workspace_id r = ws"

definition keeps_keys :: "wallet_store \<Rightarrow> wallet_store \<Rightarrow> bool" where
  "keeps_keys st st' \<longleftrightarrow>
     wallet_key ` set (execution_wallets st) \<subseteq> wallet_key ` set (execution_wallets st')"

lemma keeps_keys_refl [simp]: "keeps_keys st st"
  by (simp add: keeps_keys_def)

lemma backed_mono: "keeps_keys st st' \<Longrightarrow> backed st ws key_hash r \<Longrightarrow> backed st' ws key_hash r"
  by (auto simp: keeps_keys_def backed_def)

lemma backed_record_of:
  "row \<in> set (execution_wallets st) \<Longrightarrow> wallet_workspace_id row = ws \<Longrightarrow>
     wallet_idempotency_key_hash row = key_hash \<Longrightarrow> backed st ws key_hash (wallet_record_of row)"
  by (force simp: backed_def wallet_record_of_def wallet_key_def)

text \<open>Two records of one workspace and key are the same wallet.\<close>

lemma backed_unique:
  assumes "wallets_ok st" and "backed st ws key_hash r" and "backed st ws key_hash r'"
  shows "wallet_id r = wallet_id r' \<and> wallet_address r = wallet_address r' \<and>
    wallet_signer_key_id r = wallet_signer_key_id r'"
proof -
  from assms(2,3) obtain x y where xy: "x \<in> set (execution_wallets st)" "y \<in> set (execution_wallets st)"
    and x: "wallet_key x = (wallet_id r, ws, wallet_address r, wallet_signer_key_id r, key_hash)"
    and y: "wallet_key y = (wallet_id r', ws, wallet_address r', wallet_signer_key_id r', key_hash)"
    by (auto simp: backed_def)
  then have "execution_wallet_clash x y"
    by (auto simp: wallet_key_def same_idempotency_def intro!: same_idempotency_clash)
  with assms(1) xy have "x = y"
    by (auto simp: wallets_ok_def intro: unique_tableD [OF _ _ _ _ execution_wallet_clash_sym])
  with x y show ?thesis by simp
qed

fun creation_ok :: "wallet_store \<Rightarrow> creation \<Rightarrow> bool" where
  "creation_ok st (Saving ctx ws uid key_hash bound) \<longleftrightarrow> result_workspace_id bound = ws"
| "creation_ok st (Answered ws key_hash answer) \<longleftrightarrow> backed st ws key_hash (fst answer)"
| "creation_ok st _ \<longleftrightarrow> True"

fun created_for :: "uuid \<Rightarrow> bytes \<Rightarrow> creation \<Rightarrow> bool" where
  "created_for ws key_hash (Answered ws' key_hash' answer) \<longleftrightarrow>
     ws' = ws \<and> key_hash' = key_hash \<and> snd answer"
| "created_for ws key_hash _ \<longleftrightarrow> False"

lemma creation_ok_mono: "keeps_keys st st' \<Longrightarrow> creation_ok st c \<Longrightarrow> creation_ok st' c"
  by (cases c) (auto intro: backed_mono)

lemma created_for_backed:
  "created_for ws key_hash c \<Longrightarrow> creation_ok st c \<Longrightarrow>
     \<exists>r \<in> set (execution_wallets st). wallet_workspace_id r = ws \<and> wallet_idempotency_key_hash r = key_hash"
  by (cases c) (auto simp: backed_def wallet_key_def)

lemma bound_result_workspace:
  "bound_result cfg checksum ws result = Inr bound \<Longrightarrow>
     result_workspace_id bound = ws \<and> result_chain_id bound = wallet_service_chain_id cfg"
  by (auto simp: bound_result_def split: if_splits elim!: attempt_InrE)

lemma find_by_idempotency_backed:
  "find_by_idempotency ws key_hash st = Some r \<Longrightarrow> backed st ws key_hash r"
  unfolding find_by_idempotency_def by (auto dest!: select_one_SomeD intro: backed_record_of)

lemma save_or_get_keeps:
  assumes "save_or_get bound key_hash uid cid stamp st = Inr ((r, created), st')"
    and "wallets_ok st" and "result_workspace_id bound = ws"
  shows "wallets_ok st' \<and> keeps_keys st st' \<and> backed st' ws key_hash r \<and>
    (created \<longrightarrow> \<not> (\<exists>x \<in> set (execution_wallets st). wallet_workspace_id x = ws \<and>
      wallet_idempotency_key_hash x = key_hash))"
  using assms(1)
proof (cases rule: save_or_get_cases)
  case (inserted row acc)
  have known: "known_workspace st' w \<longleftrightarrow> known_workspace st w" for w
    using inserted(4,5) by (simp add: known_workspace_def)
  have row: "wallet_workspace_id row = ws" "wallet_idempotency_key_hash row = key_hash"
    using inserted(2) assms(3) by (simp_all add: new_wallet_def)
  have "wallets_ok st'"
    using assms(2) inserted known by (auto simp: wallets_ok_def unique_table_snoc)
  moreover have "keeps_keys st st'" using inserted(4) by (auto simp: keeps_keys_def)
  moreover have "backed st' ws key_hash r"
    using row inserted(3,4) by (auto intro!: backed_record_of)
  moreover have "\<not> (\<exists>x \<in> set (execution_wallets st). wallet_workspace_id x = ws \<and>
      wallet_idempotency_key_hash x = key_hash)"
    using inserted(8) row by (metis same_idempotency_def same_idempotency_clash)
  ultimately show ?thesis by simp
next
  case (existing row)
  with assms(2,3) show ?thesis by (auto intro: backed_record_of)
qed

text \<open>A turn keeps the table, answers only stored wallets, and creates only what was not there.\<close>

lemma creation_turn_ok:
  assumes "creation_turn cfg ports stamp c st g = (c', st', g')"
    and "wallets_ok st" and "creation_ok st c"
  shows "wallets_ok st' \<and> keeps_keys st st' \<and> creation_ok st' c' \<and>
    (\<forall>ws key_hash. created_for ws key_hash c' \<longrightarrow> created_for ws key_hash c \<or>
      \<not> (\<exists>r \<in> set (execution_wallets st). wallet_workspace_id r = ws \<and>
        wallet_idempotency_key_hash r = key_hash))"
proof (cases c)
  case (Requested ctx key)
  with assms show ?thesis
    by (auto split: sum.splits prod.splits option.splits intro: find_by_idempotency_backed)
next
  case (Counting ctx key ws uid key_hash)
  with assms show ?thesis by (auto split: if_splits)
next
  case (Calling ctx key ws uid key_hash)
  with assms show ?thesis by (auto split: sum.splits prod.splits dest: bound_result_workspace)
next
  case (Saving ctx ws uid key_hash bound)
  show ?thesis
  proof (cases "save_or_get bound key_hash uid (ctx_correlation_id ctx) stamp st")
    case (Inl e)
    with Saving assms show ?thesis by (auto simp: ended_def)
  next
    case (Inr a)
    obtain r created st1 where a: "a = ((r, created), st1)" by (cases a) auto
    from save_or_get_keeps [OF Inr [unfolded a] assms(2)] assms(3) Saving
    show ?thesis using assms(1) Inr a by (auto simp: ended_def)
  qed
next
  case (Answered ws key_hash answer)
  with assms show ?thesis by auto
next
  case (Failed e)
  with assms show ?thesis by auto
qed

lemma with_balance_key [simp]: "wallet_key (with_balance balance block now r) = wallet_key r"
  by (simp add: with_balance_def wallet_key_def)

lemma with_balance_simps [simp]:
  "wallet_id (with_balance balance block now r) = wallet_id r"
  "wallet_workspace_id (with_balance balance block now r) = wallet_workspace_id r"
  "wallet_status (with_balance balance block now r) = wallet_status r"
  "wallet_balance_wei (with_balance balance block now r) = balance"
  "wallet_balance_block_number (with_balance balance block now r) = Some block"
  "wallet_balance_refreshed_at (with_balance balance block now r) = Some now"
  by (simp_all add: with_balance_def)

lemma with_balance_clash [simp]:
  "execution_wallet_clash (if p then with_balance b n t r else r)
     (if p' then with_balance b n t r' else r') \<longleftrightarrow> execution_wallet_clash r r'"
  by (auto simp: execution_wallet_clash_def same_idempotency_def with_balance_def)

lemma update_balance_InrD:
  "update_balance ws wid balance block now st = Inr (found, st') \<Longrightarrow>
     0 \<le> balance \<and> st' = st\<lparr> execution_wallets :=
       update_rows (balance_due ws wid block) (with_balance balance block now) (execution_wallets st) \<rparr> \<and>
     (found \<longleftrightarrow> (\<exists>r \<in> set (execution_wallets st). balance_due ws wid block r))"
  by (auto simp: update_balance_def update_rows_idle select_one_None_iff
      dest!: select_one_SomeD split: if_splits option.splits)

lemma update_balance_ok:
  assumes "update_balance ws wid balance block now st = Inr (found, st')" and "wallets_ok st"
  shows "wallets_ok st' \<and> keeps_keys st st'"
proof -
  let ?f = "\<lambda>r. if balance_due ws wid block r then with_balance balance block now r else r"
  from update_balance_InrD [OF assms(1)] have st': "st' = st\<lparr> execution_wallets := map ?f (execution_wallets st) \<rparr>"
    and "0 \<le> balance" by (auto simp: update_rows_def)
  then have "execution_wallet_checks (with_balance balance block now r)" if "execution_wallet_checks r" for r
    using that by (auto simp: execution_wallet_checks_def with_balance_def)
  moreover have "unique_table execution_wallet_clash (map ?f (execution_wallets st))"
    using assms(2) by (auto simp: wallets_ok_def intro: unique_table_map)
  moreover have "wallet_key ` ?f ` set (execution_wallets st) = wallet_key ` set (execution_wallets st)"
    unfolding image_image by (rule image_cong) simp_all
  ultimately show ?thesis
    using assms(2) st' by (auto simp: wallets_ok_def keeps_keys_def known_workspace_def)
qed

definition world_ok :: "'g wallet_world \<Rightarrow> bool" where
  "world_ok w \<longleftrightarrow> wallets_ok (world_store w) \<and>
     (\<forall>c \<in> set (world_creations w). creation_ok (world_store w) c) \<and>
     (\<forall>i j ws key_hash. i < length (world_creations w) \<longrightarrow> j < length (world_creations w) \<longrightarrow>
        created_for ws key_hash (world_creations w ! i) \<longrightarrow>
        created_for ws key_hash (world_creations w ! j) \<longrightarrow> i = j)"

lemma wallet_step_ok:
  assumes "wallet_step cfg ports w w'" and "world_ok w"
  shows "world_ok w'"
  using assms
proof (cases rule: wallet_step.cases)
  case (arrive ctx key)
  with assms(2) show ?thesis by (auto simp: world_ok_def nth_append split: if_splits)
next
  case (turn i stamp c' st' g')
  let ?c = "world_creations w ! i" and ?st = "world_store w"
  from assms(2) turn(2) have ok: "wallets_ok ?st" "\<forall>c \<in> set (world_creations w). creation_ok ?st c"
    by (auto simp: world_ok_def)
  with creation_turn_ok [OF turn(3)] turn(2)
  have new: "wallets_ok st'" "keeps_keys ?st st'" "creation_ok st' c'"
    "\<And>ws key_hash. created_for ws key_hash c' \<Longrightarrow> created_for ws key_hash ?c \<or>
      \<not> (\<exists>r \<in> set (execution_wallets ?st). wallet_workspace_id r = ws \<and>
        wallet_idempotency_key_hash r = key_hash)" by auto
  have alone: "\<not> created_for ws key_hash (world_creations w ! j)"
    if "created_for ws key_hash c'" "j \<noteq> i" "j < length (world_creations w)" for j ws key_hash
  proof
    assume j: "created_for ws key_hash (world_creations w ! j)"
    with created_for_backed [OF this] ok(2) that(3) new(4) [OF that(1)]
    have "created_for ws key_hash ?c" by auto
    with j that turn(2) assms(2) show False by (auto simp: world_ok_def)
  qed
  have "\<forall>c \<in> set ((world_creations w)[i := c']). creation_ok st' c"
    using new ok(2) creation_ok_mono by (auto dest!: set_update_subset_insert [THEN subsetD])
  moreover have "j = k" if "j < length (world_creations w)" "k < length (world_creations w)"
    "created_for ws key_hash ((world_creations w)[i := c'] ! j)"
    "created_for ws key_hash ((world_creations w)[i := c'] ! k)" for j k ws key_hash
  proof (cases "j = i \<or> k = i")
    case True
    with that alone turn(2) show ?thesis by (auto simp: nth_list_update split: if_splits)
  next
    case False
    with that assms(2) show ?thesis by (simp add: world_ok_def)
  qed
  ultimately show ?thesis using new(1) turn(1) by (simp add: world_ok_def)
next
  case (refresh ws wid balance block now found st')
  from update_balance_ok [OF refresh(2)] assms(2) have "wallets_ok st'" "keeps_keys (world_store w) st'"
    by (auto simp: world_ok_def)
  with refresh(1) assms(2) creation_ok_mono show ?thesis by (auto simp: world_ok_def)
next
  case (access acc)
  have keys: "keeps_keys (world_store w) ((world_store w)\<lparr> wallet_access := acc \<rparr>)"
    by (simp add: keeps_keys_def)
  have "wallets_ok ((world_store w)\<lparr> wallet_access := acc \<rparr>)"
    using assms(2) access(2) by (auto simp: world_ok_def wallets_ok_def known_workspace_def)
  with keys access(1) assms(2) creation_ok_mono show ?thesis by (auto simp: world_ok_def)
qed

lemma wallet_reachable_ok: "wallet_reachable cfg ports w \<Longrightarrow> world_ok w"
proof (induction rule: wallet_reachable.induct)
  case (step w w')
  then show ?case by (blast intro: wallet_step_ok)
qed (simp add: world_ok_def wallets_ok_def)


section \<open>Properties\<close>

text \<open>
  C6. Wallet creation is idempotent under concurrency: however any number of creations, balance
  refreshes and other work interleave, two creations of one workspace with one idempotency key that
  answer, answer the same wallet of that workspace, and at most one of them says it created it. The
  table never holds two wallets with one key, one signer key or one address, and every wallet is on
  Ethereum mainnet, in an existing workspace, with a balance that is not negative.
\<close>

theorem wallet_creation_idempotent:
  assumes "wallet_reachable cfg ports w"
    and "i < length (world_creations w)" and "j < length (world_creations w)"
    and "world_creations w ! i = Answered ws key_hash (r, created)"
    and "world_creations w ! j = Answered ws key_hash (r', created')"
  shows "wallet_workspace_id r = ws \<and> wallet_id r = wallet_id r' \<and>
    wallet_address r = wallet_address r' \<and> wallet_signer_key_id r = wallet_signer_key_id r' \<and>
    (created \<and> created' \<longrightarrow> i = j) \<and>
    unique_table execution_wallet_clash (execution_wallets (world_store w)) \<and>
    (\<forall>x \<in> set (execution_wallets (world_store w)).
      wallet_chain_id x = 1 \<and> 0 \<le> wallet_balance_wei x \<and>
      known_workspace (world_store w) (wallet_workspace_id x))"
proof -
  from wallet_reachable_ok [OF assms(1)] have ok: "world_ok w" .
  then have stored: "wallets_ok (world_store w)" by (simp add: world_ok_def)
  from ok assms(2-5) have "creation_ok (world_store w) (Answered ws key_hash (r, created))"
    and "creation_ok (world_store w) (Answered ws key_hash (r', created'))"
    by (metis nth_mem world_ok_def)+
  then have backed: "backed (world_store w) ws key_hash r" "backed (world_store w) ws key_hash r'"
    by simp_all
  have "i = j" if "created" "created'"
  proof -
    from that assms(4,5) have "created_for ws key_hash (world_creations w ! i)"
      and "created_for ws key_hash (world_creations w ! j)" by simp_all
    with ok assms(2,3) show ?thesis unfolding world_ok_def by blast
  qed
  with backed_unique [OF stored backed] backed stored show ?thesis
    by (auto simp: backed_def wallets_ok_def execution_wallet_checks_def)
qed

text \<open>The wallets a limit is about.\<close>

lemma count_active_eq:
  "count_active ws st = length (filter (\<lambda>r. wallet_workspace_id r = ws \<and>
     wallet_status r = WalletStatus_ACTIVE) (execution_wallets st))"
  by (auto simp: count_active_def intro!: arg_cong [of _ _ length] filter_cong)

text \<open>
  Creations that run one after the other respect the limit: a creation either leaves the wallet
  table as it was, or was below the limit of its caller's workspace and adds one active wallet to that
  workspace and none to any other; so a workspace within its limit stays within it.
\<close>

theorem wallet_limit_in_sequence:
  assumes "create_wallet cfg ports ctx key stamp st g = (answer, st', g')"
  shows "(execution_wallets st' = execution_wallets st \<and> \<not> (\<exists>r. answer = Inr (r, True))) \<or>
    (\<exists>r ws. answer = Inr (r, True) \<and> ctx_workspace_id ctx = Some ws \<and> wallet_workspace_id r = ws \<and>
      private_context ctx \<and> count_active ws st < wallet_limit cfg \<and>
      count_active ws st' = Suc (count_active ws st) \<and>
      (\<forall>ws'. ws' \<noteq> ws \<longrightarrow> count_active ws' st' = count_active ws' st))"
proof (cases "execution_wallets st' = execution_wallets st \<and> \<not> (\<exists>r. answer = Inr (r, True))")
  case False
  from False assms obtain ws uid key_hash bound r created where
    identity: "creation_identity ctx = Inr (ws, uid)" and
    below: "count_active ws st < wallet_limit cfg" and
    bound: "result_workspace_id bound = ws" and
    saved: "save_or_get bound key_hash uid (ctx_correlation_id ctx) stamp st = Inr ((r, created), st')" and
    answer: "answer = Inr (r, created)"
    by (auto simp: create_wallet_def Let_def dest!: bound_result_workspace
        split: sum.splits prod.splits option.splits if_splits elim!: transact.elims)
  from identity have ctx: "ctx_workspace_id ctx = Some ws" "private_context ctx"
    by (auto simp: creation_identity_def require_workspace_iff split: option.splits elim!: attempt_InrE)
  from saved show ?thesis
  proof (cases rule: save_or_get_cases)
    case (inserted row acc)
    then have "wallet_workspace_id row = ws" "wallet_status row = WalletStatus_ACTIVE"
      using bound by (simp_all add: new_wallet_def)
    with inserted have "count_active ws st' = Suc (count_active ws st)"
      "\<And>ws'. ws' \<noteq> ws \<Longrightarrow> count_active ws' st' = count_active ws' st" "wallet_workspace_id r = ws"
      by (simp_all add: count_active_eq wallet_record_of_def)
    with answer inserted(1) ctx below show ?thesis by auto
  next
    case (existing row)
    with False answer show ?thesis by auto
  qed
qed simp

text \<open>
  Workspaces see only their own wallets: the list a caller gets is exactly the wallets of the
  caller's workspace, each once, oldest first, whether or not the refresh requests succeed; a wallet
  looked up by its id is found only in its own workspace.
\<close>

theorem list_wallets_isolated:
  assumes "service_list_wallets refresh ctx st q = (Inr rs, q')"
  shows "\<exists>ws. ctx_workspace_id ctx = Some ws \<and> private_context ctx \<and>
    mset rs = image_mset wallet_record_of
      (filter_mset (\<lambda>r. wallet_workspace_id r = ws) (mset (execution_wallets st))) \<and>
    (\<exists>rows. rs = map wallet_record_of rows \<and> sorted (map wallet_created_at rows)) \<and>
    (\<forall>wid r. find_by_id ws wid st = Some r \<longrightarrow> wallet_workspace_id r = ws \<and> r \<in> set rs)"
proof -
  from assms obtain ws where ws: "require_workspace ctx = Inr ws" and rs: "rs = list_wallets ws st"
    by (auto simp: service_list_wallets_def split: sum.splits)
  have "\<exists>rows. rs = map wallet_record_of rows \<and> sorted (map wallet_created_at rows)"
    unfolding rs list_wallets_def by (rule exI, rule conjI, rule refl, rule sorted_sort_key)
  moreover have "wallet_workspace_id r = ws \<and> r \<in> set rs" if "find_by_id ws wid st = Some r" for wid r
    using that by (auto simp: find_by_id_def rs list_wallets_def wallet_record_of_def
        dest!: select_one_SomeD)
  ultimately show ?thesis
    using ws by (auto simp: require_workspace_iff rs list_wallets_def)
qed


fun run_refreshes :: "uuid \<Rightarrow> uuid \<Rightarrow> (int \<times> int \<times> instant) list \<Rightarrow> wallet_store \<Rightarrow> wallet_store" where
  "run_refreshes ws wid [] st = st"
| "run_refreshes ws wid ((balance, block, now) # us) st =
     run_refreshes ws wid us (snd (transact st (update_balance ws wid balance block now st)))"

fun refreshed :: "uuid \<Rightarrow> uuid \<Rightarrow> (int \<times> int \<times> instant) list \<Rightarrow> execution_wallet \<Rightarrow> execution_wallet" where
  "refreshed ws wid [] r = r"
| "refreshed ws wid ((balance, block, now) # us) r =
     refreshed ws wid us (if balance_due ws wid block r then with_balance balance block now r else r)"

definition storable :: "int \<times> int \<times> instant \<Rightarrow> bool" where
  "storable u \<longleftrightarrow> 0 \<le> fst u \<and> fst u < 10 ^ 78 \<and> 0 \<le> fst (snd u) \<and> fst (snd u) < 2 ^ 63"

lemma update_balance_storable:
  assumes "storable (balance, block, now)"
  shows "snd (transact st (update_balance ws wid balance block now st)) = st\<lparr> execution_wallets :=
    map (\<lambda>r. if balance_due ws wid block r then with_balance balance block now r else r)
      (execution_wallets st) \<rparr>"
proof (cases "select_one (balance_due ws wid block) (execution_wallets st)")
  case None
  then have "map (\<lambda>r. if balance_due ws wid block r then with_balance balance block now r else r)
      (execution_wallets st) = execution_wallets st"
    using update_rows_idle [of "execution_wallets st" "balance_due ws wid block"]
    by (simp add: select_one_None_iff update_rows_def)
  with None assms show ?thesis by (simp add: update_balance_def storable_def)
next
  case (Some r)
  with assms show ?thesis by (simp add: update_balance_def storable_def update_rows_def)
qed

lemma refreshed_Nil [simp]: "refreshed ws wid [] = (\<lambda>r. r)"
  by (rule ext) simp

lemma run_refreshes_rows:
  "\<forall>u \<in> set us. storable u \<Longrightarrow>
     execution_wallets (run_refreshes ws wid us st) = map (refreshed ws wid us) (execution_wallets st)"
  by (induction ws wid us st rule: run_refreshes.induct)
    (auto simp: update_balance_storable simp del: transact.simps)

lemma refreshed_snoc:
  "refreshed ws wid (us @ [(balance, block, now)]) r =
     (if balance_due ws wid block (refreshed ws wid us r)
      then with_balance balance block now (refreshed ws wid us r) else refreshed ws wid us r)"
  by (induction ws wid us r rule: refreshed.induct) simp_all

lemma refreshed_other: "\<not> (wallet_workspace_id r = ws \<and> wallet_id r = wid) \<Longrightarrow> refreshed ws wid us r = r"
  by (induction ws wid us r rule: refreshed.induct) (auto simp: balance_due_def)

lemma refreshed_key [simp]: "wallet_key (refreshed ws wid us r) = wallet_key r"
  by (induction ws wid us r rule: refreshed.induct) simp_all

lemma refreshed_latest:
  assumes "wallet_workspace_id r = ws" and "wallet_id r = wid"
    and "wallet_balance_block_number r = None" and "us \<noteq> []"
  shows "\<exists>earlier balance block now later. us = earlier @ (balance, block, now) # later \<and>
    (\<forall>u \<in> set earlier. fst (snd u) \<le> block) \<and> (\<forall>u \<in> set later. fst (snd u) < block) \<and>
    wallet_balance_wei (refreshed ws wid us r) = balance \<and>
    wallet_balance_block_number (refreshed ws wid us r) = Some block \<and>
    wallet_balance_refreshed_at (refreshed ws wid us r) = Some now"
  using assms(4)
proof (induction us rule: rev_induct)
  case (snoc u us)
  obtain b n t where u: "u = (b, n, t)" by (cases u)
  let ?r = "refreshed ws wid us r"
  have key: "wallet_workspace_id ?r = ws" "wallet_id ?r = wid"
    using refreshed_key [of ws wid us r] assms(1,2) by (auto simp: wallet_key_def)
  show ?case
  proof (cases "us = []")
    case True
    with assms(1-3) u show ?thesis by (intro exI [of _ "[]"]) (simp add: balance_due_def)
  next
    case False
    with snoc.IH obtain earlier balance block now later where
      ih: "us = earlier @ (balance, block, now) # later" "\<forall>u \<in> set earlier. fst (snd u) \<le> block"
        "\<forall>u \<in> set later. fst (snd u) < block" "wallet_balance_wei ?r = balance"
        "wallet_balance_block_number ?r = Some block" "wallet_balance_refreshed_at ?r = Some now" by blast
    show ?thesis
    proof (cases "block \<le> n")
      case True
      then have "refreshed ws wid (us @ [u]) r = with_balance b n t ?r"
        using key ih(5) by (simp add: u refreshed_snoc balance_due_def)
      moreover have "\<forall>u \<in> set us. fst (snd u) \<le> n" using ih(1-3) True by auto
      ultimately show ?thesis
        using u by (intro exI [of _ us] exI [of _ b] exI [of _ n] exI [of _ t] exI [of _ "[]"]) simp
    next
      case below: False
      then have "refreshed ws wid (us @ [u]) r = ?r"
        using ih(5) by (simp add: u refreshed_snoc balance_due_def)
      with ih below u show ?thesis
        by (intro exI [of _ earlier] exI [of _ balance] exI [of _ block] exI [of _ now]
            exI [of _ "later @ [u]"]) auto
    qed
  qed
qed simp

text \<open>
  The stored balance is that of the highest block: after any run of refreshes of a wallet that has
  no balance yet, in whatever order the jobs arrive, the wallet has the balance, block and time of one
  of them; no refresh before that one has a higher block, and every refresh after it a lower one. Every
  other row is as it was.
\<close>

theorem balance_of_highest_block:
  assumes "us \<noteq> []" and "\<forall>u \<in> set us. storable u"
    and "k < length (execution_wallets st)"
    and "wallet_balance_block_number (execution_wallets st ! k) = None"
  shows "length (execution_wallets (run_refreshes ws wid us st)) = length (execution_wallets st) \<and>
    (if wallet_workspace_id (execution_wallets st ! k) = ws \<and> wallet_id (execution_wallets st ! k) = wid
     then \<exists>earlier balance block now later. us = earlier @ (balance, block, now) # later \<and>
       (\<forall>u \<in> set earlier. fst (snd u) \<le> block) \<and> (\<forall>u \<in> set later. fst (snd u) < block) \<and>
       wallet_balance_wei (execution_wallets (run_refreshes ws wid us st) ! k) = balance \<and>
       wallet_balance_block_number (execution_wallets (run_refreshes ws wid us st) ! k) = Some block \<and>
       wallet_balance_refreshed_at (execution_wallets (run_refreshes ws wid us st) ! k) = Some now
     else execution_wallets (run_refreshes ws wid us st) ! k = execution_wallets st ! k)"
  using assms(3,4) refreshed_latest [OF _ _ assms(4,1), of ws wid]
  by (simp add: run_refreshes_rows [OF assms(2)] refreshed_other)

section \<open>Examples\<close>

text \<open>A run of turns, each of the creation with the given index.\<close>

fun take_turns ::
  "wallet_service_config \<Rightarrow> 'g wallet_ports \<Rightarrow> (nat \<times> save_stamp) list \<Rightarrow> 'g wallet_world \<Rightarrow> 'g wallet_world"
where
  "take_turns cfg ports [] w = w"
| "take_turns cfg ports ((i, stamp) # turns) w =
     (if i < length (world_creations w)
      then case creation_turn cfg ports stamp (world_creations w ! i) (world_store w) (world_signer w) of
          (c', st', g') \<Rightarrow> take_turns cfg ports turns
            \<lparr> world_creations = (world_creations w)[i := c'], world_store = st', world_signer = g' \<rparr>
      else take_turns cfg ports turns w)"

lemma take_turns_reachable:
  "wallet_reachable cfg ports w \<Longrightarrow> wallet_reachable cfg ports (take_turns cfg ports turns w)"
proof (induction cfg ports turns w rule: take_turns.induct)
  case (2 cfg ports i stamp turns w)
  show ?case
  proof (cases "i < length (world_creations w)")
    case True
    obtain c' st' g' where turn: "creation_turn cfg ports stamp (world_creations w ! i) (world_store w)
        (world_signer w) = (c', st', g')" by (metis prod_cases3)
    with 2 True wallet_step.turn [OF True turn] show ?thesis
      by (auto intro: wallet_reachable.step)
  next
    case False
    with 2 show ?thesis by simp
  qed
qed simp

definition sample_config :: wallet_service_config where
  "sample_config = \<lparr> wallet_limit = 1, wallet_service_chain_id = 1 \<rparr>"

text \<open>A signer that makes a new key on every call; the digest keeps the length of its input.\<close>

definition sample_ports :: "nat wallet_ports" where
  "sample_ports =
     \<lparr> port_sha256 = (\<lambda>text. replicate 31 0 @ [of_nat (length text)]),
       port_checksum = Inr,
       port_signer = (\<lambda>ws chain key cid n.
         (Inr \<lparr> result_signer_key_id = int n, result_workspace_id = ws, result_chain_id = chain,
                result_address = ''0x'' @ replicate n (CHR ''a''), result_created = True \<rparr>, Suc n)) \<rparr>"

definition member_context :: request_context where
  "member_context = \<lparr> ctx_telegram_user_id = 5, ctx_chat_id = 5, ctx_chat_type = ''private'',
     ctx_correlation_id = 1, ctx_user_id = Some 9, ctx_workspace_id = Some 7,
     ctx_workspace_role = Some WorkspaceRole_OWNER, ctx_platform_role = None \<rparr>"

definition member_access :: access_db where
  "member_access = \<lparr> platform_users = [], access_requests = [],
     workspaces = [\<lparr> workspace_id = 7, workspace_name = ''w'', workspace_personal_owner_user_id = 9,
       workspace_status = WorkspaceStatus_ACTIVE \<rparr>],
     workspace_memberships = [], notification_destinations = [], workspace_strategies = [],
     audit_logs = [], reads_back = True \<rparr>"

definition sample_stamp :: "int \<Rightarrow> save_stamp" where
  "sample_stamp n = \<lparr> stamp_wallet_id = 20 + n, stamp_audit_id = 30 + n, stamp_now = n \<rparr>"

definition empty_wallets :: wallet_store where
  "empty_wallets = \<lparr> wallet_access = member_access, execution_wallets = [] \<rparr>"


text \<open>Two creations of one workspace with the given keys, and the order of their turns.\<close>

definition two_creations :: "string \<Rightarrow> string \<Rightarrow> nat list \<Rightarrow> nat wallet_world" where
  "two_creations key1 key2 order =
     take_turns sample_config sample_ports (map (\<lambda>i. (i, sample_stamp (int i))) order)
       \<lparr> world_creations = [Requested member_context key1, Requested member_context key2],
         world_store = empty_wallets, world_signer = 0 \<rparr>"

lemma two_creations_reachable:
  "wallet_reachable sample_config sample_ports (two_creations key1 key2 order)"
proof -
  let ?w = "\<lparr> world_creations = [], world_store = empty_wallets, world_signer = 0 \<rparr> :: nat wallet_world"
  have "wallet_reachable sample_config sample_ports ?w"
    unfolding empty_wallets_def by (rule wallet_reachable.start)
  from wallet_reachable.step [OF wallet_reachable.step [OF this wallet_step.arrive [of _ _ _ member_context key1]]
      wallet_step.arrive [of _ _ _ member_context key2]]
  show ?thesis by (auto simp: two_creations_def intro: take_turns_reachable)
qed

abbreviation short_key :: string where
  "short_key \<equiv> replicate 16 (CHR ''k'')"

abbreviation long_key :: string where
  "long_key \<equiv> replicate 17 (CHR ''k'')"

definition raced_record :: "int \<Rightarrow> wallet_record" where
  "raced_record n = \<lparr> wallet_id = 20 + n, wallet_workspace_id = 7, wallet_chain_id = 1,
     wallet_address = ''0x'' @ replicate (nat n) (CHR ''a''), wallet_signer_key_id = n,
     wallet_status = WalletStatus_ACTIVE, wallet_balance_wei = 0, wallet_balance_block_number = None,
     wallet_balance_refreshed_at = None \<rparr>"

lemma raced_limit:
  "count_active 7 (world_store (two_creations short_key long_key [0, 1, 0, 1, 0, 1, 0, 1])) = 2"
  by code_simp

lemma raced_same_key:
  "world_creations (two_creations short_key short_key [0, 1, 0, 1, 0, 1, 0, 1]) =
    [Answered 7 (port_sha256 sample_ports short_key') (raced_record 0, True),
     Answered 7 (port_sha256 sample_ports short_key') (raced_record 0, False)]"
  if "short_key' = utf8 short_key"
  unfolding that by code_simp


theorem wallet_creation_idempotent_witness:
  "wallet_id (raced_record 0) = wallet_id (raced_record 0) \<and>
   world_creations (two_creations short_key short_key [0, 1, 0, 1, 0, 1, 0, 1]) ! 1 =
     Answered 7 (port_sha256 sample_ports (utf8 short_key)) (raced_record 0, False) \<and>
   unique_table execution_wallet_clash
     (execution_wallets (world_store (two_creations short_key short_key [0, 1, 0, 1, 0, 1, 0, 1])))"
  using wallet_creation_idempotent [OF two_creations_reachable [of short_key short_key
      "[0, 1, 0, 1, 0, 1, 0, 1]"], of 0 1 7 "port_sha256 sample_ports (utf8 short_key)"
      "raced_record 0" True "raced_record 0" False] raced_same_key [OF refl]
  by simp

definition first_wallet :: "(wallet_record \<times> bool) outcome \<times> wallet_store \<times> nat" where
  "first_wallet =
     create_wallet sample_config sample_ports member_context short_key (sample_stamp 0) empty_wallets 0"

definition first_turns :: "creation \<times> wallet_store \<times> nat" where
  "first_turns = creation_turns 4 sample_config sample_ports (sample_stamp 0)
     (Requested member_context short_key, empty_wallets, 0)"

lemma first_turns_first_wallet:
  "creation_answer (fst first_turns) = Some (fst first_wallet) \<and> snd first_turns = snd first_wallet"
  using creation_turns_alone [of sample_config sample_ports "sample_stamp 0" member_context short_key
      empty_wallets 0]
  by (auto simp: first_turns_def first_wallet_def)

lemma first_turns_answer: "creation_answer (fst first_turns) = Some (Inr (raced_record 0, True))"
  by code_simp

lemma first_turns_rows: "execution_wallets (fst (snd first_turns)) =
    [\<lparr> wallet_id = 20, wallet_workspace_id = 7, wallet_chain_id = 1, wallet_address = ''0x'',
       wallet_signer_key_id = 0, wallet_status = WalletStatus_ACTIVE, wallet_balance_wei = 0,
       wallet_balance_block_number = None, wallet_balance_refreshed_at = None,
       wallet_idempotency_key_hash = replicate 31 0 @ [16], wallet_created_at = 0 \<rparr>]"
  by code_simp

lemma first_wallet_answer: "fst first_wallet = Inr (raced_record 0, True)"
  using first_turns_answer first_turns_first_wallet by simp

lemmas first_wallet_rows = first_turns_rows [unfolded first_turns_first_wallet [THEN conjunct2]]

lemma first_wallet_run:
  "create_wallet sample_config sample_ports member_context short_key (sample_stamp 0) empty_wallets 0 =
     (Inr (raced_record 0, True), fst (snd first_wallet), snd (snd first_wallet))"
  using first_wallet_answer by (metis first_wallet_def prod.collapse)

theorem wallet_limit_in_sequence_witness:
  "count_active 7 (fst (snd first_wallet)) = Suc (count_active 7 empty_wallets)"
  using wallet_limit_in_sequence [OF first_wallet_run] by (simp add: member_context_def)

theorem list_wallets_isolated_witness:
  "\<exists>rs. service_list_wallets None member_context (fst (snd first_wallet)) () = (Inr rs, ()) \<and>
     mset rs = image_mset wallet_record_of (filter_mset (\<lambda>r. wallet_workspace_id r = 7)
       (mset (execution_wallets (fst (snd first_wallet)))))"
proof -
  have "service_list_wallets None member_context (fst (snd first_wallet)) () =
      (Inr (list_wallets 7 (fst (snd first_wallet))), ())"
    by (simp add: service_list_wallets_def require_workspace_ok private_context_def member_context_def)
  from list_wallets_isolated [OF this] this show ?thesis by (auto simp: member_context_def)
qed

text \<open>Three refresh jobs that arrive out of order: the highest block stays.\<close>

theorem balance_of_highest_block_witness:
  "wallet_balance_wei (execution_wallets
     (run_refreshes 7 20 [(5, 100, 1), (9, 102, 2), (6, 101, 3)] (fst (snd first_wallet))) ! 0) = 9"
proof -
  define us where "us = [(5, 100, 1), (9, 102, 2), (6 :: int, 101 :: int, 3 :: instant)]"
  define st where "st = fst (snd first_wallet)"
  have "us \<noteq> []" "\<forall>u \<in> set us. storable u" by (simp_all add: us_def storable_def)
  moreover have "0 < length (execution_wallets st)"
    "wallet_balance_block_number (execution_wallets st ! 0) = None"
    "wallet_workspace_id (execution_wallets st ! 0) = 7 \<and> wallet_id (execution_wallets st ! 0) = 20"
    by (simp_all add: st_def first_wallet_rows)
  ultimately obtain earlier balance block now later where
    "us = earlier @ (balance, block, now) # later" "\<forall>u \<in> set earlier. fst (snd u) \<le> block"
    "\<forall>u \<in> set later. fst (snd u) < block"
    "wallet_balance_wei (execution_wallets (run_refreshes 7 20 us st) ! 0) = balance"
    using balance_of_highest_block [of us 0 st 7 20] by (metis (no_types, lifting))
  then have "wallet_balance_wei (execution_wallets (run_refreshes 7 20 us st) ! 0) = 9"
    by (auto simp: us_def Cons_eq_append_conv)
  then show ?thesis by (simp add: us_def st_def del: run_refreshes.simps)
qed


end
