(* ===== verification/SignerApi.thy ===== *)
theory SignerApi
  imports SignerAuth SignerCustody Wallets
begin

text \<open>
  The signer behind its private network: the routes of \<^verbatim>\<open>app/signer/api.py\<close> over the replay table and
  the envelope table, and the client of \<^verbatim>\<open>app/infrastructure/signer_client.py\<close> as the signer that the
  wallet service calls. The network may lose a request or its answer. The locale states what the
  wallet service needs of a signer; the client over the routes is its instance.
\<close>

section \<open>The routes\<close>

record 'k signer_runtime =
  runtime_wallet_service :: "'k signer_service"
  runtime_digests :: digests
  runtime_auth_secret :: string
  runtime_environment :: string

record 'k signer_state =
  signer_replays :: "signer_request_replay list"
  signer_envelopes :: "stored_envelope list"
  signer_kms :: 'k

record wallet_response =
  response_signer_key_id :: uuid
  response_workspace_id :: uuid
  response_chain_id :: int
  response_address :: string
  response_created :: bool

text \<open>A body that does not validate is refused before the route runs.\<close>

definition validated_body :: "signer_body \<Rightarrow> unit outcome" where
  "validated_body body = (if validated body then Inr () else Inl (HttpFailure 422 []))"

text \<open>The wallet route: \<open>current\<close> is the clock, \<open>drawn\<close> what a new key draws.\<close>

definition post_wallets ::
  "'k signer_runtime \<Rightarrow> signer_body \<Rightarrow> signer_headers \<Rightarrow> instant \<Rightarrow> drawn_key \<Rightarrow> 'k signer_state \<Rightarrow>
     wallet_response outcome \<times> 'k signer_state"
where
  "post_wallets rt body h now drawn st =
     (case authenticate (runtime_digests rt) (runtime_auth_secret rt) ''wallet.create'' body h now
         (signer_replays st) of
        (Inl e, replays) \<Rightarrow> (Inl e, st\<lparr> signer_replays := replays \<rparr>)
      | (Inr _, replays) \<Rightarrow>
          (case signer_create_wallet (runtime_wallet_service rt) (body_workspace_id body)
              (body_chain_id body) (body_idempotency_key body) drawn (signer_envelopes st) (signer_kms st) of
             (answer, envelopes, k) \<Rightarrow>
               (attempt answer (\<lambda>d. Inr
                  \<lparr> response_signer_key_id = descriptor_signer_key_id d,
                    response_workspace_id = descriptor_workspace_id d,
                    response_chain_id = 1,
                    response_address = descriptor_address d,
                    response_created = descriptor_created d \<rparr>),
                \<lparr> signer_replays = replays, signer_envelopes = envelopes, signer_kms = k \<rparr>)))"

fun is_lookup_error :: "exn \<Rightarrow> bool" where
  "is_lookup_error (LookupError m) = True"
| "is_lookup_error (KeyError m) = True"
| "is_lookup_error _ = False"

text \<open>The restore route, for a body that names a key.\<close>

definition post_restore_verify ::
  "'k signer_runtime \<Rightarrow> signer_body \<Rightarrow> signer_headers \<Rightarrow> instant \<Rightarrow> 'k signer_state \<Rightarrow>
     wallet_response outcome \<times> 'k signer_state"
where
  "post_restore_verify rt body h now st =
     (if runtime_environment rt = ''production''
      then (Inl (HttpFailure 404 ''restore_verification_unavailable''), st)
      else case authenticate (runtime_digests rt) (runtime_auth_secret rt) ''wallet.restore'' body h now
          (signer_replays st) of
          (Inl e, replays) \<Rightarrow> (Inl e, st\<lparr> signer_replays := replays \<rparr>)
        | (Inr _, replays) \<Rightarrow>
            (case signer_verify_restore (runtime_wallet_service rt) (body_signer_key_id body)
                (body_workspace_id body) (body_chain_id body) (signer_envelopes st) (signer_kms st) of
               (answer, k) \<Rightarrow>
                 (case answer of
                    Inl e \<Rightarrow> Inl (if is_lookup_error e then HttpFailure 404 ''signer_key_not_found'' else e)
                  | Inr address \<Rightarrow> Inr
                      \<lparr> response_signer_key_id = body_signer_key_id body,
                        response_workspace_id = body_workspace_id body,
                        response_chain_id = body_chain_id body,
                        response_address = address,
                        response_created = False \<rparr>,
                  st\<lparr> signer_replays := replays, signer_kms := k \<rparr>)))"

definition signer_sign :: "unit outcome" where
  "signer_sign =
     (if signing_is_available then Inl AssertionError else Inl (HttpFailure 423 ''release_locked''))"

text \<open>Readiness: the database answers a select and the key is enabled; without them it is ready.\<close>

definition signer_readiness ::
  "unit outcome option \<Rightarrow> ('k kms_client \<times> string) option \<Rightarrow> 'k \<Rightarrow> unit outcome \<times> 'k"
where
  "signer_readiness select kms k =
     (case select of
        None \<Rightarrow> (Inr (), k)
      | Some answer \<Rightarrow>
          (case kms of
             None \<Rightarrow> (Inr (), k)
           | Some (client, key_arn) \<Rightarrow>
               (case answer of
                  Inl e \<Rightarrow> (Inl (HttpFailure 503 ''signer_not_ready''), k)
                | Inr _ \<Rightarrow>
                    (case kms_health client key_arn k of
                       (Inr True, k') \<Rightarrow> (Inr (), k')
                     | (_, k') \<Rightarrow> (Inl (HttpFailure 503 ''signer_not_ready''), k')))))"

section \<open>The client\<close>

definition signer_base_url :: "string \<Rightarrow> string" where
  "signer_base_url base_url =
     (let url = if starts_with base_url ''http://'' \<or> starts_with base_url ''https://'' then base_url
                else ''http://'' @ base_url
      in rev (dropWhile (\<lambda>c. c = CHR ''/'') (rev url)))"

text \<open>
  One call over the network: the id and the time the client gives it, the time it arrives, what the
  signer draws if it makes a key, and whether the request and its answer get through.
\<close>

datatype delivery =
    Delivered
  | RequestLost
  | AnswerLost

record exchange =
  exchange_request_id :: uuid
  exchange_issued_at :: instant
  exchange_arrives_at :: instant
  exchange_drawn :: drawn_key
  exchange_delivery :: delivery

definition wallet_result_of :: "wallet_response \<Rightarrow> signer_wallet_result" where
  "wallet_result_of r =
     \<lparr> result_signer_key_id = response_signer_key_id r,
       result_workspace_id = response_workspace_id r,
       result_chain_id = response_chain_id r,
       result_address = response_address r,
       result_created = response_created r \<rparr>"

text \<open>Any answer that is not a success makes \<open>raise_for_status\<close> raise.\<close>

definition http_create_wallet ::
  "'k signer_runtime \<Rightarrow> string \<Rightarrow> exchange \<Rightarrow> uuid \<Rightarrow> int \<Rightarrow> string \<Rightarrow> uuid \<Rightarrow> 'k signer_state \<Rightarrow>
     signer_wallet_result outcome \<times> 'k signer_state"
where
  "http_create_wallet rt secret x ws chain key cid st =
     (let body = CreateWalletRequest ws chain key cid;
          h = client_headers (runtime_digests rt) secret ws chain key cid (exchange_request_id x)
            (exchange_issued_at x);
          (answer, st') =
            (if exchange_delivery x = RequestLost then (Inl (ForeignError ''TransportError''), st)
             else case validated_body body of
                 Inl e \<Rightarrow> (Inl e, st)
               | Inr _ \<Rightarrow> post_wallets rt body h (exchange_arrives_at x) (exchange_drawn x) st)
      in (case exchange_delivery x of
            Delivered \<Rightarrow>
              (case answer of
                 Inl e \<Rightarrow> Inl (ForeignError ''HTTPStatusError'')
               | Inr r \<Rightarrow> Inr (wallet_result_of r))
          | _ \<Rightarrow> Inl (ForeignError ''TransportError''),
          st'))"

text \<open>The client as the signer of the wallet service: its calls take the exchanges in order.\<close>

fun signer_port ::
  "'k signer_runtime \<Rightarrow> string \<Rightarrow> (nat \<Rightarrow> exchange) \<Rightarrow> uuid \<Rightarrow> int \<Rightarrow> string \<Rightarrow> uuid \<Rightarrow>
     nat \<times> 'k signer_state \<Rightarrow> signer_wallet_result outcome \<times> nat \<times> 'k signer_state"
where
  "signer_port rt secret exchanges ws chain key cid (n, st) =
     (case http_create_wallet rt secret (exchanges n) ws chain key cid st of
        (answer, st') \<Rightarrow> (answer, Suc n, st'))"

section \<open>What the wallet service needs of a signer\<close>

text \<open>The signer holds, behind a wallet's address, the key the wallet names.\<close>

definition custodied ::
  "checksummer \<Rightarrow> (uuid \<Rightarrow> uuid \<Rightarrow> int \<Rightarrow> string \<Rightarrow> bool) \<Rightarrow> uuid \<Rightarrow> uuid \<Rightarrow> int \<Rightarrow> string \<Rightarrow> bool"
where
  "custodied checksum held key_id ws chain address \<longleftrightarrow>
     (\<exists>raw. held key_id ws chain raw \<and> checksum raw = Inr address)"

definition wallet_custodied ::
  "checksummer \<Rightarrow> (uuid \<Rightarrow> uuid \<Rightarrow> int \<Rightarrow> string \<Rightarrow> bool) \<Rightarrow> execution_wallet \<Rightarrow> bool"
where
  "wallet_custodied checksum held r \<longleftrightarrow> custodied checksum held (wallet_signer_key_id r)
     (wallet_workspace_id r) (wallet_chain_id r) (wallet_address r)"

fun creation_custodied ::
  "checksummer \<Rightarrow> (uuid \<Rightarrow> uuid \<Rightarrow> int \<Rightarrow> string \<Rightarrow> bool) \<Rightarrow> creation \<Rightarrow> bool"
where
  "creation_custodied checksum held (Saving ctx ws uid key_hash bound) \<longleftrightarrow>
     custodied checksum held (result_signer_key_id bound) (result_workspace_id bound)
       (result_chain_id bound) (result_address bound)"
| "creation_custodied checksum held _ \<longleftrightarrow> True"

lemma custodied_mono:
  "(\<And>k ws chain a. held k ws chain a \<Longrightarrow> held' k ws chain a) \<Longrightarrow>
     custodied checksum held key_id ws chain address \<Longrightarrow> custodied checksum held' key_id ws chain address"
  unfolding custodied_def by blast

lemma wallet_custodied_mono:
  "(\<And>k ws chain a. held k ws chain a \<Longrightarrow> held' k ws chain a) \<Longrightarrow>
     wallet_custodied checksum held r \<Longrightarrow> wallet_custodied checksum held' r"
  unfolding wallet_custodied_def by (rule custodied_mono)

lemma creation_custodied_mono:
  "(\<And>k ws chain a. held k ws chain a \<Longrightarrow> held' k ws chain a) \<Longrightarrow>
     creation_custodied checksum held c \<Longrightarrow> creation_custodied checksum held' c"
  using custodied_mono [of held held' checksum] by (cases c) auto

lemma wallet_custodied_with_balance [simp]:
  "wallet_custodied checksum held (with_balance balance block now r) = wallet_custodied checksum held r"
  by (simp add: wallet_custodied_def with_balance_def)

lemma bound_result_custodied:
  assumes "bound_result cfg checksum ws result = Inr bound"
    and "held (result_signer_key_id result) (result_workspace_id result) (result_chain_id result)
      (result_address result)"
  shows "custodied checksum held (result_signer_key_id bound) (result_workspace_id bound)
    (result_chain_id bound) (result_address bound)"
  using assms by (auto simp: bound_result_def custodied_def split: if_splits elim!: attempt_InrE)

lemma save_or_get_custodied:
  assumes "save_or_get bound key_hash uid cid stamp st = Inr ((r, created), st')"
    and "custodied checksum held (result_signer_key_id bound) (result_workspace_id bound)
      (result_chain_id bound) (result_address bound)"
    and "\<forall>x \<in> set (execution_wallets st). wallet_custodied checksum held x"
  shows "\<forall>x \<in> set (execution_wallets st'). wallet_custodied checksum held x"
  using assms(1)
proof (cases rule: save_or_get_cases)
  case (inserted row acc)
  with assms(2,3) show ?thesis by (simp add: wallet_custodied_def new_wallet_def)
qed (use assms(3) in simp)

locale custodian =
  fixes signer :: "uuid \<Rightarrow> int \<Rightarrow> string \<Rightarrow> uuid \<Rightarrow> 'g \<Rightarrow> signer_wallet_result outcome \<times> 'g"
    and intact :: "'g \<Rightarrow> bool"
    and holds :: "'g \<Rightarrow> uuid \<Rightarrow> uuid \<Rightarrow> int \<Rightarrow> string \<Rightarrow> bool"
  assumes keeps: "signer ws chain key cid g = (answer, g') \<Longrightarrow> intact g \<Longrightarrow> intact g'"
    and grows: "signer ws chain key cid g = (answer, g') \<Longrightarrow> intact g \<Longrightarrow>
      holds g key_id ws' chain' address \<Longrightarrow> holds g' key_id ws' chain' address"
    and answers: "signer ws chain key cid g = (Inr result, g') \<Longrightarrow> intact g \<Longrightarrow>
      holds g' (result_signer_key_id result) (result_workspace_id result) (result_chain_id result)
        (result_address result)"
begin

definition world_custodied :: "checksummer \<Rightarrow> 'g wallet_world \<Rightarrow> bool" where
  "world_custodied checksum w \<longleftrightarrow> intact (world_signer w) \<and>
     (\<forall>r \<in> set (execution_wallets (world_store w)).
        wallet_custodied checksum (holds (world_signer w)) r) \<and>
     (\<forall>c \<in> set (world_creations w). creation_custodied checksum (holds (world_signer w)) c)"

lemma creation_turn_custodied:
  assumes "creation_turn cfg ports stamp c st g = (c', st', g')" and "port_signer ports = signer"
    and "intact g" and "creation_custodied (port_checksum ports) (holds g) c"
    and "\<forall>r \<in> set (execution_wallets st). wallet_custodied (port_checksum ports) (holds g) r"
  shows "intact g' \<and> creation_custodied (port_checksum ports) (holds g') c' \<and>
    (\<forall>r \<in> set (execution_wallets st'). wallet_custodied (port_checksum ports) (holds g') r) \<and>
    (\<forall>k ws chain a. holds g k ws chain a \<longrightarrow> holds g' k ws chain a)"
proof (cases c)
  case (Requested ctx key)
  with assms show ?thesis by (auto split: sum.splits prod.splits option.splits)
next
  case (Counting ctx key ws uid key_hash)
  with assms show ?thesis by (auto split: if_splits)
next
  case (Calling ctx key ws uid key_hash)
  obtain answer g1 where call: "signer ws (wallet_service_chain_id cfg) key (ctx_correlation_id ctx) g =
      (answer, g1)" by fastforce
  with Calling assms(1,2) have g': "g' = g1" and st': "st' = st"
    by (auto split: sum.splits)
  note held = grows [OF call assms(3)]
  have rows: "\<forall>r \<in> set (execution_wallets st). wallet_custodied (port_checksum ports) (holds g1) r"
    using assms(5) held by (blast intro: wallet_custodied_mono)
  have "creation_custodied (port_checksum ports) (holds g1) c'"
  proof (cases answer)
    case (Inr result)
    with Calling assms(1,2) call answers [OF call [unfolded Inr] assms(3)] show ?thesis
      by (auto split: sum.splits intro: bound_result_custodied)
  qed (use Calling assms(1,2) call in auto)
  with rows held keeps [OF call assms(3)] g' st' show ?thesis by blast
next
  case (Saving ctx ws uid key_hash bound)
  show ?thesis
  proof (cases "save_or_get bound key_hash uid (ctx_correlation_id ctx) stamp st")
    case (Inl e)
    with Saving assms show ?thesis by (auto simp: ended_def)
  next
    case (Inr a)
    obtain r created st1 where a: "a = ((r, created), st1)" by (cases a) auto
    from save_or_get_custodied [OF Inr [unfolded a], of "port_checksum ports" "holds g"] Saving assms Inr a
    show ?thesis by (auto simp: ended_def)
  qed
qed (use assms in auto)

lemma wallet_step_custodied:
  assumes "wallet_step cfg ports w w'" and "port_signer ports = signer"
    and "world_custodied (port_checksum ports) w"
  shows "world_custodied (port_checksum ports) w'"
  using assms(1)
proof cases
  case (turn i stamp c' st' g')
  from turn(2) assms(3) have "creation_custodied (port_checksum ports) (holds (world_signer w))
      (world_creations w ! i)" by (simp add: world_custodied_def)
  from creation_turn_custodied [OF turn(3) assms(2) _ this] assms(3)
  have new: "intact g'" "creation_custodied (port_checksum ports) (holds g') c'"
      "\<forall>r \<in> set (execution_wallets st'). wallet_custodied (port_checksum ports) (holds g') r"
    and held: "\<And>k ws chain a. holds (world_signer w) k ws chain a \<Longrightarrow> holds g' k ws chain a"
    by (auto simp: world_custodied_def)
  have "creation_custodied (port_checksum ports) (holds g') c" if "c \<in> set (world_creations w)" for c
    using assms(3) that
    by (intro creation_custodied_mono [of "holds (world_signer w)" "holds g'"] held)
      (auto simp: world_custodied_def)
  with new turn(1) show ?thesis
    by (auto simp: world_custodied_def dest!: set_update_subset_insert [THEN subsetD])
next
  case (refresh ws wid balance block now found st')
  from update_balance_InrD [OF refresh(2)] assms(3) refresh(1) show ?thesis
    by (auto simp: world_custodied_def update_rows_def)
qed (use assms(3) in \<open>auto simp: world_custodied_def\<close>)

lemma wallet_steps_custodied:
  "(wallet_step cfg ports)\<^sup>*\<^sup>* w w' \<Longrightarrow> port_signer ports = signer \<Longrightarrow>
     world_custodied (port_checksum ports) w \<Longrightarrow> world_custodied (port_checksum ports) w'"
  by (induction rule: rtranclp_induct) (auto intro: wallet_step_custodied)

end

section \<open>The client over the routes\<close>

text \<open>An envelope that the service can open, at any state of the key service.\<close>

definition restorable :: "'k signer_service \<Rightarrow> key_envelope \<Rightarrow> bool" where
  "restorable sv e \<longleftrightarrow> (\<forall>k. \<exists>b k'. restore_and_verify_address (service_crypto sv) (service_provider sv) e k =
     (Inr (envelope_address e), b, k'))"

definition custody_ok :: "'k signer_service \<Rightarrow> stored_envelope list \<Rightarrow> bool" where
  "custody_ok sv rows \<longleftrightarrow> unique_table envelope_clash rows \<and>
     (\<forall>r \<in> set rows. envelope_environment (stored_envelope r) = service_environment sv \<and>
        restorable sv (stored_envelope r))"

definition documented :: "'k signer_service \<Rightarrow> bool" where
  "documented sv \<longleftrightarrow> crypto_documented (service_crypto sv) \<and> provider_documented (service_provider sv)"

lemma signer_create_wallet_rows:
  assumes "signer_create_wallet sv ws chain key drawn rows k = (answer, rows', k')"
    and "documented sv" and "custody_ok sv rows"
  shows "custody_ok sv rows' \<and> set rows \<subseteq> set rows'"
proof (cases answer)
  case (Inl e)
  then have "rows' = rows" using assms(1)
    by (auto simp: signer_create_wallet_def split: sum.splits option.splits prod.splits elim!: transact.elims)
  with assms(3) show ?thesis by simp
next
  case (Inr d)
  from assms(1) [unfolded Inr] show ?thesis
  proof (cases rule: signer_create_wallet_cases)
    case (sealed key_hash e b created stored)
    from create_key_envelope_InrD [OF sealed(3)] restore_sealed assms(2)
    have e: "restorable sv e" "envelope_environment e = service_environment sv"
      unfolding restorable_def documented_def by fastforce+
    from sealed(4) show ?thesis
    proof (cases rule: save_or_get_envelope_cases)
      case inserted
      with assms(3) e show ?thesis by (auto simp: custody_ok_def unique_table_snoc)
    qed (use assms(3) in simp)
  qed (use assms(3) in simp)
qed

lemma find_restorable:
  assumes "custody_ok sv rows" and "e \<in> stored_envelope ` set rows"
  shows "\<exists>k'. signer_verify_restore sv (envelope_signer_key_id e) (envelope_workspace_id e)
    (envelope_chain_id e) rows k = (Inr (envelope_address e), k')"
proof -
  from assms obtain r where r: "r \<in> set rows" "stored_envelope r = e" and
    unique: "unique_table envelope_clash rows" and
    "envelope_environment e = service_environment sv" "restorable sv e" by (auto simp: custody_ok_def)
  moreover have "select_one (\<lambda>r. envelope_signer_key_id (stored_envelope r) = envelope_signer_key_id e \<and>
      envelope_environment (stored_envelope r) = service_environment sv \<and>
      envelope_workspace_id (stored_envelope r) = envelope_workspace_id e \<and>
      envelope_chain_id (stored_envelope r) = envelope_chain_id e) rows = Some r"
    by (rule select_one_unique_table [OF unique envelope_clash_sym r(1)])
      (use calculation in \<open>simp_all add: envelope_clash_def\<close>)
  then have "find_for_workspace (envelope_signer_key_id e) (service_environment sv)
      (envelope_workspace_id e) (envelope_chain_id e) rows = Some e"
    using r by (simp add: find_for_workspace_def)
  moreover from calculation obtain b k' where
    "restore_and_verify_address (service_crypto sv) (service_provider sv) e k =
      (Inr (envelope_address e), b, k')" unfolding restorable_def by blast
  ultimately show ?thesis by (simp add: signer_verify_restore_def)
qed

fun signer_intact :: "'k signer_runtime \<Rightarrow> nat \<times> 'k signer_state \<Rightarrow> bool" where
  "signer_intact rt (n, st) \<longleftrightarrow> documented (runtime_wallet_service rt) \<and>
     custody_ok (runtime_wallet_service rt) (signer_envelopes st)"

fun signer_holds :: "nat \<times> 'k signer_state \<Rightarrow> uuid \<Rightarrow> uuid \<Rightarrow> int \<Rightarrow> string \<Rightarrow> bool" where
  "signer_holds (n, st) key_id ws chain address \<longleftrightarrow>
     (\<exists>e \<in> stored_envelope ` set (signer_envelopes st). envelope_signer_key_id e = key_id \<and>
        envelope_workspace_id e = ws \<and> envelope_chain_id e = chain \<and> envelope_address e = address)"

lemma post_wallets_keeps:
  assumes "post_wallets rt body h now drawn st = (answer, st')"
    and "documented (runtime_wallet_service rt)"
    and "custody_ok (runtime_wallet_service rt) (signer_envelopes st)"
  shows "custody_ok (runtime_wallet_service rt) (signer_envelopes st') \<and>
    set (signer_envelopes st) \<subseteq> set (signer_envelopes st')"
proof -
  obtain auth replays where auth: "authenticate (runtime_digests rt) (runtime_auth_secret rt)
      ''wallet.create'' body h now (signer_replays st) = (auth, replays)" by fastforce
  obtain made envelopes k where made: "signer_create_wallet (runtime_wallet_service rt)
      (body_workspace_id body) (body_chain_id body) (body_idempotency_key body) drawn
      (signer_envelopes st) (signer_kms st) = (made, envelopes, k)" by (metis prod_cases3)
  from assms(1) auth made have "signer_envelopes st' = signer_envelopes st \<or> signer_envelopes st' = envelopes"
    by (auto simp: post_wallets_def split: sum.splits)
  with signer_create_wallet_rows [OF made assms(2,3)] assms(3) show ?thesis by auto
qed

lemma post_wallets_answers:
  assumes "post_wallets rt body h now drawn st = (Inr r, st')" and "body_chain_id body = 1"
    and "documented (runtime_wallet_service rt)"
    and "custody_ok (runtime_wallet_service rt) (signer_envelopes st)"
  shows "signer_holds (n, st') (response_signer_key_id r) (response_workspace_id r) (response_chain_id r)
    (response_address r)"
proof -
  from assms(1) obtain d where made: "signer_create_wallet (runtime_wallet_service rt)
      (body_workspace_id body) (body_chain_id body) (body_idempotency_key body) drawn
      (signer_envelopes st) (signer_kms st) = (Inr d, signer_envelopes st', signer_kms st')"
    and r: "r = \<lparr> response_signer_key_id = descriptor_signer_key_id d,
      response_workspace_id = descriptor_workspace_id d, response_chain_id = 1,
      response_address = descriptor_address d, response_created = descriptor_created d \<rparr>"
    by (auto simp: post_wallets_def split: sum.splits prod.splits elim!: attempt_InrE)
  have "unique_table envelope_clash (signer_envelopes st)" using assms(4) by (simp add: custody_ok_def)
  from signer_create_wallet_stored [OF made this] obtain key_hash x where
    x: "x \<in> set (signer_envelopes st')"
      "keyed_by (service_environment (runtime_wallet_service rt)) (body_workspace_id body)
        (body_chain_id body) key_hash x" and
    d: "d = descriptor (stored_envelope x) (descriptor_created d)" by blast
  have "descriptor_signer_key_id d = envelope_signer_key_id (stored_envelope x)"
    "descriptor_workspace_id d = envelope_workspace_id (stored_envelope x)"
    "descriptor_address d = envelope_address (stored_envelope x)"
    by (subst d, simp add: descriptor_def)+
  with x assms(2) show ?thesis unfolding r by (auto simp: keyed_by_def)
qed

lemma http_create_wallet_cases:
  assumes "http_create_wallet rt secret x ws chain key cid st = (answer, st')"
  shows "(st' = st \<and> (\<exists>e. answer = Inl e)) \<or>
    (\<exists>r h now drawn. post_wallets rt (CreateWalletRequest ws chain key cid) h now drawn st = (r, st') \<and>
       chain = 1 \<and> (\<forall>result. answer = Inr result \<longrightarrow> (\<exists>y. r = Inr y \<and> result = wallet_result_of y)))"
proof (cases "exchange_delivery x = RequestLost \<or> \<not> validated (CreateWalletRequest ws chain key cid)")
  case True
  with assms show ?thesis
    by (cases "exchange_delivery x"; cases "validated (CreateWalletRequest ws chain key cid)")
      (auto simp: http_create_wallet_def Let_def validated_body_def)
next
  case False
  then have "chain = 1" by (simp add: validated_def)
  obtain r st1 where post: "post_wallets rt (CreateWalletRequest ws chain key cid)
      (client_headers (runtime_digests rt) secret ws chain key cid (exchange_request_id x) (exchange_issued_at x))
      (exchange_arrives_at x) (exchange_drawn x) st = (r, st1)" by fastforce
  with assms False have "st1 = st'" "\<forall>result. answer = Inr result \<longrightarrow> (\<exists>y. r = Inr y \<and> result = wallet_result_of y)"
    by (cases "exchange_delivery x"; auto simp: http_create_wallet_def Let_def validated_body_def
        split: sum.splits)+
  with post \<open>chain = 1\<close> show ?thesis by blast
qed

lemma signer_holds_mono:
  "set (signer_envelopes st) \<subseteq> set (signer_envelopes st') \<Longrightarrow>
     signer_holds (n, st) k ws chain a \<Longrightarrow> signer_holds (m, st') k ws chain a"
  by auto

lemma signer_port_call:
  assumes call: "signer_port rt secret exchanges ws chain key cid g = (answer, g')" and ok: "signer_intact rt g"
  shows "signer_intact rt g' \<and>
    (\<forall>key_id ws' chain' address. signer_holds g key_id ws' chain' address \<longrightarrow>
       signer_holds g' key_id ws' chain' address) \<and>
    (\<forall>result. answer = Inr result \<longrightarrow> signer_holds g' (result_signer_key_id result)
       (result_workspace_id result) (result_chain_id result) (result_address result))"
proof -
  obtain n st where g: "g = (n, st)" by (cases g) auto
  with call obtain st' where g': "g' = (Suc n, st')" and
    http: "http_create_wallet rt secret (exchanges n) ws chain key cid st = (answer, st')"
    by (auto split: prod.splits)
  have known: "documented (runtime_wallet_service rt)"
    "custody_ok (runtime_wallet_service rt) (signer_envelopes st)" using ok g by simp_all
  have rows: "custody_ok (runtime_wallet_service rt) (signer_envelopes st') \<and>
      set (signer_envelopes st) \<subseteq> set (signer_envelopes st')"
    using http_create_wallet_cases [OF http]
  proof (elim disjE exE conjE)
    fix r h now drawn
    assume "post_wallets rt (CreateWalletRequest ws chain key cid) h now drawn st = (r, st')"
    from post_wallets_keeps [OF this known] show ?thesis .
  qed (use known(2) in simp)
  with g g' known(1) have intact: "signer_intact rt g'" by simp
  have "signer_holds g' key_id ws' chain' address" if "signer_holds g key_id ws' chain' address"
    for key_id ws' chain' address
    using that signer_holds_mono rows unfolding g g' by blast
  moreover have "signer_holds g' (result_signer_key_id result) (result_workspace_id result) (result_chain_id result)
      (result_address result)" if "answer = Inr result" for result
    using http_create_wallet_cases [OF http]
  proof (elim disjE exE conjE)
    fix r h now drawn
    assume post: "post_wallets rt (CreateWalletRequest ws chain key cid) h now drawn st = (r, st')"
      and "chain = 1" and "\<forall>result. answer = Inr result \<longrightarrow> (\<exists>y. r = Inr y \<and> result = wallet_result_of y)"
    with that obtain y where r: "r = Inr y" and result: "result = wallet_result_of y" by blast
    from post_wallets_answers [OF post [unfolded r] _ known, of "Suc n"] \<open>chain = 1\<close>
    show ?thesis by (simp add: g' result wallet_result_of_def del: signer_holds.simps)
  qed (use that in simp)
  ultimately show ?thesis using intact by blast
qed

interpretation http_signer: custodian "signer_port rt secret exchanges" "signer_intact rt" signer_holds
  for rt :: "'k signer_runtime" and secret exchanges
  by unfold_locales (blast dest: signer_port_call)+

section \<open>Properties\<close>


section \<open>Examples\<close>

definition sample_runtime :: "unit signer_runtime" where
  "sample_runtime = \<lparr> runtime_wallet_service = sample_service, runtime_digests = sample_digests,
     runtime_auth_secret = ''secret'', runtime_environment = ''test'' \<rparr>"

definition sample_exchange :: "nat \<Rightarrow> exchange" where
  "sample_exchange n = \<lparr> exchange_request_id = int n, exchange_issued_at = 5000000,
     exchange_arrives_at = 5000000, exchange_drawn = sample_drawn, exchange_delivery = Delivered \<rparr>"

definition http_ports :: "(nat \<times> unit signer_state) wallet_ports" where
  "http_ports = \<lparr> port_sha256 = (\<lambda>text. replicate 32 0), port_checksum = Inr,
     port_signer = signer_port sample_runtime ''secret'' sample_exchange \<rparr>"

definition no_keys :: "nat \<times> unit signer_state" where
  "no_keys = (0, \<lparr> signer_replays = [], signer_envelopes = [], signer_kms = () \<rparr>)"

definition http_turns :: "creation \<times> wallet_store \<times> nat \<times> unit signer_state" where
  "http_turns = creation_turns 4 sample_config http_ports (sample_stamp 0)
     (Requested member_context short_key, empty_wallets, no_keys)"

lemma creation_turns_steps:
  "creation_turns n cfg ports stamp (c, st, g) = (c', st', g') \<Longrightarrow>
     (wallet_step cfg ports)\<^sup>*\<^sup>*
       \<lparr> world_creations = [c], world_store = st, world_signer = g \<rparr>
       \<lparr> world_creations = [c'], world_store = st', world_signer = g' \<rparr>"
proof (induction n arbitrary: c st g)
  case (Suc n)
  obtain c1 st1 g1 where turn: "creation_turn cfg ports stamp c st g = (c1, st1, g1)" by (metis prod_cases3)
  have "wallet_step cfg ports \<lparr> world_creations = [c], world_store = st, world_signer = g \<rparr>
      \<lparr> world_creations = [c1], world_store = st1, world_signer = g1 \<rparr>"
    using wallet_step.turn [where i = 0 and w = "\<lparr> world_creations = [c], world_store = st, world_signer = g \<rparr>"
        and cfg = cfg and ports = ports and stamp = stamp] turn by simp
  with Suc turn show ?case by (auto intro: converse_rtranclp_into_rtranclp)
qed simp

lemma http_turns_row: "map (\<lambda>r. (wallet_signer_key_id r, wallet_workspace_id r, wallet_chain_id r))
    (execution_wallets (fst (snd http_turns))) = [(5, 7, 1)]"
  by code_simp


end
