(* ===== verification/JsonRpc.thy ===== *)
theory JsonRpc
  imports EvmPorts JsonText Discovery
begin

text \<open>
  The JSON-RPC clients (\<^verbatim>\<open>app/infrastructure/ethereum/provider.py\<close>,
  \<^verbatim>\<open>app/infrastructure/ethereum_rpc.py\<close>) and the check a worker makes of its provider when it
  starts (\<^verbatim>\<open>app/workers/provider_guard.py\<close>). The HTTP client is an argument: what a request answers
  is the status with the outcome of parsing the body as JSON, or a transport error. JSON numbers
  are integers, as the protocol has them.
\<close>

section \<open>Hexadecimal integers\<close>

text \<open>\<open>hex(n)\<close>.\<close>

fun hex_digits_of :: "nat \<Rightarrow> string" where
  "hex_digits_of n = (if n < 16 then [hex_digit n] else hex_digits_of (n div 16) @ [hex_digit (n mod 16)])"

declare hex_digits_of.simps [simp del]

definition hex_int :: "int \<Rightarrow> string" where
  "hex_int n = (if n < 0 then ''-0x'' @ hex_digits_of (nat (- n)) else ''0x'' @ hex_digits_of (nat n))"

text \<open>
  \<open>int(text, 16)\<close> of a text that begins with \<open>0x\<close>: digits in either case with single underscores
  before them, and white space at the end.
\<close>

definition is_int_space :: "char \<Rightarrow> bool" where
  "is_int_space c \<longleftrightarrow> is_space c \<or> ord_char c \<in> {133, 160}"

fun hex_number :: "nat \<Rightarrow> string \<Rightarrow> nat option" where
  "hex_number n [] = Some n"
| "hex_number n (c # cs) =
     (if c = CHR ''_''
      then (case cs of
          [] \<Rightarrow> None
        | d # ds \<Rightarrow> (case hex_value d of None \<Rightarrow> None | Some k \<Rightarrow> hex_number (n * 16 + k) ds))
      else (case hex_value c of None \<Rightarrow> None | Some k \<Rightarrow> hex_number (n * 16 + k) cs))"

definition int_base16 :: "string \<Rightarrow> int outcome" where
  "int_base16 text =
     (let body = rev (dropWhile is_int_space (rev (drop 2 text)))
      in case (if body = [] then None else hex_number 0 body) of
           None \<Rightarrow> Inl (ValueError (''invalid literal for int() with base 16: '' @ repr_string text))
         | Some n \<Rightarrow> Inr (int n))"

definition quantity :: "json \<Rightarrow> string \<Rightarrow> int outcome" where
  "quantity value field =
     (case value of
        JStr text \<Rightarrow>
          if starts_with text ''0x'' then int_base16 text
          else Inl (ProviderError (''invalid_'' @ field) False False)
      | _ \<Rightarrow> Inl (ProviderError (''invalid_'' @ field) False False))"

section \<open>Requests\<close>

text \<open>
  What a request answers: no answer in time or no connection, another exception of the client, or a
  response.
\<close>

datatype http_answer =
    Unreachable
  | ClientFailed exn
  | Responded int "json outcome"

type_synonym 'w http_post = "string \<Rightarrow> json \<Rightarrow> 'w \<Rightarrow> http_answer \<times> 'w"

definition rpc_request :: "int \<Rightarrow> string \<Rightarrow> json list \<Rightarrow> json" where
  "rpc_request n rpc_method params = JObject
     [(''jsonrpc'', JStr ''2.0''), (''id'', JInt n), (''method'', JStr rpc_method),
      (''params'', JList params)]"

text \<open>The provider's own counter of requests, with the state of the transport.\<close>

record 'w rpc_client =
  rpc_request_id :: int
  rpc_wire :: 'w

text \<open>\<open>raise_for_status\<close> accepts the statuses of a success only.\<close>

definition is_success :: "int \<Rightarrow> bool" where
  "is_success status \<longleftrightarrow> 200 \<le> status \<and> status \<le> 299"

definition http_error :: "string \<Rightarrow> int \<Rightarrow> exn" where
  "http_error rpc_method status =
     (let split_range = rpc_method = ''eth_getLogs'' \<and> status = 403
      in ProviderError (''http_'' @ str_int status) (split_range \<or> status = 429 \<or> 500 \<le> status) split_range)"

definition rpc_error :: "(string \<times> json) list \<Rightarrow> exn" where
  "rpc_error members =
     (case json_get members ''code'' of
        JList xs \<Rightarrow> TypeError ''unhashable type: list''
      | JObject ms \<Rightarrow> TypeError ''unhashable type: dict''
      | code \<Rightarrow>
          (let split = code = JInt (- 32005) \<or> code = JInt (- 32602)
           in ProviderError (''rpc_'' @ json_str code) split split))"

definition rpc_result :: "json \<Rightarrow> json outcome" where
  "rpc_result payload =
     (case payload of
        JObject members \<Rightarrow>
          (case json_get members ''error'' of
             JObject e \<Rightarrow> Inl (rpc_error e)
           | _ \<Rightarrow>
               (case map_of members ''result'' of
                  None \<Rightarrow> Inl (ProviderError ''missing_result'' False False)
                | Some result \<Rightarrow> Inr result))
      | _ \<Rightarrow> Inl (ProviderError ''invalid_response'' False False))"

definition rpc ::
  "'w http_post \<Rightarrow> string \<Rightarrow> string \<Rightarrow> json list \<Rightarrow> 'w rpc_client \<Rightarrow> json outcome \<times> 'w rpc_client"
where
  "rpc post endpoint rpc_method params p =
     (let n = rpc_request_id p + 1
      in case post endpoint (rpc_request n rpc_method params) (rpc_wire p) of
           (answer, w) \<Rightarrow>
             ((case answer of
                 Unreachable \<Rightarrow> Inl (ProviderError ''transport'' True False)
               | ClientFailed e \<Rightarrow> Inl e
               | Responded status body \<Rightarrow>
                   if is_success status then attempt body rpc_result
                   else Inl (http_error rpc_method status)),
              \<lparr> rpc_request_id = n, rpc_wire = w \<rparr>))"

section \<open>The methods\<close>

definition tag_text :: "block_tag \<Rightarrow> string" where
  "tag_text tag = (case tag of Height n \<Rightarrow> hex_int n | Tag t \<Rightarrow> t)"

text \<open>The value of a request read by a function that may reject it.\<close>

definition read_rpc :: "('p \<Rightarrow> json outcome \<times> 'p) \<Rightarrow> (json \<Rightarrow> 'a outcome) \<Rightarrow> 'p \<Rightarrow> 'a outcome \<times> 'p" where
  "read_rpc m f = ask m (\<lambda>v p. (f v, p))"

definition rpc_chain_id :: "'w http_post \<Rightarrow> string \<Rightarrow> 'w rpc_client \<Rightarrow> int outcome \<times> 'w rpc_client" where
  "rpc_chain_id post endpoint =
     read_rpc (rpc post endpoint ''eth_chainId'' []) (\<lambda>v. quantity v ''chain_id'')"

definition read_block :: "json \<Rightarrow> block_reference outcome" where
  "read_block result =
     (case result of
        JObject members \<Rightarrow>
          (case json_get members ''hash'' of
             JStr hash \<Rightarrow> attempt (quantity (json_get members ''number'') ''block_number'')
               (\<lambda>n. Inr \<lparr> block_number = n, block_hash = hash \<rparr>)
           | _ \<Rightarrow> Inl (ProviderError ''invalid_block'' False False))
      | _ \<Rightarrow> Inl (ProviderError ''invalid_block'' False False))"

definition rpc_block ::
  "'w http_post \<Rightarrow> string \<Rightarrow> block_tag \<Rightarrow> 'w rpc_client \<Rightarrow> block_reference outcome \<times> 'w rpc_client"
where
  "rpc_block post endpoint tag =
     read_rpc (rpc post endpoint ''eth_getBlockByNumber'' [JStr (tag_text tag), JBool False]) read_block"

definition read_hex :: "string \<Rightarrow> json \<Rightarrow> bytes outcome" where
  "read_hex code result =
     (case result of
        JStr text \<Rightarrow>
          if starts_with text ''0x''
          then (case fromhex (drop 2 text) of
              None \<Rightarrow> Inl (ProviderError code False False) | Some raw \<Rightarrow> Inr raw)
          else Inl (ProviderError code False False)
      | _ \<Rightarrow> Inl (ProviderError code False False))"

definition rpc_code ::
  "'w http_post \<Rightarrow> string \<Rightarrow> string \<Rightarrow> block_tag \<Rightarrow> 'w rpc_client \<Rightarrow> bytes outcome \<times> 'w rpc_client"
where
  "rpc_code post endpoint address block =
     read_rpc (rpc post endpoint ''eth_getCode'' [JStr address, JStr (tag_text block)])
       (read_hex ''invalid_code'')"

definition rpc_storage_at ::
  "'w http_post \<Rightarrow> string \<Rightarrow> string \<Rightarrow> string \<Rightarrow> block_tag \<Rightarrow> 'w rpc_client \<Rightarrow>
     bytes outcome \<times> 'w rpc_client"
where
  "rpc_storage_at post endpoint address slot block =
     read_rpc (rpc post endpoint ''eth_getStorageAt'' [JStr address, JStr slot, JStr (tag_text block)])
       (\<lambda>result. attempt (read_hex ''invalid_storage'' result) (\<lambda>value.
          if length value \<noteq> 32 then Inl (ProviderError ''invalid_storage'' False False) else Inr value))"

text \<open>\<open>item[key]\<close> of a dict, read as a text.\<close>

definition item_text :: "(string \<times> json) list \<Rightarrow> string \<Rightarrow> string outcome" where
  "item_text members key =
     (case map_of members key of None \<Rightarrow> Inl (KeyError key) | Some v \<Rightarrow> Inr (json_str v))"

text \<open>\<open>bool(value)\<close>.\<close>

fun truthy :: "json \<Rightarrow> bool" where
  "truthy JNull = False"
| "truthy (JBool b) = b"
| "truthy (JInt n) = (n \<noteq> 0)"
| "truthy (JStr s) = (s \<noteq> [])"
| "truthy (JList xs) = (xs \<noteq> [])"
| "truthy (JObject members) = (members \<noteq> [])"

definition read_log :: "json \<Rightarrow> evm_log outcome" where
  "read_log item =
     (case item of
        JObject m \<Rightarrow>
          (case json_get m ''topics'' of
             JList topics \<Rightarrow>
               attempt (item_text m ''address'') (\<lambda>address.
               attempt (item_text m ''data'') (\<lambda>data.
               attempt (quantity (json_get m ''blockNumber'') ''block_number'') (\<lambda>number.
               attempt (item_text m ''blockHash'') (\<lambda>hash.
               attempt (item_text m ''transactionHash'') (\<lambda>tx.
               attempt (quantity (json_get m ''logIndex'') ''log_index'') (\<lambda>index.
                 Inr \<lparr> log_address = address, log_topics = map json_str topics, log_data = data,
                   log_block_number = number, log_block_hash = hash, log_transaction_hash = tx,
                   log_index = index, log_removed = truthy (json_get m ''removed'') \<rparr>))))))
           | _ \<Rightarrow> Inl (ProviderError ''invalid_log'' False False))
      | _ \<Rightarrow> Inl (ProviderError ''invalid_log'' False False))"

fun read_each :: "(json \<Rightarrow> 'a outcome) \<Rightarrow> json list \<Rightarrow> 'a list outcome" where
  "read_each f [] = Inr []"
| "read_each f (x # xs) = attempt (f x) (\<lambda>y. attempt (read_each f xs) (\<lambda>ys. Inr (y # ys)))"

definition read_logs :: "json \<Rightarrow> evm_log list outcome" where
  "read_logs result =
     (case result of
        JList items \<Rightarrow> read_each read_log items
      | _ \<Rightarrow> Inl (ProviderError ''invalid_logs'' False False))"

definition topic_json :: "string option \<Rightarrow> json" where
  "topic_json topic = (case topic of None \<Rightarrow> JNull | Some t \<Rightarrow> JStr t)"

definition log_query :: "string \<Rightarrow> int \<Rightarrow> int \<Rightarrow> string option list \<Rightarrow> json" where
  "log_query address start_block end_block topics = JObject
     ([(''address'', JStr address), (''fromBlock'', JStr (hex_int start_block)),
       (''toBlock'', JStr (hex_int end_block))] @
      (if topics = [] then [] else [(''topics'', JList (map topic_json topics))]))"

definition rpc_logs ::
  "'w http_post \<Rightarrow> string \<Rightarrow> string \<Rightarrow> int \<Rightarrow> int \<Rightarrow> string option list \<Rightarrow> 'w rpc_client \<Rightarrow>
     evm_log list outcome \<times> 'w rpc_client"
where
  "rpc_logs post endpoint address start_block end_block topics p =
     (if start_block < 0 \<or> end_block < start_block
      then (Inl (ValueError ''invalid log block range''), p)
      else read_rpc (rpc post endpoint ''eth_getLogs'' [log_query address start_block end_block topics])
        read_logs p)"

definition read_transaction :: "json \<Rightarrow> evm_transaction outcome" where
  "read_transaction result =
     (case result of
        JObject m \<Rightarrow>
          attempt (item_text m ''hash'') (\<lambda>hash.
          attempt (item_text m ''from'') (\<lambda>sender.
          attempt (quantity (json_get m ''value'') ''transaction_value'') (\<lambda>value_wei.
          attempt (item_text m ''input'') (\<lambda>input.
          attempt (quantity (json_get m ''blockNumber'') ''block_number'') (\<lambda>number.
            Inr \<lparr> tx_hash = hash, tx_sender = sender,
              tx_recipient = (let recipient = json_get m ''to''
                in if recipient = JNull then None else Some (json_str recipient)),
              tx_value_wei = value_wei, tx_input_data = input, tx_block_number = number \<rparr>)))))
      | _ \<Rightarrow> Inl (ProviderError ''transaction_not_found'' False False))"

definition rpc_transaction ::
  "'w http_post \<Rightarrow> string \<Rightarrow> string \<Rightarrow> 'w rpc_client \<Rightarrow> evm_transaction outcome \<times> 'w rpc_client"
where
  "rpc_transaction post endpoint transaction_hash =
     read_rpc (rpc post endpoint ''eth_getTransactionByHash'' [JStr transaction_hash]) read_transaction"

definition read_receipt :: "json \<Rightarrow> evm_receipt outcome" where
  "read_receipt result =
     (case result of
        JObject m \<Rightarrow>
          attempt (item_text m ''transactionHash'') (\<lambda>hash.
          attempt (quantity (json_get m ''blockNumber'') ''block_number'') (\<lambda>number.
          attempt (item_text m ''blockHash'') (\<lambda>block.
          attempt (quantity (json_get m ''status'') ''receipt_status'') (\<lambda>status.
          attempt (quantity (json_get m ''gasUsed'') ''gas_used'') (\<lambda>gas.
          attempt (let price = json_get m ''effectiveGasPrice''
              in if price = JNull then Inr None
                 else attempt (quantity price ''effective_gas_price'') (\<lambda>n. Inr (Some n))) (\<lambda>gas_price.
            Inr \<lparr> receipt_transaction_hash = hash, receipt_block_number = number,
              receipt_block_hash = block, receipt_status = status, receipt_gas_used = gas,
              receipt_effective_gas_price = gas_price \<rparr>))))))
      | _ \<Rightarrow> Inl (ProviderError ''receipt_not_found'' True False))"

definition rpc_receipt ::
  "'w http_post \<Rightarrow> string \<Rightarrow> string \<Rightarrow> 'w rpc_client \<Rightarrow> evm_receipt outcome \<times> 'w rpc_client"
where
  "rpc_receipt post endpoint transaction_hash =
     read_rpc (rpc post endpoint ''eth_getTransactionReceipt'' [JStr transaction_hash]) read_receipt"

definition read_trace :: "json \<Rightarrow> json outcome" where
  "read_trace result =
     (case result of
        JObject m \<Rightarrow> Inr result | _ \<Rightarrow> Inl (ProviderError ''invalid_trace'' False False))"

definition rpc_trace_transaction ::
  "'w http_post \<Rightarrow> string \<Rightarrow> string \<Rightarrow> 'w rpc_client \<Rightarrow> json outcome \<times> 'w rpc_client"
where
  "rpc_trace_transaction post endpoint transaction_hash =
     read_rpc (rpc post endpoint ''debug_traceTransaction'' [JStr transaction_hash,
       JObject [(''tracer'', JStr ''callTracer''), (''timeout'', JStr ''10s'')]]) read_trace"

definition json_rpc_evm_provider :: "'w http_post \<Rightarrow> string \<Rightarrow> 'w rpc_client evm_provider" where
  "json_rpc_evm_provider post endpoint = \<lparr>
     provider_chain_id = rpc_chain_id post endpoint,
     provider_block = rpc_block post endpoint,
     provider_code = rpc_code post endpoint,
     provider_storage_at = rpc_storage_at post endpoint,
     provider_logs = rpc_logs post endpoint,
     provider_transaction = rpc_transaction post endpoint,
     provider_receipt = rpc_receipt post endpoint,
     provider_trace_transaction = rpc_trace_transaction post endpoint \<rparr>"

section \<open>The balance client\<close>

definition balance_rpc ::
  "'w http_post \<Rightarrow> string \<Rightarrow> string \<Rightarrow> json list \<Rightarrow> 'w \<Rightarrow> string outcome \<times> 'w"
where
  "balance_rpc post endpoint rpc_method params w =
     (case post endpoint (rpc_request 1 rpc_method params) w of
        (answer, w') \<Rightarrow>
          ((case answer of
              Unreachable \<Rightarrow> Inl (ForeignError ''transport'')
            | ClientFailed e \<Rightarrow> Inl e
            | Responded status body \<Rightarrow>
                if \<not> is_success status then Inl (ForeignError ''HTTPStatusError'')
                else attempt body (\<lambda>payload.
                  case payload of
                    JObject members \<Rightarrow>
                      if json_get members ''error'' \<noteq> JNull
                      then Inl (RuntimeError ''Ethereum RPC request failed'')
                      else (case json_get members ''result'' of
                          JStr text \<Rightarrow>
                            if starts_with text ''0x'' then Inr text
                            else Inl (RuntimeError ''Ethereum RPC returned an invalid hexadecimal result'')
                        | _ \<Rightarrow> Inl (RuntimeError ''Ethereum RPC returned an invalid hexadecimal result''))
                  | _ \<Rightarrow> Inl (RuntimeError ''Ethereum RPC request failed''))),
           w'))"

definition balance_at_latest_block ::
  "'w http_post \<Rightarrow> string \<Rightarrow> int \<Rightarrow> string \<Rightarrow> 'w \<Rightarrow> (int \<times> int) outcome \<times> 'w"
where
  "balance_at_latest_block post endpoint chain_id address =
     ask (balance_rpc post endpoint ''eth_chainId'' []) (\<lambda>chain w1.
       case int_base16 chain of
         Inl e \<Rightarrow> (Inl e, w1)
       | Inr observed \<Rightarrow>
           if observed \<noteq> chain_id
           then (Inl (RuntimeError ''Ethereum RPC chain ID does not match configured chain''), w1)
           else ask (balance_rpc post endpoint ''eth_blockNumber'' []) (\<lambda>latest w2.
             case int_base16 latest of
               Inl e \<Rightarrow> (Inl e, w2)
             | Inr number \<Rightarrow>
                 ask (balance_rpc post endpoint ''eth_getBalance'' [JStr address, JStr (hex_int number)])
                   (\<lambda>balance w3. case int_base16 balance of
                       Inl e \<Rightarrow> (Inl e, w3)
                     | Inr wei \<Rightarrow> (Inr (wei, number), w3)) w2) w1)"

section \<open>The check at the start of a worker\<close>

definition verify_provider :: "'w http_post \<Rightarrow> string \<Rightarrow> int \<Rightarrow> 'w \<Rightarrow> unit outcome \<times> 'w" where
  "verify_provider post endpoint chain_id w =
     (let provider = json_rpc_evm_provider post endpoint
      in case ask (verify_chain provider chain_id)
             (\<lambda>_. ask (provider_block provider (Tag ''finalized'')) (\<lambda>_ p. (Inr (), p)))
             \<lparr> rpc_request_id = 0, rpc_wire = w \<rparr> of
           (answer, p) \<Rightarrow> (answer, rpc_wire p))"

end
