(* ===== verification/RpcScans.thy ===== *)
theory RpcScans
  imports JsonRpc Scanner
begin

text \<open>
  What the JSON-RPC provider gives the scanner: integers and logs survive the wire, a scan over a node
  that answers as the protocol says commits exactly the node's logs, and a node that forbids log
  queries is given up after the halvings of one range.
\<close>

section \<open>Hexadecimal integers on the wire\<close>

lemma hex_digit_not_underscore [simp]: "d < 16 \<Longrightarrow> hex_digit d \<noteq> CHR ''_''"
  by (auto dest: hex_digit_range simp: hex_digits_def)

lemma hex_number_snoc:
  "hex_number a xs = Some n \<Longrightarrow> d < 16 \<Longrightarrow> hex_number a (xs @ [hex_digit d]) = Some (n * 16 + d)"
  by (induction a xs rule: hex_number.induct) (auto split: if_splits list.splits option.splits)

lemma hex_number_digits: "hex_number 0 (hex_digits_of n) = Some n"
proof (induction n rule: hex_digits_of.induct)
  case (1 n)
  show ?case
  proof (cases "n < 16")
    case True
    then show ?thesis by (simp add: hex_digits_of.simps [of n])
  next
    case False
    with 1 hex_number_snoc [of 0 "hex_digits_of (n div 16)" "n div 16" "n mod 16"] show ?thesis
      by (simp add: hex_digits_of.simps [of n])
  qed
qed

lemma is_int_space_hex_digit [simp]: "d < 16 \<Longrightarrow> \<not> is_int_space (hex_digit d)"
proof (rule below_list_all [where P = "\<lambda>d. \<not> is_int_space (hex_digit d)" and k = 16])
  show "list_all (\<lambda>d. \<not> is_int_space (hex_digit d)) [0..<16]" by code_simp
qed

lemma strip_hex_digits: "rev (dropWhile is_int_space (rev (hex_digits_of n))) = hex_digits_of n"
  by (subst (1 2) hex_digits_of.simps) simp

lemma hex_digits_nonempty [simp]: "hex_digits_of n \<noteq> []" "[] \<noteq> hex_digits_of n"
  by (subst hex_digits_of.simps, simp)+

lemma int_base16_hex_int: "0 \<le> n \<Longrightarrow> int_base16 (hex_int n) = Inr n"
  by (simp add: int_base16_def hex_int_def strip_hex_digits hex_number_digits)

lemma quantity_hex_int [simp]: "0 \<le> n \<Longrightarrow> quantity (JStr (hex_int n)) field = Inr n"
  by (simp add: quantity_def int_base16_hex_int) (simp add: hex_int_def starts_with_def)

section \<open>Logs on the wire\<close>

text \<open>A log object of the protocol.\<close>

definition log_object :: "evm_log \<Rightarrow> json" where
  "log_object l = JObject
     [(''address'', JStr (log_address l)),
      (''topics'', JList (map JStr (log_topics l))),
      (''data'', JStr (log_data l)),
      (''blockNumber'', JStr (hex_int (log_block_number l))),
      (''blockHash'', JStr (log_block_hash l)),
      (''transactionHash'', JStr (log_transaction_hash l)),
      (''logIndex'', JStr (hex_int (log_index l))),
      (''removed'', JBool (log_removed l))]"

definition wire_log :: "evm_log \<Rightarrow> bool" where
  "wire_log l \<longleftrightarrow> 0 \<le> log_block_number l \<and> 0 \<le> log_index l"

lemma read_log_object: "wire_log l \<Longrightarrow> read_log (log_object l) = Inr l"
  by (simp add: read_log_def log_object_def wire_log_def item_text_def json_get_def comp_def)

lemma read_each_Inr: "(\<And>x. x \<in> set xs \<Longrightarrow> f (g x) = Inr x) \<Longrightarrow> read_each f (map g xs) = Inr xs"
  by (induction xs) simp_all

lemma read_logs_objects: "list_all wire_log ls \<Longrightarrow> read_logs (JList (map log_object ls)) = Inr ls"
  by (simp add: read_logs_def list_all_iff read_each_Inr read_log_object)

section \<open>Nodes\<close>

text \<open>A node answers a request with a result, or with an error object, whatever the number of the request.\<close>

definition gives_result :: "'w http_post \<Rightarrow> string \<Rightarrow> string \<Rightarrow> json list \<Rightarrow> json \<Rightarrow> bool" where
  "gives_result post endpoint rpc_method params result \<longleftrightarrow>
     (\<forall>n w. fst (post endpoint (rpc_request n rpc_method params) w) =
        Responded 200 (Inr (JObject [(''jsonrpc'', JStr ''2.0''), (''id'', JInt n), (''result'', result)])))"

definition gives_error :: "'w http_post \<Rightarrow> string \<Rightarrow> string \<Rightarrow> json list \<Rightarrow> int \<Rightarrow> bool" where
  "gives_error post endpoint rpc_method params code \<longleftrightarrow>
     (\<forall>n w. fst (post endpoint (rpc_request n rpc_method params) w) =
        Responded 200 (Inr (JObject [(''jsonrpc'', JStr ''2.0''), (''id'', JInt n),
          (''error'', JObject [(''code'', JInt code), (''message'', JStr ''limit exceeded'')])])))"

lemma rpc_gives_result:
  "gives_result post endpoint m ps result \<Longrightarrow> fst (rpc post endpoint m ps p) = Inr result"
  by (auto simp: gives_result_def rpc_def Let_def is_success_def rpc_result_def json_get_def
      split: prod.splits dest!: spec [of _ "rpc_request_id p + 1"] spec [of _ "rpc_wire p"])

lemma rpc_gives_error:
  "gives_error post endpoint m ps (- 32005) \<Longrightarrow>
     fst (rpc post endpoint m ps p) = Inl (ProviderError ''rpc_-32005'' True True)"
  by (auto simp: gives_error_def rpc_def Let_def is_success_def rpc_result_def rpc_error_def json_get_def
      str_int_def decimal.simps hex_digit_def hex_digits_def
      split: prod.splits dest!: spec [of _ "rpc_request_id p + 1"] spec [of _ "rpc_wire p"])

lemma read_rpc_fst: "fst (read_rpc m f p) = attempt (fst (m p)) f"
  by (auto simp: read_rpc_def ask_def split: prod.splits sum.splits)

text \<open>
  A node that serves the logs of an address for ranges of up to \<open>k\<close> blocks, refuses longer ranges with
  the code the protocol has for it, and knows every block by its number.
\<close>

definition log_node ::
  "'w http_post \<Rightarrow> string \<Rightarrow> string \<Rightarrow> string option list \<Rightarrow> int \<Rightarrow> (int \<Rightarrow> evm_log list) \<Rightarrow> (int \<Rightarrow> string) \<Rightarrow>
     bool"
where
  "log_node post endpoint address topics k logs_at hash_at \<longleftrightarrow>
     (\<forall>n. list_all wire_log (logs_at n)) \<and>
     (\<forall>a b. 0 \<le> a \<and> a \<le> b \<and> b - a + 1 \<le> k \<longrightarrow>
        gives_result post endpoint ''eth_getLogs'' [log_query address a b topics]
          (JList (map log_object (concat (map logs_at [a..b]))))) \<and>
     (\<forall>a b. 0 \<le> a \<and> a \<le> b \<and> k < b - a + 1 \<longrightarrow>
        gives_error post endpoint ''eth_getLogs'' [log_query address a b topics] (- 32005)) \<and>
     (\<forall>n. 0 \<le> n \<longrightarrow>
        gives_result post endpoint ''eth_getBlockByNumber'' [JStr (hex_int n), JBool False]
          (JObject [(''number'', JStr (hex_int n)), (''hash'', JStr (hash_at n))]))"

lemma log_nodeD:
  assumes "log_node post endpoint address topics k logs_at hash_at" and "0 \<le> a" and "a \<le> b"
  shows "b - a + 1 \<le> k \<Longrightarrow> gives_result post endpoint ''eth_getLogs'' [log_query address a b topics]
      (JList (map log_object (concat (map logs_at [a..b]))))"
    and "k < b - a + 1 \<Longrightarrow>
      gives_error post endpoint ''eth_getLogs'' [log_query address a b topics] (- 32005)"
    and "list_all wire_log (concat (map logs_at [a..b]))"
  using assms unfolding log_node_def by (blast, blast, simp add: list_all_iff)

lemma log_node_logs:
  assumes "log_node post endpoint address topics k logs_at hash_at" and "0 \<le> a" and "a \<le> b"
  shows "fst (rpc_logs post endpoint address a b topics p) =
    (if b - a + 1 \<le> k then Inr (concat (map logs_at [a..b])) else Inl (ProviderError ''rpc_-32005'' True True))"
proof (cases "b - a + 1 \<le> k")
  case True
  from rpc_gives_result [OF log_nodeD(1) [OF assms True]] True log_nodeD(3) [OF assms] assms(2,3)
  show ?thesis by (simp add: rpc_logs_def read_rpc_fst read_logs_objects)
next
  case False
  then have "k < b - a + 1" by simp
  from rpc_gives_error [OF log_nodeD(2) [OF assms this]] False assms(2,3)
  show ?thesis by (simp add: rpc_logs_def read_rpc_fst)
qed

lemma log_node_block:
  assumes "log_node post endpoint address topics k logs_at hash_at" and "0 \<le> n"
  shows "fst (rpc_block post endpoint (Height n) p) = Inr \<lparr> block_number = n, block_hash = hash_at n \<rparr>"
  using assms by (auto simp: rpc_block_def read_rpc_fst log_node_def tag_text_def rpc_gives_result
      read_block_def json_get_def)

lemma log_node_serves:
  assumes "log_node post endpoint address topics k logs_at hash_at"
  shows "serves (json_rpc_evm_provider post endpoint) address topics k (\<lambda>_. True)"
  using log_node_logs [OF assms] log_node_block [OF assms]
  by (auto simp: serves_def json_rpc_evm_provider_def)

lemma log_node_answered:
  assumes node: "log_node post endpoint address topics k logs_at hash_at"
    and "answered (json_rpc_evm_provider post endpoint) address topics b" and "0 \<le> batch_start_block b"
    and "batch_start_block b \<le> batch_end_block b"
  shows "batch_logs b = concat (map logs_at [batch_start_block b..batch_end_block b]) \<and>
    batch_end_block_hash b = hash_at (batch_end_block b)"
proof -
  from assms(2) obtain q q' r r'
    where logs: "rpc_logs post endpoint address (batch_start_block b) (batch_end_block b) topics q =
        (Inr (batch_logs b), q')"
      and block: "rpc_block post endpoint (Height (batch_end_block b)) r =
        (Inr \<lparr> block_number = batch_end_block b, block_hash = batch_end_block_hash b \<rparr>, r')"
    by (auto simp: answered_def json_rpc_evm_provider_def)
  show ?thesis
    using log_node_logs [OF node assms(3,4), of q] log_node_block [OF node, of "batch_end_block b" r]
      logs block assms(3,4)
    by (simp split: if_splits)
qed

section \<open>Properties\<close>

lemma commit_run_records: "commit_run record_batch bs xs ys \<Longrightarrow> ys = xs @ bs"
  by (induction bs arbitrary: xs) (fastforce simp: record_batch_def)+

lemma contiguous_bounds:
  "contiguous m from bs \<Longrightarrow> b \<in> set bs \<Longrightarrow> from \<le> batch_start_block b \<and> batch_start_block b \<le> batch_end_block b"
  by (induction bs arbitrary: "from") fastforce+

text \<open>
  C10. The scanner and the JSON-RPC provider together fetch a node's logs whole: over a node that serves
  ranges of up to some positive length and refuses longer ones with the protocol's code, a scan
  returns, the logs of its batches are together the node's logs of the range, block after block, each
  once and as the node has them, and each batch has the node's hash of its last block.
\<close>

theorem rpc_scan_whole:
  assumes "log_node post endpoint address topics k logs_at hash_at" and "1 \<le> k"
    and "adaptive_historical_scanner initial maximum threshold = Inr cfg"
    and "0 \<le> start_block" and "start_block \<le> end_block"
  shows "\<exists>p' bs. scan (json_rpc_evm_provider post endpoint) record_batch cfg address topics
      start_block end_block p [] = (Inr (), p', bs) \<and>
    concat (map batch_logs bs) = concat (map logs_at [start_block..end_block]) \<and>
    (\<forall>b \<in> set bs. batch_end_block_hash b = hash_at (batch_end_block b))"
proof -
  let ?prov = "json_rpc_evm_provider post endpoint"
  have "chunk_ok cfg (initial_chunk cfg)" and cfg: "config_ok cfg"
    using adaptive_historical_scanner_ok [OF assms(3)] by (simp_all add: config_ok_def chunk_ok_def)
  then obtain p' bs where run: "scan ?prov record_batch cfg address topics start_block end_block p [] =
      (Inr (), p', bs)"
    using scan_loop_completes [OF log_node_serves [OF assms(1)] assms(2) _ TrueI, of record_batch cfg
        "initial_chunk cfg" start_block end_block p "[]"] assms(4,5)
    by (auto simp: record_batch_def scan_def)
  from scan_trace [OF cfg run] obtain bs' where commits: "commit_run record_batch bs' [] bs"
    and contiguous: "contiguous (maximum_chunk cfg) start_block bs'"
    and answered: "\<forall>b \<in> set bs'. answered ?prov address topics b"
    and resume: "resume_block start_block bs' = end_block + 1" by blast
  from commits have bs: "bs' = bs" by (auto dest: commit_run_records)
  have batch: "batch_logs b = concat (map logs_at [batch_start_block b..batch_end_block b])"
    "batch_end_block_hash b = hash_at (batch_end_block b)" if "b \<in> set bs" for b
    using log_node_answered [OF assms(1), of b] contiguous_bounds [OF contiguous, of b] answered that
      assms(4) by (auto simp: bs)
  have "concat (map batch_logs bs) =
      concat (map (\<lambda>b. concat (map logs_at [batch_start_block b..batch_end_block b])) bs)"
    using batch(1) by (intro arg_cong [where f = concat] map_cong) auto
  also have "\<dots> = concat (map logs_at (concat (map (\<lambda>b. [batch_start_block b..batch_end_block b]) bs)))"
    by (induction bs) simp_all
  also have "\<dots> = concat (map logs_at [start_block..end_block])"
    using contiguous_blocks [OF contiguous] resume by (simp add: bs)
  finally show ?thesis using run batch(2) by blast
qed

text \<open>A node that answers log queries with the status of a forbidden request.\<close>

definition forbids_logs :: "'w http_post \<Rightarrow> string \<Rightarrow> bool" where
  "forbids_logs post endpoint \<longleftrightarrow>
     (\<forall>n ps w. \<exists>body. fst (post endpoint (rpc_request n ''eth_getLogs'' ps) w) = Responded 403 body)"

lemma str_int_403: "str_int 403 = ''403''"
  by code_simp

lemma rpc_logs_forbidden:
  assumes "forbids_logs post endpoint" and "0 \<le> a" and "a \<le> b"
  shows "\<exists>w. rpc_logs post endpoint address a b topics p =
    (Inl (ProviderError ''http_403'' True True), \<lparr> rpc_request_id = rpc_request_id p + 1, rpc_wire = w \<rparr>)"
proof -
  let ?request = "rpc_request (rpc_request_id p + 1) ''eth_getLogs'' [log_query address a b topics]"
  obtain answer w where post: "post endpoint ?request (rpc_wire p) = (answer, w)" by fastforce
  with assms(1) obtain body where "answer = Responded 403 body" unfolding forbids_logs_def by (metis fst_conv)
  with post assms(2,3) show ?thesis
    by (simp add: rpc_logs_def read_rpc_def ask_def rpc_def Let_def is_success_def http_error_def str_int_403)
qed

lemma forbidden_loop:
  assumes "forbids_logs post endpoint" and "0 \<le> cursor" and "cursor \<le> end_block"
  shows "1 \<le> chunk \<Longrightarrow> \<exists>p' k. scan_loop (json_rpc_evm_provider post endpoint) commit cfg address topics
      end_block cursor chunk p c = (Inl (ProviderError ''http_403'' True True), p', c) \<and>
    rpc_request_id p' = rpc_request_id p + 1 + int k \<and> 2 ^ k \<le> chunk \<and> chunk < 2 ^ (k + 1)"
proof (induction "nat chunk" arbitrary: chunk p rule: less_induct)
  case less
  let ?prov = "json_rpc_evm_provider post endpoint"
  note loop = scan_loop.simps [of ?prov commit cfg address topics end_block cursor chunk p c]
  have "cursor \<le> min (cursor + chunk - 1) end_block" using less.prems assms(3) by simp
  from rpc_logs_forbidden [OF assms(1,2) this, of address topics p] obtain w where
    "provider_logs ?prov address cursor (min (cursor + chunk - 1) end_block) topics p =
      (Inl (ProviderError ''http_403'' True True), \<lparr> rpc_request_id = rpc_request_id p + 1, rpc_wire = w \<rparr>)"
    by (auto simp: json_rpc_evm_provider_def)
  note logs = this
  show ?case
  proof (cases "chunk = 1")
    case True
    with logs assms(3) show ?thesis
      by (intro exI [of _ "\<lparr> rpc_request_id = rpc_request_id p + 1, rpc_wire = w \<rparr>"] exI [of _ 0])
        (auto simp: loop [unfolded True] Let_def)
  next
    case False
    with less.prems have chunk: "1 \<le> chunk div 2" "nat (chunk div 2) < nat chunk" "2 \<le> chunk" by auto
    from less.hyps [OF chunk(2,1), of "\<lparr> rpc_request_id = rpc_request_id p + 1, rpc_wire = w \<rparr>"] obtain p' k
      where run: "scan_loop ?prov commit cfg address topics end_block cursor (chunk div 2)
          \<lparr> rpc_request_id = rpc_request_id p + 1, rpc_wire = w \<rparr> c =
          (Inl (ProviderError ''http_403'' True True), p', c)"
        and k: "rpc_request_id p' = rpc_request_id p + 2 + int k" "2 ^ k \<le> chunk div 2"
          "chunk div 2 < 2 ^ (k + 1)" by auto
    have "max 1 (chunk div 2) = chunk div 2" using chunk by simp
    then have "scan_loop ?prov commit cfg address topics end_block cursor chunk p c =
        (Inl (ProviderError ''http_403'' True True), p', c)"
      using logs run False less.prems assms(3) by (simp add: loop Let_def)
    moreover have "2 ^ (k + 1) \<le> chunk" "chunk < 2 ^ (k + 1 + 1)" using k(2,3) by auto
    ultimately show ?thesis using k(1) by (intro exI [of _ p'] exI [of _ "k + 1"]) auto
  qed
qed

text \<open>
  A node that forbids log queries is given up. Whatever it says with the status 403, a scan commits
  nothing and ends with that error, marked as one to try again, after one request more than the
  number of times its first range can be halved.
\<close>

theorem forbidden_scan_gives_up:
  assumes "forbids_logs post endpoint"
    and "adaptive_historical_scanner initial maximum threshold = Inr cfg"
    and "0 \<le> start_block" and "start_block \<le> end_block"
  shows "\<exists>p' k. scan (json_rpc_evm_provider post endpoint) commit cfg address topics start_block end_block p c =
      (Inl (ProviderError ''http_403'' True True), p', c) \<and>
    rpc_request_id p' = rpc_request_id p + 1 + int k \<and> 2 ^ k \<le> initial \<and> initial < 2 ^ (k + 1)"
proof -
  have cfg: "initial_chunk cfg = initial" "1 \<le> initial"
    using assms(2) by (auto simp: adaptive_historical_scanner_def split: if_splits)
  have "scan (json_rpc_evm_provider post endpoint) commit cfg address topics start_block end_block p c =
      scan_loop (json_rpc_evm_provider post endpoint) commit cfg address topics end_block start_block initial p c"
    using assms(3,4) by (simp add: scan_def cfg)
  with forbidden_loop [OF assms(1,3,4) cfg(2)] show ?thesis by simp
qed

section \<open>Witnesses\<close>

text \<open>A node with one log in each block that serves two blocks at a time, and one that forbids.\<close>

definition numbers_in :: "(string \<times> json) list \<Rightarrow> int \<times> int" where
  "numbers_in query =
     (case (quantity (json_get query ''fromBlock'') [], quantity (json_get query ''toBlock'') []) of
        (Inr a, Inr b) \<Rightarrow> (a, b) | _ \<Rightarrow> (0, 0))"

definition sample_result :: "string \<Rightarrow> json list \<Rightarrow> (string \<times> json) list" where
  "sample_result m params =
     (case params of
        [JObject query] \<Rightarrow>
          (case numbers_in query of (a, b) \<Rightarrow>
            if b - a + 1 \<le> 2
            then [(''result'', JList (map log_object (concat (map (\<lambda>n. [sample_log n]) [a..b]))))]
            else [(''error'', JObject [(''code'', JInt (- 32005)), (''message'', JStr ''limit exceeded'')])])
      | JStr number # rest \<Rightarrow>
          [(''result'', JObject [(''number'', JStr number), (''hash'', JStr ''0xb'')])]
      | _ \<Rightarrow> [])"

definition sample_post :: "unit http_post" where
  "sample_post endpoint request w =
     (case request of
        JObject [j, (i, n), (m, JStr name), (ps, JList params)] \<Rightarrow>
          (Responded 200 (Inr (JObject ([(''jsonrpc'', JStr ''2.0''), (''id'', n)] @ sample_result name params))), w)
      | _ \<Rightarrow> (Unreachable, w))"

lemma numbers_in_query:
  "0 \<le> a \<Longrightarrow> 0 \<le> b \<Longrightarrow> numbers_in [(''address'', x), (''fromBlock'', JStr (hex_int a)),
     (''toBlock'', JStr (hex_int b))] = (a, b)"
  by (simp add: numbers_in_def json_get_def)

lemma sample_log_node: "log_node sample_post endpoint address [] 2 (\<lambda>n. if 0 \<le> n then [sample_log n] else []) (\<lambda>n. ''0xb'')"
proof -
  have logs: "concat (map (\<lambda>n. if 0 \<le> n then [sample_log n] else []) [a..b]) =
      concat (map (\<lambda>n. [sample_log n]) [a..b])" if "0 \<le> a" for a b
    using that by (intro arg_cong [where f = concat] map_cong) auto
  show ?thesis
    by (auto simp: log_node_def gives_result_def gives_error_def sample_post_def rpc_request_def logs
        sample_result_def log_query_def numbers_in_query wire_log_def sample_log_def)
qed

definition forbidding_post :: "unit http_post" where
  "forbidding_post endpoint request w = (Responded 403 (Inr JNull), w)"

theorem rpc_scan_whole_witness:
  "\<exists>p' bs. scan (json_rpc_evm_provider sample_post ''https://node'') record_batch
      \<lparr> initial_chunk = 8, maximum_chunk = 8, dense_log_threshold = 4 \<rparr> ''0xa'' [] 0 9
      \<lparr> rpc_request_id = 0, rpc_wire = () \<rparr> [] = (Inr (), p', bs) \<and>
    map log_block_number (concat (map batch_logs bs)) = [0, 1, 2, 3, 4, 5, 6, 7, 8, 9]"
proof -
  have blocks: "[0..9] = [0, 1, 2, 3, 4, 5, 6, 7, 8, 9 :: int]" by (simp add: upto.simps)
  show ?thesis
    using rpc_scan_whole [OF sample_log_node [of "''https://node''" "''0xa''"], of 8 8 4
        "\<lparr> initial_chunk = 8, maximum_chunk = 8, dense_log_threshold = 4 \<rparr>" 0 9
        "\<lparr> rpc_request_id = 0, rpc_wire = () \<rparr>"]
    by (auto simp: adaptive_historical_scanner_def blocks sample_log_def)
qed

theorem forbidden_scan_gives_up_witness:
  "\<exists>p' k. scan (json_rpc_evm_provider forbidding_post ''https://node'') record_batch
      \<lparr> initial_chunk = 8, maximum_chunk = 8, dense_log_threshold = 4 \<rparr> ''0xa'' [] 0 9
      \<lparr> rpc_request_id = 0, rpc_wire = () \<rparr> [] = (Inl (ProviderError ''http_403'' True True), p', []) \<and>
    rpc_request_id p' = 1 + int k \<and> 2 ^ k \<le> (8 :: int)"
  using forbidden_scan_gives_up [of forbidding_post "''https://node''" 8 8 4
      "\<lparr> initial_chunk = 8, maximum_chunk = 8, dense_log_threshold = 4 \<rparr>" 0 9 record_batch "''0xa''" "[]"
      "\<lparr> rpc_request_id = 0, rpc_wire = () \<rparr>" "[]"]
  by (fastforce simp: forbids_logs_def forbidding_post_def adaptive_historical_scanner_def)

end
