(* ===== verification/BotWorld.thy ===== *)
theory BotWorld
  imports Challenges AccessService EvmPorts
begin

text \<open>
  What the Telegram handlers share (\<^verbatim>\<open>app/bot/handlers/access.py\<close>): the world they run in, the calls
  they make to Telegram, the confirmation tokens in the data of a button, and the \<open>except AccessError\<close>
  clause that every handler ends its checks with. Telegram is an argument, which may refuse any call.
  The clock, the fresh ids and the random tokens are read by the number of readings before.
  Outgoing texts are lists of code points, as some contain a dash beyond the characters of HOL.
\<close>

section \<open>Outgoing texts\<close>

type_synonym outgoing = "nat list"

definition points :: "string \<Rightarrow> outgoing" where
  "points s = map ord_char s"

definition em_dash :: outgoing where
  "em_dash = [8212]"

text \<open>\<open>"\n".join(lines)\<close>.\<close>

fun join_lines :: "outgoing list \<Rightarrow> outgoing" where
  "join_lines [] = []"
| "join_lines [l] = l"
| "join_lines (l # m # ls) = l @ [10] @ join_lines (m # ls)"

section \<open>Telegram\<close>

text \<open>A row of buttons, each with its text and its data; an empty row is no keyboard.\<close>

type_synonym keyboard = "(outgoing \<times> string) list"

datatype telegram_call =
    AnswerMessage outgoing keyboard
  | AnswerCallback outgoing
  | SendMessage int outgoing keyboard
  | EditMessageText int int outgoing

type_synonym 'b telegram_api = "telegram_call \<Rightarrow> 'b \<Rightarrow> unit outcome \<times> 'b"

section \<open>The world of a handler\<close>

record ('s, 'b) bot_world =
  bot_store :: 's
  bot_challenges :: "challenge_record list"
  bot_readings :: nat
  bot_telegram :: 'b

record bot_config =
  config_sha256 :: "bytes \<Rightarrow> bytes"
  config_ttl :: duration
  config_now :: "nat \<Rightarrow> instant"
  config_id :: "nat \<Rightarrow> uuid"
  config_fresh :: "nat \<Rightarrow> fresh_ids"
  config_token :: "nat \<Rightarrow> string"

definition return :: "'a \<Rightarrow> 'w \<Rightarrow> 'a outcome \<times> 'w" where
  "return x w = (Inr x, w)"

definition raise :: "exn \<Rightarrow> 'w \<Rightarrow> 'a outcome \<times> 'w" where
  "raise e w = (Inl e, w)"

definition call_telegram ::
  "'b telegram_api \<Rightarrow> telegram_call \<Rightarrow> ('s, 'b) bot_world \<Rightarrow> unit outcome \<times> ('s, 'b) bot_world"
where
  "call_telegram api call w =
     (case api call (bot_telegram w) of (answer, b) \<Rightarrow> (answer, w\<lparr> bot_telegram := b \<rparr>))"

text \<open>A call of a service on the store, which reads the clock and the fresh ids once.\<close>

definition on_store ::
  "(nat \<Rightarrow> 's \<Rightarrow> 'a outcome \<times> 's) \<Rightarrow> ('s, 'b) bot_world \<Rightarrow> 'a outcome \<times> ('s, 'b) bot_world"
where
  "on_store f w =
     (case f (bot_readings w) (bot_store w) of
        (answer, s) \<Rightarrow> (answer, w\<lparr> bot_store := s, bot_readings := bot_readings w + 1 \<rparr>))"

definition fresh_id :: "bot_config \<Rightarrow> ('s, 'b) bot_world \<Rightarrow> uuid outcome \<times> ('s, 'b) bot_world" where
  "fresh_id cfg w = (Inr (config_id cfg (bot_readings w)), w\<lparr> bot_readings := bot_readings w + 1 \<rparr>)"

definition issue_confirmation ::
  "bot_config \<Rightarrow> request_context \<Rightarrow> challenge_action \<Rightarrow> string \<Rightarrow> uuid \<Rightarrow> json option \<Rightarrow>
     ('s, 'b) bot_world \<Rightarrow> issued_challenge outcome \<times> ('s, 'b) bot_world"
where
  "issue_confirmation cfg actor action resource_type rid payload w =
     (let n = bot_readings w
      in case issue create_challenge (config_sha256 cfg) (config_ttl cfg) actor action resource_type rid
             payload (config_token cfg n) (config_now cfg n) (config_id cfg n) (bot_challenges w) of
           (answer, rows) \<Rightarrow> (answer, w\<lparr> bot_challenges := rows, bot_readings := n + 1 \<rparr>))"

definition consume_confirmation ::
  "bot_config \<Rightarrow> request_context \<Rightarrow> string \<Rightarrow> challenge_action \<Rightarrow>
     ('s, 'b) bot_world \<Rightarrow> challenge_record outcome \<times> ('s, 'b) bot_world"
where
  "consume_confirmation cfg actor token expected_action w =
     (let n = bot_readings w
      in case consume consume_challenge (config_sha256 cfg) actor token expected_action
             (config_now cfg n) (bot_challenges w) of
           (answer, rows) \<Rightarrow> (answer, w\<lparr> bot_challenges := rows, bot_readings := n + 1 \<rparr>))"

section \<open>Errors\<close>

text \<open>
  \<open>try: m except AccessError as exc: answer(str(exc)); return\<close>, and the rest of the handler after it.
\<close>

definition unless_access_error ::
  "('w \<Rightarrow> 'a outcome \<times> 'w) \<Rightarrow> (string \<Rightarrow> 'w \<Rightarrow> 'b outcome \<times> 'w) \<Rightarrow> ('a \<Rightarrow> 'w \<Rightarrow> 'b outcome \<times> 'w) \<Rightarrow>
     'w \<Rightarrow> 'b outcome \<times> 'w"
where
  "unless_access_error m refused rest w =
     (case m w of
        (Inl (AccessFailure kind message), w') \<Rightarrow> refused message w'
      | (Inl e, w') \<Rightarrow> (Inl e, w')
      | (Inr x, w') \<Rightarrow> rest x w')"

definition require_identity :: "telegram_identity option \<Rightarrow> telegram_identity outcome" where
  "require_identity identity =
     (case identity of
        None \<Rightarrow> Inl (AccessFailure AccessError ''Telegram identity is unavailable for this update.'')
      | Some i \<Rightarrow> Inr i)"

definition require_context ::
  "request_context option \<Rightarrow> (access_kind \<times> string) option \<Rightarrow> request_context outcome"
where
  "require_context ctx err =
     (case ctx of
        Some c \<Rightarrow> Inr c
      | None \<Rightarrow>
          (case err of
             Some (kind, message) \<Rightarrow> Inl (AccessFailure kind message)
           | None \<Rightarrow> Inl (AccessFailure AccessError ''Authorization context is unavailable.'')))"

section \<open>The data of a button\<close>

definition callback_data :: "string \<Rightarrow> string \<Rightarrow> string outcome" where
  "callback_data action token =
     (let value = ''access:v1:'' @ action @ '':'' @ token
      in if 64 < utf8_length value
         then Inl (ValueError ''Telegram callback data exceeds 64 bytes'') else Inr value)"

text \<open>\<open>text.split(sep, maxsplit=n)\<close>.\<close>

fun split_most :: "nat \<Rightarrow> char \<Rightarrow> string \<Rightarrow> string list" where
  "split_most 0 sep s = [s]"
| "split_most (Suc n) sep s =
     (if sep \<in> set s
      then case partition_at sep s of (before, after) \<Rightarrow> before # split_most n sep after
      else [s])"

text \<open>The message a pressed button belongs to: its chat and its id.\<close>

record pressed_button =
  pressed_data :: string
  pressed_message :: "(int \<times> int) option"

section \<open>Lemmas\<close>

lemma ask_fresh_id:
  "ask (fresh_id cfg) f w = f (config_id cfg (bot_readings w)) (w\<lparr> bot_readings := bot_readings w + 1 \<rparr>)"
  by (simp add: ask_def fresh_id_def)

lemma partition_at_append: "sep \<notin> set s \<Longrightarrow> partition_at sep (s @ sep # t) = (s, t)"
  by (induction s) (auto simp: partition_at_def)

lemma split_most_step:
  "sep \<notin> set s \<Longrightarrow> split_most (Suc n) sep (s @ sep # t) = s # split_most n sep t"
  by (simp add: partition_at_append)

text \<open>The data of a button splits back into its action and its token.\<close>

lemma split_callback_data:
  assumes "callback_data action token = Inr value" and "CHR '':'' \<notin> set action"
  shows "split_most 3 (CHR '':'') value = [''access'', ''v1'', action, token]"
proof -
  have "value = ''access'' @ CHR '':'' # ''v1'' @ CHR '':'' # action @ CHR '':'' # token"
    using assms(1) by (auto simp: callback_data_def Let_def split: if_splits)
  with assms(2) show ?thesis
    using split_most_step [of "CHR '':''" "''access''" 2 "''v1'' @ CHR '':'' # action @ CHR '':'' # token"]
      split_most_step [of "CHR '':''" "''v1''" 1 "action @ CHR '':'' # token"]
      split_most_step [of "CHR '':''" action 0 token]
    by (simp del: split_most.simps(2) add: eval_nat_numeral)
qed

lemma call_telegram_frame:
  "bot_store (snd (call_telegram api call w)) = bot_store w"
  "bot_challenges (snd (call_telegram api call w)) = bot_challenges w"
  by (simp_all add: call_telegram_def split: prod.splits)

lemma consume_confirmation_frame:
  "bot_store (snd (consume_confirmation cfg actor token action w)) = bot_store w"
  "bot_telegram (snd (consume_confirmation cfg actor token action w)) = bot_telegram w"
  by (simp_all add: consume_confirmation_def Let_def split: prod.splits)

end
