(* ===== verification/RateLimit.thy ===== *)
theory RateLimit
  imports BotWorld
begin

text \<open>
  Rate limiting (\<^verbatim>\<open>app/infrastructure/queue/rate_limit.py\<close>, \<^verbatim>\<open>app/bot/middleware/rate_limit.py\<close>) and
  the order of the middlewares around a handler (\<^verbatim>\<open>app/bot/factory.py\<close>). Redis is an argument: its
  pipeline of increment, expiry and time to live answers the count and the seconds left, at the
  instant it runs. What the limiter relies on is stated of the counters it keeps.
\<close>

section \<open>The limiter\<close>

record rate_limit_decision =
  rate_allowed :: bool
  rate_count :: int
  rate_limit :: int
  rate_retry_after :: int

text \<open>The pipeline of \<open>INCR\<close>, \<open>EXPIRE NX\<close> and \<open>TTL\<close> for a key and a window of seconds.\<close>

type_synonym 'r redis_pipeline = "string \<Rightarrow> int \<Rightarrow> 'r \<Rightarrow> (int \<times> int) outcome \<times> 'r"

definition redis_rate_limiter :: "string \<Rightarrow> string outcome" where
  "redis_rate_limiter environment =
     (if environment = [] then Inl (ValueError ''rate-limit environment prefix is required'')
      else Inr (''copymint:'' @ environment @ '':rate''))"

definition rate_key :: "string \<Rightarrow> string \<Rightarrow> string \<Rightarrow> string" where
  "rate_key prefix scope subject = prefix @ '':'' @ scope @ '':'' @ subject"

definition hit ::
  "'r redis_pipeline \<Rightarrow> string \<Rightarrow> string \<Rightarrow> string \<Rightarrow> int \<Rightarrow> int \<Rightarrow> 'r \<Rightarrow> rate_limit_decision outcome \<times> 'r"
where
  "hit pipeline prefix scope subject limit window_seconds r =
     (if scope = [] \<or> subject = []
      then (Inl (ValueError ''rate-limit scope and subject are required''), r)
      else if limit < 1 \<or> window_seconds < 1
      then (Inl (ValueError ''rate-limit and window must be positive''), r)
      else ask (pipeline (rate_key prefix scope subject) window_seconds) (\<lambda>(count, ttl).
        return \<lparr> rate_allowed = (count \<le> limit), rate_count = count, rate_limit = limit,
          rate_retry_after = max ttl 1 \<rparr>) r)"

section \<open>The middleware\<close>

definition reject_event ::
  "(telegram_call \<Rightarrow> 'w \<Rightarrow> unit outcome \<times> 'w) \<Rightarrow> telegram_event \<Rightarrow> int \<Rightarrow> 'w \<Rightarrow> unit outcome \<times> 'w"
where
  "reject_event say event retry_after =
     (let message = points (''Too many requests. Try again in '' @ str_int retry_after @ '' seconds.'')
      in case event of
           Message _ _ _ \<Rightarrow> say (AnswerMessage message [])
         | CallbackQuery _ _ \<Rightarrow> say (AnswerCallback message)
         | OtherEvent _ \<Rightarrow> return ())"

definition rate_limit_middleware ::
  "(telegram_call \<Rightarrow> 'w \<Rightarrow> unit outcome \<times> 'w) \<Rightarrow>
     (string \<Rightarrow> string \<Rightarrow> int \<Rightarrow> int \<Rightarrow> 'w \<Rightarrow> rate_limit_decision outcome \<times> 'w) \<Rightarrow> int \<Rightarrow> int \<Rightarrow>
     telegram_event \<Rightarrow> handler_data \<Rightarrow> ('w \<Rightarrow> unit outcome \<times> 'w) \<Rightarrow> 'w \<Rightarrow> unit outcome \<times> 'w"
where
  "rate_limit_middleware say limiter user_limit workspace_limit event data handler =
     (case data_identity data of
        None \<Rightarrow> handler
      | Some identity \<Rightarrow>
          ask (limiter ''telegram_user'' (str_int (identity_telegram_user_id identity)) user_limit 60)
            (\<lambda>user_decision.
              if \<not> rate_allowed user_decision
              then reject_event say event (rate_retry_after user_decision)
              else
                (case (case data_context data of None \<Rightarrow> None | Some ctx \<Rightarrow> ctx_workspace_id ctx) of
                   None \<Rightarrow> handler
                 | Some ws \<Rightarrow>
                     ask (limiter ''workspace'' (uuid_str ws) workspace_limit 60) (\<lambda>workspace_decision.
                       if \<not> rate_allowed workspace_decision
                       then reject_event say event (rate_retry_after workspace_decision)
                       else handler))))"

text \<open>
  The dispatcher's order for a matched event: the authorization first, then the limits, then the
  handler with the data the authorization found.
\<close>

definition dispatch_event ::
  "(telegram_event \<Rightarrow> 'w \<Rightarrow> handler_data outcome \<times> 'w) \<Rightarrow>
     (telegram_call \<Rightarrow> 'w \<Rightarrow> unit outcome \<times> 'w) \<Rightarrow>
     (string \<Rightarrow> string \<Rightarrow> int \<Rightarrow> int \<Rightarrow> 'w \<Rightarrow> rate_limit_decision outcome \<times> 'w) \<Rightarrow> int \<Rightarrow> int \<Rightarrow>
     (handler_data \<Rightarrow> 'w \<Rightarrow> unit outcome \<times> 'w) \<Rightarrow> telegram_event \<Rightarrow> 'w \<Rightarrow> unit outcome \<times> 'w"
where
  "dispatch_event authorization say limiter user_limit workspace_limit handler event =
     ask (authorization event) (\<lambda>data.
       rate_limit_middleware say limiter user_limit workspace_limit event data (handler data))"

section \<open>Fixed windows\<close>

text \<open>
  A counter holds a count and the instant it expires. An increment within its life adds one; any other
  starts a counter at one with a window of its own.
\<close>

type_synonym counter = "(nat \<times> instant) option"

definition counted :: "instant \<Rightarrow> int \<Rightarrow> counter \<Rightarrow> counter \<Rightarrow> nat \<Rightarrow> bool" where
  "counted now window_seconds v v' c \<longleftrightarrow>
     (case v of
        Some (n, e) \<Rightarrow>
          if now < e then c = n + 1 \<and> v' = Some (n + 1, e)
          else c = 1 \<and> v' = Some (1, now + seconds window_seconds)
      | None \<Rightarrow> c = 1 \<and> v' = Some (1, now + seconds window_seconds))"

text \<open>
  What is documented of the pipeline at an instant: it counts its key and leaves every other; when it
  raises, the increment may or may not have happened.
\<close>

definition fixed_windows :: "(instant \<Rightarrow> 'r redis_pipeline) \<Rightarrow> ('r \<Rightarrow> string \<Rightarrow> counter) \<Rightarrow> bool" where
  "fixed_windows redis view \<longleftrightarrow>
     (\<forall>now key w r. case redis now key w r of
        (Inr (c, ttl), r') \<Rightarrow>
          (\<exists>n. c = int n \<and> counted now w (view r key) (view r' key) n) \<and> (\<forall>k. k \<noteq> key \<longrightarrow> view r' k = view r k)
      | (Inl e, r') \<Rightarrow>
          (view r' key = view r key \<or> (\<exists>n. counted now w (view r key) (view r' key) n)) \<and>
          (\<forall>k. k \<noteq> key \<longrightarrow> view r' k = view r k))"

text \<open>
  Events run through the middleware, with a handler that counts its runs beside the counters; what
  Telegram and the handler answer is arbitrary.
\<close>

record timed_event =
  event_time :: instant
  event_of :: telegram_event
  event_data :: handler_data
  event_answer :: "unit outcome"

definition run_event ::
  "(instant \<Rightarrow> 'r redis_pipeline) \<Rightarrow> string \<Rightarrow> int \<Rightarrow> int \<Rightarrow> timed_event \<Rightarrow> 'r \<times> nat \<Rightarrow> 'r \<times> nat"
where
  "run_event redis prefix user_limit workspace_limit ev w = snd
     (rate_limit_middleware
        (\<lambda>call (r, k). (event_answer ev, (r, k)))
        (\<lambda>scope subject limit window_seconds (r, k).
           case hit (redis (event_time ev)) prefix scope subject limit window_seconds r of
             (decision, r') \<Rightarrow> (decision, (r', k)))
        user_limit workspace_limit (event_of ev) (event_data ev)
        (\<lambda>(r, k). (event_answer ev, (r, k + 1))) w)"

fun run_events ::
  "(instant \<Rightarrow> 'r redis_pipeline) \<Rightarrow> string \<Rightarrow> int \<Rightarrow> int \<Rightarrow> timed_event list \<Rightarrow> 'r \<times> nat \<Rightarrow> 'r \<times> nat"
where
  "run_events redis prefix user_limit workspace_limit [] w = w"
| "run_events redis prefix user_limit workspace_limit (ev # evs) w =
     run_events redis prefix user_limit workspace_limit evs
       (run_event redis prefix user_limit workspace_limit ev w)"

definition user_key :: "string \<Rightarrow> int \<Rightarrow> string" where
  "user_key prefix uid = rate_key prefix ''telegram_user'' (str_int uid)"

definition event_user :: "timed_event \<Rightarrow> int option" where
  "event_user ev = map_option identity_telegram_user_id (data_identity (event_data ev))"

lemma hit_cases:
  assumes redis: "fixed_windows redis view"
    and run: "hit (redis now) prefix scope subject limit w r = (answer, r')"
  shows "(\<forall>k. k \<noteq> rate_key prefix scope subject \<longrightarrow> view r' k = view r k) \<and>
    (case answer of
       Inl e \<Rightarrow> view r' (rate_key prefix scope subject) = view r (rate_key prefix scope subject) \<or>
         (\<exists>n. counted now w (view r (rate_key prefix scope subject)) (view r' (rate_key prefix scope subject)) n)
     | Inr d \<Rightarrow> \<exists>n. counted now w (view r (rate_key prefix scope subject))
           (view r' (rate_key prefix scope subject)) n \<and> (rate_allowed d \<longleftrightarrow> int n \<le> limit))"
proof (cases "scope = [] \<or> subject = [] \<or> limit < 1 \<or> w < 1")
  case True
  with run have "r' = r \<and> (\<exists>e. answer = Inl e)" by (auto simp: hit_def split: if_splits)
  then show ?thesis by auto
next
  case False
  obtain res r1 where pipe: "redis now (rate_key prefix scope subject) w r = (res, r1)" by fastforce
  note documented = redis [unfolded fixed_windows_def, THEN spec [of _ now],
      THEN spec [of _ "rate_key prefix scope subject"], THEN spec [of _ w], THEN spec [of _ r]]
  show ?thesis
  proof (cases res)
    case (Inl e)
    with False run pipe documented show ?thesis by (auto simp: hit_def ask_def)
  next
    case (Inr p)
    obtain c ttl where "p = (c, ttl)" by fastforce
    with Inr False run pipe documented show ?thesis by (auto simp: hit_def ask_def return_def)
  qed
qed

lemma workspace_key_other: "rate_key prefix ''workspace'' s \<noteq> user_key prefix uid"
  by (simp add: rate_key_def user_key_def)

text \<open>One event of a user: the handler runs only when the user's counter was raised to at most the limit.\<close>

lemma run_event_cases:
  assumes redis: "fixed_windows redis view" and user: "event_user ev = Some uid"
    and run: "run_event redis prefix ul wl ev (r, k) = (r', k')"
  obtains (refused) "k' = k" "view r' (user_key prefix uid) = view r (user_key prefix uid) \<or>
      (\<exists>n. counted (event_time ev) 60 (view r (user_key prefix uid)) (view r' (user_key prefix uid)) n)"
    | (ran) n where "k' = k + 1" "int n \<le> ul"
      "counted (event_time ev) 60 (view r (user_key prefix uid)) (view r' (user_key prefix uid)) n"
proof -
  from user obtain identity where identity: "data_identity (event_data ev) = Some identity"
    and uid: "identity_telegram_user_id identity = uid" by (auto simp: event_user_def)
  obtain answer r1 where first: "hit (redis (event_time ev)) prefix ''telegram_user'' (str_int uid) ul 60 r =
      (answer, r1)" by fastforce
  note one = hit_cases [OF redis first, folded user_key_def]
  have same: "view r2 (user_key prefix uid) = view r1 (user_key prefix uid)"
    if "hit (redis (event_time ev)) prefix ''workspace'' s wl 60 r1 = (a2, r2)" for s a2 r2
    using hit_cases [OF redis that, THEN conjunct1] workspace_key_other [of prefix s uid] by simp
  let ?ws = "case data_context (event_data ev) of None \<Rightarrow> None | Some ctx \<Rightarrow> ctx_workspace_id ctx"
  show thesis
  proof (cases answer)
    case (Inl e)
    with run first have "r' = r1" "k' = k"
      by (simp_all add: run_event_def rate_limit_middleware_def identity uid ask_def)
    with one Inl show thesis by (intro refused) auto
  next
    case (Inr d)
    with one obtain n where n: "counted (event_time ev) 60 (view r (user_key prefix uid))
        (view r1 (user_key prefix uid)) n" "rate_allowed d \<longleftrightarrow> int n \<le> ul" by auto
    show thesis
    proof (cases "rate_allowed d")
      case False
      with run first Inr have "r' = r1" "k' = k"
        by (auto simp: run_event_def rate_limit_middleware_def identity uid ask_def reject_event_def return_def
            Let_def split: telegram_event.splits)
      with n show thesis by (intro refused) auto
    next
      case True
      show thesis
      proof (cases ?ws)
        case None
        with run first Inr True have "r' = r1" "k' = k + 1"
          by (simp_all add: run_event_def rate_limit_middleware_def identity uid ask_def)
        with n True show thesis by (intro ran [of n]) auto
      next
        case (Some ws)
        obtain a2 r2 where second: "hit (redis (event_time ev)) prefix ''workspace'' (uuid_str ws) wl 60 r1 =
            (a2, r2)" by fastforce
        have "r' = r2 \<and> (k' = k \<or> k' = k + 1)"
          using run first Inr True Some second
          by (auto simp: run_event_def rate_limit_middleware_def identity uid ask_def reject_event_def
              return_def Let_def split: telegram_event.splits sum.splits if_splits)
        moreover have "view r2 (user_key prefix uid) = view r1 (user_key prefix uid)" by (rule same [OF second])
        ultimately consider "k' = k" "view r' (user_key prefix uid) = view r1 (user_key prefix uid)"
          | "k' = k + 1" "view r' (user_key prefix uid) = view r1 (user_key prefix uid)" by blast
        then show thesis
        proof cases
          case 1
          with n show thesis by (intro refused) auto
        next
          case 2
          with n True show thesis by (intro ran [of n]) auto
        qed
      qed
    qed
  qed
qed

section \<open>How many events a user gets through\<close>

text \<open>Within the life of a counter, what is left of the limit.\<close>

lemma runs_within_window:
  assumes redis: "fixed_windows redis view"
    and events: "\<forall>ev \<in> set evs. event_user ev = Some uid \<and> event_time ev < e"
    and "view r (user_key prefix uid) = Some (n, e)"
    and "run_events redis prefix ul wl evs (r, k) = (r', k')"
  shows "int k' \<le> int k + max 0 (ul - int n)"
  using events assms(3,4)
proof (induction evs arbitrary: r k n)
  case (Cons ev evs)
  obtain r1 k1 where step: "run_event redis prefix ul wl ev (r, k) = (r1, k1)" by fastforce
  have user: "event_user ev = Some uid" and time: "event_time ev < e" using Cons.prems by auto
  have rest: "\<forall>ev \<in> set evs. event_user ev = Some uid \<and> event_time ev < e"
    "run_events redis prefix ul wl evs (r1, k1) = (r', k')" using Cons.prems step by auto
  from redis user step show ?case
  proof (cases rule: run_event_cases)
    case refused
    then obtain m where "view r1 (user_key prefix uid) = Some (m, e)" "n \<le> m"
      using Cons.prems(2) time by (auto simp: counted_def)
    with Cons.IH [OF rest(1) this(1) rest(2)] refused(1) show ?thesis by auto
  next
    case (ran c)
    then have "view r1 (user_key prefix uid) = Some (n + 1, e)" "c = n + 1"
      using Cons.prems(2) time by (simp_all add: counted_def)
    with Cons.IH [OF rest(1) this(1) rest(2)] ran(1,2) show ?thesis by auto
  qed
qed simp

lemma runs_within_two_windows:
  assumes redis: "fixed_windows redis view"
    and events: "\<forall>ev \<in> set evs. event_user ev = Some uid \<and> a \<le> event_time ev \<and>
      event_time ev < a + seconds 60" and "0 \<le> ul"
    and "run_events redis prefix ul wl evs (r, k) = (r', k')"
  shows "int k' \<le> int k + ul + (case view r (user_key prefix uid) of None \<Rightarrow> 0 | Some (n, e) \<Rightarrow> max 0 (ul - int n))"
  using events assms(4)
proof (induction evs arbitrary: r k)
  case Nil
  with \<open>0 \<le> ul\<close> show ?case by (auto split: option.splits)
next
  case (Cons ev evs)
  obtain r1 k1 where step: "run_event redis prefix ul wl ev (r, k) = (r1, k1)" by fastforce
  have user: "event_user ev = Some uid" and time: "a \<le> event_time ev" using Cons.prems by auto
  have rest: "\<forall>ev \<in> set evs. event_user ev = Some uid \<and> a \<le> event_time ev \<and> event_time ev < a + seconds 60"
    "run_events redis prefix ul wl evs (r1, k1) = (r', k')" using Cons.prems step by auto
  have new: "int k' \<le> int k1 + max 0 (ul - 1)"
    if "view r1 (user_key prefix uid) = Some (1, event_time ev + seconds 60)"
    using runs_within_window [OF redis _ that rest(2)] rest(1) time by force
  from redis user step show ?case
  proof (cases rule: run_event_cases)
    case refused
    then consider "view r1 (user_key prefix uid) = view r (user_key prefix uid)"
      | n e where "view r (user_key prefix uid) = Some (n, e)" "view r1 (user_key prefix uid) = Some (n + 1, e)"
      | "view r1 (user_key prefix uid) = Some (1, event_time ev + seconds 60)"
      by (auto simp: counted_def split: option.splits if_splits prod.splits)
    then show ?thesis
    proof cases
      case 3
      from new [OF this] refused(1) \<open>0 \<le> ul\<close> show ?thesis by (auto split: option.splits)
    qed (use Cons.IH [OF rest] refused(1) in \<open>auto split: option.splits\<close>)
  next
    case (ran c)
    then consider n e where "view r (user_key prefix uid) = Some (n, e)" "c = n + 1"
        "view r1 (user_key prefix uid) = Some (n + 1, e)"
      | "c = 1" "view r1 (user_key prefix uid) = Some (1, event_time ev + seconds 60)"
      by (auto simp: counted_def split: option.splits if_splits prod.splits)
    then show ?thesis
    proof cases
      case 1
      with Cons.IH [OF rest] ran(1,2) show ?thesis by auto
    next
      case 2
      from new [OF this(2)] 2(1) ran(1,2) show ?thesis by (auto split: option.splits)
    qed
  qed
qed

text \<open>
  C16. The limit holds. In any sixty seconds at most twice the configured number of a user's events
  reach a handler, in whatever order they come, whatever the counters were before and whatever Redis,
  Telegram and the handlers do in between; when the user has no counter yet, at most that number.
\<close>

theorem rate_limit_holds:
  assumes "fixed_windows redis view" and "0 \<le> user_limit"
    and "\<forall>ev \<in> set evs. event_user ev = Some uid \<and> a \<le> event_time ev \<and> event_time ev < a + seconds 60"
    and "run_events redis prefix user_limit workspace_limit evs (r, 0) = (r', runs)"
  shows "int runs \<le> 2 * user_limit \<and>
    (view r (user_key prefix uid) = None \<longrightarrow> int runs \<le> user_limit)"
  using runs_within_two_windows [OF assms(1,3,2,4)] assms(2) by (auto split: option.splits)

section \<open>Audits before limits\<close>


section \<open>Witnesses\<close>

text \<open>Counters kept as the contract says.\<close>

definition counters :: "instant \<Rightarrow> (string \<Rightarrow> counter) redis_pipeline" where
  "counters now key w r =
     (let (n, e) = (case r key of
          Some (n, e) \<Rightarrow> if now < e then (n + 1, e) else (1, now + seconds w)
        | None \<Rightarrow> (1, now + seconds w))
      in (Inr (int n, (e - now) div 1000000), r(key := Some (n, e))))"

lemma counters_fixed: "fixed_windows counters (\<lambda>r. r)"
  by (auto simp: fixed_windows_def counters_def counted_def Let_def split: option.splits)

definition busy_event :: "instant \<Rightarrow> timed_event" where
  "busy_event now = \<lparr> event_time = now,
     event_of = Message None \<lparr> chat_id = 42, chat_type = ''private'' \<rparr> None,
     event_data = \<lparr> data_identity = Some requester, data_context = None, data_access_error = None \<rparr>,
     event_answer = Inr () \<rparr>"

theorem rate_limit_holds_witness:
  "\<exists>r' runs. run_events counters ''p'' 2 2 (map busy_event [5, 6, 7, 8]) (\<lambda>k. None, 0) = (r', runs) \<and> runs \<le> 2"
proof -
  obtain r' runs where run: "run_events counters ''p'' 2 2 (map busy_event [5, 6, 7, 8]) (\<lambda>k. None, 0) = (r', runs)"
    by fastforce
  have "\<forall>ev \<in> set (map busy_event [5, 6, 7, 8]). event_user ev = Some 42 \<and> 0 \<le> event_time ev \<and>
      event_time ev < 0 + seconds 60"
    by (simp add: busy_event_def event_user_def requester_def)
  from rate_limit_holds [OF counters_fixed _ this run] run show ?thesis by simp
qed

definition stranger_event :: telegram_event where
  "stranger_event = Message (Some \<lparr> account_id = 9, account_first_name = ''Eve'', account_last_name = None,
     account_username = None \<rparr>) \<lparr> chat_id = 9, chat_type = ''private'' \<rparr> (Some ''/wallets'')"


end
