(* ===== verification/AccessHandlers.thy ===== *)
theory AccessHandlers
  imports BotWorld JsonText
begin

text \<open>
  The access handlers (\<^verbatim>\<open>app/bot/handlers/access.py\<close>): the request of access and the buttons sent to
  the platform owners, the owner's list of requests and command of revocation, and the callback that
  consumes a confirmation and decides. The payload of a revocation is the one the command stored; a
  JSON boolean, which Python would take for a number, is never stored there and counts as no number.
\<close>

section \<open>The owner's keyboard\<close>

definition owner_keyboard ::
  "bot_config \<Rightarrow> uuid \<Rightarrow> int \<Rightarrow> (access_db, 'b) bot_world \<Rightarrow> keyboard outcome \<times> (access_db, 'b) bot_world"
where
  "owner_keyboard cfg rid owner_id =
     ask (fresh_id cfg) (\<lambda>correlation_id.
       let owner = platform_owner_context correlation_id
         \<lparr> identity_telegram_user_id = owner_id, identity_chat_id = owner_id,
           identity_chat_type = ''private'', identity_username = None, identity_display_name = None \<rparr>
       in ask (issue_confirmation cfg owner ChallengeAction_APPROVE_ACCESS ''access_request'' rid None)
            (\<lambda>approve.
          ask (issue_confirmation cfg owner ChallengeAction_REJECT_ACCESS ''access_request'' rid None)
            (\<lambda>reject w.
              (attempt (callback_data ''approve'' (issued_token approve)) (\<lambda>approve_data.
               attempt (callback_data ''reject'' (issued_token reject)) (\<lambda>reject_data.
                 Inr [(points ''Approve'', approve_data), (points ''Reject'', reject_data)])), w))))"

section \<open>Requests of access\<close>

definition request_notice :: "uuid \<Rightarrow> telegram_identity \<Rightarrow> outgoing" where
  "request_notice rid identity = join_lines (map points
     [''COPYMINT ACCESS REQUEST'',
      ''Request: '' @ uuid_str rid,
      ''Telegram ID: '' @ str_int (identity_telegram_user_id identity),
      (case identity_username identity of
         None \<Rightarrow> ''Username: none''
       | Some name \<Rightarrow> if name = [] then ''Username: none'' else ''Username: @'' @ name),
      ''Name: '' @ (case identity_display_name identity of
         None \<Rightarrow> ''not provided'' | Some name \<Rightarrow> if name = [] then ''not provided'' else name)])"

fun notify_owners ::
  "'b telegram_api \<Rightarrow> bot_config \<Rightarrow> uuid \<Rightarrow> telegram_identity \<Rightarrow> int list \<Rightarrow>
     (access_db, 'b) bot_world \<Rightarrow> unit outcome \<times> (access_db, 'b) bot_world"
where
  "notify_owners api cfg rid identity [] = return ()"
| "notify_owners api cfg rid identity (owner_id # owner_ids) =
     ask (owner_keyboard cfg rid owner_id) (\<lambda>keyboard.
     ask (call_telegram api (SendMessage owner_id (request_notice rid identity) keyboard)) (\<lambda>_.
     notify_owners api cfg rid identity owner_ids))"

text \<open>The owners are listed in the order the program iterates over their set.\<close>

definition start ::
  "'b telegram_api \<Rightarrow> bot_config \<Rightarrow> int list \<Rightarrow> telegram_identity option \<Rightarrow>
     (access_db, 'b) bot_world \<Rightarrow> unit outcome \<times> (access_db, 'b) bot_world"
where
  "start api cfg owner_ids telegram_identity =
     unless_access_error
       (\<lambda>w. case require_identity telegram_identity of
          Inl e \<Rightarrow> raise e w
        | Inr identity \<Rightarrow>
            ask (on_store (\<lambda>n. request_access identity (config_now cfg n) (config_id cfg n)))
              (\<lambda>res. return (identity, res)) w)
       (\<lambda>message. call_telegram api (AnswerMessage (points message) []))
       (\<lambda>(identity, res).
          if outcome_state res = ''active''
          then call_telegram api (AnswerMessage
            (points ''Your CopyMint access is active. Use /help to see commands.'') [])
          else if outcome_state res = ''cooldown''
          then call_telegram api (AnswerMessage
            (points ''Your previous request was rejected. Please try again later.'') [])
          else
            ask (call_telegram api (AnswerMessage
              (points ''Access request received. You will be notified after owner review.'') [])) (\<lambda>_.
            case outcome_request_id res of
              None \<Rightarrow> return ()
            | Some rid \<Rightarrow>
                if outcome_created res then notify_owners api cfg rid identity owner_ids
                else return ()))"

definition access_status_command ::
  "'b telegram_api \<Rightarrow> telegram_identity option \<Rightarrow>
     (access_db, 'b) bot_world \<Rightarrow> unit outcome \<times> (access_db, 'b) bot_world"
where
  "access_status_command api telegram_identity =
     unless_access_error
       (\<lambda>w. (attempt (require_identity telegram_identity) (\<lambda>identity.
          access_status identity (bot_store w)), w))
       (\<lambda>message. call_telegram api (AnswerMessage (points message) []))
       (\<lambda>res. call_telegram api (AnswerMessage
          (points (''CopyMint access status: '' @ outcome_state res @ ''.'')) []))"

definition help_text :: outgoing where
  "help_text = join_lines
     [points ''CopyMint Release 1 commands:'',
      points ''/access_status '' @ em_dash @ points '' view approval status'',
      points ''/create_wallet '' @ em_dash @ points '' review custody notice and create a wallet'',
      points ''/wallets '' @ em_dash @ points '' list your private execution wallets'',
      points ''/status '' @ em_dash @ points '' system status'',
      [],
      points ''Collection, analytics, and paper commands unlock in later phases.'']"

definition help_command ::
  "'b telegram_api \<Rightarrow> (access_db, 'b) bot_world \<Rightarrow> unit outcome \<times> (access_db, 'b) bot_world"
where
  "help_command api = call_telegram api (AnswerMessage help_text [])"

section \<open>The owner's commands\<close>

fun list_requests ::
  "'b telegram_api \<Rightarrow> bot_config \<Rightarrow> request_context \<Rightarrow> access_request_record list \<Rightarrow>
     (access_db, 'b) bot_world \<Rightarrow> unit outcome \<times> (access_db, 'b) bot_world"
where
  "list_requests api cfg ctx [] = return ()"
| "list_requests api cfg ctx (r # rs) =
     ask (owner_keyboard cfg (record_id r) (ctx_telegram_user_id ctx)) (\<lambda>keyboard.
     ask (call_telegram api (AnswerMessage (join_lines
         [points (''Request '' @ uuid_str (record_id r)),
          points (''Telegram ID: '' @ str_int (record_telegram_user_id r))]) keyboard)) (\<lambda>_.
     list_requests api cfg ctx rs))"

definition admin_requests ::
  "'b telegram_api \<Rightarrow> bot_config \<Rightarrow> handler_data \<Rightarrow>
     (access_db, 'b) bot_world \<Rightarrow> unit outcome \<times> (access_db, 'b) bot_world"
where
  "admin_requests api cfg data =
     unless_access_error
       (\<lambda>w. (attempt (require_context (data_context data) (data_access_error data)) (\<lambda>ctx.
          attempt (pending_requests ctx 20 (bot_store w)) (\<lambda>pending. Inr (ctx, pending))), w))
       (\<lambda>message. call_telegram api (AnswerMessage (points message) []))
       (\<lambda>(ctx, pending).
          if pending = []
          then call_telegram api (AnswerMessage (points ''There are no pending access requests.'') [])
          else list_requests api cfg ctx pending)"

text \<open>
  \<open>text.split(maxsplit=1)\<close>, and the second word as a number: \<open>isdigit\<close> also takes the superscript
  digits, which \<open>int\<close> then refuses, as it refuses more than 4300 digits.
\<close>

definition split_first_word :: "string \<Rightarrow> string list" where
  "split_first_word text =
     (let s = dropWhile is_white text;
          rest = dropWhile is_white (dropWhile (\<lambda>c. \<not> is_white c) s)
      in if s = [] then [] else takeWhile (\<lambda>c. \<not> is_white c) s # (if rest = [] then [] else [rest]))"

definition is_decimal_char :: "char \<Rightarrow> bool" where
  "is_decimal_char c \<longleftrightarrow> 48 \<le> ord_char c \<and> ord_char c \<le> 57"

definition is_digit_text :: "string \<Rightarrow> bool" where
  "is_digit_text s \<longleftrightarrow> s \<noteq> [] \<and> list_all (\<lambda>c. is_decimal_char c \<or> ord_char c \<in> {178, 179, 185}) s"

definition parse_int :: "string \<Rightarrow> int outcome" where
  "parse_int s =
     (if list_all is_decimal_char s \<and> length s \<le> 4300 then Inr (int (parse_decimal s))
      else Inl (ValueError ''invalid literal for int() with base 10''))"

definition revocation_payload :: "int \<Rightarrow> json" where
  "revocation_payload target = JObject [(''target_telegram_user_id'', JInt target)]"

definition admin_revoke ::
  "'b telegram_api \<Rightarrow> bot_config \<Rightarrow> handler_data \<Rightarrow> string option \<Rightarrow>
     (access_db, 'b) bot_world \<Rightarrow> unit outcome \<times> (access_db, 'b) bot_world"
where
  "admin_revoke api cfg data message_text =
     unless_access_error
       (\<lambda>w. case attempt (require_context (data_context data) (data_access_error data)) (\<lambda>ctx.
              attempt (require_platform_owner ctx) (\<lambda>_. Inr ctx)) of
          Inl e \<Rightarrow> raise e w
        | Inr ctx \<Rightarrow>
            (case split_first_word (case message_text of None \<Rightarrow> [] | Some text \<Rightarrow> text) of
               [command, word] \<Rightarrow>
                 if \<not> is_digit_text word then return None w
                 else
                   (case parse_int word of
                      Inl e \<Rightarrow> raise e w
                    | Inr target \<Rightarrow>
                        ask (fresh_id cfg) (\<lambda>resource.
                        ask (issue_confirmation cfg ctx ChallengeAction_REVOKE_ACCESS ''platform_user''
                            resource (Some (revocation_payload target)))
                          (\<lambda>issued. return (Some (target, issued_token issued)))) w)
             | _ \<Rightarrow> return None w))
       (\<lambda>message. call_telegram api (AnswerMessage (points message) []))
       (\<lambda>confirmation w. case confirmation of
          None \<Rightarrow> call_telegram api (AnswerMessage
            (points ''Usage: /admin_revoke <numeric_telegram_user_id>'') []) w
        | Some (target, token) \<Rightarrow>
            (case callback_data ''revoke'' token of
               Inl e \<Rightarrow> raise e w
             | Inr value \<Rightarrow> call_telegram api (AnswerMessage
                 (points (''Revoke CopyMint access for Telegram ID '' @ str_int target @ ''?''))
                 [(points ''Confirm revocation'', value)]) w))"

section \<open>The callback\<close>

text \<open>What a consumed confirmation does: the answer, whom to tell, and what.\<close>

definition decide ::
  "bot_config \<Rightarrow> int set \<Rightarrow> request_context \<Rightarrow> challenge_action \<Rightarrow> challenge_record \<Rightarrow>
     (access_db, 'b) bot_world \<Rightarrow> (string \<times> int \<times> string) outcome \<times> (access_db, 'b) bot_world"
where
  "decide cfg owner_ids ctx action r =
     (case action of
        ChallengeAction_APPROVE_ACCESS \<Rightarrow>
          ask (on_store (\<lambda>n. approve ctx (challenge_resource_id r) (config_now cfg n) (config_fresh cfg n)))
            (\<lambda>res. return
              (''Approved Telegram ID '' @ str_int (decision_telegram_user_id res) @ ''.'',
               decision_telegram_user_id res,
               ''Your CopyMint access request was approved. Use /help to begin.''))
      | ChallengeAction_REJECT_ACCESS \<Rightarrow>
          ask (on_store (\<lambda>n. reject ctx (challenge_resource_id r) None None (config_now cfg n)
              (config_fresh cfg n)))
            (\<lambda>res. return
              (''Rejected Telegram ID '' @ str_int (decision_telegram_user_id res) @ ''.'',
               decision_telegram_user_id res,
               ''Your CopyMint access request was not approved.''))
      | _ \<Rightarrow>
          (case (case challenge_payload r of
               JObject members \<Rightarrow> json_get members ''target_telegram_user_id'' | _ \<Rightarrow> JNull) of
             JInt target \<Rightarrow>
               ask (on_store (\<lambda>n. revoke owner_ids ctx target None (config_now cfg n) (config_fresh cfg n)))
                 (\<lambda>_. return (''Revoked Telegram ID '' @ str_int target @ ''.'', target,
                    ''Your CopyMint access has been revoked.''))
           | _ \<Rightarrow> raise (AccessFailure InvalidChallenge ''Revocation target is invalid.'')))"

definition callback_action :: "string \<Rightarrow> challenge_action option" where
  "callback_action name =
     (if name = ''approve'' then Some ChallengeAction_APPROVE_ACCESS
      else if name = ''reject'' then Some ChallengeAction_REJECT_ACCESS
      else if name = ''revoke'' then Some ChallengeAction_REVOKE_ACCESS
      else None)"

definition confirmed_decision ::
  "bot_config \<Rightarrow> int set \<Rightarrow> handler_data \<Rightarrow> pressed_button \<Rightarrow>
     (access_db, 'b) bot_world \<Rightarrow> (string \<times> int \<times> string) outcome \<times> (access_db, 'b) bot_world"
where
  "confirmed_decision cfg owner_ids data button w =
     (case require_context (data_context data) (data_access_error data) of
        Inl e \<Rightarrow> raise e w
      | Inr ctx \<Rightarrow>
          (case split_most 3 (CHR '':'') (pressed_data button) of
             [prefix, version, name, token] \<Rightarrow>
               (case callback_action name of
                  None \<Rightarrow> raise (AccessFailure InvalidChallenge ''Unknown confirmation action.'') w
                | Some action \<Rightarrow>
                    ask (consume_confirmation cfg ctx token action) (decide cfg owner_ids ctx action) w)
           | _ \<Rightarrow> raise (AccessFailure InvalidChallenge ''Malformed confirmation.'') w))"

definition access_callback ::
  "'b telegram_api \<Rightarrow> bot_config \<Rightarrow> int set \<Rightarrow> handler_data \<Rightarrow> pressed_button \<Rightarrow>
     (access_db, 'b) bot_world \<Rightarrow> unit outcome \<times> (access_db, 'b) bot_world"
where
  "access_callback api cfg owner_ids data button =
     unless_access_error (confirmed_decision cfg owner_ids data button)
       (\<lambda>message. call_telegram api (AnswerCallback (points message)))
       (\<lambda>(response, target, message).
          ask (call_telegram api (AnswerCallback (points response))) (\<lambda>_.
          ask (call_telegram api (SendMessage target (points message) [])) (\<lambda>_.
          case pressed_message button of
            None \<Rightarrow> return ()
          | Some (chat, mid) \<Rightarrow> call_telegram api (EditMessageText chat mid (points response)))))"

end
