(* ===== verification/Confirmations.thy ===== *)
theory Confirmations
  imports AccessHandlers
begin

text \<open>
  What a press of a button amounts to: the buttons sent to an owner approve the request they name, a
  confirmation acts once however often and by whomever it is presented, and a repeated request of
  access tells no owner.
\<close>

section \<open>Frames\<close>

text \<open>Calls to Telegram leave the tables alone.\<close>

definition same_tables :: "('s, 'b) bot_world \<Rightarrow> ('s, 'b) bot_world \<Rightarrow> bool" where
  "same_tables w w' \<longleftrightarrow> bot_store w' = bot_store w \<and> bot_challenges w' = bot_challenges w"

lemma same_tables_refl [simp]: "same_tables w w"
  by (simp add: same_tables_def)

lemma same_tables_trans: "same_tables w w' \<Longrightarrow> same_tables w' w'' \<Longrightarrow> same_tables w w''"
  by (simp add: same_tables_def)

text \<open>A computation that leaves the tables alone, from every world.\<close>

definition only_talks :: "(('s, 'b) bot_world \<Rightarrow> 'a outcome \<times> ('s, 'b) bot_world) \<Rightarrow> bool" where
  "only_talks m \<longleftrightarrow> (\<forall>w. same_tables w (snd (m w)))"

lemma only_talks_call [intro]: "only_talks (call_telegram api call)"
  by (simp add: only_talks_def same_tables_def call_telegram_frame)

lemma only_talks_return [intro]: "only_talks (return x)"
  by (simp add: only_talks_def return_def)

lemma only_talks_ask [intro]:
  assumes "only_talks m" and "\<And>x. only_talks (f x)"
  shows "only_talks (ask m f)"
  unfolding only_talks_def
proof
  fix w
  obtain answer w1 where run: "m w = (answer, w1)" by fastforce
  with assms(1) have "same_tables w w1" by (metis only_talks_def snd_conv)
  moreover have "same_tables w1 (snd (f x w1))" for x using assms(2) by (simp add: only_talks_def)
  ultimately show "same_tables w (snd (ask m f w))"
    using run by (auto simp: ask_def split: sum.splits intro: same_tables_trans)
qed

lemma only_talksD: "only_talks m \<Longrightarrow> m w = (answer, w') \<Longrightarrow> same_tables w w'"
  by (metis only_talks_def snd_conv)

text \<open>A handler whose answers only talk leaves the tables where its checks left them.\<close>

lemma unless_access_error_tables:
  assumes "m w = (answer, w1)" and "\<And>message. only_talks (refused message)" and "\<And>x. only_talks (rest x)"
  shows "same_tables w1 (snd (unless_access_error m refused rest w))"
proof (cases answer)
  case (Inl e)
  with assms show ?thesis
    by (cases e) (auto simp: unless_access_error_def only_talks_def)
next
  case (Inr x)
  with assms show ?thesis by (simp add: unless_access_error_def only_talks_def)
qed

lemma access_callback_tables:
  assumes "confirmed_decision cfg owners data button w = (answer, w1)"
  shows "same_tables w1 (snd (access_callback api cfg owners data button w))"
  unfolding access_callback_def
  by (rule unless_access_error_tables [where m = "confirmed_decision cfg owners data button" and w = w, OF assms])
    (auto split: prod.splits option.splits)

section \<open>Spent tokens\<close>

text \<open>The table holds a consumed challenge with the token's hash.\<close>

definition spent_token :: "(bytes \<Rightarrow> bytes) \<Rightarrow> string \<Rightarrow> challenge_record list \<Rightarrow> bool" where
  "spent_token sha256 token rows \<longleftrightarrow>
     (\<exists>r \<in> set rows. hash_challenge_token sha256 token = Inr (challenge_token_hash r) \<and>
        challenge_consumed_at r \<noteq> None)"

lemma spent_not_consumable:
  assumes "challenge_table_ok rows" and "spent_token sha256 token rows"
    and "hash_challenge_token sha256 token = Inr h" and "r \<in> set rows"
  shows "\<not> consumable h action actor chat now r"
proof
  assume fits: "consumable h action actor chat now r"
  from assms(2,3) obtain r' where r': "r' \<in> set rows" "challenge_token_hash r' = h"
    "challenge_consumed_at r' \<noteq> None" by (auto simp: spent_token_def)
  with fits challenge_unique [OF assms(1) r'(1) assms(4)] show False by (simp add: consumable_def)
qed

lemma consume_InrE:
  assumes "consume consume_op sha256 actor token action now s = (Inr r, s')"
  obtains h where "hash_challenge_token sha256 token = Inr h"
    and "consume_op h action (ctx_telegram_user_id actor) (ctx_chat_id actor) now s = (Some r, s')"
proof (cases "attempt (challenge_guard actor action) (\<lambda>_. hash_challenge_token sha256 token)")
  case (Inl e)
  with assms show thesis by (simp add: consume_def)
next
  case (Inr h)
  obtain found s1 where run: "consume_op h action (ctx_telegram_user_id actor) (ctx_chat_id actor) now s =
      (found, s1)" by fastforce
  with Inr assms have "found = Some r" "s1 = s'" by (simp_all add: consume_def split: option.splits)
  moreover have "hash_challenge_token sha256 token = Inr h" using Inr by (blast elim: attempt_InrE)
  ultimately show thesis using run that by blast
qed

lemma consume_spends_token:
  assumes "challenge_table_ok rows"
    and "consume consume_challenge sha256 actor token action now rows = (Inr r, rows')"
  shows "spent_token sha256 token rows'"
proof -
  from consume_InrE [OF assms(2)] obtain h where h: "hash_challenge_token sha256 token = Inr h"
    and run: "consume_challenge h action (ctx_telegram_user_id actor) (ctx_chat_id actor) now rows =
      (Some r, rows')" by blast
  from consume_challenge_found [OF assms(1) run] obtain r0 where
    r0: "consumable h action (ctx_telegram_user_id actor) (ctx_chat_id actor) now r0" "r = consumed now r0"
      "set rows' = insert r (set rows - {r0})" by blast
  then have "r \<in> set rows'" "challenge_token_hash r = h" "challenge_consumed_at r \<noteq> None"
    by (simp_all add: consumable_def)
  with h show ?thesis unfolding spent_token_def by blast
qed

text \<open>A spent token is refused, with the table as it was.\<close>

lemma consume_spent:
  assumes "challenge_table_ok rows" and "spent_token sha256 token rows"
  shows "snd (consume consume_challenge sha256 actor token action now rows) = rows \<and>
    (\<exists>e. fst (consume consume_challenge sha256 actor token action now rows) = Inl e)"
proof (cases "attempt (challenge_guard actor action) (\<lambda>_. hash_challenge_token sha256 token)")
  case (Inl e)
  then show ?thesis by (simp add: consume_def)
next
  case (Inr h)
  then have h: "hash_challenge_token sha256 token = Inr h" by (auto elim!: attempt_InrE)
  have "consume_challenge h action (ctx_telegram_user_id actor) (ctx_chat_id actor) now rows = (None, rows)"
    unfolding consume_challenge_refused
    using spent_not_consumable [OF assms h] by simp
  with Inr show ?thesis by (simp add: consume_def)
qed

text \<open>A history of further issues and consumptions, by anyone.\<close>

definition after_calls ::
  "(bytes \<Rightarrow> bytes) \<Rightarrow> duration \<Rightarrow> challenge_call list \<Rightarrow> challenge_record list \<Rightarrow> challenge_record list"
where
  "after_calls sha256 ttl calls rows =
     foldl (\<lambda>s c. snd (run_call create_challenge consume_challenge sha256 ttl c s)) rows calls"

lemma run_call_spent:
  assumes "challenge_table_ok rows" and "spent_token sha256 token rows"
  shows "challenge_table_ok (snd (run_call create_challenge consume_challenge sha256 ttl c rows)) \<and>
    spent_token sha256 token (snd (run_call create_challenge consume_challenge sha256 ttl c rows))"
proof (cases c)
  case (Issue actor action rt rid p tok now nid)
  obtain answer rows' where run: "issue create_challenge sha256 ttl actor action rt rid p tok now nid rows =
      (answer, rows')" by fastforce
  have "rows' = rows \<or> (\<exists>r. rows' = rows @ [r])"
  proof (cases answer)
    case (Inl e)
    with run show ?thesis by (auto simp: issue_def transact_Inr_iff elim: transact.elims)
  next
    case (Inr issued)
    with issue_stores(1) [OF run [unfolded Inr]] show ?thesis by blast
  qed
  with assms(2) have "spent_token sha256 token rows'" by (auto simp: spent_token_def)
  with challenges.issue_ok [OF assms(1), of sha256 ttl actor action rt rid p tok now nid] run Issue
  show ?thesis by simp
next
  case (Consume actor tok action now)
  obtain answer rows' where run: "consume consume_challenge sha256 actor tok action now rows = (answer, rows')"
    by fastforce
  have "spent_token sha256 token rows'"
  proof (cases answer)
    case (Inl e)
    with challenges.consume_cases [OF assms(1) run] assms(2) show ?thesis by simp
  next
    case (Inr r)
    from consume_InrE [OF run [unfolded Inr]] obtain h where
      op: "consume_challenge h action (ctx_telegram_user_id actor) (ctx_chat_id actor) now rows = (Some r, rows')"
      by blast
    from consume_challenge_found [OF assms(1) op] obtain r0 where r0: "consumable h action
        (ctx_telegram_user_id actor) (ctx_chat_id actor) now r0" "set rows' = insert r (set rows - {r0})"
      by blast
    from assms(2) obtain r' where r': "r' \<in> set rows"
      "hash_challenge_token sha256 token = Inr (challenge_token_hash r')" "challenge_consumed_at r' \<noteq> None"
      by (auto simp: spent_token_def)
    have "r' \<noteq> r0" using r0(1) r'(3) by (auto simp: consumable_def)
    then have "r' \<in> set rows'" using r0(2) r'(1) by blast
    with r' show ?thesis unfolding spent_token_def by blast
  qed
  with challenges.consume_cases [OF assms(1) run] run Consume show ?thesis by (cases answer) auto
qed

lemma after_calls_spent:
  "challenge_table_ok rows \<Longrightarrow> spent_token sha256 token rows \<Longrightarrow>
     challenge_table_ok (after_calls sha256 ttl calls rows) \<and>
     spent_token sha256 token (after_calls sha256 ttl calls rows)"
  by (induction calls arbitrary: rows) (simp_all add: after_calls_def run_call_spent)

section \<open>A confirmation acts once\<close>

lemma on_store_frame: "bot_challenges (snd (on_store f w)) = bot_challenges w"
  by (simp add: on_store_def split: prod.splits)

lemma ask_challenges:
  assumes "\<And>w. bot_challenges (snd (m w)) = bot_challenges w"
    and "\<And>x w. bot_challenges (snd (f x w)) = bot_challenges w"
  shows "bot_challenges (snd (ask m f w)) = bot_challenges w"
  using assms(1) [of w] assms(2) by (auto simp: ask_def split: prod.splits sum.splits)

lemma decide_challenges: "bot_challenges (snd (decide cfg owners ctx action r w)) = bot_challenges w"
  unfolding decide_def
  by (auto split: challenge_action.splits json.splits
      intro!: ask_challenges simp: on_store_frame return_def raise_def)

lemma consume_confirmation_eq:
  "consume_confirmation cfg actor token action w =
    (fst (consume consume_challenge (config_sha256 cfg) actor token action (config_now cfg (bot_readings w))
       (bot_challenges w)),
     w\<lparr> bot_challenges := snd (consume consume_challenge (config_sha256 cfg) actor token action
         (config_now cfg (bot_readings w)) (bot_challenges w)),
       bot_readings := bot_readings w + 1 \<rparr>)"
  by (simp add: consume_confirmation_def Let_def split: prod.splits)

lemma decision_spent:
  assumes "challenge_table_ok (bot_challenges w)"
    and "spent_token (config_sha256 cfg) token (bot_challenges w)"
    and "split_most 3 (CHR '':'') (pressed_data button) = [prefix, version, name, token]"
  shows "same_tables w (snd (confirmed_decision cfg owners data button w))"
proof -
  have "same_tables w (snd (ask (consume_confirmation cfg ctx token action) f w))" for ctx action f
    using consume_spent [OF assms(1,2), of ctx action "config_now cfg (bot_readings w)"]
    by (auto simp: ask_def consume_confirmation_eq same_tables_def)
  then show ?thesis
    using assms(3) by (auto simp: confirmed_decision_def raise_def split: sum.splits option.splits)
qed

lemma decision_effect:
  assumes ok: "challenge_table_ok (bot_challenges w)"
    and parts: "split_most 3 (CHR '':'') (pressed_data button) = [prefix, version, name, token]"
    and run: "confirmed_decision cfg owners data button w = (answer, w1)" and "\<not> same_tables w w1"
  shows "challenge_table_ok (bot_challenges w1) \<and>
    spent_token (config_sha256 cfg) token (bot_challenges w1)"
proof -
  from run assms(4) parts obtain ctx action where
    step: "ask (consume_confirmation cfg ctx token action) (decide cfg owners ctx action) w = (answer, w1)"
    by (auto simp: confirmed_decision_def raise_def split: sum.splits option.splits)
  obtain found rows where consume: "consume consume_challenge (config_sha256 cfg) ctx token action
      (config_now cfg (bot_readings w)) (bot_challenges w) = (found, rows)" by fastforce
  show ?thesis
  proof (cases found)
    case (Inl e)
    with challenges.consume_cases [OF ok consume] step consume assms(4) show ?thesis
      by (auto simp: ask_def consume_confirmation_eq same_tables_def)
  next
    case (Inr r)
    with step consume decide_challenges [of cfg owners ctx action r
        "w\<lparr> bot_challenges := rows, bot_readings := bot_readings w + 1 \<rparr>"]
    have "bot_challenges w1 = rows" by (simp add: ask_def consume_confirmation_eq)
    with challenges.consume_cases [OF ok consume] consume_spends_token [OF ok consume [unfolded Inr]]
    show ?thesis by simp
  qed
qed

text \<open>
  C4. A confirmation acts once. When a press of a button has changed anything, then after any further
  issues and consumptions by anyone no press that presents the same token, by whomever, of whichever
  button and at whatever time, changes the access tables or the challenges.
\<close>

theorem confirmation_acts_once:
  assumes "challenge_table_ok (bot_challenges w)"
    and "split_most 3 (CHR '':'') (pressed_data button) = [prefix, version, name, token]"
    and "access_callback api cfg owners data button w = (answer, w1)" and "\<not> same_tables w w1"
    and "bot_challenges w2 = after_calls (config_sha256 cfg) ttl calls (bot_challenges w1)"
    and "split_most 3 (CHR '':'') (pressed_data button') = [prefix', version', name', token]"
  shows "same_tables w2 (snd (access_callback api' cfg owners data' button' w2))"
proof -
  obtain decision v where run: "confirmed_decision cfg owners data button w = (decision, v)" by fastforce
  from access_callback_tables [OF run, of api] assms(3) have v: "same_tables v w1" by simp
  with assms(4) have "\<not> same_tables w v" by (blast intro: same_tables_trans)
  from decision_effect [OF assms(1,2) run this] v
  have spent: "challenge_table_ok (bot_challenges w1)"
    "spent_token (config_sha256 cfg) token (bot_challenges w1)" by (simp_all add: same_tables_def)
  obtain decision' v' where run': "confirmed_decision cfg owners data' button' w2 = (decision', v')" by fastforce
  from after_calls_spent [OF spent, of ttl calls] assms(5) decision_spent [OF _ _ assms(6), of w2 cfg owners data'] run'
  have "same_tables w2 v'" by simp
  with access_callback_tables [OF run', of api'] show ?thesis by (blast intro: same_tables_trans)
qed

section \<open>The owner's buttons\<close>

lemma issue_confirmation_InrD:
  assumes "issue_confirmation cfg actor action rtype rid payload w = (Inr issued, w')"
  shows "issue create_challenge (config_sha256 cfg) (config_ttl cfg) actor action rtype rid payload
      (config_token cfg (bot_readings w)) (config_now cfg (bot_readings w)) (config_id cfg (bot_readings w))
      (bot_challenges w) = (Inr issued, bot_challenges w')"
    and "bot_readings w' = bot_readings w + 1"
  using assms by (auto simp: issue_confirmation_def Let_def split: prod.splits)

lemma issue_confirmation_ok:
  assumes "challenge_table_ok (bot_challenges w)"
    and "issue_confirmation cfg actor action rtype rid payload w = (answer, w')"
  shows "challenge_table_ok (bot_challenges w')"
  using challenges.issue_ok [OF assms(1), of "config_sha256 cfg" "config_ttl cfg" actor action rtype rid
      payload "config_token cfg (bot_readings w)" "config_now cfg (bot_readings w)"
      "config_id cfg (bot_readings w)"] assms(2)
  by (auto simp: issue_confirmation_def Let_def split: prod.splits)

lemma owner_keyboard_issues:
  assumes "challenge_table_ok (bot_challenges w)" and "owner_keyboard cfg rid owner_id w = (Inr keyboard, w1)"
  obtains approve :: issued_challenge where "challenge_table_ok (bot_challenges w1)"
    and "issued_record approve \<in> set (bot_challenges w1)"
    and "callback_data ''approve'' (issued_token approve) = Inr (snd (hd keyboard))"
    and "hash_challenge_token (config_sha256 cfg) (issued_token approve) =
      Inr (challenge_token_hash (issued_record approve))"
    and "consumable (challenge_token_hash (issued_record approve)) ChallengeAction_APPROVE_ACCESS owner_id
      owner_id now (issued_record approve) \<longleftrightarrow> now < config_now cfg (bot_readings w + 1) + config_ttl cfg"
    and "challenge_resource_id (issued_record approve) = rid"
proof -
  let ?owner = "platform_owner_context (config_id cfg (bot_readings w))
    \<lparr> identity_telegram_user_id = owner_id, identity_chat_id = owner_id,
      identity_chat_type = ''private'', identity_username = None, identity_display_name = None \<rparr>"
  have owner: "ctx_telegram_user_id ?owner = owner_id" "ctx_chat_id ?owner = owner_id"
    by (simp_all add: platform_owner_context_def)
  let ?w = "w\<lparr> bot_readings := bot_readings w + 1 \<rparr>"
  from assms(2) have "ask (issue_confirmation cfg ?owner ChallengeAction_APPROVE_ACCESS ''access_request'' rid None)
      (\<lambda>approve. ask (issue_confirmation cfg ?owner ChallengeAction_REJECT_ACCESS ''access_request'' rid None)
        (\<lambda>reject w. (attempt (callback_data ''approve'' (issued_token approve)) (\<lambda>approve_data.
          attempt (callback_data ''reject'' (issued_token reject)) (\<lambda>reject_data.
            Inr [(points ''Approve'', approve_data), (points ''Reject'', reject_data)])), w))) ?w =
      (Inr keyboard, w1)"
    by (simp only: owner_keyboard_def Let_def ask_fresh_id)
  then obtain approve wa where
    first: "issue_confirmation cfg ?owner ChallengeAction_APPROVE_ACCESS ''access_request'' rid None ?w =
      (Inr approve, wa)"
    and rest: "ask (issue_confirmation cfg ?owner ChallengeAction_REJECT_ACCESS ''access_request'' rid None)
        (\<lambda>reject w. (attempt (callback_data ''approve'' (issued_token approve)) (\<lambda>approve_data.
          attempt (callback_data ''reject'' (issued_token reject)) (\<lambda>reject_data.
            Inr [(points ''Approve'', approve_data), (points ''Reject'', reject_data)])), w)) wa =
      (Inr keyboard, w1)"
    by (rule ask_InrE)
  from rest obtain reject where
    second: "issue_confirmation cfg ?owner ChallengeAction_REJECT_ACCESS ''access_request'' rid None wa =
      (Inr reject, w1)"
    and button: "callback_data ''approve'' (issued_token approve) = Inr (snd (hd keyboard))"
    by (rule ask_InrE) (auto simp: attempt_eq_Inr_iff)
  note a = issue_confirmation_InrD(1) [OF first] and r = issue_confirmation_InrD(1) [OF second]
  note stored = issue_stores [OF a]
  have "challenge_table_ok (bot_challenges ?w)" using assms(1) by simp
  then have "challenge_table_ok (bot_challenges wa)" using first by (rule issue_confirmation_ok)
  then have ok: "challenge_table_ok (bot_challenges w1)" using second by (rule issue_confirmation_ok)
  have member: "issued_record approve \<in> set (bot_challenges w1)"
    using stored(1) issue_stores(1) [OF r] by simp
  show thesis
    by (rule that [OF ok member button]) (use stored owner in \<open>auto simp: consumable_def\<close>)
qed

text \<open>
  C5. The owner's buttons work. The first button of the keyboard sent to a platform owner for a pending
  request, pressed by that owner before it expires, approves that request: the requester becomes owner
  of a workspace, whatever Telegram does with the answers.
\<close>

theorem owner_buttons_work:
  assumes "challenge_table_ok (bot_challenges w)"
    and "owner_keyboard cfg (request_id req) owner_id w = (Inr keyboard, w1)"
    and "pressed_data button = snd (hd keyboard)"
    and "bot_challenges w2 = bot_challenges w1"
    and "config_now cfg (bot_readings w2) < config_now cfg (bot_readings w + 1) + config_ttl cfg"
    and "data_context data = Some ctx" and "require_platform_owner ctx = Inr ()"
    and "ctx_telegram_user_id ctx = owner_id" and "length (str_int owner_id) \<le> 128"
    and "access_settled (bot_store w2)"
    and "fresh_for (config_fresh cfg (bot_readings w2 + 1)) (bot_store w2)"
    and "req \<in> set (access_requests (bot_store w2))" and "is_pending req" and "access_request_fits req"
    and "length (request_label req) \<le> 108"
  shows "\<exists>ws. standing (request_telegram_user_id req)
      (bot_store (snd (access_callback api cfg owners data button w2))) =
    Approved (Some (ws, WorkspaceRole_OWNER))"
proof -
  from assms(1,2) obtain issued :: issued_challenge where ok: "challenge_table_ok (bot_challenges w1)"
    and row: "issued_record issued \<in> set (bot_challenges w1)"
    and button_data: "callback_data ''approve'' (issued_token issued) = Inr (snd (hd keyboard))"
    and hash: "hash_challenge_token (config_sha256 cfg) (issued_token issued) =
      Inr (challenge_token_hash (issued_record issued))"
    and fits: "consumable (challenge_token_hash (issued_record issued)) ChallengeAction_APPROVE_ACCESS owner_id
      owner_id (config_now cfg (bot_readings w2)) (issued_record issued) \<longleftrightarrow>
        config_now cfg (bot_readings w2) < config_now cfg (bot_readings w + 1) + config_ttl cfg"
    and rid: "challenge_resource_id (issued_record issued) = request_id req"
    by (rule owner_keyboard_issues [where now = "config_now cfg (bot_readings w2)"])
  have chat: "ctx_chat_id ctx = owner_id"
    using assms(7,8) by (simp add: require_platform_owner_iff private_context_def)
  have parts: "split_most 3 (CHR '':'') (pressed_data button) =
      [''access'', ''v1'', ''approve'', issued_token issued]"
    unfolding assms(3) by (rule split_callback_data [OF button_data]) simp
  have guard: "challenge_guard ctx ChallengeAction_APPROVE_ACCESS = Inr ()"
    using assms(7) by (simp add: challenge_guard_def)
  have "consumable (challenge_token_hash (issued_record issued)) ChallengeAction_APPROVE_ACCESS
      (ctx_telegram_user_id ctx) (ctx_chat_id ctx) (config_now cfg (bot_readings w2)) (issued_record issued)"
    using fits assms(5,8) chat by simp
  from consume_finds [OF ok row guard hash this] assms(4) obtain rows where
    consume: "consume_confirmation cfg ctx (issued_token issued) ChallengeAction_APPROVE_ACCESS w2 =
      (Inr (consumed (config_now cfg (bot_readings w2)) (issued_record issued)),
       w2\<lparr> bot_challenges := rows, bot_readings := bot_readings w2 + 1 \<rparr>)"
    by (simp add: consume_confirmation_eq)
  from approve_opens_workspace [OF assms(10,11,7) _ assms(12-15), of "config_now cfg (bot_readings w2 + 1)"]
    assms(8,9) obtain res db ws where
    approve: "approve ctx (request_id req) (config_now cfg (bot_readings w2 + 1))
      (config_fresh cfg (bot_readings w2 + 1)) (bot_store w2) = (Inr res, db)"
      "standing (request_telegram_user_id req) db = Approved (Some (ws, WorkspaceRole_OWNER))" by auto
  have "\<exists>answer v. confirmed_decision cfg owners data button w2 = (answer, v) \<and> bot_store v = db"
    using approve(1) by (simp add: confirmed_decision_def require_context_def assms(6) parts
        callback_action_def ask_def consume decide_def on_store_def return_def consumed_def rid)
  then obtain answer v where "confirmed_decision cfg owners data button w2 = (answer, v)" "bot_store v = db"
    by blast
  with access_callback_tables [of cfg owners data button w2 answer v api] approve(2) show ?thesis
    by (auto simp: same_tables_def)
qed

section \<open>A repeated request\<close>

text \<open>The notifications change no access table.\<close>

lemma ask_store:
  assumes "\<And>w. bot_store (snd (m w)) = bot_store w" and "\<And>x w. bot_store (snd (f x w)) = bot_store w"
  shows "bot_store (snd (ask m f w)) = bot_store w"
  using assms(1) [of w] assms(2) by (auto simp: ask_def split: prod.splits sum.splits)

lemma issue_confirmation_store:
  "bot_store (snd (issue_confirmation cfg actor action rtype rid payload w)) = bot_store w"
  by (simp add: issue_confirmation_def Let_def split: prod.splits)

lemma owner_keyboard_store: "bot_store (snd (owner_keyboard cfg rid owner_id w)) = bot_store w"
  unfolding owner_keyboard_def Let_def
  by (intro ask_store) (simp_all add: issue_confirmation_store fresh_id_def)

lemma notify_owners_store: "bot_store (snd (notify_owners api cfg rid identity owner_ids w)) = bot_store w"
proof (induction owner_ids arbitrary: w)
  case (Cons owner_id owner_ids)
  then show ?case
    by (simp only: notify_owners.simps) (intro ask_store, simp_all add: owner_keyboard_store call_telegram_frame)
qed (simp add: return_def)

lemma start_keeps_request:
  assumes "request_access identity (config_now cfg (bot_readings w)) (config_id cfg (bot_readings w))
      (bot_store w) = (Inr res, db)"
    and "start api cfg owner_ids (Some identity) w = (answer, w1)"
  shows "bot_store w1 = db"
proof -
  let ?w = "w\<lparr> bot_store := db, bot_readings := bot_readings w + 1 \<rparr>"
  let ?call = "\<lambda>msg. call_telegram api (AnswerMessage (points msg) [])"
  have "bot_store (snd (ask (?call msg) (\<lambda>_. case rid of None \<Rightarrow> return ()
      | Some r \<Rightarrow> if created then notify_owners api cfg r identity owner_ids else return ()) ?w)) = db"
    for msg rid created
    by (subst ask_store) (auto simp: call_telegram_frame notify_owners_store return_def split: option.splits)
  moreover have "bot_store (snd (?call msg ?w)) = db" for msg by (simp add: call_telegram_frame)
  ultimately have "bot_store (snd (start api cfg owner_ids (Some identity) w)) = db"
    using assms(1)
    by (simp add: start_def unless_access_error_def require_identity_def ask_def [where m = "on_store f" for f]
        on_store_def return_def [of "(identity, res)"] Let_def)
  with assms(2) show ?thesis by simp
qed


section \<open>Witnesses\<close>

definition sample_bot_config :: bot_config where
  "sample_bot_config = \<lparr> config_sha256 = sample_digest, config_ttl = minutes 5,
     config_now = (\<lambda>n. 1000 + int n), config_id = (\<lambda>n. 7 + int n), config_fresh = (\<lambda>n. sample_ids),
     config_token = (\<lambda>n. replicate n (CHR ''t'') @ ''k'') \<rparr>"

text \<open>Telegram that takes everything, and one that refuses messages to anyone but the asking user.\<close>

definition recording_api :: "telegram_call list telegram_api" where
  "recording_api call sent = (Inr (), sent @ [call])"

definition refusing_api :: "telegram_call list telegram_api" where
  "refusing_api call sent =
     (case call of SendMessage chat t k \<Rightarrow> (Inl (ForeignError ''Forbidden''), sent)
      | _ \<Rightarrow> (Inr (), sent @ [call]))"

definition owner_world :: "(access_db, telegram_call list) bot_world" where
  "owner_world = \<lparr> bot_store = requested_db, bot_challenges = [], bot_readings = 0, bot_telegram = [] \<rparr>"

definition owner_data :: handler_data where
  "owner_data = \<lparr> data_identity = None, data_context = Some owner_context, data_access_error = None \<rparr>"

definition first_button :: "keyboard \<Rightarrow> pressed_button" where
  "first_button keyboard = \<lparr> pressed_data = snd (hd keyboard), pressed_message = None \<rparr>"

definition sent_keyboard :: "keyboard outcome \<times> (access_db, telegram_call list) bot_world" where
  "sent_keyboard = owner_keyboard sample_bot_config (request_id (new_request requester 1000 7)) 1 owner_world"

lemma sent_keyboard_shown:
  "(case fst sent_keyboard of Inl e \<Rightarrow> None
     | Inr keyboard \<Rightarrow> Some (map snd keyboard, bot_readings (snd sent_keyboard))) =
   Some ([''access:v1:approve:tk'', ''access:v1:reject:ttk''], 3) \<and> bot_store (snd sent_keyboard) = requested_db"
  unfolding sent_keyboard_def owner_world_def by code_simp

lemma sent_keyboardE:
  obtains keyboard w1 where "sent_keyboard = (Inr keyboard, w1)" and "bot_readings w1 = 3"
    and "bot_store w1 = requested_db" and "snd (hd keyboard) = ''access:v1:approve:tk''"
proof -
  obtain out w1 where run: "sent_keyboard = (out, w1)" by fastforce
  note shown = sent_keyboard_shown [unfolded run fst_conv snd_conv]
  then obtain keyboard where out: "out = Inr keyboard"
    and keyboard: "map snd keyboard = [''access:v1:approve:tk'', ''access:v1:reject:ttk'']"
    by (cases out) auto
  have "bot_readings w1 = 3" "bot_store w1 = requested_db" using shown out by simp_all
  moreover from keyboard have "snd (hd keyboard) = ''access:v1:approve:tk''" by (cases keyboard) simp_all
  ultimately show thesis using that run out by blast
qed

theorem owner_buttons_work_witness:
  "\<exists>keyboard w1 ws. sent_keyboard = (Inr keyboard, w1) \<and>
     standing 42 (bot_store (snd (access_callback recording_api sample_bot_config {1} owner_data
       (first_button keyboard) w1))) = Approved (Some (ws, WorkspaceRole_OWNER))"
proof -
  obtain keyboard w1 where run: "sent_keyboard = (Inr keyboard, w1)" and w1: "bot_readings w1 = 3"
    "bot_store w1 = requested_db" by (rule sent_keyboardE)
  have ok: "challenge_table_ok (bot_challenges owner_world)"
    by (simp add: owner_world_def challenge_table_ok_def)
  have times: "config_now sample_bot_config (bot_readings w1) <
      config_now sample_bot_config (bot_readings owner_world + 1) + config_ttl sample_bot_config"
    by (simp add: sample_bot_config_def owner_world_def w1)
  have data: "data_context owner_data = Some owner_context" by (simp add: owner_data_def)
  have button: "pressed_data (first_button keyboard) = snd (hd keyboard)" by (simp add: first_button_def)
  have store: "access_settled (bot_store w1)"
    "fresh_for (config_fresh sample_bot_config (bot_readings w1 + 1)) (bot_store w1)"
    "new_request requester 1000 7 \<in> set (access_requests (bot_store w1))"
    using access_reachable_settled [OF requested_db_reachable] requested_db_fresh requested_db_request(1)
    by (simp_all add: w1 sample_bot_config_def)
  have "is_pending (new_request requester 1000 7)" by (simp add: is_pending_def new_request_def)
  from owner_buttons_work [OF ok run [unfolded sent_keyboard_def] button refl times data owner_context_ok(1,2)
      str_int_1 store this requested_db_request(2,3), of recording_api "{1}"]
  obtain ws where "standing 42 (bot_store (snd (access_callback recording_api sample_bot_config {1} owner_data
       (first_button keyboard) w1))) = Approved (Some (ws, WorkspaceRole_OWNER))"
    by (auto simp: new_request_def requester_def)
  with run show ?thesis by blast
qed

text \<open>The owner confirms the revocation of a user the database does not know.\<close>

definition asking_world :: "(access_db, telegram_call list) bot_world" where
  "asking_world = owner_world\<lparr> bot_store := empty_access_db False \<rparr>"

definition issued_revocation :: "issued_challenge outcome \<times> (access_db, telegram_call list) bot_world" where
  "issued_revocation = issue_confirmation sample_bot_config owner_context ChallengeAction_REVOKE_ACCESS
     ''platform_user'' 50 (Some (revocation_payload 9)) asking_world"

definition revoke_button :: pressed_button where
  "revoke_button = \<lparr> pressed_data = ''access:v1:revoke:k'', pressed_message = None \<rparr>"

lemma revocation_shown:
  "map challenge_consumed_at (bot_challenges (snd issued_revocation)) = [None]"
  "length (bot_challenges (snd issued_revocation)) = 1"
  "map challenge_consumed_at (bot_challenges (snd (access_callback recording_api sample_bot_config {1} owner_data
     revoke_button (snd issued_revocation)))) = [Some 1001]"
  unfolding issued_revocation_def asking_world_def owner_world_def by code_simp+

theorem confirmation_acts_once_witness:
  "\<exists>answer w1. access_callback recording_api sample_bot_config {1} owner_data revoke_button
      (snd issued_revocation) = (answer, w1) \<and>
     \<not> same_tables (snd issued_revocation) w1 \<and>
     same_tables w1 (snd (access_callback recording_api sample_bot_config {1} owner_data revoke_button w1))"
proof -
  obtain answer w1 where run: "access_callback recording_api sample_bot_config {1} owner_data revoke_button
      (snd issued_revocation) = (answer, w1)" by fastforce
  with revocation_shown have changed: "\<not> same_tables (snd issued_revocation) w1"
    by (auto simp: same_tables_def)
  have parts: "split_most 3 (CHR '':'') (pressed_data revoke_button) = [''access'', ''v1'', ''revoke'', ''k'']"
    by code_simp
  have ok: "challenge_table_ok (bot_challenges (snd issued_revocation))"
    using revocation_shown(2)
    by (auto simp: challenge_table_ok_def unique_table_def length_Suc_conv)
  have "bot_challenges w1 = after_calls (config_sha256 sample_bot_config) 0 [] (bot_challenges w1)"
    by (simp add: after_calls_def)
  from confirmation_acts_once [OF ok parts run changed this parts] run changed show ?thesis by blast
qed

lemma first_request:
  "request_access requester 1000 7 (empty_access_db False) =
    (Inr \<lparr> outcome_state = ''pending'', outcome_request_id = Some 7, outcome_created = True \<rparr>, requested_db)"
  by (simp add: request_access_def requested_db_run find_principal_def find_latest_request_def
      identity_require_private_chat_def is_private_chat_def is_active_principal_def
      request_record_def) (simp add: empty_access_db_def requester_def)


end
