(* ===== verification/WalletHandlers.thy ===== *)
theory WalletHandlers
  imports Confirmations Wallets
begin

text \<open>
  The wallet handlers (\<^verbatim>\<open>app/bot/handlers/wallets.py\<close>): the command that asks for a confirmation, the
  callback that consumes it and creates the wallet, and the list of wallets. Their store is the wallet
  tables with the state \<open>'g\<close> of the signer and of the refresh queue.
\<close>

section \<open>Texts\<close>

definition custody_notice :: string where
  "custody_notice =
     ''CopyMint will create a custodial Ethereum wallet. Its private key is encrypted inside '' @
     ''the isolated signer and will never be sent through Telegram. Do not fund this wallet '' @
     ''until the production custody and recovery policy is approved. Release 1 cannot sign or '' @
     ''broadcast transactions.''"

definition wallet_callback_data :: "string \<Rightarrow> string outcome" where
  "wallet_callback_data token =
     (let wallet_data = ''wallet:v1:create:'' @ token
      in attempt (callback_data ''create'' token) (\<lambda>_.
           if 64 < utf8_length wallet_data
           then Inl (ValueError ''Telegram callback data exceeds 64 bytes'') else Inr wallet_data))"

text \<open>\<open>f"{n:018d}"\<close> and \<open>text.rstrip("0")\<close>.\<close>

definition pad_left :: "nat \<Rightarrow> string \<Rightarrow> string" where
  "pad_left w s = replicate (w - length s) (CHR ''0'') @ s"

definition strip_zeros :: "string \<Rightarrow> string" where
  "strip_zeros s = rev (dropWhile (\<lambda>c. c = CHR ''0'') (rev s))"

definition format_wei :: "int \<Rightarrow> string" where
  "format_wei wei =
     (let whole = wei div 10 ^ 18; remainder = wei mod 10 ^ 18
      in if remainder = 0 then str_int whole
         else strip_zeros (str_int whole @ ''.'' @ pad_left 18 (str_int remainder)))"

section \<open>Handlers\<close>

definition wallet_payload :: "string \<Rightarrow> json" where
  "wallet_payload key = JObject [(''idempotency_key'', JStr key), (''chain_id'', JInt 1)]"

definition create_wallet_command ::
  "'b telegram_api \<Rightarrow> bot_config \<Rightarrow> handler_data \<Rightarrow>
     (wallet_store \<times> 'g, 'b) bot_world \<Rightarrow> unit outcome \<times> (wallet_store \<times> 'g, 'b) bot_world"
where
  "create_wallet_command api cfg data =
     unless_access_error
       (\<lambda>w. case attempt (require_context (data_context data) (data_access_error data)) (\<lambda>ctx.
              attempt (require_workspace ctx) (\<lambda>ws. Inr (ctx, ws))) of
          Inl e \<Rightarrow> raise e w
        | Inr (ctx, ws) \<Rightarrow>
            ask (fresh_id cfg) (\<lambda>key.
              issue_confirmation cfg ctx ChallengeAction_CREATE_WALLET ''workspace'' ws
                (Some (wallet_payload (''wallet-'' @ uuid_str key)))) w)
       (\<lambda>message. call_telegram api (AnswerMessage (points message) []))
       (\<lambda>issued w. case wallet_callback_data (issued_token issued) of
          Inl e \<Rightarrow> raise e w
        | Inr button \<Rightarrow> call_telegram api (AnswerMessage (points custody_notice)
            [(points ''I understand '' @ em_dash @ points '' create wallet'', button)]) w)"

text \<open>The creation in the store of the handler.\<close>

definition create_in_store ::
  "wallet_service_config \<Rightarrow> 'g wallet_ports \<Rightarrow> (nat \<Rightarrow> save_stamp) \<Rightarrow> request_context \<Rightarrow> string \<Rightarrow>
     (wallet_store \<times> 'g, 'b) bot_world \<Rightarrow>
     (wallet_record \<times> bool) outcome \<times> (wallet_store \<times> 'g, 'b) bot_world"
where
  "create_in_store scfg ports stamps ctx key =
     on_store (\<lambda>n (st, g). case create_wallet scfg ports ctx key (stamps n) st g of
       (answer, st', g') \<Rightarrow> (answer, (st', g')))"

definition confirmed_creation ::
  "bot_config \<Rightarrow> wallet_service_config \<Rightarrow> 'g wallet_ports \<Rightarrow> (nat \<Rightarrow> save_stamp) \<Rightarrow> handler_data \<Rightarrow>
     pressed_button \<Rightarrow> (wallet_store \<times> 'g, 'b) bot_world \<Rightarrow>
     (wallet_record \<times> bool) outcome \<times> (wallet_store \<times> 'g, 'b) bot_world"
where
  "confirmed_creation cfg scfg ports stamps data button w =
     (case require_context (data_context data) (data_access_error data) of
        Inl e \<Rightarrow> raise e w
      | Inr ctx \<Rightarrow>
          ask (consume_confirmation cfg ctx (remove_prefix ''wallet:v1:create:'' (pressed_data button))
              ChallengeAction_CREATE_WALLET)
            (\<lambda>r w1.
              case require_workspace ctx of
                Inl e \<Rightarrow> raise e w1
              | Inr ws \<Rightarrow>
                  if challenge_resource_id r \<noteq> ws
                  then raise (AccessFailure AccessError
                    ''Wallet confirmation does not belong to this workspace.'') w1
                  else
                    (case (case challenge_payload r of
                        JObject members \<Rightarrow> json_get members ''idempotency_key'' | _ \<Rightarrow> JNull) of
                       JStr key \<Rightarrow> create_in_store scfg ports stamps ctx key w1
                     | _ \<Rightarrow> raise (AccessFailure AccessError
                         ''Wallet confirmation payload is invalid.'') w1)) w)"

definition create_wallet_callback ::
  "'b telegram_api \<Rightarrow> bot_config \<Rightarrow> wallet_service_config \<Rightarrow> 'g wallet_ports \<Rightarrow> (nat \<Rightarrow> save_stamp) \<Rightarrow>
     handler_data \<Rightarrow> pressed_button \<Rightarrow>
     (wallet_store \<times> 'g, 'b) bot_world \<Rightarrow> unit outcome \<times> (wallet_store \<times> 'g, 'b) bot_world"
where
  "create_wallet_callback api cfg scfg ports stamps data button =
     unless_access_error (confirmed_creation cfg scfg ports stamps data button)
       (\<lambda>message. call_telegram api (AnswerCallback (points message)))
       (\<lambda>(wallet, created).
          let state = (if created then ''created'' else ''already created'')
          in ask (call_telegram api (AnswerCallback (points (''Execution wallet '' @ state @ ''.'')))) (\<lambda>_.
             case pressed_message button of
               None \<Rightarrow> return ()
             | Some (chat, mid) \<Rightarrow> call_telegram api (EditMessageText chat mid (join_lines
                 [points (''Ethereum execution wallet '' @ state @ '':''), points (wallet_address wallet), [],
                  points ''Signing and broadcasting remain disabled in Release 1.'']))))"

text \<open>\<open>enumerate(wallets, start=n)\<close>, one entry of two lines for each.\<close>

fun wallet_lines :: "nat \<Rightarrow> wallet_record list \<Rightarrow> outgoing list" where
  "wallet_lines n [] = []"
| "wallet_lines n (r # rs) =
     points (decimal n @ ''. '' @ wallet_address r) #
     points (''   Balance snapshot: '' @ format_wei (wallet_balance_wei r) @ '' ETH'') #
     wallet_lines (n + 1) rs"

definition list_wallets_command ::
  "'b telegram_api \<Rightarrow> (uuid \<Rightarrow> uuid \<Rightarrow> 'g \<Rightarrow> unit outcome \<times> 'g) option \<Rightarrow> handler_data \<Rightarrow>
     (wallet_store \<times> 'g, 'b) bot_world \<Rightarrow> unit outcome \<times> (wallet_store \<times> 'g, 'b) bot_world"
where
  "list_wallets_command api refresh data =
     unless_access_error
       (\<lambda>w. case require_context (data_context data) (data_access_error data) of
          Inl e \<Rightarrow> raise e w
        | Inr ctx \<Rightarrow>
            on_store (\<lambda>n (st, g). case service_list_wallets refresh ctx st g of
              (answer, g') \<Rightarrow> (answer, (st, g'))) w)
       (\<lambda>message. call_telegram api (AnswerMessage (points message) []))
       (\<lambda>rows. if rows = []
          then call_telegram api (AnswerMessage
            (points ''No execution wallet exists. Use /create_wallet to create one.'') [])
          else call_telegram api (AnswerMessage (join_lines
            (points ''Your Ethereum execution wallets:'' # wallet_lines 1 rows @
             [points ''Balance refresh queued. Reopen /wallets shortly for the latest snapshot.'',
              points ''Signing and broadcasting are disabled in Release 1.''])) []))"

section \<open>One creation for each confirmation\<close>

lemma create_wallet_callback_tables:
  assumes "confirmed_creation cfg scfg ports stamps data button w = (answer, w1)"
  shows "same_tables w1 (snd (create_wallet_callback api cfg scfg ports stamps data button w))"
  unfolding create_wallet_callback_def
  by (rule unless_access_error_tables [where m = "confirmed_creation cfg scfg ports stamps data button"
        and w = w, OF assms])
    (auto simp: Let_def split: prod.splits option.splits)

lemma creation_spent:
  assumes "challenge_table_ok (bot_challenges w)"
    and "spent_token (config_sha256 cfg) (remove_prefix ''wallet:v1:create:'' (pressed_data button))
      (bot_challenges w)"
  shows "same_tables w (snd (confirmed_creation cfg scfg ports stamps data button w))"
proof -
  have "same_tables w (snd (ask (consume_confirmation cfg ctx
      (remove_prefix ''wallet:v1:create:'' (pressed_data button)) action) f w))" for ctx action f
    using consume_spent [OF assms, of ctx action "config_now cfg (bot_readings w)"]
    by (auto simp: ask_def consume_confirmation_eq same_tables_def)
  then show ?thesis by (auto simp: confirmed_creation_def raise_def split: sum.splits)
qed

lemma creation_effect:
  assumes ok: "challenge_table_ok (bot_challenges w)"
    and run: "confirmed_creation cfg scfg ports stamps data button w = (answer, w1)"
    and "\<not> same_tables w w1"
  shows "challenge_table_ok (bot_challenges w1) \<and>
    spent_token (config_sha256 cfg) (remove_prefix ''wallet:v1:create:'' (pressed_data button))
      (bot_challenges w1)"
proof -
  let ?token = "remove_prefix ''wallet:v1:create:'' (pressed_data button)"
  from run assms(3) obtain ctx where context_ok:
    "require_context (data_context data) (data_access_error data) = Inr ctx"
    by (auto simp: confirmed_creation_def raise_def split: sum.splits)
  obtain found rows where consume: "consume consume_challenge (config_sha256 cfg) ctx ?token
      ChallengeAction_CREATE_WALLET (config_now cfg (bot_readings w)) (bot_challenges w) = (found, rows)"
    by fastforce
  show ?thesis
  proof (cases found)
    case (Inl e)
    with challenges.consume_cases [OF ok consume] run consume assms(3) context_ok show ?thesis
      by (auto simp: confirmed_creation_def ask_def consume_confirmation_eq same_tables_def)
  next
    case (Inr r)
    with run consume context_ok have "bot_challenges w1 = rows"
      by (auto simp: confirmed_creation_def ask_def consume_confirmation_eq raise_def create_in_store_def
          on_store_def split: sum.splits if_splits json.splits prod.splits)
    with challenges.consume_cases [OF ok consume] consume_spends_token [OF ok consume [unfolded Inr]]
    show ?thesis by simp
  qed
qed


section \<open>Witness\<close>

text \<open>A signer that makes a key and loses the answer.\<close>

definition losing_ports :: "nat wallet_ports" where
  "losing_ports = sample_ports\<lparr> port_signer := (\<lambda>ws chain key cid n. (Inl (RuntimeError ''lost''), Suc n)) \<rparr>"

definition member_world :: "(wallet_store \<times> nat, telegram_call list) bot_world" where
  "member_world = \<lparr> bot_store = (empty_wallets, 0), bot_challenges = [], bot_readings = 0, bot_telegram = [] \<rparr>"

definition member_data :: handler_data where
  "member_data = \<lparr> data_identity = None, data_context = Some member_context, data_access_error = None \<rparr>"

definition offered_world :: "(wallet_store \<times> nat, telegram_call list) bot_world" where
  "offered_world = snd (issue_confirmation sample_bot_config member_context ChallengeAction_CREATE_WALLET
     ''workspace'' 7 (Some (wallet_payload ''wallet-0123456789'')) member_world)"

definition create_button :: pressed_button where
  "create_button = \<lparr> pressed_data = ''wallet:v1:create:k'', pressed_message = None \<rparr>"

lemma offered_shown:
  "length (bot_challenges offered_world) = 1"
  "snd (bot_store offered_world) = 0"
  "snd (bot_store (snd (create_wallet_callback recording_api sample_bot_config sample_config losing_ports
     (\<lambda>n. Wallets.sample_stamp 0) member_data create_button offered_world))) = 1"
  unfolding offered_world_def member_world_def by code_simp+


end
