(* ===== verification/Collections.thy ===== *)
theory Collections
  imports EthereumTables Ids
begin

text \<open>
  Workspace-scoped collection registration: the repository
  (\<^verbatim>\<open>app/infrastructure/db/repositories/collections.py\<close>, migration 0003), the service
  (\<^verbatim>\<open>app/application/ethereum/collection_service.py\<close>) and the queue it asks for scans
  (\<^verbatim>\<open>app/infrastructure/collection_scan_queue.py\<close>). The collections are global, the subscriptions to
  them private to a workspace. The address functions of Web3, the Celery client, ids and the clock are
  arguments.
\<close>

section \<open>Records\<close>

record workspace_collection_record =
  wc_id :: uuid
  wc_collection_id :: uuid
  wc_workspace_id :: uuid
  wc_address :: string
  wc_label :: "string option"
  wc_scan_status :: collection_scan_status
  wc_active :: bool
  wc_scan_start_block :: "int option"
  wc_scan_end_block :: "int option"
  wc_last_scanned_block :: "int option"
  wc_quality_warning_codes :: "string list"

definition text_codes :: "json list \<Rightarrow> string list" where
  "text_codes items = concat (map (\<lambda>item. case item of
     JObject members \<Rightarrow> (case json_get members ''code'' of JStr code \<Rightarrow> [code] | _ \<Rightarrow> []) | _ \<Rightarrow> []) items)"

definition collection_record ::
  "workspace_collection \<Rightarrow> collection \<Rightarrow> scan_job option \<Rightarrow> scan_checkpoint option \<Rightarrow> workspace_collection_record"
where
  "collection_record s c job checkpoint =
     \<lparr> wc_id = subscription_id s,
       wc_collection_id = collection_id c,
       wc_workspace_id = subscription_workspace_id s,
       wc_address = collection_checksum_address c,
       wc_label = subscription_label s,
       wc_scan_status = collection_scan_status c,
       wc_active = subscription_active s,
       wc_scan_start_block = map_option job_start_block job,
       wc_scan_end_block = map_option job_end_block job,
       wc_last_scanned_block = map_option last_committed_block_number checkpoint,
       wc_quality_warning_codes = text_codes (case job of None \<Rightarrow> [] | Some j \<Rightarrow> job_quality_warnings j) \<rparr>"

section \<open>The repository\<close>

definition subscription_policy :: "tenant_session \<Rightarrow> workspace_collection \<Rightarrow> bool" where
  "subscription_policy s r = workspace_isolation s (subscription_workspace_id r) None"

definition collection_session :: "uuid \<Rightarrow> tenant_session" where
  "collection_session ws = set_workspace_context ws empty_session"

definition new_collection :: "uuid \<Rightarrow> string \<Rightarrow> collection" where
  "new_collection new_id address =
     \<lparr> collection_id = new_id, collection_chain_id = 1,
       collection_normalized_address = lower address, collection_checksum_address = address,
       collection_token_standard = TokenStandard_UNKNOWN, collection_deployment_block_number = None,
       collection_deployment_block_hash = None,
       collection_deployment_confidence = DeploymentConfidence_UNKNOWN,
       collection_deployment_confidence_value = 0,
       collection_scan_status = CollectionScanStatus_PENDING \<rparr>"

definition at_address :: "string \<Rightarrow> collection \<Rightarrow> bool" where
  "at_address address c \<longleftrightarrow> collection_chain_id c = 1 \<and> collection_normalized_address c = lower address"

text \<open>The global collection of an address: made now or before.\<close>

definition get_collection :: "uuid \<Rightarrow> string \<Rightarrow> ethereum_db \<Rightarrow> (collection \<times> ethereum_db) outcome" where
  "get_collection new_id address db =
     (let row = new_collection new_id address in
      if \<not> collection_fits row then Inl DataError
      else if \<not> collection_checks row then Inl IntegrityError
      else attempt (insert_or_nothing same_address collection_clash row (collections db)) (\<lambda>(made, rows).
        case made of
          Some c \<Rightarrow> Inr (c, db\<lparr> collections := rows \<rparr>)
        | None \<Rightarrow>
            (case select_one (at_address address) (collections db) of
               None \<Rightarrow> Inl (RuntimeError ''collection idempotency conflict was not recoverable'')
             | Some c \<Rightarrow> Inr (c, db))))"

definition new_subscription ::
  "uuid \<Rightarrow> uuid \<Rightarrow> uuid \<Rightarrow> string option \<Rightarrow> uuid \<Rightarrow> instant \<Rightarrow> workspace_collection"
where
  "new_subscription new_id ws cid label actor_user_id now =
     \<lparr> subscription_id = new_id, subscription_workspace_id = ws, subscription_collection_id = cid,
       subscription_label = label, subscription_added_by_user_id = actor_user_id,
       subscription_notification_settings = JObject [], subscription_active = True,
       subscription_created_at = now \<rparr>"

text \<open>The rows that the foreign keys of a subscription ask for.\<close>

definition known_owner :: "workspace_collection \<Rightarrow> ethereum_db \<Rightarrow> bool" where
  "known_owner r db \<longleftrightarrow>
     list_ex (\<lambda>w. workspace_id w = subscription_workspace_id r) (workspaces (ethereum_access db)) \<and>
     list_ex (\<lambda>u. user_id u = subscription_added_by_user_id r) (platform_users (ethereum_access db))"

definition subscribed :: "uuid \<Rightarrow> uuid \<Rightarrow> workspace_collection \<Rightarrow> bool" where
  "subscribed ws cid r \<longleftrightarrow> subscription_policy (collection_session ws) r \<and>
     subscription_workspace_id r = ws \<and> subscription_collection_id r = cid"

definition get_subscription ::
  "workspace_collection \<Rightarrow> ethereum_db \<Rightarrow> ((workspace_collection \<times> bool) \<times> ethereum_db) outcome"
where
  "get_subscription row db =
     (if \<not> subscription_fits row then Inl DataError
      else if \<not> subscription_policy (collection_session (subscription_workspace_id row)) row
      then Inl InsufficientPrivilege
      else attempt (insert_or_nothing same_subscription subscription_clash row (workspace_collections db))
        (\<lambda>(made, rows).
        case made of
          Some r \<Rightarrow>
            if \<not> known_owner r db then Inl IntegrityError
            else Inr ((r, True), db\<lparr> workspace_collections := rows \<rparr>)
        | None \<Rightarrow>
            (case select_one (subscribed (subscription_workspace_id row) (subscription_collection_id row))
                (workspace_collections db) of
               None \<Rightarrow> Inl (RuntimeError ''collection subscription conflict was not recoverable'')
             | Some r \<Rightarrow> Inr ((r, False), db))))"

definition registration_audit ::
  "uuid \<Rightarrow> workspace_collection \<Rightarrow> string \<Rightarrow> uuid \<Rightarrow> audit_log"
where
  "registration_audit new_audit_id r address correlation_id =
     \<lparr> audit_id = new_audit_id,
       audit_workspace_id = Some (subscription_workspace_id r),
       audit_actor_type = ActorType_TELEGRAM_USER,
       audit_actor_id = uuid_str (subscription_added_by_user_id r),
       audit_action = ''workspace_collection_added'',
       audit_resource_type = ''workspace_collection'',
       audit_resource_id = uuid_str (subscription_id r),
       audit_before = None,
       audit_after = Some (JObject
         [(''chain_id'', JInt 1), (''address'', JStr address),
          (''label'', case subscription_label r of None \<Rightarrow> JNull | Some label \<Rightarrow> JStr label)]),
       audit_correlation_id = correlation_id,
       audit_severity = Severity_INFO \<rparr>"

text \<open>The fresh ids and the transaction time of one registration.\<close>

record registration_stamp =
  reg_collection_id :: uuid
  reg_subscription_id :: uuid
  reg_audit_id :: uuid
  reg_now :: instant

definition add_or_get ::
  "uuid \<Rightarrow> uuid \<Rightarrow> string \<Rightarrow> string option \<Rightarrow> uuid \<Rightarrow> registration_stamp \<Rightarrow> ethereum_db \<Rightarrow>
     ((workspace_collection_record \<times> bool) \<times> ethereum_db) outcome"
where
  "add_or_get ws actor_user_id address label correlation_id stamp db =
     attempt (get_collection (reg_collection_id stamp) address db) (\<lambda>(c, db1).
     attempt (get_subscription (new_subscription (reg_subscription_id stamp) ws (collection_id c) label
       actor_user_id (reg_now stamp)) db1) (\<lambda>((r, created), db2).
     if created
     then attempt (insert_audit (collection_session ws)
         (registration_audit (reg_audit_id stamp) r address correlation_id) (ethereum_access db2)) (\<lambda>access.
       Inr ((collection_record r c None None, True), db2\<lparr> ethereum_access := access \<rparr>))
     else Inr ((collection_record r c None None, False), db2)))"

text \<open>The rows of the join that both queries read: the active subscriptions of the workspace.\<close>

definition joined :: "ethereum_db \<Rightarrow> workspace_collection \<Rightarrow> workspace_collection_record list" where
  "joined db r =
     (case collection_row (subscription_collection_id r) db of
        None \<Rightarrow> []
      | Some c \<Rightarrow> [collection_record r c (job_row (collection_id c) db) (checkpoint_row (collection_id c) db)])"

definition active_in :: "uuid \<Rightarrow> workspace_collection \<Rightarrow> bool" where
  "active_in ws r \<longleftrightarrow> subscription_policy (collection_session ws) r \<and>
     subscription_workspace_id r = ws \<and> subscription_active r"

definition list_collections :: "uuid \<Rightarrow> ethereum_db \<Rightarrow> workspace_collection_record list" where
  "list_collections ws db =
     concat (map (joined db) (sort_key subscription_created_at
       (filter (active_in ws) (workspace_collections db))))"

definition find_by_address :: "uuid \<Rightarrow> string \<Rightarrow> ethereum_db \<Rightarrow> workspace_collection_record option outcome" where
  "find_by_address ws address db =
     (case concat (map (joined db) (filter (\<lambda>r. active_in ws r \<and>
          list_ex (\<lambda>c. collection_id c = subscription_collection_id r \<and> at_address address c) (collections db))
        (workspace_collections db))) of
        [] \<Rightarrow> Inr None
      | [r] \<Rightarrow> Inr (Some r)
      | _ \<Rightarrow> Inl (ForeignError ''MultipleResultsFound''))"

section \<open>The service\<close>

record 'q collection_ports =
  port_is_address :: "string \<Rightarrow> bool"
  port_to_checksum :: "string \<Rightarrow> string"
  port_send_task :: "string \<Rightarrow> (string \<times> string) list \<Rightarrow> string \<Rightarrow> 'q \<Rightarrow> unit outcome \<times> 'q"

definition normalize_address :: "'q collection_ports \<Rightarrow> string \<Rightarrow> string outcome" where
  "normalize_address ports address =
     (if \<not> port_is_address ports address
      then Inl (AccessFailure InvalidCollectionInput ''Provide a valid Ethereum contract address.'')
      else Inr (port_to_checksum ports address))"

definition normalize_label :: "string option \<Rightarrow> string option outcome" where
  "normalize_label label =
     (case label of
        None \<Rightarrow> Inr None
      | Some text \<Rightarrow>
          (let normalized = join_with (CHR '' '') (split_words text) in
           if normalized = [] then Inr None
           else if 120 < length normalized
           then Inl (AccessFailure InvalidCollectionInput ''Collection labels cannot exceed 120 characters.'')
           else Inr (Some normalized)))"

text \<open>The queue: the scan task for the indexer, then the tracking task for the notifications.\<close>

definition queue_request_scan :: "'q collection_ports \<Rightarrow> uuid \<Rightarrow> uuid \<Rightarrow> 'q \<Rightarrow> unit outcome \<times> 'q" where
  "queue_request_scan ports ws cid q =
     (case port_send_task ports ''copymint.ethereum.scan_collection''
         [(''collection_id'', uuid_str cid)] ''indexer'' q of
        (Inl e, q') \<Rightarrow> (Inl e, q')
      | (Inr _, q') \<Rightarrow> port_send_task ports ''copymint.collections.track_scan''
          [(''workspace_id'', uuid_str ws), (''collection_id'', uuid_str cid)] ''notifications'' q')"

definition queue_scan :: "'q collection_ports \<Rightarrow> uuid \<Rightarrow> uuid \<Rightarrow> 'q \<Rightarrow> bool \<times> 'q" where
  "queue_scan ports ws cid q =
     (case queue_request_scan ports ws cid q of (Inl e, q') \<Rightarrow> (False, q') | (Inr _, q') \<Rightarrow> (True, q'))"

record collection_registration_result =
  registered_collection :: workspace_collection_record
  registered_created :: bool
  registered_scan_queued :: bool

definition registration_identity :: "request_context \<Rightarrow> (uuid \<times> uuid) outcome" where
  "registration_identity ctx =
     attempt (require_workspace ctx) (\<lambda>ws.
       case ctx_user_id ctx of
         None \<Rightarrow> Inl (AccessFailure AccessError ''An approved user identity is required.'')
       | Some uid \<Rightarrow> Inr (ws, uid))"

definition add_collection ::
  "'q collection_ports \<Rightarrow> request_context \<Rightarrow> string \<Rightarrow> string option \<Rightarrow> registration_stamp \<Rightarrow>
     ethereum_db \<Rightarrow> 'q \<Rightarrow> collection_registration_result outcome \<times> ethereum_db \<times> 'q"
where
  "add_collection ports ctx address label stamp db q =
     (case attempt (registration_identity ctx) (\<lambda>(ws, uid).
         attempt (normalize_address ports address) (\<lambda>checksum.
         attempt (normalize_label label) (\<lambda>normalized. Inr (ws, uid, checksum, normalized)))) of
        Inl e \<Rightarrow> (Inl e, db, q)
      | Inr (ws, uid, checksum, normalized) \<Rightarrow>
          (case transact db (add_or_get ws uid checksum normalized (ctx_correlation_id ctx) stamp db) of
             (Inl e, db') \<Rightarrow> (Inl e, db', q)
           | (Inr (r, created), db') \<Rightarrow>
               (case queue_scan ports ws (wc_collection_id r) q of (queued, q') \<Rightarrow>
                  (Inr \<lparr> registered_collection = r, registered_created = created, registered_scan_queued = queued \<rparr>,
                   db', q'))))"

definition request_scan ::
  "'q collection_ports \<Rightarrow> request_context \<Rightarrow> string \<Rightarrow> ethereum_db \<Rightarrow> 'q \<Rightarrow>
     (workspace_collection_record \<times> bool) outcome \<times> 'q"
where
  "request_scan ports ctx address db q =
     (case attempt (require_workspace ctx) (\<lambda>ws.
         attempt (normalize_address ports address) (\<lambda>checksum.
         attempt (find_by_address ws checksum db) (\<lambda>found. Inr (ws, found)))) of
        Inl e \<Rightarrow> (Inl e, q)
      | Inr (ws, None) \<Rightarrow> (Inl (AccessFailure CollectionNotFound
          ''That collection is not saved in your workspace. Use /add_collection first.''), q)
      | Inr (ws, Some r) \<Rightarrow>
          (case queue_scan ports ws (wc_collection_id r) q of (queued, q') \<Rightarrow> (Inr (r, queued), q')))"

definition service_list_collections ::
  "request_context \<Rightarrow> ethereum_db \<Rightarrow> workspace_collection_record list outcome"
where
  "service_list_collections ctx db =
     attempt (require_workspace ctx) (\<lambda>ws. Inr (list_collections ws db))"


section \<open>The registry\<close>

text \<open>
  The collections and subscriptions are unique, each collection is stored under the lower-case form of
  its address, and each subscription is to a stored collection.
\<close>

definition registry_ok :: "ethereum_db \<Rightarrow> bool" where
  "registry_ok db \<longleftrightarrow> unique_table collection_clash (collections db) \<and>
     unique_table subscription_clash (workspace_collections db) \<and>
     (\<forall>c \<in> set (collections db). collection_chain_id c = 1 \<and>
        collection_normalized_address c = lower (collection_checksum_address c)) \<and>
     (\<forall>r \<in> set (workspace_collections db). collection_row (subscription_collection_id r) db \<noteq> None)"

lemma collection_row_id: "collection_row cid db = Some c \<Longrightarrow> collection_id c = cid \<and> c \<in> set (collections db)"
  by (auto simp: collection_row_def dest: select_one_SomeD)

lemma collection_row_unique:
  "unique_table collection_clash (collections db) \<Longrightarrow> c \<in> set (collections db) \<Longrightarrow>
     collection_row (collection_id c) db = Some c"
  unfolding collection_row_def
  by (intro select_one_unique_table [where clash = collection_clash]) (auto simp: collection_clash_def same_address_def)

lemma at_address_unique:
  "unique_table collection_clash (collections db) \<Longrightarrow> c \<in> set (collections db) \<Longrightarrow> at_address a c \<Longrightarrow>
     select_one (at_address a) (collections db) = Some c"
  by (intro select_one_unique_table [where clash = collection_clash])
    (auto simp: collection_clash_def same_address_def at_address_def)

lemma subscribed_unique:
  "unique_table subscription_clash (workspace_collections db) \<Longrightarrow> r \<in> set (workspace_collections db) \<Longrightarrow>
     subscribed ws cid r \<Longrightarrow> select_one (subscribed ws cid) (workspace_collections db) = Some r"
  by (intro select_one_unique_table [where clash = subscription_clash])
    (auto simp: subscription_clash_def same_subscription_def subscribed_def)

lemma policy_own_workspace [simp]:
  "subscription_policy (collection_session ws) r \<longleftrightarrow> subscription_workspace_id r = ws"
  by (auto simp: subscription_policy_def collection_session_def workspace_isolation_def
      set_workspace_context_def empty_session_def)

lemma get_collection_InrD:
  assumes "get_collection new_id address db = Inr (c, db')" and "registry_ok db"
  shows "(\<exists>new. db' = db\<lparr> collections := collections db @ new \<rparr>) \<and> c \<in> set (collections db') \<and>
    at_address address c \<and> registry_ok db' \<and> collection_fits (new_collection new_id address) \<and>
    collection_checks (new_collection new_id address)"
proof -
  let ?row = "new_collection new_id address"
  from assms(1) obtain made rows where
    insert: "insert_or_nothing same_address collection_clash ?row (collections db) = Inr (made, rows)"
    and fits: "collection_fits ?row" "collection_checks ?row"
    and answer: "(case made of Some c \<Rightarrow> Inr (c, db\<lparr> collections := rows \<rparr>)
      | None \<Rightarrow> (case select_one (at_address address) (collections db) of
          None \<Rightarrow> Inl (RuntimeError ''collection idempotency conflict was not recoverable'')
        | Some c \<Rightarrow> Inr (c, db))) = Inr (c, db')"
    by (auto simp: get_collection_def Let_def split: if_splits elim!: attempt_InrE)
  show ?thesis
  proof (cases made)
    case None
    with answer assms(2) fits show ?thesis
      by (auto split: option.splits dest: select_one_SomeD intro: exI [of _ "[]"])
  next
    case (Some x)
    with insert_or_nothing_SomeD [OF insert [unfolded Some]] answer
    have new: "c = ?row" "db' = db\<lparr> collections := collections db @ [?row] \<rparr>"
      "\<forall>r \<in> set (collections db). \<not> collection_clash ?row r" by auto
    have "registry_ok db'"
      using assms(2) new(3)
      by (auto simp: registry_ok_def new(2) unique_table_snoc collection_row_def select_one_append
          new_collection_def split: option.splits)
    with new fits show ?thesis by (auto simp: at_address_def new_collection_def)
  qed
qed

lemma get_subscription_InrD:
  assumes "get_subscription row db = Inr ((r, created), db')" and "registry_ok db"
    and "collection_row (subscription_collection_id row) db \<noteq> None"
  shows "registry_ok db' \<and> r \<in> set (workspace_collections db') \<and> subscription_fits row \<and>
    subscribed (subscription_workspace_id row) (subscription_collection_id row) r \<and>
    (created \<and> r = row \<and> db' = db\<lparr> workspace_collections := workspace_collections db @ [row] \<rparr> \<or>
     \<not> created \<and> db' = db)"
proof -
  from assms(1) obtain made rows where
    insert: "insert_or_nothing same_subscription subscription_clash row (workspace_collections db) = Inr (made, rows)"
    and fits: "subscription_fits row"
    and answer: "(case made of Some r \<Rightarrow> if \<not> known_owner r db then Inl IntegrityError
        else Inr ((r, True), db\<lparr> workspace_collections := rows \<rparr>)
      | None \<Rightarrow> (case select_one (subscribed (subscription_workspace_id row) (subscription_collection_id row))
          (workspace_collections db) of
          None \<Rightarrow> Inl (RuntimeError ''collection subscription conflict was not recoverable'')
        | Some r \<Rightarrow> Inr ((r, False), db))) = Inr ((r, created), db')"
    by (auto simp: get_subscription_def split: if_splits elim!: attempt_InrE)
  show ?thesis
  proof (cases made)
    case None
    with answer assms(2) fits show ?thesis by (auto split: option.splits dest: select_one_SomeD)
  next
    case (Some x)
    with insert_or_nothing_SomeD [OF insert [unfolded Some]] answer
    have new: "r = row" "created" "db' = db\<lparr> workspace_collections := workspace_collections db @ [row] \<rparr>"
      "\<forall>r \<in> set (workspace_collections db). \<not> subscription_clash row r"
      by (auto split: if_splits)
    have "registry_ok db'"
      using assms(2,3) new(4) by (auto simp: registry_ok_def new(3) unique_table_snoc collection_row_def)
    with new fits show ?thesis by (auto simp: subscribed_def)
  qed
qed


text \<open>What one registration changes.\<close>

lemma add_or_get_InrD:
  assumes "add_or_get ws uid address label corr stamp db = Inr ((w, created), db')" and "registry_ok db"
  shows "registry_ok db' \<and> (\<exists>new. collections db' = collections db @ new) \<and>
    scan_jobs db' = scan_jobs db \<and> scan_checkpoints db' = scan_checkpoints db \<and>
    raw_evidences db' = raw_evidences db \<and> mint_events db' = mint_events db \<and>
    (\<exists>r c. w = collection_record r c None None \<and> c \<in> set (collections db') \<and> at_address address c \<and>
       r \<in> set (workspace_collections db') \<and> subscribed ws (collection_id c) r \<and>
       collection_fits (new_collection (reg_collection_id stamp) address) \<and>
       collection_checks (new_collection (reg_collection_id stamp) address) \<and>
       fits_column 120 label \<and>
       (created \<and> workspace_collections db' = workspace_collections db @ [r] \<and> subscription_active r \<and>
          subscription_label r = label \<or>
        \<not> created \<and> workspace_collections db' = workspace_collections db))"
proof -
  let ?row = "\<lambda>c. new_subscription (reg_subscription_id stamp) ws (collection_id c) label uid (reg_now stamp)"
  from assms(1) obtain c db1 r created' db2 where
    one: "get_collection (reg_collection_id stamp) address db = Inr (c, db1)"
    and two': "get_subscription (?row c) db1 = Inr ((r, created'), db2)"
    and rest: "(if created' then attempt (insert_audit (collection_session ws)
         (registration_audit (reg_audit_id stamp) r address corr) (ethereum_access db2)) (\<lambda>access.
       Inr ((collection_record r c None None, True), db2\<lparr> ethereum_access := access \<rparr>))
       else Inr ((collection_record r c None None, False), db2)) = Inr ((w, created), db')"
    unfolding add_or_get_def by (force elim!: attempt_InrE)
  from rest have w: "w = collection_record r c None None" and "created' = created"
    by (auto split: if_splits elim!: attempt_InrE)
  with two' have two: "get_subscription (?row c) db1 = Inr ((r, created), db2)" by simp
  have db': "\<exists>access. db' = db2\<lparr> ethereum_access := access \<rparr>"
  proof (cases created')
    case True
    with rest show ?thesis by (auto elim!: attempt_InrE)
  next
    case False
    with rest have "db' = db2\<lparr> ethereum_access := ethereum_access db2 \<rparr>" by simp
    then show ?thesis by blast
  qed
  note first = get_collection_InrD [OF one assms(2)]
  then have c: "collection_row (subscription_collection_id (?row c)) db1 \<noteq> None"
    using collection_row_unique [of db1 c] by (auto simp: registry_ok_def new_subscription_def)
  from first have "registry_ok db1" by blast
  note second = get_subscription_InrD [OF two this c]
  have same: "collections db' = collections db2" "workspace_collections db' = workspace_collections db2"
    "scan_jobs db' = scan_jobs db2" "scan_checkpoints db' = scan_checkpoints db2"
    "raw_evidences db' = raw_evidences db2" "mint_events db' = mint_events db2" using db' by auto
  then have "registry_ok db'" using second by (simp add: registry_ok_def collection_row_def)
  moreover have "subscribed ws (collection_id c) r" "fits_column 120 label"
    using second by (simp_all add: new_subscription_def subscription_fits_def)
  ultimately show ?thesis
    unfolding same using first second w by (intro conjI exI [of _ r] exI [of _ c])
      (auto simp: new_subscription_def)
qed

text \<open>A registration shows in no other workspace.\<close>

definition adds_only :: "uuid \<Rightarrow> ethereum_db \<Rightarrow> ethereum_db \<Rightarrow> bool" where
  "adds_only ws db db' \<longleftrightarrow> (\<exists>new. collections db' = collections db @ new) \<and>
     (\<exists>new. workspace_collections db' = workspace_collections db @ new \<and>
        (\<forall>r \<in> set new. subscription_workspace_id r = ws)) \<and>
     scan_jobs db' = scan_jobs db \<and> scan_checkpoints db' = scan_checkpoints db"

lemma adds_only_joined:
  assumes "adds_only ws db db'" and "registry_ok db" and "r \<in> set (workspace_collections db)"
  shows "joined db' r = joined db r"
proof -
  from assms(2,3) obtain c where c: "collection_row (subscription_collection_id r) db = Some c"
    by (auto simp: registry_ok_def)
  with assms(1) have "collection_row (subscription_collection_id r) db' = Some c"
    by (auto simp: adds_only_def collection_row_def select_one_append)
  with c assms(1) show ?thesis
    by (simp add: joined_def adds_only_def job_row_def checkpoint_row_def)
qed

lemma adds_only_filter:
  assumes "adds_only ws db db'" and "ws' \<noteq> ws" and "\<And>r. p r \<Longrightarrow> subscription_workspace_id r = ws'"
  shows "filter p (workspace_collections db') = filter p (workspace_collections db)"
  using assms by (fastforce simp: adds_only_def filter_empty_conv)

lemma adds_only_lists:
  assumes "adds_only ws db db'" and "registry_ok db" and "ws' \<noteq> ws"
  shows "list_collections ws' db' = list_collections ws' db"
proof -
  have "filter (active_in ws') (workspace_collections db') = filter (active_in ws') (workspace_collections db)"
    using assms(1,3) by (rule adds_only_filter) (simp add: active_in_def)
  then show ?thesis unfolding list_collections_def
    by (auto intro!: arg_cong [where f = concat] adds_only_joined [OF assms(1,2)])
qed

lemma row_at_address:
  assumes "registry_ok db" and "r \<in> set (workspace_collections db)"
  shows "list_ex (\<lambda>c. collection_id c = subscription_collection_id r \<and> at_address a c) (collections db) \<longleftrightarrow>
    (\<exists>c. collection_row (subscription_collection_id r) db = Some c \<and> at_address a c)"
proof
  assume "list_ex (\<lambda>c. collection_id c = subscription_collection_id r \<and> at_address a c) (collections db)"
  then obtain c where c: "c \<in> set (collections db)" "collection_id c = subscription_collection_id r"
    "at_address a c" by (auto simp: list_ex_iff)
  moreover have "unique_table collection_clash (collections db)" using assms(1) by (simp add: registry_ok_def)
  ultimately show "\<exists>c. collection_row (subscription_collection_id r) db = Some c \<and> at_address a c"
    using collection_row_unique [of db c] by auto
qed (auto simp: list_ex_iff dest: collection_row_id)

lemma adds_only_find:
  assumes "adds_only ws db db'" and "registry_ok db" and "registry_ok db'" and "ws' \<noteq> ws"
  shows "find_by_address ws' a db' = find_by_address ws' a db"
proof -
  let ?p = "\<lambda>db r. active_in ws' r \<and>
    list_ex (\<lambda>c. collection_id c = subscription_collection_id r \<and> at_address a c) (collections db)"
  have "filter (?p db') (workspace_collections db') = filter (?p db') (workspace_collections db)"
    using assms(1,4) by (rule adds_only_filter) (simp add: active_in_def)
  also have "\<dots> = filter (?p db) (workspace_collections db)"
  proof (rule filter_cong [OF refl])
    fix r assume r: "r \<in> set (workspace_collections db)"
    then have r': "r \<in> set (workspace_collections db')" using assms(1) by (auto simp: adds_only_def)
    from assms(2) r obtain c where "collection_row (subscription_collection_id r) db = Some c"
      by (auto simp: registry_ok_def)
    moreover from this assms(1) have "collection_row (subscription_collection_id r) db' = Some c"
      by (auto simp: adds_only_def collection_row_def select_one_append)
    ultimately show "?p db' r \<longleftrightarrow> ?p db r"
      using row_at_address [OF assms(2) r] row_at_address [OF assms(3) r'] by simp
  qed
  finally have rows: "filter (?p db') (workspace_collections db') = filter (?p db) (workspace_collections db)" .
  have joins: "map (joined db') (filter (?p db) (workspace_collections db)) =
      map (joined db) (filter (?p db) (workspace_collections db))"
    by (rule map_cong [OF refl]) (auto intro: adds_only_joined [OF assms(1,2)])
  show ?thesis unfolding find_by_address_def rows joins by (rule refl)
qed


lemma filter_unique_table:
  assumes "unique_table clash rows" and "\<And>a b. clash a b \<longleftrightarrow> clash b a" and "r \<in> set rows" and "p r"
    and "\<And>r'. r' \<in> set rows \<Longrightarrow> p r' \<Longrightarrow> clash r' r" and "clash r r"
  shows "filter p rows = [r]"
  using assms(1,3,5)
proof (induction rows)
  case (Cons x rows)
  from Cons.prems(1) have rest: "unique_table clash rows" "\<forall>y \<in> set rows. \<not> clash y x"
    by (auto simp: unique_table_def)
  show ?case
  proof (cases "x = r")
    case True
    with Cons.prems(3) rest(2) have "\<forall>y \<in> set rows. \<not> p y" by auto
    with True assms(4) show ?thesis by (simp add: filter_empty_conv)
  next
    case False
    with Cons.prems(2) have "r \<in> set rows" by simp
    moreover from this rest(2) Cons.prems(3) assms(2) have "\<not> p x" by auto
    ultimately show ?thesis using Cons.IH [OF rest(1)] Cons.prems(3) by simp
  qed
qed simp

text \<open>The one active subscription of a workspace at an address.\<close>

lemma active_at_address:
  assumes "registry_ok db" and "c \<in> set (collections db)" and "at_address a c"
    and "r \<in> set (workspace_collections db)" and "subscribed ws (collection_id c) r" and "subscription_active r"
  shows "filter (\<lambda>r. active_in ws r \<and> (\<exists>c. collection_row (subscription_collection_id r) db = Some c \<and>
      at_address a c)) (workspace_collections db) = [r]"
proof (rule filter_unique_table [where clash = subscription_clash])
  from assms(1) have unique: "unique_table collection_clash (collections db)"
    and "unique_table subscription_clash (workspace_collections db)" by (auto simp: registry_ok_def)
  then show "unique_table subscription_clash (workspace_collections db)" by blast
  show "active_in ws r \<and> (\<exists>c. collection_row (subscription_collection_id r) db = Some c \<and> at_address a c)"
    using assms(3,5,6) collection_row_unique [OF unique assms(2)] by (auto simp: active_in_def subscribed_def)
  show "subscription_clash r' r"
    if "active_in ws r' \<and> (\<exists>c. collection_row (subscription_collection_id r') db = Some c \<and> at_address a c)" for r'
  proof -
    from that obtain c' where c': "collection_row (subscription_collection_id r') db = Some c'" "at_address a c'"
      and ws: "subscription_workspace_id r' = ws" by (auto simp: active_in_def)
    note in' = collection_row_id [OF c'(1)]
    with at_address_unique [OF unique _ c'(2)] at_address_unique [OF unique assms(2,3)] have "c' = c" by auto
    with in' ws assms(5) show ?thesis
      by (auto simp: subscription_clash_def same_subscription_def subscribed_def)
  qed
qed (auto simp: clash_sym(2) assms(4) subscription_clash_def)

lemma find_registered:
  assumes "registry_ok db" and "c \<in> set (collections db)" and "at_address a c"
    and "r \<in> set (workspace_collections db)" and "subscribed ws (collection_id c) r" and "subscription_active r"
  shows "\<exists>w. joined db r = [w] \<and> wc_id w = subscription_id r \<and> wc_collection_id w = collection_id c \<and>
    find_by_address ws a db = Inr (Some w) \<and>
    filter (\<lambda>w. lower (wc_address w) = lower a) (list_collections ws db) = [w]"
proof -
  have unique: "unique_table collection_clash (collections db)" using assms(1) by (simp add: registry_ok_def)
  note row = collection_row_unique [OF unique assms(2)]
  define w where "w = collection_record r c (job_row (collection_id c) db) (checkpoint_row (collection_id c) db)"
  have joined: "joined db r = [w]" using assms(5) row by (simp add: joined_def subscribed_def w_def)
  have "filter (\<lambda>r. active_in ws r \<and>
      list_ex (\<lambda>c. collection_id c = subscription_collection_id r \<and> at_address a c) (collections db))
      (workspace_collections db) = [r]"
    using active_at_address [OF assms] row_at_address [OF assms(1)] by (simp cong: filter_cong)
  then have find: "find_by_address ws a db = Inr (Some w)" by (simp add: find_by_address_def joined)
  have here: "filter (\<lambda>w. lower (wc_address w) = lower a) (joined db r') =
      (if \<exists>c. collection_row (subscription_collection_id r') db = Some c \<and> at_address a c then joined db r' else [])"
    for r'
    using assms(1) by (cases "collection_row (subscription_collection_id r') db")
      (auto simp: joined_def collection_record_def at_address_def registry_ok_def dest!: collection_row_id)
  have split: "filter p (concat (map f xs)) = concat (map f (filter q xs))"
    if "\<And>x. filter p (f x) = (if q x then f x else [])" for p :: "workspace_collection_record \<Rightarrow> bool" and f q
      and xs :: "workspace_collection list"
    using that by (induction xs) auto
  have "filter (\<lambda>w. lower (wc_address w) = lower a) (list_collections ws db) = [w]"
    unfolding list_collections_def split [OF here] filter_sort filter_filter
    using active_at_address [OF assms] joined by (simp add: conj_commute)
  with joined find assms(5) show ?thesis
    by (auto simp: w_def collection_record_def)
qed

section \<open>Properties\<close>

text \<open>
  C20. Registrations are private: whatever a member of one workspace registers, the lists of every
  other workspace and what it finds by an address stay as they were, and the registry stays well
  formed: one collection for each address and one subscription for each workspace and collection.
\<close>

theorem collections_private:
  assumes "registry_ok db" and "add_collection ports ctx address label stamp db q = (answer, db', q')"
    and "ctx_workspace_id ctx \<noteq> Some other"
  shows "registry_ok db' \<and> list_collections other db' = list_collections other db \<and>
    find_by_address other a db' = find_by_address other a db"
proof (cases "db' = db")
  case False
  with assms(2) obtain ws uid checksum normalized w created where
    ws: "registration_identity ctx = Inr (ws, uid)"
    and run: "add_or_get ws uid checksum normalized (ctx_correlation_id ctx) stamp db = Inr ((w, created), db')"
    by (auto simp: add_collection_def split: sum.splits prod.splits elim!: attempt_InrE transact.elims)
  from ws have "ctx_workspace_id ctx = Some ws"
    by (auto simp: registration_identity_def require_workspace_iff split: option.splits elim!: attempt_InrE)
  with assms(3) have other: "other \<noteq> ws" by auto
  note D = add_or_get_InrD [OF run assms(1)]
  then have "adds_only ws db db'" by (auto simp: adds_only_def subscribed_def)
  with D other show ?thesis
    using adds_only_lists [OF _ assms(1)] adds_only_find [OF _ assms(1)] by blast
qed (use assms(1) in simp)


lemma add_or_get_again:
  assumes "registry_ok db" and "add_or_get ws uid address label corr stamp db = Inr ((w, created), db1)"
    and "lower address' = lower address" and "fits_column 120 label'"
  shows "add_or_get ws uid' address' label' corr' stamp' db1 = Inr ((w, False), db1)"
proof -
  note D = add_or_get_InrD [OF assms(2,1)]
  then obtain r c where w: "w = collection_record r c None None" and c: "c \<in> set (collections db1)" "at_address address c"
    and r: "r \<in> set (workspace_collections db1)" "subscribed ws (collection_id c) r"
    and fits: "collection_fits (new_collection (reg_collection_id stamp) address)"
      "collection_checks (new_collection (reg_collection_id stamp) address)" by blast
  from D have ok: "unique_table collection_clash (collections db1)"
    "unique_table subscription_clash (workspace_collections db1)" by (auto simp: registry_ok_def)
  have "length address' = length address" using assms(3) by (metis length_lower)
  with fits assms(3) have fits': "collection_fits (new_collection n address')" "collection_checks (new_collection n address')" for n
    by (auto simp: collection_fits_def collection_checks_def new_collection_def)
  have at: "at_address address' = at_address address" using assms(3) by (simp add: at_address_def fun_eq_iff)
  have "list_ex (same_address (new_collection n address')) (collections db1)" for n
    using c at by (auto simp: list_ex_iff same_address_def new_collection_def at_address_def assms(3) intro!: bexI [of _ c])
  then have one: "get_collection (reg_collection_id stamp') address' db1 = Inr (c, db1)"
    using fits' at_address_unique [OF ok(1) c(1)] c(2)
    by (simp add: get_collection_def Let_def insert_or_nothing_def at)
  let ?row = "new_subscription (reg_subscription_id stamp') ws (collection_id c) label' uid' (reg_now stamp')"
  have "list_ex (same_subscription ?row) (workspace_collections db1)"
    using r by (auto simp: list_ex_iff same_subscription_def new_subscription_def subscribed_def intro!: bexI [of _ r])
  then have "get_subscription ?row db1 = Inr ((r, False), db1)"
    using subscribed_unique [OF ok(2) r] assms(4)
    by (simp add: get_subscription_def insert_or_nothing_def new_subscription_def subscription_fits_def)
  with one w show ?thesis by (simp add: add_or_get_def)
qed

lemma normalize_label_fits: "normalize_label label = Inr l \<Longrightarrow> fits_column 120 l"
  by (auto simp: normalize_label_def Let_def split: option.splits if_splits)


section \<open>Examples\<close>

definition sample_address :: string where
  "sample_address = ''0x'' @ replicate 40 (CHR ''C'')"

text \<open>Ports that take every text, and a queue that keeps its tasks.\<close>

definition sample_ports :: "(string \<times> (string \<times> string) list \<times> string) list collection_ports" where
  "sample_ports = \<lparr> port_is_address = (\<lambda>a. True), port_to_checksum = (\<lambda>a. a),
     port_send_task = (\<lambda>name args queue q. (Inr (), q @ [(name, args, queue)])) \<rparr>"

definition member_context :: request_context where
  "member_context = \<lparr> ctx_telegram_user_id = 7, ctx_chat_id = 7, ctx_chat_type = ''private'',
     ctx_correlation_id = 1, ctx_user_id = Some 2, ctx_workspace_id = Some 3,
     ctx_workspace_role = Some WorkspaceRole_OWNER, ctx_platform_role = None \<rparr>"

definition member_user :: platform_user where
  "member_user = \<lparr> user_id = 2, user_telegram_user_id = 7, user_username = None, user_display_name = None,
     user_status = UserStatus_ACTIVE, user_approved_at = 0, user_approved_by_user_id = None,
     user_revoked_at = None, user_revoked_by_user_id = None \<rparr>"

definition member_workspace :: workspace where
  "member_workspace = \<lparr> workspace_id = 3, workspace_name = ''w'', workspace_personal_owner_user_id = 2,
     workspace_status = WorkspaceStatus_ACTIVE \<rparr>"

definition empty_registry :: ethereum_db where
  "empty_registry = \<lparr> ethereum_access = \<lparr> platform_users = [member_user], access_requests = [],
       workspaces = [member_workspace], workspace_memberships = [], notification_destinations = [],
       workspace_strategies = [], audit_logs = [], reads_back = True \<rparr>,
     collections = [], workspace_collections = [], scan_jobs = [], scan_checkpoints = [],
     raw_evidences = [], mint_events = [], drawn = 0 \<rparr>"

definition sample_stamp :: registration_stamp where
  "sample_stamp = \<lparr> reg_collection_id = 10, reg_subscription_id = 11, reg_audit_id = 12, reg_now = 5 \<rparr>"

lemma empty_registry_ok: "registry_ok empty_registry"
  by (simp add: registry_ok_def empty_registry_def)


definition first_registration where
  "first_registration = add_collection sample_ports member_context sample_address (Some '' my  label '')
     sample_stamp empty_registry []"

lemma first_registration_shown:
  "(case first_registration of (answer, db, q) \<Rightarrow> (case answer of Inl e \<Rightarrow> None | Inr r \<Rightarrow>
     Some (registered_created r, registered_scan_queued r, wc_active (registered_collection r),
       wc_label (registered_collection r), map (\<lambda>(name, args, queue). queue) q))) =
   Some (True, True, True, Some ''my label'', [''indexer'', ''notifications''])"
  unfolding first_registration_def by code_simp

lemma first_registrationE:
  obtains result db q where "first_registration = (Inr result, db, q)"
    and "wc_active (registered_collection result)"
  using first_registration_shown by (auto split: prod.splits sum.splits)

theorem collections_private_witness:
  "\<exists>result db q. first_registration = (Inr result, db, q) \<and> list_collections 8 db = [] \<and>
     find_by_address 8 sample_address db = Inr None"
proof -
  obtain result db q where run: "first_registration = (Inr result, db, q)" by (rule first_registrationE)
  from collections_private [OF empty_registry_ok run [unfolded first_registration_def], of 8] run
  show ?thesis
    by (auto simp: member_context_def list_collections_def find_by_address_def empty_registry_def)
qed


end
