(* ===== verification/ScanReports.thy ===== *)
theory ScanReports
  imports Collections "HOL-Library.AList"
begin

text \<open>
  The notification task (\<^verbatim>\<open>app/workers/scan_notifications.py\<close>): it reads the progress of a subscribed
  collection, remembers the report in the subscription when it is a new one, and only then sends it to
  the private chat of the workspace. Telegram and the Celery client are arguments. Of several private
  chats the query keeps the first.
\<close>

section \<open>The report\<close>

definition is_terminal :: "collection_scan_status \<Rightarrow> bool" where
  "is_terminal s \<longleftrightarrow> s \<in> {CollectionScanStatus_COMPLETE, CollectionScanStatus_FAILED,
     CollectionScanStatus_QUALITY_WARNING}"

definition scan_percent :: "scan_job \<Rightarrow> scan_checkpoint option \<Rightarrow> int" where
  "scan_percent j checkpoint =
     (let position = (case checkpoint of None \<Rightarrow> job_start_block j - 1
            | Some r \<Rightarrow> last_committed_block_number r);
          span = max 1 (job_end_block j - job_start_block j + 1)
      in min 100 (max 0 (position - job_start_block j + 1) * 100 div span))"

definition milestone :: "bool \<Rightarrow> int \<Rightarrow> int" where
  "milestone terminal percent = (if terminal then 100 else percent div 25 * 25)"

record scan_report =
  report_milestone :: int
  report_status :: collection_scan_status
  report_warnings :: "string list"

definition report_of :: "collection \<Rightarrow> scan_job option \<Rightarrow> scan_checkpoint option \<Rightarrow> scan_report" where
  "report_of c job checkpoint =
     \<lparr> report_milestone = milestone (is_terminal (collection_scan_status c))
         (case job of None \<Rightarrow> 0 | Some j \<Rightarrow> scan_percent j checkpoint),
       report_status = collection_scan_status c,
       report_warnings = (case job of None \<Rightarrow> [] | Some j \<Rightarrow> text_codes (job_quality_warnings j)) \<rparr>"

definition report_state :: "scan_report \<Rightarrow> (string \<times> json) list" where
  "report_state report =
     [(''milestone'', JInt (report_milestone report)),
      (''status'', JStr (collection_scan_status_value (report_status report))),
      (''warnings'', JList (map JStr (report_warnings report)))]"

text \<open>Equality of two dicts with plain values: the order of their members does not count.\<close>

definition same_dict :: "(string \<times> json) list \<Rightarrow> (string \<times> json) list \<Rightarrow> bool" where
  "same_dict m m' \<longleftrightarrow> list_all (\<lambda>k. map_of m k = map_of m' k) (map fst m @ map fst m')"

definition last_report_is :: "json \<Rightarrow> (string \<times> json) list \<Rightarrow> bool" where
  "last_report_is settings state \<longleftrightarrow>
     (case settings of
        JObject members \<Rightarrow>
          (case json_get members ''last_scan_report'' of JObject m \<Rightarrow> same_dict m state | _ \<Rightarrow> False)
      | _ \<Rightarrow> False)"

definition with_report :: "(string \<times> json) list \<Rightarrow> json \<Rightarrow> json" where
  "with_report state settings =
     (case settings of
        JObject members \<Rightarrow> JObject (AList.update ''last_scan_report'' (JObject state) members)
      | _ \<Rightarrow> JObject [(''last_scan_report'', JObject state)])"

definition report_message :: "workspace_collection \<Rightarrow> collection \<Rightarrow> scan_report \<Rightarrow> string" where
  "report_message r c report =
     ''Collection scan '' @ collection_scan_status_value (report_status report) @ '': '' @
     collection_checksum_address c @
     (case subscription_label r of
        None \<Rightarrow> [] | Some label \<Rightarrow> if label = [] then [] else '' ('' @ label @ '')'') @
     [CHR 0x0A] @ ''Progress: '' @ str_int (report_milestone report) @ ''%'' @
     (if report_warnings report = [] then []
      else [CHR 0x0A] @ ''Quality warning: '' @ comma_join (report_warnings report))"

section \<open>The task\<close>

definition private_destination :: "uuid \<Rightarrow> notification_destination \<Rightarrow> bool" where
  "private_destination ws d \<longleftrightarrow> destination_policy (collection_session ws) d \<and>
     destination_workspace_id d = ws \<and> destination_enabled d \<and> destination_chat_type d = ''private''"

definition tracked :: "uuid \<Rightarrow> uuid \<Rightarrow> ethereum_db \<Rightarrow>
    (workspace_collection \<times> collection \<times> notification_destination) option" where
  "tracked ws cid db =
     (case select_one (\<lambda>r. active_in ws r \<and> subscription_collection_id r = cid) (workspace_collections db) of
        None \<Rightarrow> None
      | Some r \<Rightarrow>
          (case collection_row (subscription_collection_id r) db of
             None \<Rightarrow> None
           | Some c \<Rightarrow> map_option (\<lambda>d. (r, c, d))
               (select_one (private_destination ws) (notification_destinations (ethereum_access db)))))"

definition remember_report :: "workspace_collection \<Rightarrow> (string \<times> json) list \<Rightarrow> ethereum_db \<Rightarrow> ethereum_db" where
  "remember_report r state db = db\<lparr> workspace_collections :=
     update_rows (\<lambda>x. subscription_id x = subscription_id r)
       (\<lambda>x. x\<lparr> subscription_notification_settings := with_report state (subscription_notification_settings r) \<rparr>)
       (workspace_collections db) \<rparr>"

definition notify ::
  "(int \<Rightarrow> string \<Rightarrow> 'b \<Rightarrow> unit outcome \<times> 'b) \<Rightarrow> uuid \<Rightarrow> uuid \<Rightarrow> ethereum_db \<Rightarrow> 'b \<Rightarrow>
     bool outcome \<times> ethereum_db \<times> 'b"
where
  "notify send_message ws cid db b =
     (case tracked ws cid db of
        None \<Rightarrow> (Inr True, db, b)
      | Some (r, c, d) \<Rightarrow>
          (let terminal = is_terminal (collection_scan_status c);
               report = report_of c (job_row (collection_id c) db) (checkpoint_row (collection_id c) db);
               state = report_state report
           in if last_report_is (subscription_notification_settings r) state then (Inr terminal, db, b)
              else (case send_message (destination_telegram_chat_id d) (report_message r c report) b of
                  (Inl e, b') \<Rightarrow> (Inl e, remember_report r state db, b')
                | (Inr _, b') \<Rightarrow> (Inr terminal, remember_report r state db, b'))))"

text \<open>The task asks for its next run in a minute until the scan has ended.\<close>

definition track_scan ::
  "(int \<Rightarrow> string \<Rightarrow> 'b \<Rightarrow> unit outcome \<times> 'b) \<Rightarrow>
     (string \<Rightarrow> (string \<times> string) list \<Rightarrow> string \<Rightarrow> nat \<Rightarrow> 'b \<Rightarrow> unit outcome \<times> 'b) \<Rightarrow>
     uuid \<Rightarrow> uuid \<Rightarrow> ethereum_db \<Rightarrow> 'b \<Rightarrow> bool outcome \<times> ethereum_db \<times> 'b"
where
  "track_scan send_message send_later ws cid db b =
     (case notify send_message ws cid db b of
        (Inl e, db', b') \<Rightarrow> (Inl e, db', b')
      | (Inr terminal, db', b') \<Rightarrow>
          if terminal then (Inr terminal, db', b')
          else (case send_later ''copymint.collections.track_scan''
              [(''workspace_id'', uuid_str ws), (''collection_id'', uuid_str cid)] ''notifications'' 60 b' of
              (Inl e, b'') \<Rightarrow> (Inl e, db', b'')
            | (Inr _, b'') \<Rightarrow> (Inr terminal, db', b'')))"

section \<open>Lemmas\<close>

lemma last_report_remembered: "last_report_is (with_report state settings) state"
  by (auto simp: last_report_is_def with_report_def json_get_def update_conv same_dict_def list_all_iff
      split: json.splits)

lemma scan_percent_bounds: "0 \<le> scan_percent j checkpoint \<and> scan_percent j checkpoint \<le> 100"
  by (auto simp: scan_percent_def Let_def pos_imp_zdiv_nonneg_iff)

lemma le_div_iff:
  fixes x s k :: int
  assumes "0 < s"
  shows "k \<le> x div s \<longleftrightarrow> k * s \<le> x"
proof -
  have x: "x = s * (x div s) + x mod s" and rest: "0 \<le> x mod s" "x mod s < s" using assms by simp_all
  show ?thesis
  proof
    assume "k \<le> x div s"
    then have "k * s \<le> x div s * s" using assms by (intro mult_right_mono) simp_all
    also have "\<dots> = s * (x div s)" by (simp add: mult.commute)
    finally show "k * s \<le> x" using x rest by linarith
  next
    assume le: "k * s \<le> x"
    have "\<not> x div s \<le> k - 1"
    proof
      assume "x div s \<le> k - 1"
      then have "x div s * s \<le> (k - 1) * s" using assms by (intro mult_right_mono) simp_all
      then have "s * (x div s) \<le> k * s - s" by (simp add: algebra_simps)
      then show False using x rest le by linarith
    qed
    then show "k \<le> x div s" by simp
  qed
qed

text \<open>A percentage is one hundred only when the whole range is behind the checkpoint.\<close>

lemma scan_percent_full:
  assumes "job_start_block j \<le> job_end_block j" and "position = (case checkpoint of
      None \<Rightarrow> job_start_block j - 1 | Some r \<Rightarrow> last_committed_block_number r)"
  shows "scan_percent j checkpoint = 100 \<longleftrightarrow> job_end_block j \<le> position"
proof -
  define span where "span = job_end_block j - job_start_block j + 1"
  define done_blocks where "done_blocks = max 0 (position - job_start_block j + 1)"
  have span: "1 \<le> span" using assms(1) by (simp add: span_def)
  have "scan_percent j checkpoint = min 100 (done_blocks * 100 div span)"
    using span unfolding scan_percent_def Let_def assms(2) [symmetric] done_blocks_def span_def by simp
  moreover have "100 \<le> done_blocks * 100 div span \<longleftrightarrow> 100 * span \<le> done_blocks * 100"
    by (rule le_div_iff) (use span in simp)
  moreover have "100 * span \<le> done_blocks * 100 \<longleftrightarrow> job_end_block j \<le> position"
    using span by (cases "0 \<le> position - job_start_block j + 1") (auto simp: done_blocks_def span_def)
  ultimately show ?thesis by (auto simp: min_def split: if_splits)
qed

lemma select_one_update:
  assumes "select_one p rows = Some r" and "\<And>x. q x \<Longrightarrow> p (f x) = p x" and "q r"
  shows "select_one p (update_rows q f rows) = Some (f r)"
  using assms by (induction rows) (auto split: if_splits)

lemma tracked_remembered:
  assumes "tracked ws cid db = Some (r, c, d)"
  shows "tracked ws cid (remember_report r state db) =
    Some (r\<lparr> subscription_notification_settings := with_report state (subscription_notification_settings r) \<rparr>, c, d)"
proof -
  have row: "select_one (\<lambda>x. active_in ws x \<and> subscription_collection_id x = cid) (workspace_collections db) = Some r"
    and rest: "collection_row (subscription_collection_id r) db = Some c"
      "select_one (private_destination ws) (notification_destinations (ethereum_access db)) = Some d"
    using assms by (auto simp: tracked_def split: option.splits)
  have "select_one (\<lambda>x. active_in ws x \<and> subscription_collection_id x = cid)
      (workspace_collections (remember_report r state db)) =
    Some (r\<lparr> subscription_notification_settings := with_report state (subscription_notification_settings r) \<rparr>)"
    using row by (simp add: remember_report_def, intro select_one_update)
      (simp_all add: active_in_def subscription_policy_def)
  then show ?thesis using rest by (simp add: tracked_def remember_report_def collection_row_def)
qed

lemma progress_remembered:
  "job_row cid (remember_report r state db) = job_row cid db"
  "checkpoint_row cid (remember_report r state db) = checkpoint_row cid db"
  by (simp_all add: remember_report_def job_row_def checkpoint_row_def)

lemma notify_reported:
  assumes "tracked ws cid db = Some (r, c, d)"
    and "last_report_is (subscription_notification_settings r)
      (report_state (report_of c (job_row (collection_id c) db) (checkpoint_row (collection_id c) db)))"
  shows "notify send_message ws cid db b = (Inr (is_terminal (collection_scan_status c)), db, b)"
  using assms by (simp add: notify_def Let_def)

text \<open>The database of the task afterwards: unchanged, or with the report remembered.\<close>

lemma notify_db:
  assumes "tracked ws cid db = Some (r, c, d)" and "notify send_message ws cid db b = (answer, db', b')"
  shows "last_report_is (subscription_notification_settings r)
        (report_state (report_of c (job_row (collection_id c) db) (checkpoint_row (collection_id c) db))) \<and>
      db' = db \<and> b' = b \<or>
    db' = remember_report r
      (report_state (report_of c (job_row (collection_id c) db) (checkpoint_row (collection_id c) db))) db"
  using assms by (auto simp: notify_def Let_def split: if_splits prod.splits sum.splits)

section \<open>Properties\<close>

text \<open>
  C31. A report is sent once. After any run of the notification task on a tracked collection, a further
  run that finds the scan where it was sends nothing, whatever the settings held before. This is so
  even when the first run ended with the exception of the send: the report was remembered before it
  was sent, so a report whose send failed is never sent again.
\<close>

theorem report_once:
  assumes "tracked ws cid db = Some (r, c, d)" and "notify send_message ws cid db b = (answer, db', b')"
  shows "notify send_again ws cid db' b'' = (Inr (is_terminal (collection_scan_status c)), db', b'')"
  using notify_db [OF assms]
proof
  assume "last_report_is (subscription_notification_settings r)
        (report_state (report_of c (job_row (collection_id c) db) (checkpoint_row (collection_id c) db))) \<and>
      db' = db \<and> b' = b"
  then show ?thesis using notify_reported [OF assms(1)] by simp
next
  assume "db' = remember_report r
      (report_state (report_of c (job_row (collection_id c) db) (checkpoint_row (collection_id c) db))) db"
  then show ?thesis
    by (auto intro!: notify_reported [OF tracked_remembered [OF assms(1)]]
        simp: progress_remembered last_report_remembered)
qed

section \<open>Witnesses\<close>

text \<open>A subscribed collection whose scan has begun, and the private chat of its workspace.\<close>

definition reported_collection :: collection where
  "reported_collection = \<lparr> collection_id = 10, collection_chain_id = 1,
     collection_normalized_address = lower sample_address, collection_checksum_address = sample_address,
     collection_token_standard = TokenStandard_UNKNOWN, collection_deployment_block_number = None,
     collection_deployment_block_hash = None, collection_deployment_confidence = DeploymentConfidence_UNKNOWN,
     collection_deployment_confidence_value = 0, collection_scan_status = CollectionScanStatus_SCANNING \<rparr>"

definition reported_subscription :: workspace_collection where
  "reported_subscription = \<lparr> subscription_id = 11, subscription_workspace_id = 3,
     subscription_collection_id = 10, subscription_label = None, subscription_added_by_user_id = 2,
     subscription_notification_settings = JObject [], subscription_active = True,
     subscription_created_at = 5 \<rparr>"

definition private_chat :: notification_destination where
  "private_chat = \<lparr> destination_id = 20, destination_workspace_id = 3, destination_telegram_chat_id = 7,
     destination_chat_type = ''private'', destination_enabled = True \<rparr>"

definition reporting_db :: ethereum_db where
  "reporting_db = empty_registry\<lparr> collections := [reported_collection],
     workspace_collections := [reported_subscription],
     ethereum_access := (ethereum_access empty_registry)\<lparr> notification_destinations := [private_chat] \<rparr> \<rparr>"

definition failing_send :: "int \<Rightarrow> string \<Rightarrow> string list \<Rightarrow> unit outcome \<times> string list" where
  "failing_send chat message sent = (Inl (ValueError ''unreachable''), sent)"

definition recording_send :: "int \<Rightarrow> string \<Rightarrow> string list \<Rightarrow> unit outcome \<times> string list" where
  "recording_send chat message sent = (Inr (), sent @ [message])"

lemma reporting_tracked:
  "tracked 3 10 reporting_db = Some (reported_subscription, reported_collection, private_chat)"
  by (simp add: tracked_def reporting_db_def active_in_def subscription_policy_def collection_row_def
      private_destination_def destination_policy_def workspace_isolation_def collection_session_def
      set_workspace_context_def empty_session_def reported_collection_def reported_subscription_def
      private_chat_def)

lemma report_fails:
  "\<exists>db'. notify failing_send 3 10 reporting_db [] = (Inl (ValueError ''unreachable''), db', [])"
  by (simp add: notify_def reporting_tracked Let_def failing_send_def last_report_is_def
      reported_subscription_def json_get_def)

theorem report_once_witness:
  "\<exists>db'. notify failing_send 3 10 reporting_db [] = (Inl (ValueError ''unreachable''), db', []) \<and>
     (\<exists>terminal. notify recording_send 3 10 db' [] = (Inr terminal, db', []))"
proof -
  obtain db' where run: "notify failing_send 3 10 reporting_db [] = (Inl (ValueError ''unreachable''), db', [])"
    using report_fails by blast
  from run report_once [OF reporting_tracked run, of recording_send "[]"] show ?thesis by auto
qed

end
