(* ===== verification/CollectionHandlers.thy ===== *)
theory CollectionHandlers
  imports BotWorld ScanReports
begin

text \<open>
  The collection handlers (\<^verbatim>\<open>app/bot/handlers/collections.py\<close>): the commands that save a collection,
  ask for its scan and list the workspace's collections with their progress. Their store is the
  Ethereum tables with the state \<open>'q\<close> of the task queue.
\<close>

section \<open>Arguments of a command\<close>

definition strip :: "string \<Rightarrow> string" where
  "strip s = rev (dropWhile is_white (rev (dropWhile is_white s)))"

definition command_arguments :: "string option \<Rightarrow> string" where
  "command_arguments message_text =
     strip (snd (partition_at (CHR '' '') (case message_text of None \<Rightarrow> [] | Some t \<Rightarrow> t)))"

section \<open>Handlers\<close>

definition add_collection_command ::
  "'b telegram_api \<Rightarrow> 'q collection_ports \<Rightarrow> (nat \<Rightarrow> registration_stamp) \<Rightarrow> handler_data \<Rightarrow> string option \<Rightarrow>
     (ethereum_db \<times> 'q, 'b) bot_world \<Rightarrow> unit outcome \<times> (ethereum_db \<times> 'q, 'b) bot_world"
where
  "add_collection_command api ports stamps data message_text =
     (let arguments = command_arguments message_text
      in if arguments = []
         then call_telegram api (AnswerMessage
           (points ''Usage: /add_collection <Ethereum address> [private label]'') [])
         else
           (case partition_at (CHR '' '') arguments of (address, label) \<Rightarrow>
              unless_access_error
                (\<lambda>w. case require_context (data_context data) (data_access_error data) of
                   Inl e \<Rightarrow> raise e w
                 | Inr ctx \<Rightarrow>
                     on_store (\<lambda>n (db, q). case add_collection ports ctx address
                         (if label = [] then None else Some label) (stamps n) db q of
                       (answer, db', q') \<Rightarrow> (answer, (db', q'))) w)
                (\<lambda>message. call_telegram api (AnswerMessage (points message) []))
                (\<lambda>res. call_telegram api (AnswerMessage (join_lines
                   [points (''Collection '' @ (if registered_created res then ''saved'' else ''already saved'') @
                      '' for your workspace:''),
                    points (wc_address (registered_collection res)),
                    points ((if registered_scan_queued res then ''Scan queued.''
                       else ''Saved, but scan queue is unavailable.'') @
                      '' Creating this entry does not mint an NFT or move funds.'')]) []))))"

definition scan_collection_command ::
  "'b telegram_api \<Rightarrow> 'q collection_ports \<Rightarrow> handler_data \<Rightarrow> string option \<Rightarrow>
     (ethereum_db \<times> 'q, 'b) bot_world \<Rightarrow> unit outcome \<times> (ethereum_db \<times> 'q, 'b) bot_world"
where
  "scan_collection_command api ports data message_text =
     (let address = command_arguments message_text
      in if address = []
         then call_telegram api (AnswerMessage
           (points ''Usage: /scan <saved Ethereum collection address>'') [])
         else
           unless_access_error
             (\<lambda>w. case require_context (data_context data) (data_access_error data) of
                Inl e \<Rightarrow> raise e w
              | Inr ctx \<Rightarrow>
                  on_store (\<lambda>n (db, q). case request_scan ports ctx address db q of
                    (answer, q') \<Rightarrow> (answer, (db, q'))) w)
             (\<lambda>message. call_telegram api (AnswerMessage (points message) []))
             (\<lambda>(r, queued).
                if queued
                then call_telegram api (AnswerMessage (points (''Scan queued for '' @ wc_address r @ ''.'')) [])
                else call_telegram api (AnswerMessage
                  (points ''The collection is saved, but the scan queue is unavailable.'') [])))"

text \<open>The progress shown for a collection, when its scan has a range and a checkpoint.\<close>

definition listed_percent :: "workspace_collection_record \<Rightarrow> int option" where
  "listed_percent r =
     (case (wc_scan_start_block r, wc_scan_end_block r, wc_last_scanned_block r) of
        (Some first, Some final, Some scanned) \<Rightarrow>
          (let span = max 1 (final - first + 1); covered = max 0 (scanned - first + 1)
           in Some (min 100 (covered * 100 div span)))
      | _ \<Rightarrow> None)"

fun collection_lines :: "nat \<Rightarrow> workspace_collection_record list \<Rightarrow> outgoing list" where
  "collection_lines n [] = []"
| "collection_lines n (r # rs) =
     (points (decimal n @ ''. '' @ wc_address r) @
      (case wc_label r of
         None \<Rightarrow> []
       | Some label \<Rightarrow> if label = [] then [] else points '' '' @ em_dash @ points ('' '' @ label))) #
     points (''   Scan: '' @ collection_scan_status_value (wc_scan_status r) @
       (case listed_percent r of None \<Rightarrow> [] | Some percent \<Rightarrow> '' ('' @ str_int percent @ ''%)'')) #
     (if wc_quality_warning_codes r = [] then []
      else [points (''   Quality warning: '' @ comma_join (wc_quality_warning_codes r))]) @
     collection_lines (n + 1) rs"

definition list_collections_command ::
  "'b telegram_api \<Rightarrow> handler_data \<Rightarrow>
     (ethereum_db \<times> 'q, 'b) bot_world \<Rightarrow> unit outcome \<times> (ethereum_db \<times> 'q, 'b) bot_world"
where
  "list_collections_command api data =
     unless_access_error
       (\<lambda>w. (attempt (require_context (data_context data) (data_access_error data)) (\<lambda>ctx.
          service_list_collections ctx (fst (bot_store w))), w))
       (\<lambda>message. call_telegram api (AnswerMessage (points message) []))
       (\<lambda>rows. if rows = []
          then call_telegram api (AnswerMessage
            (points ''No collections saved. Use /add_collection to add one.'') [])
          else call_telegram api (AnswerMessage (join_lines
            (points ''Your Ethereum collections:'' # collection_lines 1 rows)) []))"

end
