(* ===== verification/Compositions.thy ===== *)
theory Compositions
  imports Settings RateLimit WalletHandlers CollectionHandlers ScanWorker JsonRpc
begin

text \<open>
  Properties that span the processes: what the settings a process accepts mean for the services it
  builds from them, and what the progress shown to a user means for the worker. It also holds the
  balance task (\<^verbatim>\<open>app/workers/wallet_balances.py\<close>), which joins the wallet store and the JSON-RPC client.
\<close>

section \<open>Settings and services\<close>

lemma hit_limits:
  assumes "1 \<le> limit" and "scope \<noteq> []" and "subject \<noteq> []"
  shows "hit pipeline prefix scope subject limit 60 r =
    ask (pipeline (rate_key prefix scope subject) 60) (\<lambda>(count, ttl). return
      \<lparr> rate_allowed = (count \<le> limit), rate_count = count, rate_limit = limit,
        rate_retry_after = max ttl 1 \<rparr>) r"
  using assms by (simp add: hit_def)


section \<open>Progress and the worker\<close>

lemma committed_block_checkpoint:
  "committed_block (slice_consumer cid) db = map_option last_committed_block_number (checkpoint_row cid db)"
  by (simp add: committed_block_def checkpoint_row_def checkpoint_of_def [abs_def] slice_consumer_def)


section \<open>Witnesses\<close>

definition sample_api :: api_settings where
  "sample_api = \<lparr> app_env = ''production'', log_level = ''INFO'', settings_ceiling = ''paper'',
     api_database_url = ''db'', api_queue_url = ''queue'', telegram_bot_token = ''bot'',
     telegram_webhook_secret = replicate 32 (CHR ''s''), telegram_platform_owner_ids = [7, 3, 7],
     signer_internal_url = ''signer'', api_signer_secret = replicate 32 (CHR ''t''), api_chain_id = 1,
     max_execution_wallets = 3, user_rate_limit = 30, workspace_rate_limit = 60 \<rparr>"

definition sample_worker :: worker_settings where
  "sample_worker = \<lparr> app_env = ''production'', log_level = ''INFO'', settings_ceiling = ''paper'',
     worker_database_url = ''db'', worker_queue_url = ''queue'', ethereum_http_url = ''http'',
     ethereum_wss_url = ''wss'', worker_chain_id = 1, ethereum_reorg_lookback = 64,
     indexer_initial_chunk = 500, indexer_max_chunk = 2000 \<rparr>"


definition half_job :: scan_job where
  "half_job = \<lparr> job_id = 30, job_collection_id = 10, job_scan_version = 1, job_start_block = 100,
     job_end_block = 199, job_status = ScanJobStatus_RUNNING, job_attempt_count = 1,
     job_quality_warnings = [], job_error_code = None \<rparr>"

definition half_checkpoint :: scan_checkpoint where
  "half_checkpoint = \<lparr> checkpoint_id = 31, checkpoint_collection_id = 10, checkpoint_scan_version = 1,
     last_committed_block_number = 149, last_committed_block_hash = [] \<rparr>"

definition half_scanned :: ethereum_db where
  "half_scanned = reporting_db\<lparr> scan_jobs := [half_job], scan_checkpoints := [half_checkpoint] \<rparr>"


section \<open>The balance task\<close>

definition refresh_balance_task ::
  "'w http_post \<Rightarrow> worker_settings \<Rightarrow> uuid \<Rightarrow> uuid \<Rightarrow> instant \<Rightarrow> wallet_store \<Rightarrow> 'w \<Rightarrow>
     bool outcome \<times> wallet_store \<times> 'w"
where
  "refresh_balance_task post settings ws wid now st w =
     refresh_balance (balance_at_latest_block post (ethereum_http_url settings) (worker_chain_id settings))
       ws wid now st w"

text \<open>A node of another chain, or one that answers with a failure, leaves every wallet as it is.\<close>

lemma balance_task_other_chain:
  assumes "balance_rpc post (ethereum_http_url settings) ''eth_chainId'' [] w = (Inr chain, w')"
    and "int_base16 chain = Inr observed" and "observed \<noteq> worker_chain_id settings"
  shows "fst (snd (refresh_balance_task post settings ws wid now st w)) = st"
  using assms
  by (simp add: refresh_balance_task_def refresh_balance_def balance_at_latest_block_def ask_known split: option.split)

lemma balance_task_failure:
  assumes "fst (refresh_balance_task post settings ws wid now st w) = Inl e"
  shows "fst (snd (refresh_balance_task post settings ws wid now st w)) = st"
proof -
  have "transact st m = (Inl e, st') \<Longrightarrow> st' = st" for m :: "(bool \<times> wallet_store) outcome" and st'
    by (cases m) auto
  then show ?thesis using assms
    by (auto simp: refresh_balance_task_def refresh_balance_def split: option.splits prod.splits sum.splits)
qed

end
