(* ===== verification/Regex.thy ===== *)
theory Regex
  imports PyText
begin

text \<open>
  The part of the regular expressions of Python's \<^verbatim>\<open>re\<close> module that the redaction of logs and the secret
  scan use: literals, character classes, greedy repetitions of a class, alternatives, word
  boundaries and named groups. A match is what the backtracking matcher finds first: \<open>mat\<close> lists the ways an
  expression matches at a position in the order in which the matcher tries them. A position is the
  character before it and the text after it.
\<close>

section \<open>Expressions\<close>

datatype regex =
    Empty
  | One "char \<Rightarrow> bool"
  | Run "char \<Rightarrow> bool" nat "nat option"
  | Boundary
  | Seq regex regex
  | Alt regex regex
  | Group string regex

text \<open>The cursor of a match: the character before it, the text after it, and the groups so far.\<close>

type_synonym groups = "(string \<times> string) list"

type_synonym cursor = "char option \<times> string \<times> groups"

text \<open>\<open>\w\<close>: letters, digits and numerals of Latin-1, and the underscore.\<close>

definition word_char :: "char \<Rightarrow> bool" where
  "word_char c = (let n = ord_char c in
     48 \<le> n \<and> n \<le> 57 \<or> 65 \<le> n \<and> n \<le> 90 \<or> n = 95 \<or> 97 \<le> n \<and> n \<le> 122 \<or>
     n \<in> {170, 178, 179, 181, 185, 186, 188, 189, 190} \<or> 192 \<le> n \<and> n \<noteq> 215 \<and> n \<noteq> 247)"

text \<open>\<open>\d\<close>, \<open>[A-Za-z]\<close> and \<open>[A-Za-z0-9]\<close>.\<close>

definition digit_char :: "char \<Rightarrow> bool" where
  "digit_char c = is_digit_char c"

definition letter_char :: "char \<Rightarrow> bool" where
  "letter_char c =
     (65 \<le> ord_char c \<and> ord_char c \<le> 90 \<or> 97 \<le> ord_char c \<and> ord_char c \<le> 122)"

definition alnum_char :: "char \<Rightarrow> bool" where
  "alnum_char c = (letter_char c \<or> digit_char c)"

definition word_after :: "string \<Rightarrow> bool" where
  "word_after s = (case s of [] \<Rightarrow> False | c # _ \<Rightarrow> word_char c)"

definition word_before :: "char option \<Rightarrow> bool" where
  "word_before prev = (case prev of None \<Rightarrow> False | Some c \<Rightarrow> word_char c)"

definition advance :: "nat \<Rightarrow> cursor \<Rightarrow> cursor" where
  "advance n = (\<lambda>(prev, s, g). (if n = 0 then prev else Some (s ! (n - 1)), drop n s, g))"

text \<open>How many characters a greedy repetition may take.\<close>

definition run_length :: "(char \<Rightarrow> bool) \<Rightarrow> nat option \<Rightarrow> string \<Rightarrow> nat" where
  "run_length p hi s =
     (let n = length (takeWhile p s) in case hi of None \<Rightarrow> n | Some h \<Rightarrow> min n h)"

fun mat :: "regex \<Rightarrow> cursor \<Rightarrow> cursor list" where
  "mat Empty st = [st]"
| "mat (One p) st =
     (case fst (snd st) of [] \<Rightarrow> [] | c # _ \<Rightarrow> if p c then [advance 1 st] else [])"
| "mat (Run p lo hi) st =
     map (\<lambda>k. advance k st) (rev [lo ..< Suc (run_length p hi (fst (snd st)))])"
| "mat Boundary st = (if word_before (fst st) \<noteq> word_after (fst (snd st)) then [st] else [])"
| "mat (Seq a b) st = concat (map (mat b) (mat a st))"
| "mat (Alt a b) st = mat a st @ mat b st"
| "mat (Group name r) st =
     map (\<lambda>(prev, s, g).
         (prev, s, (name, take (length (fst (snd st)) - length s) (fst (snd st))) # g))
       (mat r st)"

text \<open>Literal text, with and without regard to case, sequences, alternatives and optional parts.\<close>

fun lits :: "string \<Rightarrow> regex" where
  "lits [] = Empty"
| "lits (c # cs) = Seq (One (\<lambda>x. x = c)) (lits cs)"

fun lits_nocase :: "string \<Rightarrow> regex" where
  "lits_nocase [] = Empty"
| "lits_nocase (c # cs) = Seq (One (\<lambda>x. lower_char x = lower_char c)) (lits_nocase cs)"

fun seq :: "regex list \<Rightarrow> regex" where
  "seq [] = Empty"
| "seq [r] = r"
| "seq (r # rs) = Seq r (seq rs)"

fun alts :: "regex list \<Rightarrow> regex" where
  "alts [] = Empty"
| "alts [r] = r"
| "alts (r # rs) = Alt r (alts rs)"

definition opt :: "regex \<Rightarrow> regex" where
  "opt r = Alt r Empty"

section \<open>Searching and substitution\<close>

text \<open>
  \<open>pattern.search(text)\<close>: the leftmost match, as the text it covers; \<open>match.group(name)\<close>; and
  \<open>pattern.sub(template, text)\<close>, which replaces the matches from left to right. None of the
  expressions used matches the empty text, so a match always moves the cursor.
\<close>

fun search :: "regex \<Rightarrow> char option \<Rightarrow> string \<Rightarrow> string option" where
  "search r prev [] = (case mat r (prev, [], []) of [] \<Rightarrow> None | _ # _ \<Rightarrow> Some [])"
| "search r prev (c # cs) =
     (case mat r (prev, c # cs, []) of
        [] \<Rightarrow> search r (Some c) cs
      | (_, rest, _) # _ \<Rightarrow> Some (take (length (c # cs) - length rest) (c # cs)))"

definition group :: "string \<Rightarrow> groups \<Rightarrow> string" where
  "group name g = (case map_of g name of None \<Rightarrow> [] | Some t \<Rightarrow> t)"

function sub :: "regex \<Rightarrow> (groups \<Rightarrow> string) \<Rightarrow> char option \<Rightarrow> string \<Rightarrow> string" where
  "sub r template prev [] = []"
| "sub r template prev (c # cs) =
     (case mat r (prev, c # cs, []) of
        (prev', rest, g) # _ \<Rightarrow>
          if length rest < length (c # cs) then template g @ sub r template prev' rest
          else c # sub r template (Some c) cs
      | [] \<Rightarrow> c # sub r template (Some c) cs)"
  by pat_completeness auto

termination
  by (relation "measure (\<lambda>(r, template, prev, s). length s)") auto

declare sub.simps [simp del]

section \<open>What a match consumes\<close>

text \<open>The character before a position that lies after the text \<open>m\<close>.\<close>

definition after :: "char option \<Rightarrow> string \<Rightarrow> char option" where
  "after prev m = (if m = [] then prev else Some (last m))"

lemma after_Nil [simp]: "after prev [] = prev"
  by (simp add: after_def)

lemma after_snoc [simp]: "after prev (m @ [c]) = Some c"
  by (simp add: after_def)

lemma after_append: "after (after prev m) m' = after prev (m @ m')"
  by (simp add: after_def)

lemma run_length_le: "run_length p hi s \<le> length s"
  by (auto simp: run_length_def Let_def length_takeWhile_le min.coboundedI1 split: option.splits)

lemma run_length_takes:
  assumes "k \<le> run_length p hi s"
  shows "list_all p (take k s)"
proof -
  have k: "k \<le> length (takeWhile p s)"
    using assms by (auto simp: run_length_def Let_def split: option.splits)
  have "p (s ! i)" if "i < k" for i
  proof -
    have "i < length (takeWhile p s)" using that k by simp
    then show ?thesis by (metis nth_mem set_takeWhileD takeWhile_nth)
  qed
  then show ?thesis using k length_takeWhile_le [of p s] by (auto simp: list_all_length)
qed

lemma advance_consumes:
  assumes "k \<le> length s" and "advance k (prev, s, g) = (prev', s', g')"
  shows "s = take k s @ s' \<and> prev' = after prev (take k s) \<and> g' = g"
proof (cases k)
  case (Suc n)
  then have "take k s \<noteq> []" "last (take k s) = s ! n"
    using assms(1) by (auto simp: take_Suc_conv_app_nth)
  then show ?thesis using assms Suc by (auto simp: advance_def after_def)
qed (use assms in \<open>auto simp: advance_def\<close>)

lemma mat_consumes:
  assumes "(prev', s', g') \<in> set (mat r (prev, s, g))"
  shows "\<exists>m. s = m @ s' \<and> prev' = after prev m"
  using assms
proof (induction r arbitrary: prev s g prev' s' g')
  case Empty
  then show ?case by auto
next
  case (One p)
  then obtain c cs where s: "s = c # cs" and r: "(prev', s', g') = advance 1 (prev, s, g)"
    by (auto split: list.splits if_splits)
  then have "s = [c] @ s' \<and> prev' = after prev [c]" by (simp add: advance_def after_def)
  then show ?case by blast
next
  case (Run p lo hi)
  then obtain k where "k \<le> run_length p hi s" "advance k (prev, s, g) = (prev', s', g')"
    by (auto simp del: upt_Suc simp: less_Suc_eq_le)
  then show ?case using advance_consumes run_length_le by (metis order_trans)
next
  case Boundary
  then show ?case by (auto split: if_splits)
next
  case (Seq a b)
  then obtain p1 s1 g1 where "(p1, s1, g1) \<in> set (mat a (prev, s, g))" "(prev', s', g') \<in> set (mat b (p1, s1, g1))"
    by auto
  then obtain m m' where "s = m @ s1" "p1 = after prev m" "s1 = m' @ s'" "prev' = after p1 m'"
    using Seq.IH by meson
  then show ?case by (metis after_append append_assoc)
next
  case (Alt a b)
  then show ?case by auto
next
  case (Group name r)
  then show ?case by auto
qed

section \<open>Matches as decompositions of the text\<close>

lemma run_length_iff:
  "k \<le> run_length p hi s \<longleftrightarrow>
     k \<le> length s \<and> list_all p (take k s) \<and> (case hi of None \<Rightarrow> True | Some h \<Rightarrow> k \<le> h)"
proof (rule iffI)
  assume k: "k \<le> run_length p hi s"
  moreover have "case hi of None \<Rightarrow> True | Some h \<Rightarrow> k \<le> h"
    using k by (auto simp: run_length_def Let_def split: option.splits)
  ultimately show "k \<le> length s \<and> list_all p (take k s) \<and> (case hi of None \<Rightarrow> True | Some h \<Rightarrow> k \<le> h)"
    using run_length_takes run_length_le order_trans by blast
next
  assume k: "k \<le> length s \<and> list_all p (take k s) \<and> (case hi of None \<Rightarrow> True | Some h \<Rightarrow> k \<le> h)"
  then have "takeWhile p (take k s @ drop k s) = take k s @ takeWhile p (drop k s)"
    by (intro takeWhile_append2) (auto simp: list_all_iff)
  then have "k \<le> length (takeWhile p s)" using k by simp
  then show "k \<le> run_length p hi s" using k
    by (auto simp: run_length_def Let_def split: option.splits)
qed

text \<open>The ways to match, each as the text consumed; the head of \<open>mat\<close> is the one preferred.\<close>

lemma mat_Empty: "c' \<in> set (mat Empty c) \<longleftrightarrow> c' = c"
  by simp

lemma mat_One:
  "(prev', s', g') \<in> set (mat (One p) (prev, s, g)) \<longleftrightarrow>
     (\<exists>c. p c \<and> s = c # s' \<and> prev' = Some c \<and> g' = g)"
  by (cases s) (auto simp: advance_def)

lemma advance_length: "advance (length m) (prev, m @ s, g) = (after prev m, s, g)"
  by (cases m rule: rev_exhaust) (simp_all add: advance_def nth_append)

lemma mat_Run:
  "(prev', s', g') \<in> set (mat (Run p lo hi) (prev, s, g)) \<longleftrightarrow>
     (\<exists>m. s = m @ s' \<and> list_all p m \<and> lo \<le> length m \<and>
        (case hi of None \<Rightarrow> True | Some h \<Rightarrow> length m \<le> h) \<and> prev' = after prev m \<and> g' = g)"
  (is "?l \<longleftrightarrow> (\<exists>m. ?r m)")
proof (rule iffI)
  assume ?l
  then obtain k where k: "lo \<le> k" "k \<le> run_length p hi s" "advance k (prev, s, g) = (prev', s', g')"
    by (force simp del: upt_Suc simp: less_Suc_eq_le)
  then have "?r (take k s)"
    using advance_consumes [of k s prev g prev' s' g'] k
    by (auto simp: run_length_iff split: option.splits)
  then show "\<exists>m. ?r m" by blast
next
  assume "\<exists>m. ?r m"
  then obtain m where m: "?r m" by blast
  then have "length m \<le> run_length p hi s" by (simp add: run_length_iff)
  moreover have "advance (length m) (prev, s, g) = (prev', s', g')"
    using m by (simp add: advance_length)
  moreover have "lo \<le> length m" using m by simp
  ultimately show ?l by (force simp del: upt_Suc simp: less_Suc_eq_le image_iff)
qed

lemma mat_Boundary:
  "(prev', s', g') \<in> set (mat Boundary (prev, s, g)) \<longleftrightarrow>
     word_before prev \<noteq> word_after s \<and> prev' = prev \<and> s' = s \<and> g' = g"
  by auto

lemma mat_Seq: "c' \<in> set (mat (Seq a b) c) \<longleftrightarrow> (\<exists>p s g. (p, s, g) \<in> set (mat a c) \<and> c' \<in> set (mat b (p, s, g)))"
  by auto

lemma mat_Seq_Boundary:
  "c' \<in> set (mat (Seq Boundary b) (prev, s, g)) \<longleftrightarrow>
     word_before prev \<noteq> word_after s \<and> c' \<in> set (mat b (prev, s, g))"
  by auto

lemma mat_Seq_One:
  "c' \<in> set (mat (Seq (One p) b) (prev, s, g)) \<longleftrightarrow>
     (\<exists>c y. s = c # y \<and> p c \<and> c' \<in> set (mat b (Some c, y, g)))"
  by (cases s) (auto simp: advance_def)

lemma mat_Seq_Run:
  "c' \<in> set (mat (Seq (Run p lo hi) b) (prev, s, g)) \<longleftrightarrow>
     (\<exists>m y. s = m @ y \<and> list_all p m \<and> lo \<le> length m \<and>
        (case hi of None \<Rightarrow> True | Some h \<Rightarrow> length m \<le> h) \<and>
        c' \<in> set (mat b (after prev m, y, g)))"
  unfolding mat_Seq mat_Run by blast

lemma mat_Group:
  "(prev', s', g') \<in> set (mat (Group name r) (prev, s, g)) \<Longrightarrow>
     \<exists>m g1. s = m @ s' \<and> g' = (name, m) # g1 \<and> (prev', s', g1) \<in> set (mat r (prev, s, g))"
proof -
  assume "(prev', s', g') \<in> set (mat (Group name r) (prev, s, g))"
  then obtain g1 where g1: "(prev', s', g1) \<in> set (mat r (prev, s, g))"
      "g' = (name, take (length s - length s') s) # g1" by auto
  moreover obtain m where "s = m @ s'" using mat_consumes [OF g1(1)] by blast
  ultimately show ?thesis by auto
qed

lemmas mat_decomposed = mat_Empty mat_One mat_Run mat_Boundary mat_Seq_Boundary mat_Seq_One mat_Seq_Run

text \<open>The preferred match of a sequence is the preferred match of its second part somewhere.\<close>

lemma mat_Seq_head:
  assumes "mat (Seq a b) c = c' # l"
  shows "\<exists>p s g l'. (p, s, g) \<in> set (mat a c) \<and> mat b (p, s, g) = c' # l'"
proof -
  have "\<exists>ys \<in> set yss. \<exists>l'. ys = c' # l'" if "concat yss = c' # l" for yss
    using that
  proof (induction yss)
    case (Cons ys yss)
    then show ?case by (cases ys) auto
  qed simp
  then obtain ys l' where "ys \<in> set (map (mat b) (mat a c))" "ys = c' # l'"
    using assms by (metis mat.simps(5))
  then obtain c1 where "ys = mat b c1" "c1 \<in> set (mat a c)" by (metis imageE set_map)
  then show ?thesis using \<open>ys = c' # l'\<close> by (cases c1) metis
qed

text \<open>A repetition before a word boundary takes as much as it can.\<close>

lemma filter_head_largest:
  assumes "concat (map (\<lambda>k. if P k then [f k] else []) (rev [lo ..< n])) = x # l"
  shows "\<exists>k. P k \<and> x = f k \<and> lo \<le> k \<and> k < n \<and> (\<forall>j. P j \<longrightarrow> j < n \<longrightarrow> lo \<le> j \<longrightarrow> j \<le> k)"
  using assms
proof (induction n)
  case (Suc n)
  show ?case
  proof (cases "lo \<le> n \<and> P n")
    case True
    then show ?thesis using Suc.prems by (auto simp: less_Suc_eq_le intro!: exI [of _ n])
  next
    case False
    then have "concat (map (\<lambda>k. if P k then [f k] else []) (rev [lo ..< n])) = x # l"
      using Suc.prems by (auto split: if_splits)
    then obtain k where k: "P k" "x = f k" "lo \<le> k" "k < n" "\<forall>j. P j \<longrightarrow> j < n \<longrightarrow> lo \<le> j \<longrightarrow> j \<le> k"
      using Suc.IH by blast
    moreover have "j \<le> k" if "P j" "j < Suc n" "lo \<le> j" for j
    proof -
      have "j \<noteq> n" using that False by blast
      then show ?thesis using that k(5) by simp
    qed
    ultimately show ?thesis by (intro exI [of _ k]) auto
  qed
qed simp

lemma run_boundary_greedy:
  assumes head: "mat (Seq (Run p lo None) Boundary) (prev, s, g) = (prev', s', g') # l"
    and longer: "s = m @ z" "list_all p m" "lo \<le> length m" "word_before (after prev m) \<noteq> word_after z"
  shows "length s' \<le> length z"
proof -
  let ?P = "\<lambda>k. word_before (fst (advance k (prev, s, g))) \<noteq> word_after (fst (snd (advance k (prev, s, g))))"
  have "concat (map (\<lambda>k. if ?P k then [advance k (prev, s, g)] else [])
      (rev [lo ..< Suc (run_length p None s)])) = (prev', s', g') # l"
    using head by (simp only: mat.simps map_map comp_def fst_conv snd_conv)
  from filter_head_largest [OF this] obtain k
    where k: "(prev', s', g') = advance k (prev, s, g)"
      "\<forall>j. ?P j \<longrightarrow> j < Suc (run_length p None s) \<longrightarrow> lo \<le> j \<longrightarrow> j \<le> k" by blast
  have adv: "advance (length m) (prev, s, g) = (after prev m, z, g)"
    using longer(1) by (simp add: advance_length)
  have "length m < Suc (run_length p None s)"
    using longer by (simp add: less_Suc_eq_le run_length_iff)
  then have "length m \<le> k" using k(2) longer(3,4) adv by simp
  then show ?thesis using k(1) longer(1) by (simp add: advance_def)
qed

section \<open>Texts without a match\<close>

lemma splits_Cons:
  "(\<forall>x y. c # cs = x @ y \<longrightarrow> P x y) \<longleftrightarrow> P [] (c # cs) \<and> (\<forall>x y. cs = x @ y \<longrightarrow> P (c # x) y)"
proof (intro iffI conjI allI impI)
  fix x y
  assume "P [] (c # cs) \<and> (\<forall>x y. cs = x @ y \<longrightarrow> P (c # x) y)" and "c # cs = x @ y"
  then show "P x y" by (cases x) auto
qed auto

lemma after_Cons: "after prev (c # m) = after (Some c) m"
  by (simp add: after_def)

lemma search_None_iff:
  "search r prev s = None \<longleftrightarrow> (\<forall>x y. s = x @ y \<longrightarrow> mat r (after prev x, y, []) = [])"
proof (induction s arbitrary: prev)
  case Nil
  show ?case by (cases "mat r (prev, [], [])") auto
next
  case (Cons c cs)
  have "search r prev (c # cs) = None \<longleftrightarrow>
      mat r (prev, c # cs, []) = [] \<and> search r (Some c) cs = None"
    by (cases "mat r (prev, c # cs, [])") (auto simp del: mat.simps)
  then show ?case unfolding splits_Cons after_Cons by (simp only: Cons.IH after_Nil)
qed

lemma sub_unmatched: "search r prev s = None \<Longrightarrow> sub r template prev s = s"
  by (induction r prev s rule: search.induct) (auto simp: sub.simps split: list.splits)

text \<open>Every match of the expression has a character that satisfies \<open>P\<close>, or ends with one.\<close>

fun needs :: "(char \<Rightarrow> bool) \<Rightarrow> regex \<Rightarrow> bool" where
  "needs P Empty = False"
| "needs P (One p) = (\<forall>c. p c \<longrightarrow> P c)"
| "needs P (Run p lo hi) = (0 < lo \<and> (\<forall>c. p c \<longrightarrow> P c))"
| "needs P Boundary = False"
| "needs P (Seq a b) = (needs P a \<or> needs P b)"
| "needs P (Alt a b) = (needs P a \<and> needs P b)"
| "needs P (Group name r) = needs P r"

lemma needs_match:
  assumes "needs P r" and "(p', s', g') \<in> set (mat r (p, s, g))"
  shows "\<exists>c \<in> set s. P c"
  using assms
proof (induction r arbitrary: p s g p' s' g')
  case (One q)
  then show ?case by (auto simp only: mat_One needs.simps) simp
next
  case (Run q lo hi)
  then obtain m where "s = m @ s'" "list_all q m" "lo \<le> length m" "\<forall>c. q c \<longrightarrow> P c" "0 < lo"
    by (auto simp only: mat_Run needs.simps)
  then show ?case by (cases m) auto
next
  case (Seq a b)
  then obtain p1 s1 g1 where 1: "(p1, s1, g1) \<in> set (mat a (p, s, g))" "(p', s', g') \<in> set (mat b (p1, s1, g1))"
    by auto
  then have "set s1 \<subseteq> set s" using mat_consumes by fastforce
  then show ?case using Seq 1 by (metis needs.simps(5) subsetD)
next
  case (Group name r)
  then show ?case using mat_Group by (metis needs.simps(7))
qed auto

lemma needs_unmatched:
  assumes "needs P r" and "\<forall>c \<in> set s. \<not> P c"
  shows "search r prev s = None"
  unfolding search_None_iff
proof (intro allI impI)
  fix x y assume "s = x @ y"
  then have "\<not> (\<exists>c \<in> set y. P c)" using assms(2) by auto
  then have "c' \<notin> set (mat r (after prev x, y, []))" for c'
    using needs_match [OF assms(1)] by (cases c') blast
  then show "mat r (after prev x, y, []) = []" by (metis list.set_intros(1) neq_Nil_conv)
qed

definition ends_with :: "(char \<Rightarrow> bool) \<Rightarrow> regex \<Rightarrow> bool" where
  "ends_with P r \<longleftrightarrow> (\<forall>p s g p' s' g'. (p', s', g') \<in> set (mat r (p, s, g)) \<longrightarrow>
     (\<exists>m. s = m @ s' \<and> m \<noteq> [] \<and> P (last m)))"

lemma ends_with_Alt: "ends_with P a \<Longrightarrow> ends_with P b \<Longrightarrow> ends_with P (Alt a b)"
  unfolding ends_with_def by (simp only: mat.simps set_append Un_iff) blast

lemma ends_with_Seq:
  assumes "ends_with P b" shows "ends_with P (Seq a b)"
  unfolding ends_with_def
proof (intro allI impI)
  fix p s g p' s' g' assume "(p', s', g') \<in> set (mat (Seq a b) (p, s, g))"
  then obtain p1 s1 g1 where 1: "(p1, s1, g1) \<in> set (mat a (p, s, g))" "(p', s', g') \<in> set (mat b (p1, s1, g1))"
    by auto
  obtain m1 where "s = m1 @ s1" using mat_consumes [OF 1(1)] by blast
  moreover obtain m where "s1 = m @ s'" "m \<noteq> []" "P (last m)"
    using assms 1(2) unfolding ends_with_def by blast
  ultimately have "s = (m1 @ m) @ s' \<and> m1 @ m \<noteq> [] \<and> P (last (m1 @ m))" by simp
  then show "\<exists>m. s = m @ s' \<and> m \<noteq> [] \<and> P (last m)" by blast
qed

lemma ends_with_lits_nocase:
  assumes "w \<noteq> []" and "\<And>c. lower_char c = lower_char (last w) \<Longrightarrow> P c"
  shows "ends_with P (lits_nocase w)"
proof -
  have "\<exists>m. s = m @ s' \<and> length m = length w \<and> (w \<noteq> [] \<longrightarrow> lower_char (last m) = lower_char (last w))"
    if "(p', s', g') \<in> set (mat (lits_nocase w) (p, s, g))" for p s g p' s' g'
    using that
  proof (induction w arbitrary: p s g)
    case (Cons c w)
    then obtain x y where x: "s = x # y" "lower_char x = lower_char c"
        "(p', s', g') \<in> set (mat (lits_nocase w) (Some x, y, g))"
      unfolding lits_nocase.simps mat_Seq_One by blast
    obtain m where "y = m @ s'" "length m = length w"
        "w \<noteq> [] \<longrightarrow> lower_char (last m) = lower_char (last w)"
      using Cons.IH [OF x(3)] by blast
    then have "s = (x # m) @ s' \<and> length (x # m) = length (c # w) \<and>
        lower_char (last (x # m)) = lower_char (last (c # w))"
      using x by auto
    then show ?case by blast
  qed simp
  then show ?thesis unfolding ends_with_def using assms by (metis length_0_conv)
qed

end
