(* ===== verification/Redaction.thy ===== *)
theory Redaction
  imports Regex "HOL-Library.AList"
begin

text \<open>
  The redaction of logs (\<^verbatim>\<open>app/infrastructure/observability/redaction.py\<close>) and the log pipeline that
  applies it (\<^verbatim>\<open>app/infrastructure/observability/logging.py\<close>): the five patterns of credentials in free
  text, the keys whose values are never shown, and the record that is written. What redaction
  guarantees of a written record, and which secrets its patterns let through.
\<close>

section \<open>Free text\<close>

definition redacted_mark :: string where
  "redacted_mark = ''[REDACTED]''"

definition bearer_char :: "char \<Rightarrow> bool" where
  "bearer_char c = (alnum_char c \<or> c \<in> set ''._~+/=-'')"

definition bearer_re :: regex where
  "bearer_re = seq [Boundary, lits_nocase ''Bearer'', Run is_white 1 None, Run bearer_char 1 None]"

definition token_char :: "char \<Rightarrow> bool" where
  "token_char c = (alnum_char c \<or> c = CHR ''_'' \<or> c = CHR ''-'')"

definition telegram_token_re :: regex where
  "telegram_token_re = seq [Boundary, Run digit_char 6 (Some 12), One (\<lambda>c. c = CHR '':''),
     Run token_char 30 None, Boundary]"

definition user_char :: "char \<Rightarrow> bool" where
  "user_char c = (\<not> is_white c \<and> c \<noteq> CHR ''/'' \<and> c \<noteq> CHR ''@'')"

definition credential_url_re :: regex where
  "credential_url_re = seq [Boundary,
     Group ''scheme'' (alts [
       seq [lits_nocase ''postgres'', opt (lits_nocase ''ql''),
         opt (seq [One (\<lambda>c. c = CHR ''+''), Run word_char 1 None])],
       seq [lits_nocase ''redis'', opt (lits_nocase ''s'')]]),
     lits ''://'', Run user_char 1 None, One (\<lambda>c. c = CHR '':''), Run user_char 1 None,
     One (\<lambda>c. c = CHR ''@'')]"

definition one_of :: "string \<Rightarrow> regex" where
  "one_of cs = One (\<lambda>c. c \<in> set cs)"

definition query_char :: "char \<Rightarrow> bool" where
  "query_char c = (c \<noteq> CHR ''&'' \<and> \<not> is_white c)"

definition query_secret_re :: regex where
  "query_secret_re = seq [
     Group ''name'' (alts [
       seq [lits_nocase ''api'', opt (one_of ''_-''), lits_nocase ''key''],
       seq [lits_nocase ''access'', opt (one_of ''_-''), lits_nocase ''token''],
       lits_nocase ''token'', lits_nocase ''secret'', lits_nocase ''key'']),
     One (\<lambda>c. c = CHR ''=''), Group ''value'' (Run query_char 1 None)]"

definition labeled_char :: "char \<Rightarrow> bool" where
  "labeled_char c = (c \<noteq> CHR '','' \<and> c \<noteq> CHR '';'' \<and> \<not> is_white c)"

definition labeled_secret_re :: regex where
  "labeled_secret_re = seq [
     Group ''label'' (alts [
       seq [lits_nocase ''private'', opt (one_of ''_ -''), lits_nocase ''key''],
       seq [lits_nocase ''seed'', opt (one_of ''_ -''), lits_nocase ''phrase''],
       lits_nocase ''mnemonic'', lits_nocase ''password'', lits_nocase ''secret'']),
     Group ''separator'' (seq [Run is_white 0 None, one_of '':='', Run is_white 0 None]),
     Group ''value'' (Run labeled_char 1 None)]"

definition redact_text :: "string \<Rightarrow> string" where
  "redact_text value =
     (let s1 = sub bearer_re (\<lambda>g. ''Bearer '' @ redacted_mark) None value;
          s2 = sub telegram_token_re (\<lambda>g. redacted_mark) None s1;
          s3 = sub credential_url_re (\<lambda>g. group ''scheme'' g @ ''://'' @ redacted_mark @ ''@'') None s2;
          s4 = sub query_secret_re (\<lambda>g. group ''name'' g @ ''='' @ redacted_mark) None s3
      in sub labeled_secret_re
           (\<lambda>g. group ''label'' g @ group ''separator'' g @ redacted_mark) None s4)"

section \<open>Structured values\<close>

text \<open>
  A value of a log record. The keys of a mapping are given as \<open>str(key)\<close>, which may agree for two
  keys; a value that is no text, mapping or sequence is given by what \<open>str\<close> shows of it.
\<close>

datatype log_value =
    LogText string
  | LogMap "(string \<times> log_value) list"
  | LogTuple "log_value list"
  | LogList "log_value list"
  | LogOther string

definition sensitive_fragments :: "string list" where
  "sensitive_fragments = [''authorization'', ''api_key'', ''apikey'', ''bot_token'', ''ciphertext'',
     ''cookie'', ''database_url'', ''encrypted_data_key'', ''kms'', ''mnemonic'', ''password'',
     ''private_key'', ''queue_url'', ''raw_transaction'', ''recovery'', ''rpc_url'', ''seed'', ''secret'',
     ''signed_transaction'', ''signer_key_id'', ''token'']"

text \<open>\<open>fragment in text\<close>.\<close>

fun occurs_in :: "string \<Rightarrow> string \<Rightarrow> bool" where
  "occurs_in t [] = (t = [])"
| "occurs_in t (c # cs) = (starts_with (c # cs) t \<or> occurs_in t cs)"

text \<open>
  \<open>str.casefold\<close>: the sharp s becomes two letters. The micro sign, which folds to a Greek letter
  beyond the characters of the model, is kept; no fragment has either.
\<close>

definition casefold :: "string \<Rightarrow> string" where
  "casefold s = concat (map (\<lambda>c. if ord_char c = 223 then ''ss'' else [lower_char c]) s)"

definition is_sensitive_key :: "string \<Rightarrow> bool" where
  "is_sensitive_key key =
     (let normalized = map (\<lambda>c. if c = CHR ''-'' \<or> c = CHR '' '' then CHR ''_'' else c) (casefold key)
      in list_ex (\<lambda>fragment. occurs_in fragment normalized) sensitive_fragments)"

text \<open>A dict made of items in their order: a later item replaces the value of an equal key.\<close>

definition dict_of :: "(string \<times> 'a) list \<Rightarrow> (string \<times> 'a) list" where
  "dict_of items = fold (\<lambda>(k, v). AList.update k v) items []"

lemma item_smaller: "(k, v) \<in> set items \<Longrightarrow> size v < size (LogMap items)"
  by (induction items) auto

lemma element_smaller:
  "v \<in> set vs \<Longrightarrow> size v < size (LogTuple vs)"
  "v \<in> set vs \<Longrightarrow> size v < size (LogList vs)"
  by (induction vs) auto

function redact :: "string option \<Rightarrow> log_value \<Rightarrow> log_value" where
  "redact (Some key) v =
     (if is_sensitive_key key then LogText redacted_mark else redact None v)"
| "redact None (LogText t) = LogText (redact_text t)"
| "redact None (LogMap items) = LogMap (dict_of (map (\<lambda>(k, v). (k, redact (Some k) v)) items))"
| "redact None (LogTuple vs) = LogTuple (map (redact None) vs)"
| "redact None (LogList vs) = LogList (map (redact None) vs)"
| "redact None (LogOther t) = LogOther t"
  by pat_completeness auto

termination
  by (relation "measures [\<lambda>(key, v). size v, \<lambda>(key, v). if key = None then 0 else 1]")
    (auto dest: item_smaller element_smaller)

section \<open>Log records\<close>

text \<open>
  A record of Python's logging, with the attributes given as \<open>extra\<close> and the text of its exception.
  The expansion of the message's placeholders is the record's \<open>getMessage\<close>.
\<close>

record log_record =
  record_created :: instant
  record_levelname :: string
  record_logger_name :: string
  record_msg :: log_value
  record_args :: log_value
  record_extra :: "(string \<times> log_value) list"
  record_exception :: "string option"

definition redacting_filter :: "log_record \<Rightarrow> log_record" where
  "redacting_filter r =
     r\<lparr> record_msg := redact None (record_msg r),
        record_args := (case record_args r of
            LogMap items \<Rightarrow> redact None (LogMap items)
          | LogTuple items \<Rightarrow> LogTuple (map (redact None) items)
          | other \<Rightarrow> other) \<rparr>"

definition context_fields :: "string list" where
  "context_fields =
     [''event'', ''correlation_id'', ''workspace_id'', ''user_id'', ''task_id'', ''chain_id'']"

text \<open>The fields of the record written, before their JSON text.\<close>

definition log_payload :: "(log_value \<Rightarrow> log_value \<Rightarrow> string) \<Rightarrow> log_record \<Rightarrow> (string \<times> log_value) list" where
  "log_payload get_message r =
     [(''timestamp'', LogText (isoformat (record_created r))),
      (''level'', LogText (record_levelname r)),
      (''logger'', LogText (record_logger_name r)),
      (''message'', LogText (redact_text (get_message (record_msg r) (record_args r))))] @
     concat (map (\<lambda>field. case map_of (record_extra r) field of
           None \<Rightarrow> [] | Some v \<Rightarrow> [(field, redact (Some field) v)]) context_fields) @
     (case record_exception r of None \<Rightarrow> [] | Some t \<Rightarrow> [(''exception'', LogText (redact_text t))])"

text \<open>What the handler writes: the filter runs before the formatter.\<close>

definition emitted :: "(log_value \<Rightarrow> log_value \<Rightarrow> string) \<Rightarrow> log_record \<Rightarrow> (string \<times> log_value) list" where
  "emitted get_message r = log_payload get_message (redacting_filter r)"

section \<open>Tokens in a text\<close>

text \<open>The text of a token of the Telegram bot API, and where the pattern finds one.\<close>

definition token_text :: "string \<Rightarrow> bool" where
  "token_text w \<longleftrightarrow> (\<exists>d b. w = d @ CHR '':'' # b \<and> list_all digit_char d \<and> 6 \<le> length d \<and>
     length d \<le> 12 \<and> list_all token_char b \<and> 30 \<le> length b)"

definition token_at :: "char option \<Rightarrow> string \<Rightarrow> bool" where
  "token_at prev s \<longleftrightarrow> (\<exists>w z. s = w @ z \<and> token_text w \<and> \<not> word_before prev \<and>
     word_char (last w) \<noteq> word_after z)"

definition token_free :: "string \<Rightarrow> bool" where
  "token_free s \<longleftrightarrow> (\<forall>x y. s = x @ y \<longrightarrow> \<not> token_at (after None x) y)"

lemma word_before_after: "m \<noteq> [] \<Longrightarrow> word_before (after prev m) = word_char (last m)"
  by (simp add: after_def word_before_def)

lemma digit_is_word: "digit_char c \<Longrightarrow> word_char c"
  by (simp add: digit_char_def word_char_def)

lemma token_text_start:
  assumes "token_text w" shows "w \<noteq> [] \<and> digit_char (hd w)"
proof -
  obtain d b where "w = d @ CHR '':'' # b" "list_all digit_char d" "6 \<le> length d"
    using assms by (auto simp: token_text_def)
  then show ?thesis by (cases d) auto
qed

lemma token_chars_plain [simp]:
  "\<not> digit_char CHR ''[''" "\<not> digit_char CHR '']''" "\<not> digit_char CHR '':''"
  "\<not> token_char CHR ''[''" "\<not> token_char CHR '']''" "\<not> token_char CHR '':''"
  by (simp_all add: digit_char_def token_char_def alnum_char_def letter_char_def)

lemma token_text_chars:
  assumes "token_text w"
  shows "CHR ''['' \<notin> set w" "CHR '']'' \<notin> set w" "CHR '':'' \<in> set w"
proof -
  have "c \<notin> set xs" if "list_all P xs" "\<not> P c" for P :: "char \<Rightarrow> bool" and c xs
    using that by (auto simp: list_all_iff)
  then show "CHR ''['' \<notin> set w" "CHR '']'' \<notin> set w" "CHR '':'' \<in> set w"
    using assms by (auto simp: token_text_def)
qed

text \<open>The pattern at a position, as a decomposition of the text.\<close>

lemma telegram_match_parts:
  "(p', z, g') \<in> set (mat telegram_token_re (prev, s, g)) \<longleftrightarrow>
     word_before prev \<noteq> word_after s \<and>
     (\<exists>d b. s = d @ CHR '':'' # b @ z \<and> list_all digit_char d \<and> 6 \<le> length d \<and> length d \<le> 12 \<and>
        list_all token_char b \<and> 30 \<le> length b \<and> word_before (after (Some CHR '':'') b) \<noteq> word_after z \<and>
        p' = after (Some CHR '':'') b \<and> g' = g)"
proof -
  have "(p', z, g') \<in> set (mat telegram_token_re (prev, s, g)) \<longleftrightarrow>
      word_before prev \<noteq> word_after s \<and>
      (\<exists>d y. s = d @ y \<and> list_all digit_char d \<and> 6 \<le> length d \<and> length d \<le> 12 \<and>
        (\<exists>c y'. y = c # y' \<and> c = CHR '':'' \<and>
          (\<exists>b y''. y' = b @ y'' \<and> list_all token_char b \<and> 30 \<le> length b \<and>
            word_before (after (Some c) b) \<noteq> word_after y'' \<and> p' = after (Some c) b \<and> z = y'' \<and> g' = g)))"
    unfolding telegram_token_re_def seq.simps mat_decomposed option.case by simp
  then show ?thesis by auto
qed

lemma telegram_match_iff: "mat telegram_token_re (prev, s, g) \<noteq> [] \<longleftrightarrow> token_at prev s"
proof
  assume "mat telegram_token_re (prev, s, g) \<noteq> []"
  then obtain p' z g' where "(p', z, g') \<in> set (mat telegram_token_re (prev, s, g))"
    by (metis list.set_intros(1) neq_Nil_conv prod_cases3)
  then obtain d b where m: "word_before prev \<noteq> word_after s" "s = d @ CHR '':'' # b @ z"
      "list_all digit_char d" "6 \<le> length d" "length d \<le> 12" "list_all token_char b" "30 \<le> length b"
      "word_before (after (Some CHR '':'') b) \<noteq> word_after z"
    by (auto simp: telegram_match_parts)
  then have "word_after s" using digit_is_word by (cases d) (auto simp: word_after_def)
  moreover have "b \<noteq> []" using m by auto
  ultimately have "s = (d @ CHR '':'' # b) @ z \<and> token_text (d @ CHR '':'' # b) \<and>
      \<not> word_before prev \<and> word_char (last (d @ CHR '':'' # b)) \<noteq> word_after z"
    using m by (auto simp: token_text_def word_before_after)
  then show "token_at prev s" unfolding token_at_def by blast
next
  assume "token_at prev s"
  then obtain w z where w: "s = w @ z" "token_text w" "\<not> word_before prev"
      "word_char (last w) \<noteq> word_after z"
    unfolding token_at_def by blast
  then obtain d b where d: "w = d @ CHR '':'' # b" "list_all digit_char d" "6 \<le> length d"
      "length d \<le> 12" "list_all token_char b" "30 \<le> length b"
    unfolding token_text_def by blast
  note m = w(3,4) d
  have "word_after s" using w(1) d digit_is_word by (cases d) (auto simp: word_after_def)
  moreover have "b \<noteq> []" using m by auto
  ultimately have "(after (Some CHR '':'') b, z, g) \<in> set (mat telegram_token_re (prev, s, g))"
    unfolding telegram_match_parts using m w(1)
    by (intro conjI exI [of _ d] exI [of _ b]) (simp_all add: word_before_after)
  then show "mat telegram_token_re (prev, s, g) \<noteq> []" by auto
qed

lemma search_token_iff: "search telegram_token_re None s = None \<longleftrightarrow> token_free s"
  unfolding search_None_iff token_free_def telegram_match_iff [symmetric, of _ _ "[]"] by simp

section \<open>Marks between tokens\<close>

text \<open>A text without the character \<open>c\<close> lies before or after it.\<close>

lemma split_at_char:
  assumes "x @ c # rest = u @ w @ z" and "c \<notin> set w" and "w \<noteq> []"
  shows "(\<exists>z'. x = u @ w @ z' \<and> z = z' @ c # rest) \<or> (\<exists>u'. u = x @ c # u' \<and> rest = u' @ w @ z)"
  using assms(1)
proof (induction x arbitrary: u)
  case Nil
  then show ?case using assms(2,3) by (cases u) (auto simp: Cons_eq_append_conv)
next
  case (Cons a x)
  show ?case
  proof (cases u)
    case Nil
    then have "(a # x) @ (c # rest) = w @ z" using Cons.prems by simp
    then obtain us where "a # x = w @ us \<and> us @ (c # rest) = z \<or> (a # x) @ us = w \<and> c # rest = us @ z"
      unfolding append_eq_append_conv2 by blast
    then show ?thesis using assms(2) Nil by (cases us) auto
  next
    case (Cons b u1)
    then have "x @ c # rest = u1 @ w @ z" "a = b" using Cons.prems by auto
    then show ?thesis using Cons.IH Cons by fastforce
  qed
qed

lemma mark_split: "redacted_mark = CHR ''['' # ''REDACTED'' @ [CHR '']'']"
  by (simp add: redacted_mark_def)

lemma split_at_mark:
  assumes "x @ redacted_mark @ y = u @ w @ z" and "token_text w"
  shows "(\<exists>z'. x = u @ w @ z' \<and> z = z' @ redacted_mark @ y) \<or>
    (\<exists>u'. u = x @ redacted_mark @ u' \<and> y = u' @ w @ z)"
proof -
  have w: "w \<noteq> []" "CHR ''['' \<notin> set w" "CHR '']'' \<notin> set w" "CHR '':'' \<in> set w"
    using token_text_start [OF assms(2)] token_text_chars [OF assms(2)] by auto
  have "x @ CHR ''['' # (''REDACTED'' @ CHR '']'' # y) = u @ w @ z"
    using assms(1) by (simp add: mark_split)
  from split_at_char [OF this w(2,1)] show ?thesis
  proof (elim disjE exE conjE)
    fix u' assume u: "u = x @ CHR ''['' # u'" "''REDACTED'' @ CHR '']'' # y = u' @ w @ z"
    from split_at_char [OF u(2) w(3,1)] show ?thesis
    proof (elim disjE exE conjE)
      fix z' assume "''REDACTED'' = u' @ w @ z'"
      then have "CHR '':'' \<in> set ''REDACTED''" using w(4) by (metis Un_iff set_append)
      then show ?thesis by simp
    next
      fix u'' assume "u' = ''REDACTED'' @ CHR '']'' # u''" "y = u'' @ w @ z"
      then show ?thesis using u(1) by (simp add: mark_split)
    qed
  qed (simp add: mark_split)
qed

lemma word_after_mark [simp]: "\<not> word_after (redacted_mark @ y)"
  by (simp add: redacted_mark_def word_after_def word_char_def)

lemma word_after_Cons [simp]: "word_after (c # s) = word_char c"
  by (simp add: word_after_def)

lemma word_after_append: "z \<noteq> [] \<Longrightarrow> word_after (z @ y) = word_after z"
  by (cases z) auto

text \<open>
  Replacing a part of the text by the mark makes no token, when the text before the part ends with
  no word character and the text after it begins with no digit.
\<close>

definition no_digit_first :: "string \<Rightarrow> bool" where
  "no_digit_first s = (case s of [] \<Rightarrow> True | c # _ \<Rightarrow> \<not> digit_char c)"

lemma mark_keeps_token_free:
  assumes free: "token_free (x @ v @ y)"
    and x: "x \<noteq> []" "\<not> word_char (last x)" and y: "no_digit_first y"
  shows "token_free (x @ redacted_mark @ y)"
  unfolding token_free_def
proof (intro allI impI notI)
  fix u s assume "x @ redacted_mark @ y = u @ s" and "token_at (after None u) s"
  then obtain w z where w: "x @ redacted_mark @ y = u @ w @ z" "token_text w"
      "\<not> word_before (after None u)" "word_char (last w) \<noteq> word_after z"
    by (auto simp: token_at_def)
  have none: "\<not> token_at (after None u') (w @ z')" if "x @ v @ y = u' @ w @ z'" for u' z'
    using free that by (auto simp: token_free_def)
  from split_at_mark [OF w(1,2)] show False
  proof (elim disjE exE conjE)
    fix z' assume z': "x = u @ w @ z'" "z = z' @ redacted_mark @ y"
    have "last x = last w" if "z' = []" using z'(1) that token_text_start [OF w(2)] by simp
    then have "z' \<noteq> []" using z'(2) w(4) x(2) by auto
    then have "word_after z = word_after (z' @ v @ y)" using z' by (simp add: word_after_append)
    then show False using none [of u "z' @ v @ y"] z' w by (auto simp: token_at_def)
  next
    fix u' assume u': "u = x @ redacted_mark @ u'" "y = u' @ w @ z"
    have "u' \<noteq> []"
      using y u' token_text_start [OF w(2)] by (cases w) (auto simp: no_digit_first_def)
    then have "word_before (after None u) = word_before (after None (x @ v @ u'))"
      using u' by (simp add: word_before_after)
    then show False using none [of "x @ v @ u'" z] u' w by (auto simp: token_at_def)
  qed
qed

section \<open>No token is left\<close>

text \<open>
  A substitution that replaces a part of every match by the mark, in a context that a token cannot
  cross.
\<close>

definition marks :: "regex \<Rightarrow> (groups \<Rightarrow> string) \<Rightarrow> bool" where
  "marks r template \<longleftrightarrow> (\<forall>prev s prev' s' g l. mat r (prev, s, []) = (prev', s', g) # l \<longrightarrow>
     (\<exists>k v t. s = k @ v @ t @ s' \<and> template g = k @ redacted_mark @ t \<and> k \<noteq> [] \<and>
        \<not> word_char (last k) \<and> no_digit_first (t @ s')))"

lemma sub_keeps_token_free:
  assumes "marks r template" and "token_free (acc @ s)"
  shows "token_free (acc @ sub r template prev s)"
  using assms
proof (induction r template prev s arbitrary: acc rule: sub.induct)
  case (2 r template prev c cs)
  have skip: "token_free (acc @ c # sub r template (Some c) cs)"
    if "token_free ((acc @ [c]) @ sub r template (Some c) cs)"
    using that by simp
  show ?case
  proof (cases "mat r (prev, c # cs, [])")
    case Nil
    then show ?thesis using "2.IH"(1) [of "acc @ [c]"] "2.prems" skip by (simp add: sub.simps)
  next
    case (Cons m l)
    obtain prev' s' g where m: "m = (prev', s', g)" by (cases m)
    show ?thesis
    proof (cases "length s' < length (c # cs)")
      case True
      have first: "mat r (prev, c # cs, []) = (prev', s', g) # l" using Cons m by simp
      obtain k v t where k: "c # cs = k @ v @ t @ s'" "template g = k @ redacted_mark @ t" "k \<noteq> []"
          "\<not> word_char (last k)" "no_digit_first (t @ s')"
        using "2.prems"(1) [unfolded marks_def, rule_format, OF first] by blast
      have "token_free ((acc @ k) @ v @ (t @ s'))" using "2.prems"(2) k(1) by simp
      then have "token_free ((acc @ k) @ redacted_mark @ (t @ s'))"
        using k by (intro mark_keeps_token_free) auto
      then show ?thesis
        using "2.IH"(2) [OF Cons, of prev' "(s', g)" s' g "acc @ k @ redacted_mark @ t"] True Cons m k(2) "2.prems"(1)
        by (simp add: sub.simps)
    next
      case False
      then show ?thesis
        using "2.IH"(3) [OF Cons, of prev' "(s', g)" s' g "acc @ [c]"] "2.prems" Cons m skip
        by (simp add: sub.simps)
    qed
  qed
qed (simp add: sub.simps)

text \<open>The three patterns that run after the tokens are gone.\<close>

lemma Run_head:
  assumes "mat (Run p lo None) (prev, s, g) = (prev', s', g') # l"
  shows "\<exists>m. s = m @ s' \<and> list_all p m \<and> lo \<le> length m \<and> g' = g \<and> (s' = [] \<or> \<not> p (hd s'))"
proof -
  have mem: "(prev', s', g') \<in> set (mat (Run p lo None) (prev, s, g))" using assms by simp
  then obtain m where m: "s = m @ s'" "list_all p m" "lo \<le> length m" "g' = g"
    unfolding mat_Run by auto
  have "lo \<le> run_length p None s" using m in_set_takeD by (fastforce simp: run_length_iff list_all_iff)
  then have "mat (Run p lo None) (prev, s, g) =
      advance (run_length p None s) (prev, s, g) # map (\<lambda>k. advance k (prev, s, g)) (rev [lo ..< run_length p None s])"
    by simp
  then have "s' = drop (run_length p None s) s"
    using assms by (simp add: advance_def)
  then have "s' = dropWhile p s" by (simp add: run_length_def dropWhile_eq_drop)
  then have "s' = [] \<or> \<not> p (hd s')" using hd_dropWhile by metis
  then show ?thesis using m by blast
qed

lemma Group_head:
  assumes "mat (Group name r) (prev, s, g) = (prev', s', g') # l"
  shows "\<exists>m g1 l1. s = m @ s' \<and> g' = (name, m) # g1 \<and> mat r (prev, s, g) = (prev', s', g1) # l1"
proof -
  obtain g1 l1 where 1: "mat r (prev, s, g) = (prev', s', g1) # l1"
      "g' = (name, take (length s - length s') s) # g1"
    using assms by (cases "mat r (prev, s, g)") auto
  then have "(prev', s', g1) \<in> set (mat r (prev, s, g))" by simp
  then obtain m where "s = m @ s'" using mat_consumes by blast
  then show ?thesis using 1 by auto
qed

lemma white_no_word: "is_white c \<Longrightarrow> \<not> word_char c"
  by (auto simp: is_white_def word_char_def)

lemma no_digit_after_run:
  assumes "s' = [] \<or> \<not> p (hd s')" and "\<And>c. digit_char c \<Longrightarrow> p c"
  shows "no_digit_first s'"
  using assms by (cases s') (auto simp: no_digit_first_def)

lemma digit_no_white: "digit_char c \<Longrightarrow> \<not> is_white c"
  using digit_is_word white_no_word by blast

lemma query_secret_marks:
  "marks query_secret_re (\<lambda>g. group ''name'' g @ ''='' @ redacted_mark)"
  unfolding marks_def
proof (intro allI impI)
  fix prev s prev' s' g l
  assume "mat query_secret_re (prev, s, []) = (prev', s', g) # l"
  then obtain p1 s1 g1 l1 where 1: "(p1, s1, g1) \<in> set (mat (Group ''name'' (alts [
       seq [lits_nocase ''api'', opt (one_of ''_-''), lits_nocase ''key''],
       seq [lits_nocase ''access'', opt (one_of ''_-''), lits_nocase ''token''],
       lits_nocase ''token'', lits_nocase ''secret'', lits_nocase ''key''])) (prev, s, []))"
    and "mat (Seq (One (\<lambda>c. c = CHR ''='')) (Group ''value'' (Run query_char 1 None))) (p1, s1, g1) =
      (prev', s', g) # l1"
    unfolding query_secret_re_def seq.simps by (blast dest: mat_Seq_head)
  then obtain p2 s2 g2 l2 where 2: "(p2, s2, g2) \<in> set (mat (One (\<lambda>c. c = CHR ''='')) (p1, s1, g1))"
    and "mat (Group ''value'' (Run query_char 1 None)) (p2, s2, g2) = (prev', s', g) # l2"
    by (blast dest: mat_Seq_head)
  then obtain v g3 l3 where v: "s2 = v @ s'" "g = (''value'', v) # g3"
      "mat (Run query_char 1 None) (p2, s2, g2) = (prev', s', g3) # l3"
    using Group_head by blast
  then have "g3 = g2" "s' = [] \<or> \<not> query_char (hd s')" using Run_head by blast+
  moreover have "s1 = ''='' @ s2" "g2 = g1" using 2 unfolding mat_One by auto
  moreover obtain n g0 where "s = n @ s1" "g1 = (''name'', n) # g0" using mat_Group [OF 1] by blast
  moreover have "query_char c" if "digit_char c" for c
    using that digit_no_white [OF that] by (auto simp: query_char_def digit_char_def)
  ultimately have "s = (n @ ''='') @ v @ [] @ s' \<and>
      group ''name'' g @ ''='' @ redacted_mark = (n @ ''='') @ redacted_mark @ [] \<and> n @ ''='' \<noteq> [] \<and>
      \<not> word_char (last (n @ ''='')) \<and> no_digit_first ([] @ s')"
    using v no_digit_after_run [of s' query_char] by (simp add: group_def word_char_def)
  then show "\<exists>k v t. s = k @ v @ t @ s' \<and> group ''name'' g @ ''='' @ redacted_mark = k @ redacted_mark @ t \<and>
      k \<noteq> [] \<and> \<not> word_char (last k) \<and> no_digit_first (t @ s')"
    by blast
qed

lemma labeled_secret_marks:
  "marks labeled_secret_re (\<lambda>g. group ''label'' g @ group ''separator'' g @ redacted_mark)"
  unfolding marks_def
proof (intro allI impI)
  fix prev s prev' s' g l
  assume "mat labeled_secret_re (prev, s, []) = (prev', s', g) # l"
  then obtain p1 s1 g1 l1 where 1: "(p1, s1, g1) \<in> set (mat (Group ''label'' (alts [
       seq [lits_nocase ''private'', opt (one_of ''_ -''), lits_nocase ''key''],
       seq [lits_nocase ''seed'', opt (one_of ''_ -''), lits_nocase ''phrase''],
       lits_nocase ''mnemonic'', lits_nocase ''password'', lits_nocase ''secret''])) (prev, s, []))"
    and "mat (Seq (Group ''separator'' (Seq (Run is_white 0 None) (Seq (one_of '':='') (Run is_white 0 None))))
      (Group ''value'' (Run labeled_char 1 None))) (p1, s1, g1) = (prev', s', g) # l1"
    unfolding labeled_secret_re_def seq.simps by (blast dest: mat_Seq_head)
  then obtain p2 s2 g2 l2 where 2: "(p2, s2, g2) \<in> set (mat (Group ''separator''
       (Seq (Run is_white 0 None) (Seq (one_of '':='') (Run is_white 0 None)))) (p1, s1, g1))"
    and "mat (Group ''value'' (Run labeled_char 1 None)) (p2, s2, g2) = (prev', s', g) # l2"
    by (blast dest: mat_Seq_head)
  then obtain v g3 l3 where v: "s2 = v @ s'" "g = (''value'', v) # g3"
      "mat (Run labeled_char 1 None) (p2, s2, g2) = (prev', s', g3) # l3"
    using Group_head by blast
  then have rest: "g3 = g2" "s' = [] \<or> \<not> labeled_char (hd s')" using Run_head by blast+
  obtain sep h where sep: "s1 = sep @ s2" "g2 = (''separator'', sep) # h"
      "(p2, s2, h) \<in> set (mat (Seq (Run is_white 0 None) (Seq (one_of '':='') (Run is_white 0 None))) (p1, s1, g1))"
    using mat_Group [OF 2] by blast
  then obtain w1 c w2 where ws: "sep = w1 @ c # w2" "list_all is_white w2" "c \<in> set '':=''" "h = g1"
    unfolding one_of_def mat_decomposed by auto
  have "\<not> word_char (last sep)"
    using ws by (cases w2 rule: rev_exhaust) (auto simp: white_no_word word_char_def [of "CHR '':''"] word_char_def [of "CHR ''=''"])
  moreover obtain n g0 where n: "s = n @ s1" "g1 = (''label'', n) # g0" using mat_Group [OF 1] by blast
  moreover have "labeled_char c" if "digit_char c" for c
    using that digit_no_white [OF that] by (auto simp: labeled_char_def digit_char_def)
  moreover have "sep \<noteq> []" using ws by simp
  ultimately have "s = (n @ sep) @ v @ [] @ s' \<and>
      group ''label'' g @ group ''separator'' g @ redacted_mark = (n @ sep) @ redacted_mark @ [] \<and>
      n @ sep \<noteq> [] \<and> \<not> word_char (last (n @ sep)) \<and> no_digit_first ([] @ s')"
    using v rest sep ws no_digit_after_run [of s' labeled_char] by (simp add: group_def)
  then show "\<exists>k v t. s = k @ v @ t @ s' \<and>
      group ''label'' g @ group ''separator'' g @ redacted_mark = k @ redacted_mark @ t \<and>
      k \<noteq> [] \<and> \<not> word_char (last k) \<and> no_digit_first (t @ s')"
    by blast
qed

lemma credential_url_marks:
  "marks credential_url_re (\<lambda>g. group ''scheme'' g @ ''://'' @ redacted_mark @ ''@'')"
  unfolding marks_def
proof (intro allI impI)
  fix prev s prev' s' g l
  assume "mat credential_url_re (prev, s, []) = (prev', s', g) # l"
  then have "(prev', s', g) \<in> set (mat credential_url_re (prev, s, []))" by simp
  then obtain p1 s1 g1 where 1: "(p1, s1, g1) \<in> set (mat (Group ''scheme'' (alts [
       seq [lits_nocase ''postgres'', opt (lits_nocase ''ql''),
         opt (seq [One (\<lambda>c. c = CHR ''+''), Run word_char 1 None])],
       seq [lits_nocase ''redis'', opt (lits_nocase ''s'')]])) (prev, s, []))"
    and "(prev', s', g) \<in> set (mat (Seq (lits ''://'') (Seq (Run user_char 1 None)
       (Seq (One (\<lambda>c. c = CHR '':'')) (Seq (Run user_char 1 None) (One (\<lambda>c. c = CHR ''@'')))))) (p1, s1, g1))"
    unfolding credential_url_re_def seq.simps mat_Seq_Boundary mat_Seq [of _ "Group _ _"] by blast
  then obtain p2 s2 g2 where "(p2, s2, g2) \<in> set (mat (lits ''://'') (p1, s1, g1))"
    and "(prev', s', g) \<in> set (mat (Seq (Run user_char 1 None)
       (Seq (One (\<lambda>c. c = CHR '':'')) (Seq (Run user_char 1 None) (One (\<lambda>c. c = CHR ''@''))))) (p2, s2, g2))"
    unfolding mat_Seq [of _ "lits _"] by blast
  then obtain u p where "s1 = ''://'' @ u @ '':'' @ p @ ''@'' @ s'" "g = g1"
    unfolding lits.simps mat_decomposed by auto
  moreover obtain n g0 where "s = n @ s1" "g1 = (''scheme'', n) # g0" using mat_Group [OF 1] by blast
  ultimately have "s = (n @ ''://'') @ (u @ '':'' @ p) @ ''@'' @ s' \<and>
      group ''scheme'' g @ ''://'' @ redacted_mark @ ''@'' = (n @ ''://'') @ redacted_mark @ ''@'' \<and>
      n @ ''://'' \<noteq> [] \<and> \<not> word_char (last (n @ ''://'')) \<and> no_digit_first (''@'' @ s')"
    by (simp add: group_def word_char_def no_digit_first_def digit_char_def)
  then show "\<exists>k v t. s = k @ v @ t @ s' \<and>
      group ''scheme'' g @ ''://'' @ redacted_mark @ ''@'' = k @ redacted_mark @ t \<and>
      k \<noteq> [] \<and> \<not> word_char (last k) \<and> no_digit_first (t @ s')"
    by blast
qed

text \<open>The pattern of the tokens itself.\<close>

definition token_start :: "string \<Rightarrow> bool" where
  "token_start s \<longleftrightarrow> (\<exists>w z. s = w @ z \<and> token_text w \<and> word_char (last w) \<noteq> word_after z)"

lemma token_at_start: "token_at prev s \<longleftrightarrow> token_start s \<and> \<not> word_before prev"
  by (auto simp: token_at_def token_start_def)

abbreviation mark_tokens :: "char option \<Rightarrow> string \<Rightarrow> string" where
  "mark_tokens \<equiv> sub telegram_token_re (\<lambda>g. redacted_mark)"

text \<open>A preferred match takes the token whole: none begins right after it.\<close>

lemma no_token_after_match:
  assumes "mat telegram_token_re (prev, s, g) = (prev', s', g') # l"
  shows "length s' < length s \<and> \<not> token_start s'"
proof
  have "(prev', s', g') \<in> set (mat telegram_token_re (prev, s, g))" using assms by simp
  then show "length s' < length s" unfolding telegram_match_parts by auto
next
  obtain p0 s0 g0 l0 where "mat (Seq (Run digit_char 6 (Some 12)) (Seq (One (\<lambda>c. c = CHR '':''))
      (Seq (Run token_char 30 None) Boundary))) (p0, s0, g0) = (prev', s', g') # l0"
    using mat_Seq_head [OF assms [unfolded telegram_token_re_def seq.simps]] by blast
  from mat_Seq_head [OF this] obtain p2 s2 g2 l2 where
    "mat (Seq (One (\<lambda>c. c = CHR '':'')) (Seq (Run token_char 30 None) Boundary)) (p2, s2, g2) =
      (prev', s', g') # l2" by blast
  from mat_Seq_head [OF this] obtain p1 s1 g1 l1 where
    head: "mat (Seq (Run token_char 30 None) Boundary) (p1, s1, g1) = (prev', s', g') # l1" by blast
  then have "(prev', s', g') \<in> set (mat (Seq (Run token_char 30 None) Boundary) (p1, s1, g1))" by simp
  then obtain b where b: "s1 = b @ s'" "list_all token_char b" "30 \<le> length b"
    unfolding mat_decomposed by auto
  show "\<not> token_start s'"
  proof
    assume "token_start s'"
    then obtain w z where "s' = w @ z" "token_text w" unfolding token_start_def by blast
    then obtain d b' where d: "s' = d @ CHR '':'' # b' @ z" "list_all digit_char d" "6 \<le> length d"
      by (auto simp: token_text_def)
    have "word_char (last d)" using d digit_is_word by (cases d rule: rev_exhaust) auto
    then have "word_before (after p1 (b @ d)) \<noteq> word_after (CHR '':'' # b' @ z)"
      using d by (cases d rule: rev_exhaust) (auto simp: word_before_after word_char_def)
    moreover have "list_all token_char (b @ d)"
      using b d by (auto simp: list_all_iff token_char_def alnum_char_def)
    ultimately have "length s' \<le> length (CHR '':'' # b' @ z)"
      using run_boundary_greedy [OF head, of "b @ d"] b d by simp
    then show False using d by simp
  qed
qed

text \<open>The text up to the first match is kept.\<close>

lemma mark_tokens_keeps:
  "\<exists>k y y'. s = k @ y \<and> mark_tokens prev s = k @ y' \<and>
     (y = [] \<and> y' = [] \<or> (\<exists>y''. y' = redacted_mark @ y'') \<and> token_at (after prev k) y)"
proof (induction s arbitrary: prev)
  case Nil
  show ?case by (simp add: sub.simps)
next
  case (Cons c cs)
  show ?case
  proof (cases "mat telegram_token_re (prev, c # cs, [])")
    case Nil
    obtain k y y' where "cs = k @ y" "mark_tokens (Some c) cs = k @ y'"
      "y = [] \<and> y' = [] \<or> (\<exists>y''. y' = redacted_mark @ y'') \<and> token_at (after (Some c) k) y"
      using Cons.IH by blast
    then have "c # cs = (c # k) @ y \<and> mark_tokens prev (c # cs) = (c # k) @ y' \<and>
        (y = [] \<and> y' = [] \<or> (\<exists>y''. y' = redacted_mark @ y'') \<and> token_at (after prev (c # k)) y)"
      using Nil by (simp add: sub.simps after_Cons)
    then show ?thesis by blast
  next
    case (Cons m l)
    obtain prev' s' g where m: "m = (prev', s', g)" by (cases m)
    have "token_at prev (c # cs)" using telegram_match_iff [of prev "c # cs" "[]"] Cons by simp
    moreover have "length s' < length (c # cs)" using no_token_after_match Cons m by blast
    ultimately have "c # cs = [] @ (c # cs) \<and> mark_tokens prev (c # cs) = [] @ mark_tokens prev (c # cs) \<and>
        (\<exists>y''. mark_tokens prev (c # cs) = redacted_mark @ y'') \<and> token_at (after prev []) (c # cs)"
      using Cons m by (simp add: sub.simps)
    then show ?thesis by blast
  qed
qed

lemma token_start_unmarked:
  assumes "token_start (c # mark_tokens (Some c) cs)"
  shows "token_start (c # cs)"
proof -
  obtain k y y' where k: "cs = k @ y" "mark_tokens (Some c) cs = k @ y'"
      "y = [] \<and> y' = [] \<or> (\<exists>y''. y' = redacted_mark @ y'') \<and> token_at (after (Some c) k) y"
    using mark_tokens_keeps by blast
  show ?thesis
  proof (cases "y = [] \<and> y' = []")
    case False
    then obtain y'' where y: "y' = redacted_mark @ y''" "\<not> word_before (after (Some c) k)"
      using k(3) by (auto simp: token_at_def)
    obtain w z where w: "(c # k) @ redacted_mark @ y'' = [] @ w @ z" "token_text w"
        "word_char (last w) \<noteq> word_after z"
      using assms k(2) y(1) by (auto simp: token_start_def)
    from split_at_mark [OF w(1,2)] obtain z' where z': "c # k = w @ z'" "z = z' @ redacted_mark @ y''"
      by auto
    have "z' \<noteq> []"
    proof
      assume "z' = []"
      then have "word_char (last (c # k))" using w(3) z' by simp
      then show False using y(2) by (simp add: after_def word_before_def split: if_splits)
    qed
    then have "word_after z = word_after (z' @ y)" using z' by (simp add: word_after_append)
    moreover have "c # cs = w @ z' @ y" using k(1) z'(1) by simp
    ultimately show ?thesis using w by (auto simp: token_start_def)
  qed (use assms k in simp)
qed

lemma mark_tokens_gone:
  "q = prev \<or> \<not> token_start s \<Longrightarrow> mark_tokens prev s = x @ y \<Longrightarrow> \<not> token_at (after q x) y"
proof (induction s arbitrary: prev q x y rule: length_induct)
  case (1 s)
  show ?case
  proof (cases s)
    case Nil
    then show ?thesis using 1 by (auto simp: sub.simps token_at_def dest: token_text_start)
  next
    case (Cons c cs)
    show ?thesis
    proof (cases "mat telegram_token_re (prev, c # cs, [])")
      case Nil
      then have out: "c # mark_tokens (Some c) cs = x @ y" using "1.prems" Cons by (simp add: sub.simps)
      show ?thesis
      proof (cases x)
        case x: Nil
        have "\<not> token_at prev (c # cs)" using telegram_match_iff [of prev "c # cs" "[]"] Nil by simp
        then show ?thesis using token_start_unmarked "1.prems"(1) out x Cons by (auto simp: token_at_start)
      next
        case x: (Cons a x')
        then have "mark_tokens (Some c) cs = x' @ y" "a = c" using out by auto
        then show ?thesis using "1.IH" [rule_format, of cs "Some c" "Some c" x' y] Cons x
          by (simp add: after_Cons)
      qed
    next
      case (Cons m l)
      obtain prev' s' g where m: "m = (prev', s', g)" by (cases m)
      note rest = no_token_after_match [OF Cons [unfolded m]]
      have out: "[] @ redacted_mark @ mark_tokens prev' s' = x @ y"
        using "1.prems" Cons m rest \<open>s = c # cs\<close> by (simp add: sub.simps)
      show ?thesis
      proof
        assume "token_at (after q x) y"
        then obtain w z where w: "y = w @ z" "token_text w" "\<not> word_before (after q x)" "word_char (last w) \<noteq> word_after z"
          by (auto simp: token_at_def)
        from split_at_mark [OF out [unfolded w(1)] w(2)] obtain u where
          u: "x = redacted_mark @ u" "mark_tokens prev' s' = u @ w @ z"
          using token_text_start [OF w(2)] by auto
        then have "\<not> token_at (after (Some CHR '']'') u) (w @ z)"
          using "1.IH" rest \<open>s = c # cs\<close> by blast
        moreover have "after q x = after (Some CHR '']'') u" using u(1) by (simp add: after_def redacted_mark_def)
        ultimately show False using w by (auto simp: token_at_def)
      qed
    qed
  qed
qed

lemma redact_text_token_free: "token_free (redact_text s)"
proof -
  have step: "token_free (sub r f None t)" if "marks r f" "token_free t" for r f t
    using sub_keeps_token_free [of r f "[]" t None] that by simp
  have tokens: "token_free (mark_tokens None t)" for t
    using mark_tokens_gone [of None None t] by (simp add: token_free_def)
  show ?thesis unfolding redact_text_def Let_def
    by (rule step [OF labeled_secret_marks step [OF query_secret_marks
          step [OF credential_url_marks tokens]]])
qed

section \<open>What a written record hides\<close>

text \<open>
  A value with nothing to hide: no text of it has a token, and every mapping of it shows the mark
  under a sensitive key.
\<close>

fun hidden :: "log_value \<Rightarrow> bool" where
  "hidden (LogText t) = (search telegram_token_re None t = None)"
| "hidden (LogMap items) =
     list_all (\<lambda>(k, v). (is_sensitive_key k \<longrightarrow> v = LogText redacted_mark) \<and> hidden v) items"
| "hidden (LogTuple vs) = list_all hidden vs"
| "hidden (LogList vs) = list_all hidden vs"
| "hidden (LogOther t) = True"

lemma set_dict_of: "set (dict_of items) \<subseteq> set items"
proof -
  have "set (fold (\<lambda>(k, v). AList.update k v) items acc) \<subseteq> set acc \<union> set items" for acc
  proof (induction items arbitrary: acc)
    case (Cons item items)
    have "set (AList.update k v acc) \<subseteq> insert (k, v) (set acc)" for k v
      by (induction acc) auto
    then show ?case using Cons.IH by (cases item) fastforce
  qed simp
  then show ?thesis by (simp add: dict_of_def) fastforce
qed

lemma dict_of_all: "list_all P items \<Longrightarrow> list_all P (dict_of items)"
  using set_dict_of by (fastforce simp: list_all_iff)

lemma hidden_mark: "hidden (LogText redacted_mark)"
  by code_simp

lemma redact_hidden: "hidden (redact key v)"
proof (induction key v rule: redact.induct)
  case (1 key v)
  then show ?case using hidden_mark by (simp del: hidden.simps)
next
  case (2 t)
  then show ?case using redact_text_token_free by (simp add: search_token_iff)
next
  case (3 items)
  let ?items = "map (\<lambda>(k, v). (k, redact (Some k) v)) items"
  have "list_all (\<lambda>(k, v). (is_sensitive_key k \<longrightarrow> v = LogText redacted_mark) \<and> hidden v) ?items"
    using 3 by (auto simp del: hidden.simps simp: list_all_iff)
  then show ?case by (simp only: redact.simps hidden.simps dict_of_all)
qed (auto simp: list_all_iff)

lemma emitted_hidden:
  assumes "(field, v) \<in> set (emitted get_message r)"
    and "field \<notin> {''timestamp'', ''level'', ''logger''}"
  shows "hidden v \<and> (is_sensitive_key field \<longrightarrow> v = LogText redacted_mark)"
proof -
  have plain: "\<not> is_sensitive_key ''message''" "\<not> is_sensitive_key ''exception''" by code_simp+
  have free: "hidden (LogText (redact_text t))" for t
    using redact_hidden [of None "LogText t"] by (simp del: hidden.simps)
  have shown: "hidden (redact (Some field) u) \<and> (is_sensitive_key field \<longrightarrow> redact (Some field) u = LogText redacted_mark)"
    for u using redact_hidden [of "Some field" u] by (simp del: hidden.simps)
  let ?r = "redacting_filter r"
  from assms(1) consider
    "(field, v) \<in> set [(''timestamp'', LogText (isoformat (record_created ?r))),
      (''level'', LogText (record_levelname ?r)), (''logger'', LogText (record_logger_name ?r)),
      (''message'', LogText (redact_text (get_message (record_msg ?r) (record_args ?r))))]"
    | "(field, v) \<in> set (concat (map (\<lambda>field. case map_of (record_extra ?r) field of
           None \<Rightarrow> [] | Some v \<Rightarrow> [(field, redact (Some field) v)]) context_fields))"
    | "(field, v) \<in> set (case record_exception ?r of None \<Rightarrow> [] | Some t \<Rightarrow> [(''exception'', LogText (redact_text t))])"
    unfolding emitted_def log_payload_def set_append Un_iff by blast
  then show ?thesis
  proof cases
    case 1
    then have "field = ''message'' \<and> (\<exists>t. v = LogText (redact_text t))" using assms(2) by auto
    then show ?thesis using plain(1) free by metis
  next
    case 2
    then have "\<exists>u. v = redact (Some field) u" by (auto simp del: redact.simps split: option.splits)
    then show ?thesis using shown by metis
  next
    case 3
    then have "field = ''exception'' \<and> (\<exists>t. v = LogText (redact_text t))" by (auto split: option.splits)
    then show ?thesis using plain(2) free by metis
  qed
qed

section \<open>What redaction lets through\<close>

text \<open>The label of a secret ends with one of these letters, and its separator is a colon or an equals sign.\<close>

definition label_end :: "char \<Rightarrow> bool" where
  "label_end c \<longleftrightarrow> lower_char c \<in> set ''yecdt''"

lemma labeled_match_start:
  assumes "mat labeled_secret_re (prev, s, g) \<noteq> []"
  shows "\<exists>n w c y. s = n @ w @ c # y \<and> n \<noteq> [] \<and> label_end (last n) \<and> list_all is_white w \<and> c \<in> set '':=''"
proof -
  obtain p' s' g' where "(p', s', g') \<in> set (mat labeled_secret_re (prev, s, g))"
    using assms by (metis list.set_intros(1) neq_Nil_conv prod_cases3)
  then obtain p1 s1 g1 where 1: "(p1, s1, g1) \<in> set (mat (Group ''label'' (alts [
       seq [lits_nocase ''private'', opt (one_of ''_ -''), lits_nocase ''key''],
       seq [lits_nocase ''seed'', opt (one_of ''_ -''), lits_nocase ''phrase''],
       lits_nocase ''mnemonic'', lits_nocase ''password'', lits_nocase ''secret''])) (prev, s, g))"
    and 2: "(p', s', g') \<in> set (mat (Seq (Group ''separator'' (Seq (Run is_white 0 None)
       (Seq (one_of '':='') (Run is_white 0 None)))) (Group ''value'' (Run labeled_char 1 None))) (p1, s1, g1))"
    unfolding labeled_secret_re_def seq.simps mat_Seq [of _ "Group ''label'' _"] by blast
  have "ends_with label_end (alts [
       seq [lits_nocase ''private'', opt (one_of ''_ -''), lits_nocase ''key''],
       seq [lits_nocase ''seed'', opt (one_of ''_ -''), lits_nocase ''phrase''],
       lits_nocase ''mnemonic'', lits_nocase ''password'', lits_nocase ''secret''])"
    unfolding alts.simps seq.simps
    by (intro ends_with_Alt ends_with_Seq ends_with_lits_nocase) (simp_all add: label_end_def lower_char_def)
  moreover obtain m g2 where m: "s = m @ s1"
      "(p1, s1, g2) \<in> set (mat (alts [
       seq [lits_nocase ''private'', opt (one_of ''_ -''), lits_nocase ''key''],
       seq [lits_nocase ''seed'', opt (one_of ''_ -''), lits_nocase ''phrase''],
       lits_nocase ''mnemonic'', lits_nocase ''password'', lits_nocase ''secret'']) (prev, s, g))"
    using mat_Group [OF 1] by blast
  ultimately have "m \<noteq> [] \<and> label_end (last m)" unfolding ends_with_def by (metis append_same_eq)
  moreover obtain p2 s2 g3 where "(p2, s2, g3) \<in> set (mat (Group ''separator'' (Seq (Run is_white 0 None)
       (Seq (one_of '':='') (Run is_white 0 None)))) (p1, s1, g1))"
    using 2 unfolding mat_Seq by blast
  then obtain g4 where "(p2, s2, g4) \<in> set (mat (Seq (Run is_white 0 None)
       (Seq (one_of '':='') (Run is_white 0 None))) (p1, s1, g1))"
    using mat_Group by blast
  then obtain w c y where "s1 = w @ c # y" "list_all is_white w" "c \<in> set '':=''"
    unfolding one_of_def mat_Seq_Run mat_Seq_One by blast
  ultimately show ?thesis using m(1) by blast
qed

text \<open>
  The address of a method of the Telegram bot API: the token follows the word \<open>bot\<close> without a
  word boundary.
\<close>

definition bot_url :: "string \<Rightarrow> string \<Rightarrow> string \<Rightarrow> string" where
  "bot_url d b method = ''https'' @ '':'' @ ''//api.telegram.org/bot'' @ d @ '':'' @ b @ ''/'' @ method"

lemma split_twice:
  assumes "A @ c # B = u @ c # v" and "c \<notin> set A"
  shows "u = A \<or> (\<exists>u'. u = A @ c # u' \<and> B = u' @ c # v)"
  using assms
proof (induction A arbitrary: u)
  case Nil
  then show ?case by (cases u) auto
next
  case (Cons a A)
  then show ?case by (cases u) auto
qed

lemma bot_url_colons:
  assumes "bot_url d b method = u @ CHR '':'' # v"
    and "list_all digit_char d" "list_all token_char b" "list_all letter_char method"
  shows "u = ''https'' \<or> u = ''https://api.telegram.org/bot'' @ d"
proof -
  have d: "CHR '':'' \<notin> set ''https''" "CHR '':'' \<notin> set (''//api.telegram.org/bot'' @ d)"
      "CHR '':'' \<notin> set (b @ ''/'' @ method)"
    using assms(2-4) by (auto simp: list_all_iff letter_char_def)
  have "''https'' @ CHR '':'' # ((''//api.telegram.org/bot'' @ d) @ CHR '':'' # (b @ ''/'' @ method)) = u @ CHR '':'' # v"
    using assms(1) by (simp add: bot_url_def)
  from split_twice [OF this d(1)] show ?thesis
  proof (elim disjE exE conjE)
    fix u' assume u': "u = ''https'' @ CHR '':'' # u'"
      "(''//api.telegram.org/bot'' @ d) @ CHR '':'' # (b @ ''/'' @ method) = u' @ CHR '':'' # v"
    from split_twice [OF u'(2) d(2)] show ?thesis
    proof (elim disjE exE conjE)
      fix u'' assume "b @ ''/'' @ method = u'' @ CHR '':'' # v"
      then have "CHR '':'' \<in> set (b @ ''/'' @ method)" by (metis in_set_conv_decomp)
      then show ?thesis using d(3) by blast
    qed (use u' in simp)
  qed simp
qed

lemma bot_url_chars:
  assumes "list_all digit_char d" "list_all token_char b" "list_all letter_char method"
    and "c \<in> set (bot_url d b method)"
  shows "\<not> is_white c \<and> c \<noteq> CHR ''@'' \<and> c \<noteq> CHR ''=''"
proof -
  let ?ok = "\<lambda>c. \<not> is_white c \<and> c \<noteq> CHR ''@'' \<and> c \<noteq> CHR ''=''"
  have fixed: "list_all ?ok ''https''" "list_all ?ok ''//api.telegram.org/bot''" "list_all ?ok '':''" "list_all ?ok ''/''"
    by code_simp+
  have token: "?ok c" if "token_char c" for c
    using that by (auto simp: is_white_def token_char_def alnum_char_def letter_char_def digit_char_def)
  have more: "token_char c" if "digit_char c \<or> letter_char c" for c
    using that by (auto simp: token_char_def alnum_char_def)
  have "list_all ?ok d" by (rule list.pred_mono_strong [OF assms(1)], rule token, rule more) simp
  moreover have "list_all ?ok b" by (rule list.pred_mono_strong [OF assms(2)], rule token)
  moreover have "list_all ?ok method" by (rule list.pred_mono_strong [OF assms(3)], rule token, rule more) simp
  ultimately have "list_all ?ok (''https'' @ '':'' @ ''//api.telegram.org/bot'' @ d @ '':'' @ b @ ''/'' @ method)"
    using fixed by (intro list_all_append [THEN iffD2] conjI)
  then show ?thesis using assms(4) unfolding bot_url_def list_all_iff by blast
qed

lemma bot_url_no_label:
  assumes "list_all digit_char d" "d \<noteq> []" "list_all token_char b" "list_all letter_char method"
  shows "search labeled_secret_re None (bot_url d b method) = None"
  unfolding search_None_iff
proof (intro allI impI)
  fix x y assume xy: "bot_url d b method = x @ y"
  show "mat labeled_secret_re (after None x, y, []) = []"
  proof (rule ccontr)
    assume "mat labeled_secret_re (after None x, y, []) \<noteq> []"
    from labeled_match_start [OF this] obtain n w c v where n: "y = n @ w @ c # v" "n \<noteq> []"
        "label_end (last n)" "list_all is_white w" "c \<in> set '':=''" by blast
    have "\<not> is_white e" "e \<noteq> CHR ''=''" if "e \<in> set y" for e
      using bot_url_chars [OF assms(1,3,4)] that xy by auto
    then have "w = []" "c = CHR '':''" using n by (cases w; auto)+
    then have "bot_url d b method = (x @ n) @ CHR '':'' # v" using xy n(1) by simp
    from bot_url_colons [OF this assms(1,3,4)]
    have "last n = CHR ''s'' \<or> digit_char (last n)"
      using n(2) assms(1,2) by (auto simp: list_all_iff dest!: arg_cong [where f = last])
    then show False using n(3) by (auto simp: label_end_def lower_char_def digit_char_def Let_def)
  qed
qed

lemma bot_url_no_token:
  assumes "list_all digit_char d" "list_all token_char b" "list_all letter_char method"
  shows "token_free (bot_url d b method)"
  unfolding token_free_def
proof (intro allI impI notI)
  fix x y assume xy: "bot_url d b method = x @ y" and "token_at (after None x) y"
  then obtain w z where w: "y = w @ z" "token_text w" "\<not> word_before (after None x)"
    unfolding token_at_def by blast
  then obtain e b' where e: "w = e @ CHR '':'' # b'" "list_all digit_char e" "6 \<le> length e"
    unfolding token_text_def by blast
  have no_s: "\<not> digit_char CHR ''s''" "\<not> digit_char CHR ''t''" by (simp_all add: digit_char_def)
  have "bot_url d b method = (x @ e) @ CHR '':'' # (b' @ z)" using xy w e by simp
  from bot_url_colons [OF this assms] show False
  proof
    assume "x @ e = ''https''"
    then have "last e = CHR ''s''" using e(3) by (cases e rule: rev_exhaust) (auto dest!: arg_cong [where f = last])
    then show False using e(2,3) no_s by (cases e rule: rev_exhaust) auto
  next
    assume "x @ e = ''https://api.telegram.org/bot'' @ d"
    then obtain us where "x = ''https://api.telegram.org/bot'' @ us \<and> us @ e = d \<or>
        x @ us = ''https://api.telegram.org/bot'' \<and> e = us @ d"
      unfolding append_eq_append_conv2 by blast
    then show False
    proof (elim disjE conjE)
      assume x: "x = ''https://api.telegram.org/bot'' @ us" "us @ e = d"
      then have "word_char (last x)" using assms(1) digit_is_word
        by (cases us rule: rev_exhaust) (auto simp: word_char_def [of "CHR ''t''"])
      then show False using w(3) x(1) by (simp add: word_before_after)
    next
      assume x: "x @ us = ''https://api.telegram.org/bot''" "e = us @ d"
      show False
      proof (cases us rule: rev_exhaust)
        case Nil
        then show False using w(3) x(1) by (simp add: word_before_after word_char_def)
      next
        case (snoc us' a)
        then have "a = CHR ''t''" using x(1) by (auto dest!: arg_cong [where f = last])
        then show False using e(2) x(2) snoc no_s by auto
      qed
    qed
  qed
qed

lemma bot_url_kept:
  assumes "list_all digit_char d" "d \<noteq> []" "list_all token_char b" "list_all letter_char method"
  shows "redact_text (bot_url d b method) = bot_url d b method"
proof -
  let ?u = "bot_url d b method"
  have n: "needs is_white bearer_re" "needs (\<lambda>c. c = CHR ''@'') credential_url_re"
      "needs (\<lambda>c. c = CHR ''='') query_secret_re"
    by (simp_all add: bearer_re_def credential_url_re_def query_secret_re_def)
  have "search bearer_re None ?u = None" "search credential_url_re None ?u = None"
      "search query_secret_re None ?u = None"
    using bot_url_chars [OF assms(1,3,4)] by (blast intro: needs_unmatched [OF n(1)] needs_unmatched [OF n(2)] needs_unmatched [OF n(3)])+
  moreover have "search telegram_token_re None ?u = None"
    using bot_url_no_token [OF assms(1,3,4)] by (simp add: search_token_iff)
  ultimately show ?thesis
    using bot_url_no_label [OF assms] by (simp add: redact_text_def sub_unmatched)
qed

section \<open>Property\<close>

definition sample_record :: log_record where
  "sample_record = \<lparr> record_created = 0, record_levelname = ''INFO'', record_logger_name = ''app'',
     record_msg = LogText ''started'', record_args = LogTuple [],
     record_extra = [(''event'', LogMap [(''Bot-Token'', LogText ''abc''), (''chain'', LogOther ''1'')])],
     record_exception = None \<rparr>"

definition sample_event :: log_value where
  "sample_event = LogMap [(''Bot-Token'', LogText redacted_mark), (''chain'', LogOther ''1'')]"


lemma sample_event_emitted: "(''event'', sample_event) \<in> set (emitted (\<lambda>m a. ''started'') sample_record)"
proof -
  have "redact (Some ''event'') (LogMap [(''Bot-Token'', LogText ''abc''), (''chain'', LogOther ''1'')]) = sample_event"
    by code_simp
  then show ?thesis
    by (simp add: emitted_def log_payload_def redacting_filter_def sample_record_def context_fields_def del: redact.simps)
qed


end
