(* ===== verification/SecretScan.thy ===== *)
theory SecretScan
  imports Redaction
begin

text \<open>
  The secret scan of the repository (\<^verbatim>\<open>scripts/secret_scan.py\<close>): which files it reads, the patterns it
  looks for on each line, and what it reports. The walk of the directory tree is the list of what it finds.
\<close>

section \<open>Files\<close>

record scanned_path =
  path_parts :: "string list"
  path_relative :: string
  path_is_file :: bool
  path_text :: string

definition path_name :: "scanned_path \<Rightarrow> string" where
  "path_name f = (if path_parts f = [] then [] else last (path_parts f))"

text \<open>\<open>path.suffix\<close>: from the last dot on, unless that is the first or the last character.\<close>

definition path_suffix :: "string \<Rightarrow> string" where
  "path_suffix name =
     (let after_dot = takeWhile (\<lambda>c. c \<noteq> CHR ''.'') (rev name);
          before = length name - length after_dot - 1
      in if CHR ''.'' \<in> set name \<and> 0 < before \<and> after_dot \<noteq> [] then drop before name else [])"

definition ignored_directories :: "string list" where
  "ignored_directories = [''.git'', ''.mypy_cache'', ''.pytest_cache'', ''.ruff_cache'', ''.venv'',
     ''__pycache__'', ''htmlcov'']"

definition text_suffixes :: "string list" where
  "text_suffixes = [''.env'', ''.ini'', ''.json'', ''.md'', ''.py'', ''.sql'', ''.toml'', ''.yaml'', ''.yml'']"

definition is_text_file :: "scanned_path \<Rightarrow> bool" where
  "is_text_file f \<longleftrightarrow> path_is_file f \<and>
     \<not> list_ex (\<lambda>part. part \<in> set ignored_directories) (path_parts f) \<and>
     (path_name f = ''.env.example'' \<or> casefold (path_suffix (path_name f)) \<in> set text_suffixes)"

definition iter_text_files :: "scanned_path list \<Rightarrow> scanned_path list" where
  "iter_text_files paths = filter is_text_file paths"

section \<open>Patterns\<close>

definition upper_digit_char :: "char \<Rightarrow> bool" where
  "upper_digit_char c = (65 \<le> ord_char c \<and> ord_char c \<le> 90 \<or> digit_char c)"

definition hex_char :: "char \<Rightarrow> bool" where
  "hex_char c = (65 \<le> ord_char c \<and> ord_char c \<le> 70 \<or> 97 \<le> ord_char c \<and> ord_char c \<le> 102 \<or> digit_char c)"

definition secret_patterns :: "(string \<times> regex) list" where
  "secret_patterns = [
     (''aws_access_key'', seq [Boundary, alts [lits ''AKIA'', lits ''ASIA''],
        Run upper_digit_char 16 (Some 16), Boundary]),
     (''chainstack_endpoint_credential'', seq [lits ''http'', opt (lits ''s''), lits ''://'',
        Run (\<lambda>c. \<not> is_white c) 1 None, lits ''.chainstack.com/'', Run hex_char 24 None]),
     (''pem_private_key'', seq [lits ''-----BEGIN '', opt (alts [lits ''EC '', lits ''RSA '']),
        lits ''PRIVATE KEY-----'']),
     (''telegram_bot_token'', telegram_token_re),
     (''labeled_evm_private_key'', seq [
        alts [seq [lits_nocase ''private'', opt (one_of ''_ -''), lits_nocase ''key''],
              seq [lits_nocase ''secret'', opt (one_of ''_ -''), lits_nocase ''key'']],
        Run is_white 0 None, one_of '':='', Run is_white 0 None, lits_nocase ''0x'',
        Run hex_char 64 (Some 64), Boundary])]"

section \<open>The scan\<close>

text \<open>\<open>text.splitlines()\<close>: a carriage return and the line feed after it are one line break.\<close>

definition line_break :: "char \<Rightarrow> bool" where
  "line_break c = (ord_char c \<in> {10, 11, 12, 13, 28, 29, 30, 133})"

fun split_lines :: "string \<Rightarrow> string \<Rightarrow> string list" where
  "split_lines acc [] = (if acc = [] then [] else [rev acc])"
| "split_lines acc [c] = (if line_break c then [rev acc] else [rev (c # acc)])"
| "split_lines acc (c # c' # cs) =
     (if ord_char c = 13 \<and> ord_char c' = 10 then rev acc # split_lines [] cs
      else if line_break c then rev acc # split_lines [] (c' # cs)
      else split_lines (c # acc) (c' # cs))"

text \<open>What is reported of a line: the patterns that match, unless the match reads as a placeholder.\<close>

definition line_findings :: "string \<Rightarrow> nat \<Rightarrow> string \<Rightarrow> string list" where
  "line_findings relative number line =
     (if occurs_in ''secret-scan: allow-test-fixture'' line then []
      else concat (map (\<lambda>(name, pattern).
        case search pattern None line of
          None \<Rightarrow> []
        | Some found \<Rightarrow>
            if occurs_in ''replace'' (casefold found) then []
            else [relative @ '':'' @ decimal number @ '': possible '' @ name]) secret_patterns))"

definition file_findings :: "scanned_path \<Rightarrow> string list" where
  "file_findings f =
     concat (map (\<lambda>(number, line). line_findings (path_relative f) number line)
       (enumerate 1 (split_lines [] (path_text f))))"

text \<open>The exit code, and the lines printed.\<close>

definition scan_main :: "scanned_path list \<Rightarrow> int \<times> string list" where
  "scan_main paths =
     (let findings = concat (map file_findings (iter_text_files paths))
      in if findings \<noteq> [] then (1, ''Secret scan failed:'' # findings)
         else (0, [''Secret scan passed ('' @ decimal (length (iter_text_files paths)) @
           '' text files checked).'']))"

section \<open>What the scan promises\<close>

text \<open>A pass means that no line of a file it reads has a match that is neither allowed nor a placeholder.\<close>

lemma scan_passes_iff:
  "fst (scan_main paths) = 0 \<longleftrightarrow>
     (\<forall>f \<in> set paths. is_text_file f \<longrightarrow> (\<forall>line \<in> set (split_lines [] (path_text f)).
        occurs_in ''secret-scan: allow-test-fixture'' line \<or>
        (\<forall>(name, pattern) \<in> set secret_patterns. \<forall>found.
           search pattern None line = Some found \<longrightarrow> occurs_in ''replace'' (casefold found))))"
proof -
  have line: "line_findings rel n line = [] \<longleftrightarrow>
      occurs_in ''secret-scan: allow-test-fixture'' line \<or>
      (\<forall>(name, pattern) \<in> set secret_patterns. \<forall>found.
         search pattern None line = Some found \<longrightarrow> occurs_in ''replace'' (casefold found))" for rel n line
    by (auto simp: line_findings_def split: option.splits prod.splits if_splits)
  have files: "file_findings f = [] \<longleftrightarrow> (\<forall>line \<in> set (split_lines [] (path_text f)).
        occurs_in ''secret-scan: allow-test-fixture'' line \<or>
        (\<forall>(name, pattern) \<in> set secret_patterns. \<forall>found.
           search pattern None line = Some found \<longrightarrow> occurs_in ''replace'' (casefold found)))" for f
  proof -
    have "set (split_lines [] (path_text f)) = snd ` set (enumerate 1 (split_lines [] (path_text f)))"
      by (metis list.set_map map_snd_enumerate)
    then show ?thesis by (simp add: file_findings_def case_prod_unfold line [unfolded case_prod_unfold])
  qed
  have "fst (scan_main paths) = 0 \<longleftrightarrow> (\<forall>f \<in> set paths. is_text_file f \<longrightarrow> file_findings f = [])"
    by (auto simp: scan_main_def iter_text_files_def Let_def)
  then show ?thesis by (simp only: files)
qed

text \<open>The file \<^verbatim>\<open>.env\<close> has no suffix, so that the entry of that name among the suffixes does not select it.\<close>

lemma dotenv_not_scanned:
  assumes "path_parts f \<noteq> []" and "path_name f = ''.env''"
  shows "\<not> is_text_file f"
proof -
  have "casefold (path_suffix ''.env'') \<notin> set text_suffixes" by code_simp
  then show ?thesis using assms(2) by (simp add: is_text_file_def)
qed

end
