(* ===== verification/RestoreDrill.thy ===== *)
theory RestoreDrill
  imports SignerApi
begin

text \<open>
  The restore drill of the signer (\<^verbatim>\<open>scripts/signer_restore_drill.py\<close>): \<open>create\<close> makes a key under a
  workspace of its own, makes it again, restores it and tries it under another workspace; \<open>verify\<close>,
  which is run against a restored database, restores it once more from what \<open>create\<close> reported. The drill
  passes on a service whose key service and ciphers work, so that a failing drill means a fault.
\<close>

section \<open>The drill\<close>

datatype drill_command = DrillCreate | DrillVerify uuid uuid string

text \<open>The identifiers a run draws, and the keys its two creations would draw.\<close>

record drill_draws =
  drill_workspace :: uuid
  drill_suffix :: uuid
  drill_other_workspace :: uuid
  drill_drawn :: drawn_key
  drill_drawn_again :: drawn_key

definition isolation_check ::
  "'k signer_service \<Rightarrow> uuid \<Rightarrow> uuid \<Rightarrow> stored_envelope list \<Rightarrow> 'k \<Rightarrow> string outcome \<times> 'k"
where
  "isolation_check sv key_id other rows k =
     (case signer_verify_restore sv key_id other 1 rows k of
        (Inl e, k') \<Rightarrow> (if is_lookup_error e then Inr ''passed'' else Inl e, k')
      | (Inr restored, k') \<Rightarrow> (Inl (RuntimeError ''cross-workspace restore was not rejected''), k'))"

definition drill_key :: "uuid \<Rightarrow> string" where
  "drill_key suffix = ''kms-restore-drill-'' @ uuid_str suffix"

definition create_report :: "uuid \<Rightarrow> wallet_descriptor \<Rightarrow> string \<Rightarrow> json" where
  "create_report ws wallet isolation = JObject
     [(''result'', JStr ''passed''), (''kms_health'', JStr ''passed''), (''idempotency'', JStr ''passed''),
      (''workspace_isolation'', JStr isolation),
      (''signer_key_id'', JStr (uuid_str (descriptor_signer_key_id wallet))),
      (''workspace_id'', JStr (uuid_str ws)), (''expected_address'', JStr (descriptor_address wallet))]"

definition drill_create ::
  "'k signer_service \<Rightarrow> drill_draws \<Rightarrow> stored_envelope list \<Rightarrow> 'k \<Rightarrow>
     json outcome \<times> stored_envelope list \<times> 'k"
where
  "drill_create sv d rows k =
     (let ws = drill_workspace d; key = drill_key (drill_suffix d) in
      case signer_create_wallet sv ws 1 key (drill_drawn d) rows k of
        (Inl e, rows1, k1) \<Rightarrow> (Inl e, rows1, k1)
      | (Inr wallet, rows1, k1) \<Rightarrow>
          (case signer_create_wallet sv ws 1 key (drill_drawn_again d) rows1 k1 of
             (Inl e, rows2, k2) \<Rightarrow> (Inl e, rows2, k2)
           | (Inr repeated, rows2, k2) \<Rightarrow>
               (case signer_verify_restore sv (descriptor_signer_key_id wallet) ws 1 rows2 k2 of
                  (Inl e, k3) \<Rightarrow> (Inl e, rows2, k3)
                | (Inr restored, k3) \<Rightarrow>
                    if descriptor_signer_key_id repeated \<noteq> descriptor_signer_key_id wallet \<or>
                       restored \<noteq> descriptor_address wallet
                    then (Inl (RuntimeError ''idempotency or address verification failed''), rows2, k3)
                    else
                      (case isolation_check sv (descriptor_signer_key_id wallet)
                          (drill_other_workspace d) rows2 k3 of
                         (Inl e, k4) \<Rightarrow> (Inl e, rows2, k4)
                       | (Inr isolation, k4) \<Rightarrow> (Inr (create_report ws wallet isolation), rows2, k4)))))"

definition verify_report :: "string \<Rightarrow> string \<Rightarrow> json" where
  "verify_report restored isolation = JObject
     [(''result'', JStr ''passed''), (''expected_address'', JStr restored),
      (''workspace_isolation'', JStr isolation)]"

definition drill_verify ::
  "'k signer_service \<Rightarrow> uuid \<Rightarrow> uuid \<Rightarrow> string \<Rightarrow> uuid \<Rightarrow> stored_envelope list \<Rightarrow> 'k \<Rightarrow> json outcome \<times> 'k"
where
  "drill_verify sv key_id ws expected other rows k =
     (case signer_verify_restore sv key_id ws 1 rows k of
        (Inl e, k1) \<Rightarrow> (Inl e, k1)
      | (Inr restored, k1) \<Rightarrow>
          if restored \<noteq> expected
          then (Inl (RuntimeError ''restored address does not match expected address''), k1)
          else
            (case isolation_check sv key_id other rows k1 of
               (Inl e, k2) \<Rightarrow> (Inl e, k2)
             | (Inr isolation, k2) \<Rightarrow> (Inr (verify_report restored isolation), k2)))"

definition restore_drill ::
  "'k signer_service \<Rightarrow> ('k \<Rightarrow> bool outcome \<times> 'k) \<Rightarrow> drill_command \<Rightarrow> drill_draws \<Rightarrow>
     stored_envelope list \<Rightarrow> 'k \<Rightarrow> json outcome \<times> stored_envelope list \<times> 'k"
where
  "restore_drill sv health command d rows k =
     (if service_environment sv = ''production''
      then (Inl (RuntimeError ''restore drills are forbidden in production''), rows, k)
      else case health k of
          (Inl e, k') \<Rightarrow> (Inl e, rows, k')
        | (Inr healthy, k') \<Rightarrow>
            if \<not> healthy
            then (Inl (RuntimeError ''configured KMS key is not enabled for encryption/decryption''), rows, k')
            else case command of
                DrillCreate \<Rightarrow> drill_create sv d rows k'
              | DrillVerify key_id ws expected \<Rightarrow>
                  (case drill_verify sv key_id ws expected (drill_other_workspace d) rows k' of
                     (answer, k'') \<Rightarrow> (answer, rows, k'')))"

section \<open>A service that works\<close>

text \<open>
  What a working environment gives: the documented ciphers and key service, data keys of the right
  size, and values that fit their columns.
\<close>

definition working :: "'k signer_service \<Rightarrow> bool" where
  "working sv \<longleftrightarrow> documented sv \<and>
     (\<forall>context k. \<exists>dk k'. generate_data_key (service_provider sv) context k = (Inr dk, k') \<and>
        length (data_key_plaintext dk) = 32 \<and> length (data_key_arn dk) \<le> 512) \<and>
     (\<forall>key nonce plain aad. 16 \<le> length (aes_encrypt (service_crypto sv) key nonce plain aad)) \<and>
     (\<forall>private. length (account_address (service_crypto sv) private) \<le> 42) \<and>
     (\<forall>m. length (service_sha256 sv m) = 32) \<and> length (service_environment sv) \<le> 32"

text \<open>A run draws identifiers that no row has.\<close>

definition fresh_draws :: "drill_draws \<Rightarrow> stored_envelope list \<Rightarrow> bool" where
  "fresh_draws d rows \<longleftrightarrow> drill_other_workspace d \<noteq> drill_workspace d \<and>
     length (drawn_nonce (drill_drawn d)) = 12 \<and>
     (\<forall>r \<in> set rows. envelope_workspace_id (stored_envelope r) \<notin> {drill_workspace d, drill_other_workspace d} \<and>
        envelope_signer_key_id (stored_envelope r) \<noteq> drawn_key_id (drill_drawn d))"

lemma isolated:
  assumes "\<forall>r \<in> set rows. envelope_workspace_id (stored_envelope r) \<noteq> other"
  shows "isolation_check sv key_id other rows k = (Inr ''passed'', k)"
proof -
  have "select_one (\<lambda>r. envelope_signer_key_id (stored_envelope r) = key_id \<and>
      envelope_environment (stored_envelope r) = service_environment sv \<and>
      envelope_workspace_id (stored_envelope r) = other \<and> envelope_chain_id (stored_envelope r) = 1) rows = None"
    using assms by (auto simp: select_one_None_iff)
  then show ?thesis by (simp add: isolation_check_def signer_verify_restore_def find_for_workspace_def)
qed

section \<open>The drill passes\<close>

text \<open>A creation for a workspace without keys makes a key and stores its envelope.\<close>

lemma working_creation:
  assumes w: "working sv" and f: "fresh_draws d rows"
  shows "\<exists>row k'. signer_create_wallet sv (drill_workspace d) 1 (drill_key suffix) (drill_drawn d) rows k =
      (Inr (descriptor (stored_envelope row) True), rows @ [row], k') \<and>
    envelope_workspace_id (stored_envelope row) = drill_workspace d \<and>
    envelope_chain_id (stored_envelope row) = 1"
proof -
  let ?env = "service_environment sv" and ?ws = "drill_workspace d" and ?id = "drawn_key_id (drill_drawn d)"
  let ?private = "drawn_private_key (drill_drawn d)" and ?nonce = "drawn_nonce (drill_drawn d)"
  obtain dk k' where dk: "generate_data_key (service_provider sv) (encryption_context ?env ?ws 1 ?id) k = (Inr dk, k')"
      "length (data_key_plaintext dk) = 32" "length (data_key_arn dk) \<le> 512"
    using w unfolding working_def by blast
  let ?e = "sealed_envelope (service_crypto sv) ?env ?ws 1 ?id ?private ?nonce dk"
  let ?hash = "service_sha256 sv (utf8 (drill_key suffix))"
  let ?row = "\<lparr> stored_key_hash = ?hash, stored_envelope = ?e \<rparr>"
  have hash: "signer_hash_idempotency_key (service_sha256 sv) (drill_key suffix) = Inr ?hash"
    by (simp add: signer_hash_idempotency_key_def drill_key_def)
  have created: "create_key_envelope (service_crypto sv) (service_provider sv) ?env ?ws 1 ?id ?private ?nonce k =
      (Inr ?e, cleared ?private (data_key_plaintext dk), k')"
    using dk by (simp add: create_key_envelope_def)
  have none: "find_envelope ?env ?ws 1 ?hash rows = None"
    using f by (auto simp: find_envelope_def select_one_None_iff keyed_by_def fresh_draws_def)
  have tag: "length (envelope_tag ?e) = 16" "envelope_kms_key_arn ?e = data_key_arn dk"
    using w by (auto simp: sealed_envelope_def Let_def working_def)
  have "envelope_fits ?row" "envelope_checks ?row"
    using w f tag dk(3) by (auto simp: envelope_fits_def envelope_checks_def working_def fresh_draws_def)
  moreover have "\<not> list_ex (same_envelope_key ?row) rows" "\<not> list_ex (envelope_clash ?row) rows"
    using f by (auto simp: list_ex_iff envelope_clash_def same_envelope_key_def fresh_draws_def)
  ultimately have "save_or_get_envelope ?e ?hash rows = Inr ((?e, True), rows @ [?row])"
    by (simp add: save_or_get_envelope_def Let_def insert_or_nothing_def)
  then have "signer_create_wallet sv ?ws 1 (drill_key suffix) (drill_drawn d) rows k =
      (Inr (descriptor ?e True), rows @ [?row], k')"
    using hash none created by (simp add: signer_create_wallet_def)
  then show ?thesis by (intro exI [of _ ?row] exI [of _ k']) simp
qed

text \<open>Verification of a stored key passes wherever its row has been restored to.\<close>

lemma verify_passes:
  assumes "custody_ok sv later" and "row \<in> set later"
    and "envelope_chain_id (stored_envelope row) = 1"
    and "\<forall>r \<in> set later. envelope_workspace_id (stored_envelope r) \<noteq> other"
  shows "\<exists>k'. drill_verify sv (envelope_signer_key_id (stored_envelope row))
      (envelope_workspace_id (stored_envelope row)) (envelope_address (stored_envelope row)) other later k =
    (Inr (verify_report (envelope_address (stored_envelope row)) ''passed''), k')"
proof -
  obtain k1 where "signer_verify_restore sv (envelope_signer_key_id (stored_envelope row))
      (envelope_workspace_id (stored_envelope row)) 1 later k = (Inr (envelope_address (stored_envelope row)), k1)"
    using find_restorable [OF assms(1), of "stored_envelope row" k] assms(2,3) by auto
  then show ?thesis by (simp add: drill_verify_def isolated [OF assms(4)])
qed

lemma create_passes:
  assumes w: "working sv" and c: "custody_ok sv rows" and f: "fresh_draws d rows"
  shows "\<exists>row k'. drill_create sv d rows k =
      (Inr (create_report (drill_workspace d) (descriptor (stored_envelope row) True) ''passed''), rows @ [row], k') \<and>
    custody_ok sv (rows @ [row]) \<and> envelope_workspace_id (stored_envelope row) = drill_workspace d \<and>
    envelope_chain_id (stored_envelope row) = 1"
proof -
  obtain row k1 where made: "signer_create_wallet sv (drill_workspace d) 1 (drill_key (drill_suffix d)) (drill_drawn d) rows k =
      (Inr (descriptor (stored_envelope row) True), rows @ [row], k1)"
    and ws: "envelope_workspace_id (stored_envelope row) = drill_workspace d" "envelope_chain_id (stored_envelope row) = 1"
    using working_creation [OF w f] by blast
  have ok: "custody_ok sv (rows @ [row])"
    using signer_create_wallet_rows [OF made] w c by (simp add: working_def)
  have unique: "unique_table envelope_clash rows" "unique_table envelope_clash (rows @ [row])"
    using c ok by (simp_all add: custody_ok_def)
  have again: "signer_create_wallet sv (drill_workspace d) 1 (drill_key (drill_suffix d)) (drill_drawn_again d) (rows @ [row]) k1 =
      (Inr (descriptor (stored_envelope row) False), rows @ [row], k1)"
    using key_creation_idempotent [OF unique(1) made subset_refl unique(2)] by (simp add: descriptor_def)
  obtain k2 where restored: "signer_verify_restore sv (envelope_signer_key_id (stored_envelope row)) (drill_workspace d) 1
      (rows @ [row]) k1 = (Inr (envelope_address (stored_envelope row)), k2)"
    using find_restorable [OF ok, of "stored_envelope row" k1] ws by auto
  have others: "\<forall>r \<in> set (rows @ [row]). envelope_workspace_id (stored_envelope r) \<noteq> drill_other_workspace d"
    using f ws by (auto simp: fresh_draws_def)
  have "drill_create sv d rows k =
      (Inr (create_report (drill_workspace d) (descriptor (stored_envelope row) True) ''passed''), rows @ [row], k2)"
    using made again restored by (simp add: drill_create_def Let_def descriptor_def isolated [OF others])
  then show ?thesis using ok ws by blast
qed

section \<open>Property\<close>

text \<open>
  C25. The drill passes on a sound signer and its two halves fit together. Outside production, with an enabled
  key, working ciphers and identifiers that no row has, \<open>create\<close> reports that creation, idempotency,
  restore and isolation passed and adds exactly the row of its key; and from then on, in every database that
  holds this row and is otherwise in custody, \<open>verify\<close> with the reported key, workspace and
  address passes and changes nothing. So a failing drill is the sign of a fault.
\<close>

theorem restore_drill_passes:
  assumes "working sv" and "custody_ok sv rows" and "fresh_draws d rows"
    and "service_environment sv \<noteq> ''production''" and "health k = (Inr True, k0)"
  shows "\<exists>row k1. restore_drill sv health DrillCreate d rows k =
      (Inr (create_report (drill_workspace d) (descriptor (stored_envelope row) True) ''passed''), rows @ [row], k1) \<and>
    custody_ok sv (rows @ [row]) \<and>
    (\<forall>later d2 k2 k3. custody_ok sv later \<and> row \<in> set later \<and> health k2 = (Inr True, k3) \<and>
       (\<forall>r \<in> set later. envelope_workspace_id (stored_envelope r) \<noteq> drill_other_workspace d2) \<longrightarrow>
       (\<exists>k4. restore_drill sv health (DrillVerify (envelope_signer_key_id (stored_envelope row))
           (drill_workspace d) (envelope_address (stored_envelope row))) d2 later k2 =
         (Inr (verify_report (envelope_address (stored_envelope row)) ''passed''), later, k4)))"
proof -
  obtain row k1 where created: "drill_create sv d rows k0 =
      (Inr (create_report (drill_workspace d) (descriptor (stored_envelope row) True) ''passed''), rows @ [row], k1)"
    and ok: "custody_ok sv (rows @ [row])" "envelope_workspace_id (stored_envelope row) = drill_workspace d"
      "envelope_chain_id (stored_envelope row) = 1"
    using create_passes [OF assms(1-3)] by blast
  have "\<exists>k4. restore_drill sv health (DrillVerify (envelope_signer_key_id (stored_envelope row))
      (drill_workspace d) (envelope_address (stored_envelope row))) d2 later k2 =
      (Inr (verify_report (envelope_address (stored_envelope row)) ''passed''), later, k4)"
    if "custody_ok sv later" "row \<in> set later" "health k2 = (Inr True, k3)"
      "\<forall>r \<in> set later. envelope_workspace_id (stored_envelope r) \<noteq> drill_other_workspace d2" for later d2 k2 k3
    using verify_passes [OF that(1,2) ok(3) that(4), of k3] that(3) assms(4) ok(2)
    by (auto simp: restore_drill_def)
  then show ?thesis using created ok(1) assms(4,5)
    by (intro exI [of _ row] exI [of _ k1]) (auto simp: restore_drill_def)
qed

definition sample_draws :: drill_draws where
  "sample_draws = \<lparr> drill_workspace = 7, drill_suffix = 8, drill_other_workspace = 9,
     drill_drawn = sample_drawn, drill_drawn_again = sample_drawn\<lparr> drawn_key_id := 6 \<rparr> \<rparr>"

lemma sample_working: "working sample_service" "custody_ok sample_service []" "fresh_draws sample_draws []"
proof -
  have "length (bytes_hex (take 20 key)) \<le> 40" for key :: bytes
    by simp
  then show "working sample_service" "custody_ok sample_service []" "fresh_draws sample_draws []"
    using sample_documented
    by (auto simp: working_def documented_def custody_ok_def fresh_draws_def sample_draws_def sample_drawn_def
        sample_service_def sample_crypto_def sample_provider_def sample_data_key_def)
qed

theorem restore_drill_passes_witness:
  "\<exists>row k. restore_drill sample_service (\<lambda>k. (Inr True, k)) DrillCreate sample_draws [] () =
     (Inr (create_report 7 (descriptor (stored_envelope row) True) ''passed''), [row], k) \<and>
   custody_ok sample_service [row]"
proof -
  have "service_environment sample_service \<noteq> ''production''" by (simp add: sample_service_def)
  then show ?thesis
    using restore_drill_passes [OF sample_working, of "\<lambda>k. (Inr True, k)" "()" "()"]
    by (auto simp: sample_draws_def)
qed

end
